(* ===== verification/Prelude.thy ===== *)
theory Prelude
  imports Main "HOL-Library.Char_ord" "HOL-Library.List_Lexorder"
    "HOL-Library.Multiset" "HOL-Library.Sublist"
begin

text \<open>
  Shared vocabulary of the development: Go's error values, the functions of the Go
  packages \<open>strings\<close>, \<open>strconv\<close> and \<open>path\<close> that the deployment pipeline calls, the
  "append or replace" interface two components share, and generic list lemmas.

  Strings are lists of bytes, as in Go.  White space is the ASCII white space of
  \<open>unicode.IsSpace\<close>; the two Unicode spaces outside ASCII are not modelled.
\<close>

section \<open>Error values\<close>

text \<open>
  A Go error is modelled by how it was made: a package-level sentinel, a formatted message,
  or a formatted message that wraps (\<open>%w\<close>) another error.  The format text is kept as the
  source writes it; the arguments are kept as a list.  \<open>CommandError\<close> is the error type of
  the command runner.
\<close>

datatype sentinel =
    ErrUnknownAnchor | ErrDuplicateHook | ErrHookCycle
  | ErrUnknownVariable
  | ErrLockHeld | ErrConnectionMayHaveDropped | ErrDeployerLockHeld | ErrReleaseExists
  | ErrSubmodulesUnsupported | ErrRevisionMissing | ErrDeployPathMissing
  | ErrInvalidConfiguration | ErrUnknownRemote
  | ErrNoDatabaseBackup | ErrDBBackupUnavailable | ErrNoRollbackBackup
  | ErrDocrootNotAGitCheckout | ErrMoveAtomicUnsupported | ErrDeployPathNotADirectory
  | ErrNoRevisionForActivation | ErrVerifyRedirect | ErrNotExist
  | ErrContainerPathUnmappable | ErrContainerStdinUnsupported | ErrRemovedRemoteDeployKey

datatype go_error =
    Sentinel sentinel
  | Errorf string "string list"
  | Wrapf string "string list" go_error
  | CommandError string int string

fun errors_is :: "go_error \<Rightarrow> sentinel \<Rightarrow> bool" where
  "errors_is (Sentinel s) k = (s = k)"
| "errors_is (Errorf f as) k = False"
| "errors_is (Wrapf f as e) k = errors_is e k"
| "errors_is (CommandError c n t) k = False"

text \<open>\<open>errors.As\<close> at type \<open>*CommandError\<close>, reduced to the exit code its callers read.\<close>

fun command_exit_code :: "go_error \<Rightarrow> int option" where
  "command_exit_code (Sentinel s) = None"
| "command_exit_code (Errorf f as) = None"
| "command_exit_code (Wrapf f as e) = command_exit_code e"
| "command_exit_code (CommandError c n t) = Some n"

text \<open>
  An error formatted into another message with \<open>%v\<close> or \<open>%s\<close> leaves only its text.  The text is
  kept unrendered: the sentinel's own message, or the format followed by its arguments.
\<close>

fun sentinel_text :: "sentinel \<Rightarrow> string" where
  "sentinel_text ErrUnknownAnchor = ''unknown hook anchor''"
| "sentinel_text ErrDuplicateHook = ''duplicate hook name''"
| "sentinel_text ErrHookCycle = ''hook ordering cycle''"
| "sentinel_text ErrUnknownVariable = ''unknown deploy variable''"
| "sentinel_text ErrLockHeld = ''deploy lock is held''"
| "sentinel_text ErrConnectionMayHaveDropped = ''the SSH connection may have dropped''"
| "sentinel_text ErrDeployerLockHeld = ''another deploy tool holds its lock''"
| "sentinel_text ErrReleaseExists = ''release directory already exists''"
| "sentinel_text ErrSubmodulesUnsupported = ''submodules are not supported by the archive checkout''"
| "sentinel_text ErrRevisionMissing = ''revision is not present in the deploy mirror''"
| "sentinel_text ErrDeployPathMissing = ''deploy_path is not configured and no existing layout was found''"
| "sentinel_text ErrInvalidConfiguration = ''invalid deploy configuration''"
| "sentinel_text ErrUnknownRemote = ''unknown remote''"
| "sentinel_text ErrNoDatabaseBackup = ''the release recorded no database backup''"
| "sentinel_text ErrDBBackupUnavailable = ''the target cannot take a database dump''"
| "sentinel_text ErrNoRollbackBackup =
     ''the release after the rollback target recorded no database backup''"
| "sentinel_text ErrDocrootNotAGitCheckout = ''in-place docroot is not a git checkout''"
| "sentinel_text ErrMoveAtomicUnsupported = ''mv -T is not supported on the target''"
| "sentinel_text ErrDeployPathNotADirectory = ''the deploy path is not a directory''"
| "sentinel_text ErrNoRevisionForActivation = ''no revision to activate''"
| "sentinel_text ErrVerifyRedirect = ''the verify URL redirects''"
| "sentinel_text ErrNotExist = ''file does not exist''"
| "sentinel_text ErrContainerPathUnmappable = ''path is not reachable from inside the project container''"
| "sentinel_text ErrContainerStdinUnsupported = ''a container step cannot receive stdin''"
| "sentinel_text ErrRemovedRemoteDeployKey = ''flat remote deploy topology is no longer supported''"

fun error_text :: "go_error \<Rightarrow> string list" where
  "error_text (Sentinel s) = [sentinel_text s]"
| "error_text (Errorf f as) = f # as"
| "error_text (Wrapf f as e) = f # as @ error_text e"
| "error_text (CommandError c n t) = [''command failed'', c, t]"

text \<open>A function that returns, fails with an error, or panics on an index out of range.\<close>

datatype 'a outcome = Done 'a | Fail go_error | Panic

section \<open>The package strings\<close>

definition is_space :: "char \<Rightarrow> bool" where
  "is_space c \<longleftrightarrow> c \<in> set [CHR '' '', CHR 0x09, CHR 0x0A, CHR 0x0B, CHR 0x0C, CHR 0x0D]"

definition trim_left :: "string \<Rightarrow> string" where
  "trim_left s = dropWhile is_space s"

definition trim_right :: "string \<Rightarrow> string" where
  "trim_right s = rev (dropWhile is_space (rev s))"

definition trim_space :: "string \<Rightarrow> string" where
  "trim_space s = trim_right (trim_left s)"

fun has_prefix :: "string \<Rightarrow> string \<Rightarrow> bool" where
  "has_prefix s [] = True"
| "has_prefix [] (p # ps) = False"
| "has_prefix (c # cs) (p # ps) = (c = p \<and> has_prefix cs ps)"

definition trim_prefix :: "string \<Rightarrow> string \<Rightarrow> string" where
  "trim_prefix s p = (if has_prefix s p then drop (length p) s else s)"

definition cut_prefix :: "string \<Rightarrow> string \<Rightarrow> string option" where
  "cut_prefix s p = (if has_prefix s p then Some (drop (length p) s) else None)"

definition has_suffix :: "string \<Rightarrow> string \<Rightarrow> bool" where
  "has_suffix s p = has_prefix (rev s) (rev p)"

definition cut_suffix :: "string \<Rightarrow> string \<Rightarrow> string option" where
  "cut_suffix s p = (if has_suffix s p then Some (take (length s - length p) s) else None)"

definition trim_suffix :: "string \<Rightarrow> string \<Rightarrow> string" where
  "trim_suffix s p = (case cut_suffix s p of Some r \<Rightarrow> r | None \<Rightarrow> s)"

text \<open>\<open>strings.Index\<close>: where the first occurrence starts.\<close>

fun index_of :: "string \<Rightarrow> string \<Rightarrow> nat option" where
  "index_of [] sub = (if sub = [] then Some 0 else None)"
| "index_of (c # cs) sub = (if has_prefix (c # cs) sub then Some 0 else map_option Suc (index_of cs sub))"

definition contains_any :: "string \<Rightarrow> string \<Rightarrow> bool" where
  "contains_any s chars = list_ex (\<lambda>c. c \<in> set chars) s"

fun split_on :: "char \<Rightarrow> string \<Rightarrow> string list" where
  "split_on sep [] = [[]]"
| "split_on sep (c # cs) =
     (if c = sep then [] # split_on sep cs
      else case split_on sep cs of [] \<Rightarrow> [[c]] | w # ws \<Rightarrow> (c # w) # ws)"

fun join :: "string \<Rightarrow> string list \<Rightarrow> string" where
  "join sep [] = []"
| "join sep [w] = w"
| "join sep (w # v # vs) = w @ sep @ join sep (v # vs)"

function Fields :: "string \<Rightarrow> string list" where
  "Fields s =
     (let t = dropWhile is_space s in
      if t = [] then []
      else takeWhile (\<lambda>c. \<not> is_space c) t # Fields (dropWhile (\<lambda>c. \<not> is_space c) t))"
  by pat_completeness auto
termination
proof (relation "measure length", goal_cases)
  case 1
  then show ?case by simp
next
  case (2 s t)
  then obtain c cs where t: "t = c # cs" and c: "\<not> is_space c"
    by (metis dropWhile_eq_Cons_conv neq_Nil_conv)
  have "length (dropWhile (\<lambda>c. \<not> is_space c) t) \<le> length cs"
    using t c by (simp add: length_dropWhile_le)
  also have "length cs < length s"
    using t 2(1) length_dropWhile_le [of is_space s] by simp
  finally show ?case by simp
qed

declare Fields.simps [simp del]

definition to_lower_char :: "char \<Rightarrow> char" where
  "to_lower_char c =
     (if CHR ''A'' \<le> c \<and> c \<le> CHR ''Z'' then char_of (of_char c + 32 :: nat) else c)"

definition to_lower :: "string \<Rightarrow> string" where
  "to_lower s = map to_lower_char s"

section \<open>The package strconv\<close>

definition is_digit :: "char \<Rightarrow> bool" where
  "is_digit c \<longleftrightarrow> CHR ''0'' \<le> c \<and> c \<le> CHR ''9''"

fun digits_value :: "nat \<Rightarrow> string \<Rightarrow> nat" where
  "digits_value n [] = n"
| "digits_value n (c # cs) = digits_value (10 * n + (of_char c - 48)) cs"

definition parse_unsigned :: "string \<Rightarrow> nat option" where
  "parse_unsigned s = (if s \<noteq> [] \<and> list_all is_digit s then Some (digits_value 0 s) else None)"

definition in_int64 :: "int \<Rightarrow> bool" where
  "in_int64 n \<longleftrightarrow> - (2 ^ 63) \<le> n \<and> n < 2 ^ 63"

text \<open>\<open>strconv.Atoi\<close> on a 64-bit platform: an optional sign, decimal digits, range checked.\<close>

definition signed_value :: "string \<Rightarrow> int option" where
  "signed_value s =
     (case s of
        [] \<Rightarrow> None
      | c # cs \<Rightarrow>
          if c = CHR ''-'' then map_option (\<lambda>n. - int n) (parse_unsigned cs)
          else if c = CHR ''+'' then map_option int (parse_unsigned cs)
          else map_option int (parse_unsigned s))"

definition atoi :: "string \<Rightarrow> int option" where
  "atoi s = (case signed_value s of
               None \<Rightarrow> None
             | Some n \<Rightarrow> if in_int64 n then Some n else None)"

fun nat_digits :: "nat \<Rightarrow> string" where
  "nat_digits n =
     (if n < 10 then [char_of (48 + n)] else nat_digits (n div 10) @ [char_of (48 + n mod 10)])"

declare nat_digits.simps [simp del]

definition itoa :: "int \<Rightarrow> string" where
  "itoa n = (if n < 0 then CHR ''-'' # nat_digits (nat (- n)) else nat_digits (nat n))"

section \<open>The package path\<close>

fun clean_segments :: "bool \<Rightarrow> string list \<Rightarrow> string list \<Rightarrow> string list" where
  "clean_segments rooted out [] = rev out"
| "clean_segments rooted out (seg # segs) =
     (if seg = [] \<or> seg = ''.'' then clean_segments rooted out segs
      else if seg = ''..'' then
        (case out of
           [] \<Rightarrow> if rooted then clean_segments rooted [] segs
                 else clean_segments rooted [''..''] segs
         | up # below \<Rightarrow>
             if up = ''..'' then clean_segments rooted (''..'' # out) segs
             else clean_segments rooted below segs)
      else clean_segments rooted (seg # out) segs)"

definition path_clean :: "string \<Rightarrow> string" where
  "path_clean p =
     (let rooted = has_prefix p ''/'';
          body = join ''/'' (clean_segments rooted [] (split_on CHR ''/'' p))
      in if rooted then CHR ''/'' # body else if body = [] then ''.'' else body)"

definition path_join :: "string list \<Rightarrow> string" where
  "path_join elems =
     (let es = filter (\<lambda>e. e \<noteq> []) elems
      in if es = [] then [] else path_clean (join ''/'' es))"

definition path_dir :: "string \<Rightarrow> string" where
  "path_dir p = path_clean (rev (dropWhile (\<lambda>c. c \<noteq> CHR ''/'') (rev p)))"

definition path_base :: "string \<Rightarrow> string" where
  "path_base p =
     (if p = [] then ''.''
      else let stripped = rev (dropWhile (\<lambda>c. c = CHR ''/'') (rev p))
           in if stripped = [] then ''/''
              else rev (takeWhile (\<lambda>c. c \<noteq> CHR ''/'') (rev stripped)))"

section \<open>Lemmas on strings\<close>

lemma split_at_first:
  "x @ c # u = y @ c # v \<Longrightarrow> c \<notin> set x \<Longrightarrow> c \<notin> set y \<Longrightarrow> x = y \<and> u = v"
  by (induction x arbitrary: y) (auto simp: Cons_eq_append_conv append_eq_Cons_conv)

lemma has_prefix_iff: "has_prefix s p \<longleftrightarrow> (\<exists>r. s = p @ r)"
  by (induction s p rule: has_prefix.induct) auto

lemma has_prefix_append [simp]: "has_prefix (p @ r) p"
  by (auto simp: has_prefix_iff)

lemma has_prefix_appendI: "has_prefix s p \<Longrightarrow> has_prefix (s @ r) p"
  by (auto simp: has_prefix_iff)

lemma cut_prefix_Some: "cut_prefix s p = Some r \<longleftrightarrow> s = p @ r"
  by (auto simp: cut_prefix_def has_prefix_iff)

lemma cut_prefix_None: "cut_prefix s p = None \<longleftrightarrow> \<not> has_prefix s p"
  by (auto simp: cut_prefix_def)

lemma trim_prefix_append [simp]: "trim_prefix (p @ r) p = r"
  by (simp add: trim_prefix_def)

lemma index_of_Some: "index_of s sub = Some i \<Longrightarrow> \<exists>r. s = take i s @ sub @ r"
proof (induction s sub arbitrary: i rule: index_of.induct)
  case (1 sub)
  then show ?case by (auto split: if_splits)
next
  case (2 c cs sub)
  show ?case
  proof (cases "has_prefix (c # cs) sub")
    case True
    with 2(2) show ?thesis by (auto simp: has_prefix_iff)
  next
    case False
    with 2(2) obtain j where j: "index_of cs sub = Some j" "i = Suc j" by auto
    from 2(1) [OF False j(1)] j(2) show ?thesis by auto
  qed
qed

lemma index_of_bound: "index_of s sub = Some i \<Longrightarrow> i + length sub \<le> length s"
proof -
  assume "index_of s sub = Some i"
  moreover have "i \<le> length s" using \<open>index_of s sub = Some i\<close>
    by (induction s sub arbitrary: i rule: index_of.induct) (auto split: if_splits)
  ultimately obtain r where "s = take i s @ sub @ r" "i \<le> length s" using index_of_Some by blast
  then show ?thesis by (metis length_append length_take min.absorb2 nat_add_left_cancel_le le_add1)
qed

text \<open>The first occurrence: none starts before it.\<close>

lemma index_of_append:
  "(\<And>k. k < length a \<Longrightarrow> \<not> has_prefix (drop k (a @ sub @ b)) sub) \<Longrightarrow> index_of (a @ sub @ b) sub = Some (length a)"
proof (induction a)
  case Nil
  have "has_prefix (sub @ b) sub" by simp
  then show ?case by (cases "sub @ b") auto
next
  case (Cons c a)
  have "\<not> has_prefix (c # a @ sub @ b) sub" using Cons.prems [of 0] by simp
  moreover have "index_of (a @ sub @ b) sub = Some (length a)"
    using Cons.prems [of "Suc _"] by (intro Cons.IH) simp
  ultimately show ?case by simp
qed

lemma index_of_None: "index_of s sub = None \<longleftrightarrow> (\<forall>k \<le> length s. \<not> has_prefix (drop k s) sub)"
proof (induction s sub rule: index_of.induct)
  case (1 sub)
  then show ?case by (cases sub) auto
next
  case (2 c cs sub)
  then show ?case
    by (simp add: less_Suc_eq_le [symmetric] All_less_Suc2 del: has_prefix.simps split: if_splits)
qed

lemma dropWhile_space_id: "list_all (\<lambda>c. \<not> is_space c) s \<Longrightarrow> dropWhile is_space s = s"
  by (cases s) auto

lemma trim_space_id: "list_all (\<lambda>c. \<not> is_space c) s \<Longrightarrow> trim_space s = s"
  by (simp add: trim_space_def trim_left_def trim_right_def dropWhile_space_id)

lemma trim_space_Nil [simp]: "trim_space [] = []"
  by (simp add: trim_space_def trim_left_def trim_right_def)

lemma Fields_Nil [simp]: "Fields [] = []"
  by (subst Fields.simps) simp

lemma Fields_words:
  "w \<in> set (Fields s) \<Longrightarrow> w \<noteq> [] \<and> list_all (\<lambda>c. \<not> is_space c) w"
proof (induction s rule: Fields.induct)
  case (1 s)
  show ?case
  proof (cases "dropWhile is_space s")
    case Nil
    with "1.prems" show ?thesis by (simp add: Fields.simps [of s])
  next
    case (Cons c cs)
    then have c: "\<not> is_space c"
      by (metis dropWhile_eq_Cons_conv)
    let ?w = "takeWhile (\<lambda>c. \<not> is_space c) (c # cs)"
    have "list_all (\<lambda>c. \<not> is_space c) ?w"
      unfolding list_all_iff by (metis set_takeWhileD)
    moreover have "?w \<noteq> []" using c by simp
    moreover have "w = ?w \<or> w \<in> set (Fields (dropWhile (\<lambda>c. \<not> is_space c) (c # cs)))"
      using "1.prems" Cons by (simp add: Fields.simps [of s])
    ultimately show ?thesis
      using "1.IH" [OF refl] Cons by auto
  qed
qed

lemma split_on_nonempty [simp]: "split_on sep s \<noteq> []"
  by (induction sep s rule: split_on.induct) (auto split: list.splits)

lemma split_on_no_sep: "w \<in> set (split_on sep s) \<Longrightarrow> sep \<notin> set w"
  by (induction sep s arbitrary: w rule: split_on.induct)
    (auto split: if_splits list.splits)

section \<open>Numbers in decimal\<close>

lemma of_char_digit: "n < 10 \<Longrightarrow> of_char (char_of (48 + n :: nat)) = 48 + n"
  by simp

lemma is_digit_char_of: "n < (10::nat) \<Longrightarrow> is_digit (char_of (48 + n))"
  by (simp add: is_digit_def less_eq_char_def)

lemma is_digit_bounds: "is_digit c \<Longrightarrow> 48 \<le> (of_char c :: nat) \<and> of_char c \<le> (57 :: nat)"
  by (simp add: is_digit_def less_eq_char_def)

lemma digits_value_append: "digits_value n (s @ t) = digits_value (digits_value n s) t"
  by (induction n s rule: digits_value.induct) simp_all

lemma digits_value_nat_digits: "digits_value 0 (nat_digits n) = n"
proof (induction n rule: nat_digits.induct)
  case (1 n)
  show ?case
    using 1 by (subst nat_digits.simps) (simp add: digits_value_append)
qed

lemma list_all_nat_digits: "list_all is_digit (nat_digits n)"
proof (induction n rule: nat_digits.induct)
  case (1 n)
  then show ?case
    by (subst nat_digits.simps) (simp add: is_digit_char_of)
qed

lemma nat_digits_nonempty [simp]: "nat_digits n \<noteq> []"
  by (subst nat_digits.simps) simp

lemma nat_digits_inj: "nat_digits m = nat_digits n \<Longrightarrow> m = n"
  by (metis digits_value_nat_digits)

lemma parse_unsigned_nat_digits: "parse_unsigned (nat_digits n) = Some n"
  by (simp add: parse_unsigned_def list_all_nat_digits digits_value_nat_digits)

lemma nat_digits_no_sign: "nat_digits n = c # cs \<Longrightarrow> c \<noteq> CHR ''-'' \<and> c \<noteq> CHR ''+''"
proof -
  assume eq: "nat_digits n = c # cs"
  have "is_digit c" using list_all_nat_digits [of n] eq by simp
  then show ?thesis by (auto simp: is_digit_def less_eq_char_def)
qed

lemma signed_value_itoa: "signed_value (itoa n) = Some n"
proof (cases "n < 0")
  case True
  then show ?thesis
    by (simp add: itoa_def signed_value_def parse_unsigned_nat_digits)
next
  case False
  obtain c cs where c: "nat_digits (nat n) = c # cs"
    by (cases "nat_digits (nat n)") auto
  with False nat_digits_no_sign [OF c] parse_unsigned_nat_digits [of "nat n"] show ?thesis
    by (simp add: itoa_def signed_value_def)
qed

lemma atoi_itoa: "in_int64 n \<Longrightarrow> atoi (itoa n) = Some n"
  by (simp add: atoi_def signed_value_itoa)

lemma atoi_range: "atoi s = Some n \<Longrightarrow> in_int64 n"
  by (auto simp: atoi_def split: option.splits if_splits)

lemma itoa_nonempty [simp]: "itoa n \<noteq> []"
  by (simp add: itoa_def)

lemma itoa_no_space: "list_all (\<lambda>c. \<not> is_space c) (itoa n)"
proof -
  have digit: "\<not> is_space c" if "is_digit c" for c
    using that by (auto simp: is_space_def is_digit_def less_eq_char_def)
  have "list_all (\<lambda>c. \<not> is_space c) (nat_digits k)" for k
    using list_all_nat_digits [of k] digit by (auto simp: list_all_iff)
  moreover have "\<not> is_space (CHR ''-'')" by (simp add: is_space_def)
  ultimately show ?thesis by (simp add: itoa_def)
qed

section \<open>Append or replace\<close>

text \<open>
  Two components keep a list of keyed entries and store into it by replacing the first
  entry with the same key, or appending: the tasks of a recipe and the step records of a
  release.  The interface states the recursion; its clients get the map-like laws.
\<close>

locale keyed_upsert =
  fixes key :: "'a \<Rightarrow> 'k" and put :: "'a \<Rightarrow> 'a list \<Rightarrow> 'a list"
  assumes put_Nil: "put x [] = [x]"
    and put_Cons: "put x (y # ys) = (if key y = key x then x # ys else y # put x ys)"
begin

lemma keys_put:
  "map key (put x xs) = (if key x \<in> key ` set xs then map key xs else map key xs @ [key x])"
  by (induction xs) (auto simp: put_Nil put_Cons)

lemma distinct_put: "distinct (map key xs) \<Longrightarrow> distinct (map key (put x xs))"
  by (simp add: keys_put)

lemma lookup_put:
  "map_of (map (\<lambda>y. (key y, y)) (put x xs)) k =
   (if k = key x then Some x else map_of (map (\<lambda>y. (key y, y)) xs) k)"
  by (induction xs) (auto simp: put_Nil put_Cons)

lemma others_put: "filter (\<lambda>y. key y \<noteq> key x) (put x xs) = filter (\<lambda>y. key y \<noteq> key x) xs"
  by (induction xs) (auto simp: put_Nil put_Cons)

lemma put_in_set: "x \<in> set (put x xs)"
  by (induction xs) (auto simp: put_Nil put_Cons)

lemma put_put_same: "key y = key x \<Longrightarrow> put x (put y xs) = put x xs"
  by (induction xs) (auto simp: put_Nil put_Cons)

end

end
