(* ===== verification/AuditScheduler.thy ===== *)
theory AuditScheduler
  imports Prelude
begin

text \<open>
  The scheduler of audit jobs (\<open>internal/audit/scheduler.go\<close>): the check of a job graph and its
  resources, the loop that starts every job whose dependencies have passed and that fits the
  budget, and the bookkeeping of what completes.

  What runs beside the loop is the record \<open>pool\<close>: whether the context is cancelled, the clock,
  the goroutine of a job and the channel they send their completion on, in whatever order they
  end.  The budget and the sums of resources stay between zero and the budget, which a property
  below shows, so machine arithmetic and unbounded arithmetic agree on them.
\<close>

section \<open>Jobs and results\<close>

record resources =
  rs_CPU :: int
  rs_MemoryMB :: int

datatype audit_status =
    StatusPending | StatusRunning | StatusPassed | StatusFailed | StatusCancelled | StatusNotComparable

text \<open>A value of the type \<open>any\<close>: a string, kept unrendered, or one of another type.\<close>

datatype 'v any_value = AnyString "string list" | AnyOther 'v

type_synonym 'v evidence = "string \<rightharpoonup> 'v any_value"

record cache_outcome =
  co_State :: string
  co_Key :: string
  co_Reason :: string

text \<open>A time of \<open>None\<close> is the zero time.\<close>

record 'v job_result =
  jr_ID :: string
  jr_Kind :: string
  jr_Status :: audit_status
  jr_StartedAt :: "int option"
  jr_FinishedAt :: "int option"
  jr_DurationMS :: int
  jr_Cache :: cache_outcome
  jr_Evidence :: "'v evidence"

record 'f job =
  jb_ID :: string
  jb_Kind :: string
  jb_DependsOn :: "string list"
  jb_Resources :: resources
  jb_Run :: "'f option"

record 'v completion =
  cp_Index :: nat
  cp_Evidence :: "'v evidence"
  cp_Err :: "go_error option"
  cp_Finished :: int
  cp_Cancelled :: bool

record ('f, 'v, 'w) pool =
  po_Cancelled :: "'w \<Rightarrow> bool \<times> 'w"
  po_Now :: "'w \<Rightarrow> int \<times> 'w"
  po_Go :: "nat \<Rightarrow> 'f \<Rightarrow> 'w \<Rightarrow> 'w"
  po_Receive :: "'w \<Rightarrow> 'v completion \<times> 'w"

section \<open>Checking the graph\<close>

definition normalizedResources :: "resources \<Rightarrow> resources" where
  "normalizedResources r =
     \<lparr>rs_CPU = (if rs_CPU r = 0 then 1 else rs_CPU r), rs_MemoryMB = (if rs_MemoryMB r = 0 then 1 else rs_MemoryMB r)\<rparr>"

definition canAllocateResources :: "resources \<Rightarrow> resources \<Rightarrow> resources \<Rightarrow> bool" where
  "canAllocateResources budget allocated request \<longleftrightarrow>
     rs_CPU request \<le> rs_CPU budget - rs_CPU allocated \<and> rs_MemoryMB request \<le> rs_MemoryMB budget - rs_MemoryMB allocated"

text \<open>The map from the IDs to the indices; an ID that is no key of it gives zero.\<close>

fun job_at :: "'f job list \<Rightarrow> string \<Rightarrow> nat option" where
  "job_at [] key = None"
| "job_at (j # js) key = (if jb_ID j = key then Some 0 else map_option Suc (job_at js key))"

definition dependencies :: "'f job list \<Rightarrow> nat \<Rightarrow> nat list" where
  "dependencies jobs i =
     (if i < length jobs
      then map (\<lambda>d. case job_at jobs d of Some k \<Rightarrow> k | None \<Rightarrow> 0) (jb_DependsOn (jobs ! i))
      else [])"

datatype colour = Unvisited | Visiting | Visited

text \<open>
  \<open>visit\<close> for a list of indices, stopped by the first cycle; the slice of states is a function
  of the index.
\<close>

function visit :: "'f job list \<Rightarrow> nat list \<Rightarrow> (nat \<Rightarrow> colour) \<Rightarrow> bool \<times> (nat \<Rightarrow> colour)" where
  "visit jobs [] state = (False, state)"
| "visit jobs (i # is) state =
     (case state i of
        Visiting \<Rightarrow> (True, state)
      | Visited \<Rightarrow> visit jobs is state
      | Unvisited \<Rightarrow>
          (let inner = visit jobs (dependencies jobs i) (state(i := Visiting)) in
           if fst inner then (True, snd inner) else visit jobs is ((snd inner)(i := Visited))))"
  by pat_completeness auto

definition unvisited :: "'f job list \<Rightarrow> (nat \<Rightarrow> colour) \<Rightarrow> nat" where
  "unvisited jobs state = card {i. i < length jobs \<and> state i = Unvisited}"

lemma unvisited_mono:
  assumes "\<And>i. state' i = Unvisited \<Longrightarrow> state i = Unvisited"
  shows "unvisited jobs state' \<le> unvisited jobs state"
  unfolding unvisited_def by (rule card_mono) (use assms in auto)

lemma unvisited_less:
  assumes "\<And>i. state' i = Unvisited \<Longrightarrow> state i = Unvisited" and "k < length jobs"
    and "state k = Unvisited" and "state' k \<noteq> Unvisited"
  shows "unvisited jobs state' < unvisited jobs state"
  unfolding unvisited_def by (rule psubset_card_mono) (use assms in auto)

lemma visit_keeps_visited:
  assumes "visit_dom (jobs, is, state)"
  shows "snd (visit jobs is state) k = Unvisited \<Longrightarrow> state k = Unvisited"
  using assms
proof (induction arbitrary: k rule: visit.pinduct)
  case (2 jobs i "is" state)
  then show ?case
    by (fastforce simp: visit.psimps Let_def split: colour.splits if_splits)
qed (simp add: visit.psimps)

termination visit
proof (relation "measures [\<lambda>(jobs, is, state). unvisited jobs state, \<lambda>(jobs, is, state). length is]", goal_cases)
  case (2 jobs i "is" state)
  show ?case
  proof (cases "i < length jobs")
    case True
    with 2 have "unvisited jobs (state(i := Visiting)) < unvisited jobs state"
      by (intro unvisited_less [of _ _ i]) (auto split: if_splits)
    then show ?thesis by simp
  next
    case False
    then have "unvisited jobs (state(i := Visiting)) = unvisited jobs state"
      unfolding unvisited_def by (intro arg_cong [of _ _ card]) auto
    with False show ?thesis by (simp add: dependencies_def)
  qed
next
  case (3 jobs i "is" state inner)
  have less: "((snd inner)(i := Visited)) k = Unvisited \<Longrightarrow> state k = Unvisited" for k
    using 3 visit_keeps_visited [of jobs "dependencies jobs i" "state(i := Visiting)" k]
    by (auto split: if_splits)
  then have "unvisited jobs ((snd inner)(i := Visited)) \<le> unvisited jobs state" by (rule unvisited_mono)
  then show ?case by auto
qed simp_all

definition hasDependencyCycle :: "'f job list \<Rightarrow> bool" where
  "hasDependencyCycle jobs = fst (visit jobs [0..<length jobs] (\<lambda>_. Unvisited))"

definition validate_job :: "resources \<Rightarrow> nat \<Rightarrow> string list \<Rightarrow> 'f job \<Rightarrow> go_error option" where
  "validate_job budget index seen job =
     (if jb_ID job = [] then Some (Errorf ''audit job at index %d has an empty ID'' [itoa (int index)])
      else if jb_ID job \<in> set seen then Some (Errorf ''audit job ID %q is duplicated'' [jb_ID job])
      else if rs_CPU (jb_Resources job) < 0 \<or> rs_MemoryMB (jb_Resources job) < 0 then
        Some (Errorf ''audit job %q has negative resources'' [jb_ID job])
      else if jb_Run job = None then Some (Errorf ''audit job %q has no runner'' [jb_ID job])
      else if rs_CPU budget < rs_CPU (normalizedResources (jb_Resources job)) \<or>
          rs_MemoryMB budget < rs_MemoryMB (normalizedResources (jb_Resources job)) then
        Some (Errorf ''audit job %q exceeds scheduler resource budget'' [jb_ID job])
      else None)"

fun validate_jobs :: "resources \<Rightarrow> nat \<Rightarrow> string list \<Rightarrow> 'f job list \<Rightarrow> go_error option" where
  "validate_jobs budget index seen [] = None"
| "validate_jobs budget index seen (job # jobs) =
     (case validate_job budget index seen job of
        Some err \<Rightarrow> Some err
      | None \<Rightarrow> validate_jobs budget (Suc index) (jb_ID job # seen) jobs)"

fun unknown_dependency :: "string list \<Rightarrow> 'f job list \<Rightarrow> go_error option" where
  "unknown_dependency ids [] = None"
| "unknown_dependency ids (job # jobs) =
     (case find (\<lambda>d. d \<notin> set ids) (jb_DependsOn job) of
        Some d \<Rightarrow> Some (Errorf ''audit job %q depends on unknown job %q'' [jb_ID job, d])
      | None \<Rightarrow> unknown_dependency ids jobs)"

text \<open>The scheduler is its budget; \<open>None\<close> is the nil pointer.\<close>

definition validate :: "resources option \<Rightarrow> 'f job list \<Rightarrow> go_error + resources \<times> resources list" where
  "validate scheduler jobs =
     (case scheduler of
        None \<Rightarrow> Inl (Errorf ''audit scheduler is nil'' [])
      | Some given \<Rightarrow>
          if rs_CPU given < 0 \<or> rs_MemoryMB given < 0 then Inl (Errorf ''audit scheduler budget cannot be negative'' [])
          else let budget = normalizedResources given in
            (case validate_jobs budget 0 [] jobs of
               Some err \<Rightarrow> Inl err
             | None \<Rightarrow>
                 (case unknown_dependency (map jb_ID jobs) jobs of
                    Some err \<Rightarrow> Inl err
                  | None \<Rightarrow>
                      if hasDependencyCycle jobs then Inl (Errorf ''audit job graph contains a dependency cycle'' [])
                      else Inr (budget, map (normalizedResources \<circ> jb_Resources) jobs))))"

section \<open>What waits, what is blocked, what is done\<close>

definition dependenciesPassed :: "'v job_result list \<Rightarrow> string list \<Rightarrow> 'f job list \<Rightarrow> bool" where
  "dependenciesPassed results deps jobs =
     list_all (\<lambda>d. list_all (\<lambda>(job, r). jb_ID job = d \<longrightarrow> jr_Status r = StatusPassed) (zip jobs results)) deps"

definition blocked :: "'v job_result list \<Rightarrow> string list \<Rightarrow> 'f job list \<Rightarrow> bool" where
  "blocked results deps jobs =
     list_ex (\<lambda>d. list_ex (\<lambda>(job, r). jb_ID job = d \<and> (jr_Status r = StatusFailed \<or> jr_Status r = StatusCancelled))
       (zip jobs results)) deps"

definition with_status :: "audit_status \<Rightarrow> nat \<Rightarrow> 'v job_result list \<Rightarrow> 'v job_result list" where
  "with_status st i results = results[i := (results ! i)\<lparr>jr_Status := st\<rparr>]"

text \<open>
  One pass over the jobs, and whether it changed anything; then passes until none does.  The
  slices of jobs and results have one length.
\<close>

fun blocked_pass :: "'f job list \<Rightarrow> nat list \<Rightarrow> bool \<Rightarrow> 'v job_result list \<Rightarrow> bool \<times> 'v job_result list" where
  "blocked_pass jobs [] changed results = (changed, results)"
| "blocked_pass jobs (i # is) changed results =
     (if jr_Status (results ! i) = StatusPending \<and> blocked results (jb_DependsOn (jobs ! i)) jobs
      then blocked_pass jobs is True (with_status StatusCancelled i results)
      else blocked_pass jobs is changed results)"

definition pending :: "'v job_result list \<Rightarrow> nat set" where
  "pending results = {i. i < length results \<and> jr_Status (results ! i) = StatusPending}"

lemma finite_pending [simp]: "finite (pending results)"
  by (simp add: pending_def)

lemma blocked_pass_length [simp]: "length (snd (blocked_pass jobs is changed results)) = length results"
  by (induction jobs "is" changed results rule: blocked_pass.induct) (auto simp: with_status_def)

lemma pending_with_status:
  "st \<noteq> StatusPending \<Longrightarrow> pending (with_status st i results) = pending results - {i}"
  by (cases "i < length results") (auto simp: pending_def with_status_def nth_list_update)

lemma blocked_pass_pending:
  assumes "\<And>i. i \<in> set is \<Longrightarrow> i < length results"
  shows "pending (snd (blocked_pass jobs is changed results)) \<subseteq> pending results \<and>
    (fst (blocked_pass jobs is changed results) \<longrightarrow> \<not> changed \<longrightarrow>
       pending (snd (blocked_pass jobs is changed results)) \<subset> pending results)"
  using assms
proof (induction jobs "is" changed results rule: blocked_pass.induct)
  case (2 jobs i "is" changed results)
  show ?case
  proof (cases "jr_Status (results ! i) = StatusPending \<and> blocked results (jb_DependsOn (jobs ! i)) jobs")
    case True
    let ?rest = "blocked_pass jobs is True (with_status StatusCancelled i results)"
    have "i \<in> pending results" using True 2(3) by (simp add: pending_def)
    moreover have "pending (snd ?rest) \<subseteq> pending (with_status StatusCancelled i results)"
      using 2(1) [OF True] 2(3) by (simp add: with_status_def)
    then have "pending (snd ?rest) \<subseteq> pending results - {i}" by (simp add: pending_with_status)
    ultimately have "pending (snd ?rest) \<subset> pending results" by blast
    with True show ?thesis by auto
  next
    case False
    then have "blocked_pass jobs (i # is) changed results = blocked_pass jobs is changed results"
      by (simp only: blocked_pass.simps if_False)
    with False 2(2) [OF False] 2(3) show ?thesis by (metis list.set_intros(2))
  qed
qed simp

function markBlockedJobsCancelled :: "'v job_result list \<Rightarrow> 'f job list \<Rightarrow> 'v job_result list" where
  "markBlockedJobsCancelled results jobs =
     (let pass = blocked_pass jobs [0..<min (length jobs) (length results)] False results in
      if fst pass then markBlockedJobsCancelled (snd pass) jobs else snd pass)"
  by pat_completeness auto

termination markBlockedJobsCancelled
proof (relation "measure (\<lambda>(results, jobs). card (pending results))", goal_cases)
  case (2 results jobs pass)
  then have "pending (snd pass) \<subset> pending results"
    using blocked_pass_pending [of "[0..<min (length jobs) (length results)]" results jobs False] by auto
  then show ?case by (simp add: psubset_card_mono)
qed simp

declare markBlockedJobsCancelled.simps [simp del]

definition markPendingCancelled :: "'v job_result list \<Rightarrow> 'v job_result list" where
  "markPendingCancelled results =
     map (\<lambda>r. if jr_Status r = StatusPending then r\<lparr>jr_Status := StatusCancelled\<rparr> else r) results"

definition allJobsTerminal :: "'v job_result list \<Rightarrow> bool" where
  "allJobsTerminal results \<longleftrightarrow> list_all (\<lambda>r. jr_Status r \<noteq> StatusPending \<and> jr_Status r \<noteq> StatusRunning) results"

definition withErrorEvidence :: "'v evidence \<Rightarrow> go_error \<Rightarrow> 'v evidence" where
  "withErrorEvidence evidence err = evidence(''error'' \<mapsto> AnyString (error_text err))"

section \<open>The loop\<close>

record 'v schedule =
  ss_Results :: "'v job_result list"
  ss_Allocated :: resources
  ss_Running :: nat
  ss_Cancelled :: bool

definition allocate :: "resources \<Rightarrow> resources \<Rightarrow> resources" where
  "allocate a r = \<lparr>rs_CPU = rs_CPU a + rs_CPU r, rs_MemoryMB = rs_MemoryMB a + rs_MemoryMB r\<rparr>"

definition release_resources :: "resources \<Rightarrow> resources \<Rightarrow> resources" where
  "release_resources a r = \<lparr>rs_CPU = rs_CPU a - rs_CPU r, rs_MemoryMB = rs_MemoryMB a - rs_MemoryMB r\<rparr>"

definition pending_result :: "'f job \<Rightarrow> 'v job_result" where
  "pending_result job =
     \<lparr>jr_ID = jb_ID job, jr_Kind = jb_Kind job, jr_Status = StatusPending, jr_StartedAt = None, jr_FinishedAt = None,
      jr_DurationMS = 0, jr_Cache = \<lparr>co_State = [], co_Key = [], co_Reason = []\<rparr>, jr_Evidence = (\<lambda>_. None)\<rparr>"

text \<open>\<open>start\<close>: a job without a runner has been refused before.\<close>

definition start ::
  "('f, 'v, 'w) pool \<Rightarrow> 'f job list \<Rightarrow> resources list \<Rightarrow> nat \<Rightarrow> 'v schedule \<Rightarrow> 'w \<Rightarrow> 'v schedule \<times> 'w" where
  "start p jobs res i s w =
     (case po_Now p w of
        (now, w) \<Rightarrow>
          (s\<lparr>ss_Results := (ss_Results s)[i := (ss_Results s ! i)\<lparr>jr_Status := StatusRunning, jr_StartedAt := Some now\<rparr>],
             ss_Allocated := allocate (ss_Allocated s) (res ! i), ss_Running := Suc (ss_Running s)\<rparr>,
           case jb_Run (jobs ! i) of Some run \<Rightarrow> po_Go p i run w | None \<Rightarrow> w))"

definition ready :: "'f job list \<Rightarrow> resources \<Rightarrow> resources list \<Rightarrow> 'v schedule \<Rightarrow> nat \<Rightarrow> bool" where
  "ready jobs budget res s i \<longleftrightarrow>
     jr_Status (ss_Results s ! i) = StatusPending \<and> dependenciesPassed (ss_Results s) (jb_DependsOn (jobs ! i)) jobs \<and>
     canAllocateResources budget (ss_Allocated s) (res ! i)"

fun start_ready ::
  "('f, 'v, 'w) pool \<Rightarrow> 'f job list \<Rightarrow> resources \<Rightarrow> resources list \<Rightarrow> nat list \<Rightarrow> 'v schedule \<Rightarrow> 'w \<Rightarrow>
   'v schedule \<times> 'w" where
  "start_ready p jobs budget res [] s w = (s, w)"
| "start_ready p jobs budget res (i # is) s w =
     (if ready jobs budget res s i then
        (case start p jobs res i s w of (s, w) \<Rightarrow> start_ready p jobs budget res is s w)
      else start_ready p jobs budget res is s w)"

text \<open>The head of the loop sees a cancelled context once.\<close>

definition observe :: "('f, 'v, 'w) pool \<Rightarrow> 'v schedule \<Rightarrow> 'w \<Rightarrow> 'v schedule \<times> 'w" where
  "observe p s w =
     (if ss_Cancelled s then (s, w)
      else case po_Cancelled p w of
        (cancelled, w) \<Rightarrow>
          (if cancelled then s\<lparr>ss_Cancelled := True, ss_Results := markPendingCancelled (ss_Results s)\<rparr> else s, w))"

definition admit ::
  "('f, 'v, 'w) pool \<Rightarrow> 'f job list \<Rightarrow> resources \<Rightarrow> resources list \<Rightarrow> 'v schedule \<Rightarrow> 'w \<Rightarrow> 'v schedule \<times> 'w" where
  "admit p jobs budget res s w =
     (if ss_Cancelled s then (s, w)
      else start_ready p jobs budget res [0..<length jobs]
        (s\<lparr>ss_Results := markBlockedJobsCancelled (ss_Results s) jobs\<rparr>) w)"

definition milliseconds :: "int \<Rightarrow> int" where
  "milliseconds d = (if d < 0 then - ((- d) div 10 ^ 6) else d div 10 ^ 6)"

definition completed_result :: "'v completion \<Rightarrow> 'v job_result \<Rightarrow> 'v job_result" where
  "completed_result c r =
     (let r = r\<lparr>jr_FinishedAt := Some (cp_Finished c),
           jr_DurationMS := milliseconds (cp_Finished c - (case jr_StartedAt r of Some t \<Rightarrow> t | None \<Rightarrow> 0)),
           jr_Evidence := cp_Evidence c\<rparr> in
      if cp_Cancelled c then r\<lparr>jr_Status := StatusCancelled\<rparr>
      else case cp_Err c of
        Some err \<Rightarrow> r\<lparr>jr_Status := StatusFailed, jr_Evidence := withErrorEvidence (cp_Evidence c) err\<rparr>
      | None \<Rightarrow> r\<lparr>jr_Status := StatusPassed\<rparr>)"

definition settle :: "resources list \<Rightarrow> 'v completion \<Rightarrow> 'v schedule \<Rightarrow> 'v schedule" where
  "settle res c s =
     s\<lparr>ss_Allocated := release_resources (ss_Allocated s) (res ! cp_Index c), ss_Running := ss_Running s - 1,
       ss_Results := (ss_Results s)[cp_Index c := completed_result c (ss_Results s ! cp_Index c)]\<rparr>"

text \<open>The loop has no bound of its own, so not returning is the value \<open>None\<close>.\<close>

partial_function (option) run_loop ::
  "('f, 'v, 'w) pool \<Rightarrow> 'f job list \<Rightarrow> resources \<Rightarrow> resources list \<Rightarrow> 'v schedule \<Rightarrow> 'w \<Rightarrow>
   ((go_error + 'v job_result list) \<times> 'w) option" where
  "run_loop p jobs budget res s w =
     (case observe p s w of
        (s, w) \<Rightarrow>
     (case admit p jobs budget res s w of
        (s, w) \<Rightarrow>
          if ss_Running s = 0 then
            Some (if allJobsTerminal (ss_Results s) then Inr (ss_Results s)
                  else Inl (Errorf ''audit scheduler could not run remaining jobs within resource budget'' []), w)
          else case po_Receive p w of (c, w) \<Rightarrow> run_loop p jobs budget res (settle res c s) w))"

declare run_loop.simps [code]

definition first_schedule :: "'f job list \<Rightarrow> 'v schedule" where
  "first_schedule jobs =
     \<lparr>ss_Results = map pending_result jobs, ss_Allocated = \<lparr>rs_CPU = 0, rs_MemoryMB = 0\<rparr>, ss_Running = 0,
      ss_Cancelled = False\<rparr>"

text \<open>A nil context is refused first.\<close>

definition Run ::
  "('f, 'v, 'w) pool \<Rightarrow> resources option \<Rightarrow> bool \<Rightarrow> 'f job list \<Rightarrow> 'w \<Rightarrow>
   ((go_error + 'v job_result list) \<times> 'w) option" where
  "Run p scheduler has_context jobs w =
     (if \<not> has_context then Some (Inl (Errorf ''audit scheduler context is nil'' []), w)
      else case validate scheduler jobs of
        Inl err \<Rightarrow> Some (Inl err, w)
      | Inr (budget, res) \<Rightarrow>
          if jobs = [] then Some (Inr [], w) else run_loop p jobs budget res (first_schedule jobs) w)"

section \<open>The order of a job graph\<close>

text \<open>What a job waits for, and what must not be circular.\<close>

definition needs :: "'f job list \<Rightarrow> nat \<Rightarrow> nat \<Rightarrow> bool" where
  "needs jobs i j \<longleftrightarrow> i < length jobs \<and> j < length jobs \<and> jb_ID (jobs ! j) \<in> set (jb_DependsOn (jobs ! i))"

definition edges :: "'f job list \<Rightarrow> (nat \<times> nat) set" where
  "edges jobs = {(i, j). j \<in> set (dependencies jobs i)}"

lemma visit_unvisited [simp]:
  assumes "state i = Unvisited"
  shows "visit jobs (i # is) state =
    (let inner = visit jobs (dependencies jobs i) (state(i := Visiting)) in
       if fst inner then (True, snd inner) else visit jobs is ((snd inner)(i := Visited)))"
  using assms by simp

lemma visit_visiting:
  "\<not> fst (visit jobs is state) \<Longrightarrow> snd (visit jobs is state) k = Visiting \<longleftrightarrow> state k = Visiting"
proof (induction jobs "is" state arbitrary: k rule: visit.induct)
  case (2 jobs i "is" state)
  show ?case
  proof (cases "state i")
    case Unvisited
    let ?inner = "visit jobs (dependencies jobs i) (state(i := Visiting))"
    from 2(4) Unvisited have inner: "\<not> fst ?inner" and rest: "\<not> fst (visit jobs is ((snd ?inner)(i := Visited)))"
      by (auto simp: Let_def split: if_splits)
    have "visit jobs (i # is) state = visit jobs is ((snd ?inner)(i := Visited))"
      using Unvisited inner by (simp add: Let_def)
    then have "snd (visit jobs (i # is) state) k = Visiting \<longleftrightarrow> ((snd ?inner)(i := Visited)) k = Visiting"
      using 2(2) [OF Unvisited refl inner rest] by (simp only:)
    also have "snd ?inner k = Visiting \<longleftrightarrow> (state(i := Visiting)) k = Visiting" by (rule 2(1) [OF Unvisited inner])
    then have "((snd ?inner)(i := Visited)) k = Visiting \<longleftrightarrow> state k = Visiting"
      using Unvisited by (cases "k = i") auto
    finally show ?thesis .
  qed (use 2 in auto)
qed simp

lemma visit_cycle:
  assumes "fst (visit jobs is state)" and "\<And>i u. i \<in> set is \<Longrightarrow> state u = Visiting \<Longrightarrow> (u, i) \<in> (edges jobs)\<^sup>+"
  shows "\<exists>x. (x, x) \<in> (edges jobs)\<^sup>+"
  using assms
proof (induction jobs "is" state rule: visit.induct)
  case (2 jobs i "is" state)
  show ?case
  proof (cases "state i")
    case Visiting
    with 2(5) show ?thesis by auto
  next
    case Visited
    with 2 show ?thesis by simp
  next
    case Unvisited
    let ?inner = "visit jobs (dependencies jobs i) (state(i := Visiting))"
    have below: "(u, j) \<in> (edges jobs)\<^sup>+" if "j \<in> set (dependencies jobs i)" "(state(i := Visiting)) u = Visiting" for u j
    proof -
      have "(i, j) \<in> edges jobs" using that(1) by (simp add: edges_def)
      moreover have "u = i \<or> (u, i) \<in> (edges jobs)\<^sup>+" using that(2) 2(5) by (auto split: if_splits)
      ultimately show ?thesis by auto
    qed
    show ?thesis
    proof (cases "fst ?inner")
      case True
      with 2(1) [OF Unvisited True] below show ?thesis by blast
    next
      case False
      have same: "state u = Visiting" if "((snd ?inner)(i := Visited)) u = Visiting" for u
        using that visit_visiting [of jobs "dependencies jobs i" "state(i := Visiting)" u] False by (auto split: if_splits)
      from 2(4) Unvisited False have "fst (visit jobs is ((snd ?inner)(i := Visited)))" by (simp add: Let_def)
      then show ?thesis by (rule 2(2) [OF Unvisited refl False]) (use 2(5) same in auto)
    qed
  qed
qed simp

definition closed_visited :: "'f job list \<Rightarrow> (nat \<Rightarrow> colour) \<Rightarrow> bool" where
  "closed_visited jobs state \<longleftrightarrow>
     (\<forall>x. state x = Visited \<longrightarrow> (\<forall>y. (x, y) \<in> edges jobs \<longrightarrow> state y = Visited) \<and> (x, x) \<notin> (edges jobs)\<^sup>+)"

lemma closed_reach:
  assumes "closed_visited jobs state" and "(x, y) \<in> (edges jobs)\<^sup>*" and "state x = Visited"
  shows "state y = Visited"
  using assms(2,3)
  by (induction rule: rtrancl_induct) (use assms(1) in \<open>auto simp: closed_visited_def\<close>)

lemma visit_closes:
  assumes "\<not> fst (visit jobs is state)" and "closed_visited jobs state"
  shows "closed_visited jobs (snd (visit jobs is state))"
    and "\<And>k. k \<in> set is \<or> state k = Visited \<Longrightarrow> snd (visit jobs is state) k = Visited"
proof -
  have "closed_visited jobs (snd (visit jobs is state)) \<and>
      (\<forall>k. k \<in> set is \<or> state k = Visited \<longrightarrow> snd (visit jobs is state) k = Visited)"
    using assms
  proof (induction jobs "is" state rule: visit.induct)
    case (2 jobs i "is" state)
    show ?case
    proof (cases "state i")
      case Visiting
      with 2(4) show ?thesis by simp
    next
      case Visited
      with 2 show ?thesis by auto
    next
      case Unvisited
      let ?inner = "visit jobs (dependencies jobs i) (state(i := Visiting))"
      let ?next = "(snd ?inner)(i := Visited)"
      from 2(4) Unvisited have inner: "\<not> fst ?inner" and rest: "\<not> fst (visit jobs is ?next)"
        by (auto simp: Let_def split: if_splits)
      have same: "(state(i := Visiting)) k = Visited \<longleftrightarrow> state k = Visited" for k using Unvisited by simp
      have "closed_visited jobs (state(i := Visiting))" using 2(5) unfolding closed_visited_def same .
      from 2(1) [OF Unvisited inner this] have ok: "closed_visited jobs (snd ?inner)"
        and found: "\<And>k. k \<in> set (dependencies jobs i) \<or> (state(i := Visiting)) k = Visited \<Longrightarrow> snd ?inner k = Visited"
        by blast+
      have own: "snd ?inner i = Visiting" using visit_visiting [OF inner, of i] by simp
      have acyclic: "(i, i) \<notin> (edges jobs)\<^sup>+"
      proof
        assume "(i, i) \<in> (edges jobs)\<^sup>+"
        then obtain j where "(i, j) \<in> edges jobs" "(j, i) \<in> (edges jobs)\<^sup>*" by (meson tranclD)
        then have "snd ?inner j = Visited" by (intro found) (simp add: edges_def)
        then have "snd ?inner i = Visited" using \<open>(j, i) \<in> (edges jobs)\<^sup>*\<close> closed_reach [OF ok] by blast
        with own show False by simp
      qed
      have closed: "closed_visited jobs ?next"
        using ok found acyclic unfolding closed_visited_def edges_def by auto
      have step: "visit jobs (i # is) state = visit jobs is ?next" using Unvisited inner by (simp add: Let_def)
      have kept: "?next k = Visited" if "state k = Visited \<or> k = i" for k
        using that found [of k] by (cases "k = i") auto
      have "closed_visited jobs (snd (visit jobs is ?next))"
        and seen: "\<And>k. k \<in> set is \<or> ?next k = Visited \<Longrightarrow> snd (visit jobs is ?next) k = Visited"
        using 2(2) [OF Unvisited refl inner rest closed] by blast+
      moreover have "snd (visit jobs is ?next) k = Visited" if "k \<in> set (i # is) \<or> state k = Visited" for k
        using that seen [of k] kept [of k] by (metis set_ConsD)
      ultimately show ?thesis unfolding step by blast
    qed
  qed simp
  then show "closed_visited jobs (snd (visit jobs is state))"
    and "\<And>k. k \<in> set is \<or> state k = Visited \<Longrightarrow> snd (visit jobs is state) k = Visited" by blast+
qed

lemma edges_bound: "(i, j) \<in> edges jobs \<Longrightarrow> i < length jobs"
  by (auto simp: edges_def dependencies_def split: if_splits)

lemma hasDependencyCycle_edges: "hasDependencyCycle jobs \<longleftrightarrow> \<not> acyclic (edges jobs)"
proof
  assume "hasDependencyCycle jobs"
  then show "\<not> acyclic (edges jobs)"
    unfolding hasDependencyCycle_def acyclic_def by (auto dest!: visit_cycle)
next
  assume "\<not> acyclic (edges jobs)"
  then obtain x where x: "(x, x) \<in> (edges jobs)\<^sup>+" by (auto simp: acyclic_def)
  then have "x < length jobs" by (meson edges_bound tranclD)
  show "hasDependencyCycle jobs"
  proof (rule ccontr)
    assume "\<not> hasDependencyCycle jobs"
    then have none: "\<not> fst (visit jobs [0..<length jobs] (\<lambda>_. Unvisited))" by (simp add: hasDependencyCycle_def)
    have "closed_visited jobs (\<lambda>_. Unvisited)" by (simp add: closed_visited_def)
    from visit_closes [OF none this] x \<open>x < length jobs\<close> show False
      unfolding closed_visited_def by (metis atLeast0LessThan lessThan_iff set_upt)
  qed
qed

lemma job_at_Some: "job_at jobs key = Some k \<Longrightarrow> k < length jobs \<and> jb_ID (jobs ! k) = key"
  by (induction jobs arbitrary: k) (auto split: if_splits)

lemma job_at_distinct:
  assumes "distinct (map jb_ID jobs)" and "k < length jobs"
  shows "job_at jobs (jb_ID (jobs ! k)) = Some k"
  using assms by (induction jobs arbitrary: k) (auto simp: nth_Cons split: nat.splits)

lemma job_at_None: "job_at jobs key = None \<longleftrightarrow> key \<notin> jb_ID ` set jobs"
  by (induction jobs) auto

lemma edges_needs:
  assumes "distinct (map jb_ID jobs)" and "\<And>job d. job \<in> set jobs \<Longrightarrow> d \<in> set (jb_DependsOn job) \<Longrightarrow> d \<in> jb_ID ` set jobs"
  shows "(i, j) \<in> edges jobs \<longleftrightarrow> needs jobs i j"
proof
  assume "(i, j) \<in> edges jobs"
  then obtain d where i: "i < length jobs" and d: "d \<in> set (jb_DependsOn (jobs ! i))"
    and j: "j = (case job_at jobs d of Some k \<Rightarrow> k | None \<Rightarrow> 0)"
    by (auto simp: edges_def dependencies_def split: if_splits)
  from i d have "d \<in> jb_ID ` set jobs" by (intro assms(2) [of "jobs ! i"]) simp_all
  then obtain k where "job_at jobs d = Some k" using job_at_None [of jobs d] by (cases "job_at jobs d") auto
  with j i d job_at_Some show "needs jobs i j" by (fastforce simp: needs_def)
next
  assume "needs jobs i j"
  then show "(i, j) \<in> edges jobs"
    using job_at_distinct [OF assms(1), of j] by (force simp: needs_def edges_def dependencies_def)
qed

section \<open>What the loop keeps\<close>

definition status_of :: "'v job_result list \<Rightarrow> nat \<Rightarrow> audit_status" where
  "status_of results i = jr_Status (results ! i)"

text \<open>The goroutines that have not sent their completion yet, in the order they were started.\<close>

datatype sched_event = Started nat | Finished nat bool

fun in_flight :: "sched_event list \<Rightarrow> nat list" where
  "in_flight [] = []"
| "in_flight (Started i # events) = i # in_flight events"
| "in_flight (Finished i passed # events) = remove1 i (in_flight events)"

text \<open>A pool that also keeps what it did, the latest first.\<close>

definition noting_pool :: "('f, 'v, 'w) pool \<Rightarrow> ('f, 'v, 'w \<times> sched_event list) pool" where
  "noting_pool p =
     \<lparr>po_Cancelled = (\<lambda>(w, log). case po_Cancelled p w of (c, w) \<Rightarrow> (c, (w, log))),
      po_Now = (\<lambda>(w, log). case po_Now p w of (t, w) \<Rightarrow> (t, (w, log))),
      po_Go = (\<lambda>i run (w, log). (po_Go p i run w, Started i # log)),
      po_Receive = (\<lambda>(w, log). case po_Receive p w of
        (c, w) \<Rightarrow> (c, (w, Finished (cp_Index c) (\<not> cp_Cancelled c \<and> cp_Err c = None) # log)))\<rparr>"

text \<open>
  What a buffered channel and one goroutine per job give: \<open>busy\<close> are the jobs whose completion
  has not been received, and a receive gives the completion of one of them.
\<close>

definition completes_once :: "('f, 'v, 'w) pool \<Rightarrow> ('w \<Rightarrow> nat list) \<Rightarrow> bool" where
  "completes_once p busy \<longleftrightarrow>
     (\<forall>w. busy (snd (po_Cancelled p w)) = busy w) \<and> (\<forall>w. busy (snd (po_Now p w)) = busy w) \<and>
     (\<forall>i run w. busy (po_Go p i run w) = i # busy w) \<and>
     (\<forall>w. busy w \<noteq> [] \<longrightarrow> cp_Index (fst (po_Receive p w)) \<in> set (busy w) \<and>
        busy (snd (po_Receive p w)) = remove1 (cp_Index (fst (po_Receive p w))) (busy w))"

definition demand :: "resources list \<Rightarrow> nat list \<Rightarrow> resources" where
  "demand res js = \<lparr>rs_CPU = (\<Sum>i\<leftarrow>js. rs_CPU (res ! i)), rs_MemoryMB = (\<Sum>i\<leftarrow>js. rs_MemoryMB (res ! i))\<rparr>"

definition fits :: "resources \<Rightarrow> resources \<Rightarrow> bool" where
  "fits budget r \<longleftrightarrow>
     0 \<le> rs_CPU r \<and> rs_CPU r \<le> rs_CPU budget \<and> 0 \<le> rs_MemoryMB r \<and> rs_MemoryMB r \<le> rs_MemoryMB budget"

lemma demand_Cons: "demand res (i # js) = allocate (demand res js) (res ! i)"
  by (simp add: demand_def allocate_def)

lemma demand_remove1:
  "i \<in> set js \<Longrightarrow> demand res (remove1 i js) = release_resources (demand res js) (res ! i)"
  by (simp add: demand_def release_resources_def sum_list_map_remove1)

text \<open>A graph that passed the check, with the resources the loop works with.\<close>

definition sound_graph :: "'f job list \<Rightarrow> resources \<Rightarrow> resources list \<Rightarrow> bool" where
  "sound_graph jobs budget res \<longleftrightarrow>
     length res = length jobs \<and> (\<forall>r \<in> set res. fits budget r \<and> 0 < rs_CPU r \<and> 0 < rs_MemoryMB r) \<and>
     (\<forall>job \<in> set jobs. jb_Run job \<noteq> None) \<and> acyclic {(i, j). needs jobs i j}"

definition sched_inv :: "'f job list \<Rightarrow> resources \<Rightarrow> resources list \<Rightarrow> nat list \<Rightarrow> 'v schedule \<Rightarrow> bool" where
  "sched_inv jobs budget res js s \<longleftrightarrow>
     length (ss_Results s) = length jobs \<and> distinct js \<and>
     (\<forall>i. i \<in> set js \<longleftrightarrow> i < length jobs \<and> status_of (ss_Results s) i = StatusRunning) \<and>
     ss_Running s = length js \<and> ss_Allocated s = demand res js \<and> fits budget (demand res js) \<and>
     (\<forall>i < length jobs. status_of (ss_Results s) i \<noteq> StatusNotComparable) \<and>
     (\<forall>i j. needs jobs i j \<longrightarrow> status_of (ss_Results s) i \<in> {StatusRunning, StatusPassed, StatusFailed} \<longrightarrow>
        status_of (ss_Results s) j = StatusPassed) \<and>
     (ss_Cancelled s \<longrightarrow> pending (ss_Results s) = {}) \<and>
     map jr_ID (ss_Results s) = map jb_ID jobs"

lemma status_update:
  "length results = n \<Longrightarrow> i < n \<Longrightarrow> status_of (results[k := r]) i = (if i = k then jr_Status r else status_of results i)"
  by (auto simp: status_of_def nth_list_update)

lemma status_with_status [simp]:
  "i < length results \<Longrightarrow> status_of (with_status st k results) i = (if i = k then st else status_of results i)"
  by (auto simp: status_of_def with_status_def nth_list_update)

lemma dependenciesPassed_iff:
  assumes "length results = length jobs" and "i < length jobs"
  shows "dependenciesPassed results (jb_DependsOn (jobs ! i)) jobs \<longleftrightarrow> (\<forall>j. needs jobs i j \<longrightarrow> status_of results j = StatusPassed)"
  using assms by (fastforce simp: dependenciesPassed_def needs_def status_of_def list_all_iff in_set_zip)

lemma blocked_iff:
  assumes "length results = length jobs" and "i < length jobs"
  shows "blocked results (jb_DependsOn (jobs ! i)) jobs \<longleftrightarrow>
    (\<exists>j. needs jobs i j \<and> status_of results j \<in> {StatusFailed, StatusCancelled})"
  using assms by (fastforce simp: blocked_def needs_def status_of_def list_ex_iff in_set_zip)

section \<open>The scheduler as a step relation\<close>

text \<open>
  What may happen to the statuses, one event at a time: the context and the clock are read, a
  cancelled context cancels what waits, a job whose dependency did not pass is cancelled, a job
  whose dependencies passed starts where the budget has room for it, and a running job ends.
\<close>

definition running :: "audit_status list \<Rightarrow> nat list" where
  "running st = filter (\<lambda>i. st ! i = StatusRunning) [0..<length st]"

definition verdict :: "'v completion \<Rightarrow> audit_status" where
  "verdict c = (if cp_Cancelled c then StatusCancelled else if cp_Err c = None then StatusPassed else StatusFailed)"

inductive sched_step ::
  "('f, 'v, 'w) pool \<Rightarrow> 'f job list \<Rightarrow> resources \<Rightarrow> resources list \<Rightarrow> audit_status list \<times> 'w \<Rightarrow>
   audit_status list \<times> 'w \<Rightarrow> bool"
  for p jobs budget res
  where
    poll: "sched_step p jobs budget res (st, w) (st, snd (po_Cancelled p w))"
  | clock: "sched_step p jobs budget res (st, w) (st, snd (po_Now p w))"
  | interrupt: "fst (po_Cancelled p w) \<Longrightarrow>
      sched_step p jobs budget res (st, w)
        (map (\<lambda>x. if x = StatusPending then StatusCancelled else x) st, snd (po_Cancelled p w))"
  | block: "i < length st \<Longrightarrow> st ! i = StatusPending \<Longrightarrow> needs jobs i j \<Longrightarrow> st ! j \<in> {StatusFailed, StatusCancelled} \<Longrightarrow>
      sched_step p jobs budget res (st, w) (st[i := StatusCancelled], w)"
  | commence: "i < length st \<Longrightarrow> st ! i = StatusPending \<Longrightarrow> (\<And>j. needs jobs i j \<Longrightarrow> st ! j = StatusPassed) \<Longrightarrow>
      fits budget (allocate (demand res (running st)) (res ! i)) \<Longrightarrow> jb_Run (jobs ! i) = Some run \<Longrightarrow>
      sched_step p jobs budget res (st, w) (st[i := StatusRunning], po_Go p i run w)"
  | complete: "po_Receive p w = (c, w') \<Longrightarrow> cp_Index c < length st \<Longrightarrow> st ! cp_Index c = StatusRunning \<Longrightarrow>
      sched_step p jobs budget res (st, w) (st[cp_Index c := verdict c], w')"

definition statuses :: "'v schedule \<Rightarrow> audit_status list" where
  "statuses s = map jr_Status (ss_Results s)"

definition only_cancels :: "'v job_result list \<Rightarrow> 'v job_result list \<Rightarrow> bool" where
  "only_cancels r r' \<longleftrightarrow> map jr_ID r' = map jr_ID r \<and>
     (\<forall>i < length r. status_of r' i = status_of r i \<or> status_of r i = StatusPending \<and> status_of r' i = StatusCancelled)"

lemma only_cancels_length: "only_cancels r r' \<Longrightarrow> length r' = length r"
  unfolding only_cancels_def by (metis length_map)

lemma only_cancels_refl [simp]: "only_cancels r r"
  by (simp add: only_cancels_def)

lemma only_cancels_trans: "only_cancels r r' \<Longrightarrow> only_cancels r' r'' \<Longrightarrow> only_cancels r r''"
  using only_cancels_length [of r r'] unfolding only_cancels_def by (metis audit_status.distinct(7))

lemma map_same_update: "f y = f (r ! i) \<Longrightarrow> map f (r[i := y]) = map f r"
  by (metis list_update_beyond list_update_id map_update not_le nth_map)

lemma only_cancels_update:
  "status_of r i = StatusPending \<Longrightarrow> only_cancels r (with_status StatusCancelled i r)"
  unfolding only_cancels_def by (simp add: with_status_def map_same_update) (simp add: with_status_def [symmetric])

lemma map_status_update: "map jr_Status (with_status st i r) = (map jr_Status r)[i := st]"
  by (simp add: with_status_def map_update)

lemma sched_inv_cancels:
  assumes "sched_inv jobs budget res js s" and "only_cancels (ss_Results s) r"
  shows "sched_inv jobs budget res js (s\<lparr>ss_Results := r\<rparr>)"
proof -
  have len: "length r = length (ss_Results s)" "length (ss_Results s) = length jobs"
    using assms(1) only_cancels_length [OF assms(2)] by (simp_all add: sched_inv_def)
  have st: "status_of r i = status_of (ss_Results s) i \<or>
      status_of (ss_Results s) i = StatusPending \<and> status_of r i = StatusCancelled" if "i < length jobs" for i
    using assms(2) that len by (auto simp: only_cancels_def)
  have same: "status_of r i = x \<longleftrightarrow> status_of (ss_Results s) i = x"
    if "i < length jobs" "x \<noteq> StatusPending" "x \<noteq> StatusCancelled" for i x
    using st [OF that(1)] that by auto
  have "pending r \<subseteq> pending (ss_Results s)"
    using st len by (fastforce simp: pending_def status_of_def)
  then have waits: "ss_Cancelled s \<Longrightarrow> pending r = {}" using assms(1) by (auto simp: sched_inv_def)
  have live: "\<forall>i. i \<in> set js \<longleftrightarrow> i < length jobs \<and> status_of r i = StatusRunning"
    using assms(1) same [of _ StatusRunning] unfolding sched_inv_def by auto
  have comparable: "\<forall>i < length jobs. status_of r i \<noteq> StatusNotComparable"
    using assms(1) same [of _ StatusNotComparable] unfolding sched_inv_def by auto
  have order: "status_of r j = StatusPassed"
    if "needs jobs i j" "status_of r i \<in> {StatusRunning, StatusPassed, StatusFailed}" for i j
  proof -
    have bound: "i < length jobs" "j < length jobs" using that(1) by (simp_all add: needs_def)
    then have "status_of (ss_Results s) i \<in> {StatusRunning, StatusPassed, StatusFailed}" using that(2) same [of i] by auto
    with that(1) assms(1) have "status_of (ss_Results s) j = StatusPassed" unfolding sched_inv_def by blast
    with same [of j] bound show ?thesis by simp
  qed
  have "fits budget (demand res js)" using assms(1) by (auto simp: sched_inv_def)
  then show ?thesis
    using assms len live comparable order waits unfolding sched_inv_def only_cancels_def by simp
qed

lemma blocked_pass_True: "fst (blocked_pass jobs is True results)"
  by (induction jobs "is" "True" results rule: blocked_pass.induct) auto

lemma blocked_pass_unchanged:
  "\<not> fst (blocked_pass jobs is changed results) \<Longrightarrow> snd (blocked_pass jobs is changed results) = results \<and>
     (\<forall>i \<in> set is. \<not> (jr_Status (results ! i) = StatusPending \<and> blocked results (jb_DependsOn (jobs ! i)) jobs))"
proof (induction jobs "is" changed results rule: blocked_pass.induct)
  case (2 jobs i "is" changed results)
  show ?case
  proof (cases "jr_Status (results ! i) = StatusPending \<and> blocked results (jb_DependsOn (jobs ! i)) jobs")
    case True
    with 2(3) blocked_pass_True show ?thesis by auto
  next
    case False
    then have "blocked_pass jobs (i # is) changed results = blocked_pass jobs is changed results"
      by (simp only: blocked_pass.simps if_False)
    with False 2(2) [OF False] 2(3) show ?thesis by auto
  qed
qed simp

lemma blocked_pass_steps:
  assumes "length results = length jobs" and "\<And>i. i \<in> set is \<Longrightarrow> i < length jobs"
  shows "only_cancels results (snd (blocked_pass jobs is changed results)) \<and>
    (sched_step p jobs budget res)\<^sup>*\<^sup>* (map jr_Status results, w) (map jr_Status (snd (blocked_pass jobs is changed results)), w)"
  using assms
proof (induction jobs "is" changed results rule: blocked_pass.induct)
  case (2 jobs i "is" changed results)
  show ?case
  proof (cases "jr_Status (results ! i) = StatusPending \<and> blocked results (jb_DependsOn (jobs ! i)) jobs")
    case True
    have i: "i < length results" using 2(3,4) by simp
    obtain j where j: "needs jobs i j" "status_of results j \<in> {StatusFailed, StatusCancelled}"
      using True blocked_iff [OF 2(3), of i] 2(4) by auto
    then have "j < length results" using 2(3) by (simp add: needs_def)
    then have "sched_step p jobs budget res (map jr_Status results, w) (map jr_Status (with_status StatusCancelled i results), w)"
      unfolding map_status_update using True i j by (intro sched_step.block) (auto simp: status_of_def)
    moreover have "only_cancels results (with_status StatusCancelled i results)"
      using True by (intro only_cancels_update) (simp add: status_of_def)
    moreover have "length (with_status StatusCancelled i results) = length jobs" using 2(3) by (simp add: with_status_def)
    ultimately show ?thesis
      using 2(1) [OF True] 2(4) True by (auto intro: only_cancels_trans converse_rtranclp_into_rtranclp)
  next
    case False
    then have "blocked_pass jobs (i # is) changed results = blocked_pass jobs is changed results"
      by (simp only: blocked_pass.simps if_False)
    with 2(2) [OF False] 2(3,4) show ?thesis by simp
  qed
qed simp

lemma markBlocked_steps:
  assumes "length results = length jobs"
  shows "only_cancels results (markBlockedJobsCancelled results jobs) \<and>
    (sched_step p jobs budget res)\<^sup>*\<^sup>* (map jr_Status results, w) (map jr_Status (markBlockedJobsCancelled results jobs), w) \<and>
    (\<forall>i < length jobs. status_of (markBlockedJobsCancelled results jobs) i = StatusPending \<longrightarrow>
       \<not> blocked (markBlockedJobsCancelled results jobs) (jb_DependsOn (jobs ! i)) jobs)"
  using assms
proof (induction results jobs rule: markBlockedJobsCancelled.induct)
  case (1 results jobs)
  let ?pass = "blocked_pass jobs [0..<min (length jobs) (length results)] False results"
  note pass = blocked_pass_steps [OF 1(2), of "[0..<min (length jobs) (length results)]" False p budget res w]
  show ?case
  proof (cases "fst ?pass")
    case True
    then have next_pass: "markBlockedJobsCancelled results jobs = markBlockedJobsCancelled (snd ?pass) jobs"
      by (subst markBlockedJobsCancelled.simps) (simp add: Let_def)
    have len: "length (snd ?pass) = length jobs" using 1(2) by simp
    from 1(1) [OF refl True len] pass show ?thesis
      unfolding next_pass by (auto intro: only_cancels_trans)
  next
    case False
    then have stop: "markBlockedJobsCancelled results jobs = results"
      using blocked_pass_unchanged [OF False] by (subst markBlockedJobsCancelled.simps) (simp add: Let_def)
    from blocked_pass_unchanged [OF False] 1(2) show ?thesis
      unfolding stop by (auto simp: status_of_def)
  qed
qed

lemma markPending_steps:
  assumes "fst (po_Cancelled p w)"
  shows "only_cancels results (markPendingCancelled results)" and "pending (markPendingCancelled results) = {}"
    and "sched_step p jobs budget res (map jr_Status results, w) (map jr_Status (markPendingCancelled results), snd (po_Cancelled p w))"
proof -
  show "only_cancels results (markPendingCancelled results)" "pending (markPendingCancelled results) = {}"
    by (auto simp: only_cancels_def markPendingCancelled_def status_of_def pending_def)
  have "map jr_Status (markPendingCancelled results) =
      map (\<lambda>x. if x = StatusPending then StatusCancelled else x) (map jr_Status results)"
    by (simp add: markPendingCancelled_def)
  with sched_step.interrupt [OF assms, of jobs budget res "map jr_Status results"]
  show "sched_step p jobs budget res (map jr_Status results, w) (map jr_Status (markPendingCancelled results), snd (po_Cancelled p w))"
    by (simp only:)
qed

definition unfinished :: "'v job_result list \<Rightarrow> nat set" where
  "unfinished results = {i. i < length results \<and> status_of results i \<in> {StatusPending, StatusRunning}}"

lemma finite_unfinished [simp]: "finite (unfinished results)"
  by (simp add: unfinished_def)

lemma unfinished_cancels: "only_cancels r r' \<Longrightarrow> unfinished r' \<subseteq> unfinished r"
  using only_cancels_length [of r r'] by (fastforce simp: unfinished_def only_cancels_def)

lemma allJobsTerminal_unfinished: "allJobsTerminal results \<longleftrightarrow> unfinished results = {}"
  by (auto simp: allJobsTerminal_def unfinished_def status_of_def list_all_length)

lemma demand_same_set:
  assumes "distinct js" and "distinct ks" and "set js = set ks"
  shows "demand res js = demand res ks"
  using assms by (simp add: demand_def sum_list_distinct_conv_sum_set)

lemma running_demand:
  assumes "sched_inv jobs budget res js s"
  shows "demand res (running (statuses s)) = demand res js"
proof (rule demand_same_set)
  show "set (running (statuses s)) = set js"
    using assms by (auto simp: sched_inv_def running_def statuses_def status_of_def)
  show "distinct (running (statuses s))" "distinct js"
    using assms by (simp_all add: running_def sched_inv_def)
qed

lemma completes_onceD:
  assumes "completes_once p busy"
  shows "busy (snd (po_Cancelled p w)) = busy w" and "busy (snd (po_Now p w)) = busy w"
    and "busy (po_Go p i run w) = i # busy w"
    and "busy w \<noteq> [] \<Longrightarrow> cp_Index (fst (po_Receive p w)) \<in> set (busy w)"
    and "busy w \<noteq> [] \<Longrightarrow> busy (snd (po_Receive p w)) = remove1 (cp_Index (fst (po_Receive p w))) (busy w)"
  using assms unfolding completes_once_def by simp_all

lemma ready_fits:
  assumes "sound_graph jobs budget res" and "sched_inv jobs budget res js s" and "ready jobs budget res s i" and "i < length jobs"
  shows "fits budget (allocate (demand res js) (res ! i))"
proof -
  have "res ! i \<in> set res" using assms(1,4) by (simp add: sound_graph_def)
  then have "0 < rs_CPU (res ! i)" "0 < rs_MemoryMB (res ! i)" using assms(1) by (auto simp: sound_graph_def)
  with assms(2,3) show ?thesis
    by (auto simp: fits_def allocate_def ready_def canAllocateResources_def sched_inv_def)
qed

lemma start_inv:
  assumes graph: "sound_graph jobs budget res" and inv: "sched_inv jobs budget res js s" and go: "ready jobs budget res s i"
    and i: "i < length jobs" and live: "\<not> ss_Cancelled s"
  shows "sched_inv jobs budget res (i # js) (fst (start p jobs res i s w))"
proof -
  let ?r = "ss_Results s" and ?s = "fst (start p jobs res i s w)"
  have len: "length ?r = length jobs" using inv by (simp add: sched_inv_def)
  have wait: "status_of ?r i = StatusPending" using go by (simp add: ready_def status_of_def)
  have passed: "status_of ?r j = StatusPassed" if "needs jobs i j" for j
    using go that dependenciesPassed_iff [OF len i] by (simp add: ready_def)
  have st: "status_of (ss_Results ?s) k = (if k = i then StatusRunning else status_of ?r k)" if "k < length jobs" for k
    using that len by (simp add: start_def status_update split: prod.splits)
  have ids: "map jr_ID (ss_Results ?s) = map jr_ID ?r"
    by (simp add: start_def map_same_update split: prod.splits)
  have idle: "i \<notin> set js" using inv wait by (auto simp: sched_inv_def)
  have fit: "fits budget (demand res (i # js))" using ready_fits [OF graph inv go i] by (simp add: demand_Cons)
  have order: "status_of (ss_Results ?s) j = StatusPassed"
    if "needs jobs k j" "status_of (ss_Results ?s) k \<in> {StatusRunning, StatusPassed, StatusFailed}" for k j
  proof -
    have bound: "k < length jobs" "j < length jobs" using that(1) by (simp_all add: needs_def)
    have "status_of ?r j = StatusPassed"
    proof (cases "k = i")
      case False
      with that(2) st bound have "status_of ?r k \<in> {StatusRunning, StatusPassed, StatusFailed}" by simp
      with inv that(1) show ?thesis unfolding sched_inv_def by blast
    qed (use passed that in blast)
    with wait st bound show ?thesis by auto
  qed
  have fields: "ss_Running ?s = Suc (ss_Running s)" "ss_Allocated ?s = allocate (ss_Allocated s) (res ! i)"
    "ss_Cancelled ?s = ss_Cancelled s" "length (ss_Results ?s) = length jobs"
    using len by (simp_all add: start_def split: prod.splits)
  have live_set: "k \<in> set (i # js) \<longleftrightarrow> k < length jobs \<and> status_of (ss_Results ?s) k = StatusRunning" for k
    using inv st i by (auto simp: sched_inv_def)
  have comparable: "status_of (ss_Results ?s) k \<noteq> StatusNotComparable" if "k < length jobs" for k
    using inv st that by (simp add: sched_inv_def)
  show ?thesis
    unfolding sched_inv_def fields ids
    using inv idle fit order live live_set comparable by (simp add: sched_inv_def demand_Cons)
qed

lemma start_steps:
  assumes graph: "sound_graph jobs budget res" and inv: "sched_inv jobs budget res js s" and go: "ready jobs budget res s i"
    and i: "i < length jobs"
  shows "(sched_step p jobs budget res)\<^sup>*\<^sup>* (statuses s, w) (statuses (fst (start p jobs res i s w)), snd (start p jobs res i s w))"
proof -
  have len: "length (ss_Results s) = length jobs" using inv by (simp add: sched_inv_def)
  have "jobs ! i \<in> set jobs" using i by simp
  then obtain run where run: "jb_Run (jobs ! i) = Some run" using graph unfolding sound_graph_def by blast
  have st: "statuses (fst (start p jobs res i s w)) = (statuses s)[i := StatusRunning]"
    by (simp add: statuses_def start_def map_update split: prod.splits)
  have "sched_step p jobs budget res (statuses s, w) (statuses s, snd (po_Now p w))" by (rule sched_step.clock)
  moreover have "sched_step p jobs budget res (statuses s, snd (po_Now p w))
      ((statuses s)[i := StatusRunning], po_Go p i run (snd (po_Now p w)))"
  proof (rule sched_step.commence)
    show "i < length (statuses s)" using i len by (simp add: statuses_def)
    show "statuses s ! i = StatusPending" using go i len by (simp add: statuses_def ready_def)
    show "statuses s ! j = StatusPassed" if "needs jobs i j" for j
      using go dependenciesPassed_iff [OF len i] that len by (simp add: ready_def statuses_def status_of_def needs_def)
    show "fits budget (allocate (demand res (running (statuses s))) (res ! i))"
      using ready_fits [OF graph inv go i] running_demand [OF inv] by simp
  qed (rule run)
  moreover have "snd (start p jobs res i s w) = po_Go p i run (snd (po_Now p w))"
    using run by (simp add: start_def split: prod.splits)
  ultimately show ?thesis unfolding st by (metis converse_rtranclp_into_rtranclp r_into_rtranclp)
qed

lemma start_fields:
  "ss_Cancelled (fst (start p jobs res i s w)) = ss_Cancelled s"
  "ss_Running (fst (start p jobs res i s w)) = Suc (ss_Running s)"
  "completes_once p busy \<Longrightarrow> jb_Run (jobs ! i) \<noteq> None \<Longrightarrow> busy (snd (start p jobs res i s w)) = i # busy w"
  by (auto simp: start_def completes_onceD split: prod.splits option.splits) (metis completes_onceD(2) snd_conv)

lemma start_unfinished:
  "unfinished (ss_Results (fst (start p jobs res i s w))) \<subseteq> insert i (unfinished (ss_Results s))"
  by (auto simp: unfinished_def start_def status_of_def nth_list_update split: prod.splits if_splits)

lemma start_ready_turn:
  assumes law: "completes_once p busy" and graph: "sound_graph jobs budget res"
    and "sched_inv jobs budget res (busy w) s" and "\<not> ss_Cancelled s" and "\<And>i. i \<in> set is \<Longrightarrow> i < length jobs"
    and "start_ready p jobs budget res is s w = (s', w')"
  shows "sched_inv jobs budget res (busy w') s' \<and> (sched_step p jobs budget res)\<^sup>*\<^sup>* (statuses s, w) (statuses s', w') \<and>
    ss_Running s \<le> ss_Running s' \<and> unfinished (ss_Results s') \<subseteq> unfinished (ss_Results s) \<and>
    (ss_Running s' = 0 \<longrightarrow> s' = s \<and> (\<forall>i \<in> set is. \<not> ready jobs budget res s i))"
  using assms(3-)
proof (induction "is" arbitrary: s w)
  case (Cons i "is")
  show ?case
  proof (cases "ready jobs budget res s i")
    case True
    let ?s = "fst (start p jobs res i s w)" and ?w = "snd (start p jobs res i s w)"
    have i: "i < length jobs" using Cons.prems(3) by simp
    then have "jobs ! i \<in> set jobs" by simp
    then have run: "jb_Run (jobs ! i) \<noteq> None" using graph unfolding sound_graph_def by blast
    have inv: "sched_inv jobs budget res (busy ?w) ?s"
      unfolding start_fields(3) [OF law run] by (rule start_inv [OF graph Cons.prems(1) True i Cons.prems(2)])
    have rest: "start_ready p jobs budget res is ?s ?w = (s', w')" using Cons.prems(4) True by (simp add: case_prod_beta)
    have "i \<in> unfinished (ss_Results s)"
      using True i Cons.prems(1) by (simp add: unfinished_def ready_def status_of_def sched_inv_def)
    then have "unfinished (ss_Results ?s) \<subseteq> unfinished (ss_Results s)"
      using start_unfinished [of p jobs res i s w] by blast
    moreover have "(sched_step p jobs budget res)\<^sup>*\<^sup>* (statuses s, w) (statuses ?s, ?w)"
      by (rule start_steps [OF graph Cons.prems(1) True i])
    moreover note Cons.IH [OF inv _ _ rest]
    ultimately show ?thesis using start_fields(1,2) [of p jobs res i s w] Cons.prems(2,3) by force
  next
    case False
    with Cons.prems Cons.IH [of w s] show ?thesis by auto
  qed
qed simp

lemma observe_turn:
  assumes law: "completes_once p busy" and inv: "sched_inv jobs budget res (busy w) s" and "observe p s w = (s', w')"
  shows "sched_inv jobs budget res (busy w') s' \<and> (sched_step p jobs budget res)\<^sup>*\<^sup>* (statuses s, w) (statuses s', w') \<and>
    unfinished (ss_Results s') \<subseteq> unfinished (ss_Results s) \<and> ss_Running s' = ss_Running s"
proof (cases "ss_Cancelled s")
  case True
  with assms show ?thesis by (simp add: observe_def)
next
  case False
  let ?c = "fst (po_Cancelled p w)" and ?w = "snd (po_Cancelled p w)" and ?r = "markPendingCancelled (ss_Results s)"
  have w: "w' = ?w" "s' = (if ?c then s\<lparr>ss_Cancelled := True, ss_Results := ?r\<rparr> else s)"
    using assms(3) False by (auto simp: observe_def split: prod.splits)
  have busy: "busy ?w = busy w" by (rule completes_onceD(1) [OF law])
  show ?thesis
  proof (cases ?c)
    case True
    note marked = markPending_steps [OF True]
    have "sched_inv jobs budget res (busy w) (s\<lparr>ss_Results := ?r\<rparr>)" by (rule sched_inv_cancels [OF inv marked(1)])
    then have "sched_inv jobs budget res (busy w) (s\<lparr>ss_Cancelled := True, ss_Results := ?r\<rparr>)"
      using marked(2) [of "ss_Results s"] unfolding sched_inv_def by simp
    moreover have "statuses (s\<lparr>ss_Cancelled := True, ss_Results := ?r\<rparr>) = map jr_Status ?r" by (simp add: statuses_def)
    ultimately show ?thesis
      using True w busy marked(3) [of jobs budget res "ss_Results s"] unfinished_cancels [OF marked(1), of "ss_Results s"]
      by (simp add: statuses_def)
  next
    case False
    with w busy inv sched_step.poll [of p jobs budget res "statuses s" w] show ?thesis by auto
  qed
qed

text \<open>No deadlock: a job that waits for the budget alone is started once nothing runs.\<close>

lemma acyclic_minimal:
  assumes "acyclic {(i, j). needs jobs i j}" and "Q \<noteq> {}" and "Q \<subseteq> {..<length jobs}"
  shows "\<exists>i \<in> Q. \<forall>j. needs jobs i j \<longrightarrow> j \<notin> Q"
proof -
  have "finite {(i, j). needs jobs i j}"
    by (rule finite_subset [of _ "{..<length jobs} \<times> {..<length jobs}"]) (auto simp: needs_def)
  then have "wf ({(i, j). needs jobs i j}\<inverse>)" using assms(1) by (rule finite_acyclic_wf_converse)
  then obtain i where "i \<in> Q" "\<And>j. (j, i) \<in> {(i, j). needs jobs i j}\<inverse> \<Longrightarrow> j \<notin> Q"
    using assms(2) by (rule wfE_min') blast
  then show ?thesis by auto
qed

lemma nothing_waits:
  assumes graph: "sound_graph jobs budget res" and inv: "sched_inv jobs budget res js s" and "ss_Running s = 0"
    and unblocked: "\<And>i. i < length jobs \<Longrightarrow> status_of (ss_Results s) i = StatusPending \<Longrightarrow>
      \<not> blocked (ss_Results s) (jb_DependsOn (jobs ! i)) jobs"
    and unready: "\<And>i. i < length jobs \<Longrightarrow> \<not> ready jobs budget res s i"
  shows "unfinished (ss_Results s) = {}"
proof (rule ccontr)
  assume "unfinished (ss_Results s) \<noteq> {}"
  let ?r = "ss_Results s"
  have len: "length ?r = length jobs" and js: "js = []" using inv assms(3) by (simp_all add: sched_inv_def)
  have idle: "status_of ?r i \<noteq> StatusRunning" if "i < length jobs" for i using inv js that by (auto simp: sched_inv_def)
  have "pending ?r \<noteq> {}"
    using \<open>unfinished ?r \<noteq> {}\<close> idle len by (fastforce simp: unfinished_def pending_def status_of_def)
  moreover have "pending ?r \<subseteq> {..<length jobs}" using len by (auto simp: pending_def)
  ultimately obtain i where i: "i \<in> pending ?r" and least: "\<And>j. needs jobs i j \<Longrightarrow> j \<notin> pending ?r"
    using acyclic_minimal graph unfolding sound_graph_def by meson
  then have bound: "i < length jobs" and wait: "status_of ?r i = StatusPending" using len by (auto simp: pending_def status_of_def)
  have "status_of ?r j = StatusPassed" if "needs jobs i j" for j
  proof -
    have j: "j < length jobs" using that by (simp add: needs_def)
    have "status_of ?r j \<notin> {StatusFailed, StatusCancelled}"
      using unblocked [OF bound wait] blocked_iff [OF len bound] that by auto
    moreover have "status_of ?r j \<noteq> StatusPending" using least [OF that] j len by (simp add: pending_def status_of_def)
    moreover have "status_of ?r j \<noteq> StatusNotComparable" using inv j by (simp add: sched_inv_def)
    ultimately show ?thesis using idle [OF j] by (cases "status_of ?r j") auto
  qed
  moreover have "fits budget (res ! i)" using graph bound by (simp add: sound_graph_def)
  ultimately have "ready jobs budget res s i"
    using wait dependenciesPassed_iff [OF len bound] inv js
    by (auto simp: ready_def status_of_def sched_inv_def canAllocateResources_def demand_def fits_def)
  with unready bound show False by simp
qed

lemma admit_turn:
  assumes law: "completes_once p busy" and graph: "sound_graph jobs budget res"
    and inv: "sched_inv jobs budget res (busy w) s" and "admit p jobs budget res s w = (s', w')"
  shows "sched_inv jobs budget res (busy w') s' \<and> (sched_step p jobs budget res)\<^sup>*\<^sup>* (statuses s, w) (statuses s', w') \<and>
    unfinished (ss_Results s') \<subseteq> unfinished (ss_Results s) \<and> (ss_Running s' = 0 \<longrightarrow> unfinished (ss_Results s') = {})"
proof (cases "ss_Cancelled s")
  case True
  with assms(4) have "s' = s" "w' = w" by (simp_all add: admit_def)
  moreover have "unfinished (ss_Results s) = {}" if "ss_Running s = 0"
  proof -
    have "busy w = []" "pending (ss_Results s) = {}" using inv that True by (auto simp: sched_inv_def)
    with inv show ?thesis by (auto simp: sched_inv_def unfinished_def pending_def status_of_def)
  qed
  ultimately show ?thesis using inv by simp
next
  case False
  let ?r = "markBlockedJobsCancelled (ss_Results s) jobs"
  let ?s = "s\<lparr>ss_Results := ?r\<rparr>"
  have len: "length (ss_Results s) = length jobs" using inv by (simp add: sched_inv_def)
  note marked = markBlocked_steps [OF len, of p budget res w]
  have inv': "sched_inv jobs budget res (busy w) ?s" by (rule sched_inv_cancels [OF inv]) (use marked in blast)
  have run: "start_ready p jobs budget res [0..<length jobs] ?s w = (s', w')"
    using assms(4) False by (simp add: admit_def)
  have started: "sched_inv jobs budget res (busy w') s' \<and> (sched_step p jobs budget res)\<^sup>*\<^sup>* (statuses ?s, w) (statuses s', w') \<and>
    ss_Running ?s \<le> ss_Running s' \<and> unfinished (ss_Results s') \<subseteq> unfinished (ss_Results ?s) \<and>
    (ss_Running s' = 0 \<longrightarrow> s' = ?s \<and> (\<forall>i \<in> set [0..<length jobs]. \<not> ready jobs budget res ?s i))"
    by (rule start_ready_turn [OF law graph inv' _ _ run]) (use False in auto)
  have "unfinished (ss_Results s') = {}" if "ss_Running s' = 0"
  proof -
    from started that have "s' = ?s" "\<And>i. i < length jobs \<Longrightarrow> \<not> ready jobs budget res ?s i" by auto
    moreover have "unfinished (ss_Results ?s) = {}"
      by (rule nothing_waits [OF graph inv']) (use calculation that marked in auto)
    ultimately show ?thesis by simp
  qed
  moreover have "(sched_step p jobs budget res)\<^sup>*\<^sup>* (statuses s, w) (statuses s', w')"
    using marked started by (auto simp: statuses_def intro: rtranclp_trans)
  moreover have "unfinished (ss_Results s') \<subseteq> unfinished (ss_Results s)"
    using started marked unfinished_cancels [of "ss_Results s" ?r] by auto
  ultimately show ?thesis using started by blast
qed

lemma completed_result_fields [simp]:
  "jr_Status (completed_result c r) = verdict c"
  "jr_ID (completed_result c r) = jr_ID r"
  by (simp_all add: completed_result_def verdict_def Let_def split: option.splits)

lemma settle_turn:
  assumes inv: "sched_inv jobs budget res js s" and i: "cp_Index c \<in> set js" and recv: "po_Receive p w = (c, w')"
    and graph: "sound_graph jobs budget res"
  shows "sched_inv jobs budget res (remove1 (cp_Index c) js) (settle res c s)"
    and "sched_step p jobs budget res (statuses s, w) (statuses (settle res c s), w')"
    and "unfinished (ss_Results (settle res c s)) \<subset> unfinished (ss_Results s)"
proof -
  let ?i = "cp_Index c" and ?r = "ss_Results s" and ?s = "settle res c s"
  have len: "length ?r = length jobs" and bound: "?i < length jobs" and ran: "status_of ?r ?i = StatusRunning"
    and dist: "distinct js" using inv i by (auto simp: sched_inv_def)
  have results: "ss_Results ?s = ?r[?i := completed_result c (?r ! ?i)]" by (simp add: settle_def)
  have st: "status_of (ss_Results ?s) k = (if k = ?i then verdict c else status_of ?r k)" if "k < length jobs" for k
    using that len by (simp add: results status_update)
  have over: "verdict c \<notin> {StatusPending, StatusRunning, StatusNotComparable}" by (simp add: verdict_def)
  have ids: "map jr_ID (ss_Results ?s) = map jr_ID ?r"
    unfolding results by (rule map_same_update) simp
  have fit: "fits budget (demand res (remove1 ?i js))"
  proof -
    have pos: "0 \<le> rs_CPU (res ! k) \<and> 0 \<le> rs_MemoryMB (res ! k)" if "k \<in> set js" for k
    proof -
      have "k < length res" using that inv graph by (auto simp: sched_inv_def sound_graph_def)
      then have "res ! k \<in> set res" by simp
      then show ?thesis using graph by (force simp: sound_graph_def)
    qed
    have "fits budget (demand res js)" using inv by (simp add: sched_inv_def)
    moreover have "k \<in> set js" if "k \<in> set (remove1 ?i js)" for k using that set_remove1_subset by fast
    then have "0 \<le> (\<Sum>k\<leftarrow>remove1 ?i js. rs_CPU (res ! k))" "0 \<le> (\<Sum>k\<leftarrow>remove1 ?i js. rs_MemoryMB (res ! k))"
      using pos by (auto intro!: sum_list_nonneg)
    ultimately show ?thesis
      using pos [OF i] by (simp add: fits_def demand_remove1 [OF i] release_resources_def) (simp add: demand_def sum_list_map_remove1 [OF i])
  qed
  have order: "status_of (ss_Results ?s) b = StatusPassed"
    if "needs jobs a b" "status_of (ss_Results ?s) a \<in> {StatusRunning, StatusPassed, StatusFailed}" for a b
  proof -
    have ab: "a < length jobs" "b < length jobs" using that(1) by (simp_all add: needs_def)
    have "status_of ?r a \<in> {StatusRunning, StatusPassed, StatusFailed}"
      using that(2) st [OF ab(1)] ran by (auto split: if_splits)
    with inv that(1) have "status_of ?r b = StatusPassed" unfolding sched_inv_def by blast
    with ran st [OF ab(2)] show ?thesis by auto
  qed
  have live: "k \<in> set (remove1 ?i js) \<longleftrightarrow> k < length jobs \<and> status_of (ss_Results ?s) k = StatusRunning" for k
  proof -
    have "k \<in> set js \<longleftrightarrow> k < length jobs \<and> status_of ?r k = StatusRunning" using inv by (simp add: sched_inv_def)
    then show ?thesis using st [of k] over dist by (cases "k = ?i") auto
  qed
  have comparable: "status_of (ss_Results ?s) k \<noteq> StatusNotComparable" if "k < length jobs" for k
  proof -
    have "status_of ?r k \<noteq> StatusNotComparable" using inv that by (simp add: sched_inv_def)
    then show ?thesis using st [OF that] over by (cases "k = ?i") auto
  qed
  have waits: "pending (ss_Results ?s) = {}" if "ss_Cancelled s"
  proof -
    have "pending ?r = {}" using inv that by (simp add: sched_inv_def)
    then have "status_of (ss_Results ?s) k \<noteq> StatusPending" if "k < length jobs" for k
      using st [OF that] over that len by (cases "k = ?i") (auto simp: pending_def status_of_def)
    then show ?thesis using len by (auto simp: pending_def status_of_def results)
  qed
  have fields: "ss_Running ?s = ss_Running s - 1" "ss_Allocated ?s = release_resources (ss_Allocated s) (res ! ?i)"
    "ss_Cancelled ?s = ss_Cancelled s" "length (ss_Results ?s) = length jobs" using len by (simp_all add: settle_def)
  show "sched_inv jobs budget res (remove1 ?i js) ?s"
    unfolding sched_inv_def fields ids
    using inv i dist fit order live comparable waits by (simp add: sched_inv_def demand_remove1 length_remove1)
  have abs: "statuses ?s = (statuses s)[?i := verdict c]" by (simp add: statuses_def results map_update)
  show "sched_step p jobs budget res (statuses s, w) (statuses ?s, w')"
    unfolding abs by (rule sched_step.complete [OF recv]) (use bound ran len in \<open>simp_all add: statuses_def status_of_def\<close>)
  have "?i \<in> unfinished ?r" "?i \<notin> unfinished (ss_Results ?s)" "unfinished (ss_Results ?s) \<subseteq> unfinished ?r"
    using st over bound ran len by (auto simp: unfinished_def results split: if_splits)
  then show "unfinished (ss_Results ?s) \<subset> unfinished ?r" by blast
qed

lemma run_loop_ends:
  assumes law: "completes_once p busy" and graph: "sound_graph jobs budget res" and "sched_inv jobs budget res (busy w) s"
  shows "\<exists>results w'. run_loop p jobs budget res s w = Some (Inr results, w') \<and> allJobsTerminal results \<and>
    map jr_ID results = map jb_ID jobs \<and>
    (sched_step p jobs budget res)\<^sup>*\<^sup>* (statuses s, w) (map jr_Status results, w')"
  using assms(3)
proof (induction "card (unfinished (ss_Results s))" arbitrary: s w rule: less_induct)
  case less
  obtain s1 w1 where observed: "observe p s w = (s1, w1)" by (metis prod.collapse)
  note one = observe_turn [OF law less.prems observed]
  obtain s2 w2 where admitted: "admit p jobs budget res s1 w1 = (s2, w2)" by (metis prod.collapse)
  from one have "sched_inv jobs budget res (busy w1) s1" by blast
  note two = admit_turn [OF law graph this admitted]
  have reach: "(sched_step p jobs budget res)\<^sup>*\<^sup>* (statuses s, w) (statuses s2, w2)"
    using one two by (blast intro: rtranclp_trans)
  from two have inv: "sched_inv jobs budget res (busy w2) s2" by blast
  show ?case
  proof (cases "ss_Running s2 = 0")
    case True
    with two have "allJobsTerminal (ss_Results s2)" by (simp add: allJobsTerminal_unfinished)
    moreover have "map jr_ID (ss_Results s2) = map jb_ID jobs" using inv by (simp add: sched_inv_def)
    ultimately show ?thesis
      using reach True observed admitted by (subst run_loop.simps) (simp add: statuses_def)
  next
    case False
    obtain c w3 where recv: "po_Receive p w2 = (c, w3)" by (metis prod.collapse)
    from False inv have "busy w2 \<noteq> []" by (auto simp: sched_inv_def)
    with completes_onceD(4,5) [OF law, of w2] recv have i: "cp_Index c \<in> set (busy w2)"
      and left: "busy w3 = remove1 (cp_Index c) (busy w2)" by auto
    note three = settle_turn [OF inv i recv graph]
    let ?s = "settle res c s2"
    have "unfinished (ss_Results ?s) \<subset> unfinished (ss_Results s)" using one two three(3) by blast
    then have "card (unfinished (ss_Results ?s)) < card (unfinished (ss_Results s))" by (simp add: psubset_card_mono)
    moreover have "sched_inv jobs budget res (busy w3) ?s" using three(1) left by simp
    ultimately obtain results w' where "run_loop p jobs budget res ?s w3 = Some (Inr results, w')" "allJobsTerminal results"
      "map jr_ID results = map jb_ID jobs" "(sched_step p jobs budget res)\<^sup>*\<^sup>* (statuses ?s, w3) (map jr_Status results, w')"
      using less.hyps by blast
    moreover have "run_loop p jobs budget res s w = run_loop p jobs budget res ?s w3"
      using False observed admitted recv by (subst run_loop.simps) simp
    moreover have "(sched_step p jobs budget res)\<^sup>*\<^sup>* (statuses s, w) (statuses ?s, w3)"
      using reach three(2) by (rule rtranclp.rtrancl_into_rtrancl)
    ultimately show ?thesis by (metis rtranclp_trans)
  qed
qed

section \<open>Lemmas: what the check accepts\<close>

lemma validate_job_None:
  assumes "validate_job budget index seen job = None"
  shows "jb_ID job \<notin> set seen" and "jb_Run job \<noteq> None"
    and "0 < rs_CPU (normalizedResources (jb_Resources job))" and "0 < rs_MemoryMB (normalizedResources (jb_Resources job))"
    and "fits budget (normalizedResources (jb_Resources job))"
  using assms by (auto simp: validate_job_def normalizedResources_def fits_def split: if_splits)

lemma validate_jobs_None:
  assumes "validate_jobs budget index seen jobs = None"
  shows "distinct (map jb_ID jobs) \<and> set (map jb_ID jobs) \<inter> set seen = {} \<and> (\<forall>job \<in> set jobs. jb_Run job \<noteq> None \<and>
    fits budget (normalizedResources (jb_Resources job)) \<and> 0 < rs_CPU (normalizedResources (jb_Resources job)) \<and>
    0 < rs_MemoryMB (normalizedResources (jb_Resources job)))"
  using assms
proof (induction budget index seen jobs rule: validate_jobs.induct)
  case (2 budget index seen job jobs)
  then have job: "validate_job budget index seen job = None" by (auto split: option.splits)
  with 2 have "distinct (map jb_ID jobs) \<and> set (map jb_ID jobs) \<inter> set (jb_ID job # seen) = {} \<and>
    (\<forall>job \<in> set jobs. jb_Run job \<noteq> None \<and> fits budget (normalizedResources (jb_Resources job)) \<and>
      0 < rs_CPU (normalizedResources (jb_Resources job)) \<and> 0 < rs_MemoryMB (normalizedResources (jb_Resources job)))" by simp
  with validate_job_None [OF job] show ?case by auto
qed simp

lemma find_outside: "find (\<lambda>d. d \<notin> A) ds = None \<longleftrightarrow> set ds \<subseteq> A"
  by (auto simp: find_None_iff)

lemma unknown_dependency_None:
  "unknown_dependency ids jobs = None \<longleftrightarrow> (\<forall>job \<in> set jobs. set (jb_DependsOn job) \<subseteq> set ids)"
proof (induction ids jobs rule: unknown_dependency.induct)
  case (2 ids job jobs)
  then show ?case
    using find_outside [of "set ids" "jb_DependsOn job"] by (cases "find (\<lambda>d. d \<notin> set ids) (jb_DependsOn job)") auto
qed simp

lemma validate_sound:
  assumes "validate scheduler jobs = Inr (budget, res)"
  shows "sound_graph jobs budget res" and "res = map (normalizedResources \<circ> jb_Resources) jobs" and "distinct (map jb_ID jobs)"
    and "\<not> hasDependencyCycle jobs" and "0 < rs_CPU budget" and "0 < rs_MemoryMB budget"
proof -
  from assms obtain given where given: "scheduler = Some given" "budget = normalizedResources given"
    "0 \<le> rs_CPU given" "0 \<le> rs_MemoryMB given" and res: "res = map (normalizedResources \<circ> jb_Resources) jobs"
    and checked: "validate_jobs budget 0 [] jobs = None" "unknown_dependency (map jb_ID jobs) jobs = None"
    and no_cycle: "\<not> hasDependencyCycle jobs"
    by (auto simp: validate_def Let_def split: option.splits if_splits)
  note ok = validate_jobs_None [OF checked(1)]
  from ok checked(2) have "(i, j) \<in> edges jobs \<longleftrightarrow> needs jobs i j" for i j
    by (intro edges_needs) (auto simp: unknown_dependency_None)
  then have "edges jobs = {(i, j). needs jobs i j}" by auto
  with no_cycle hasDependencyCycle_edges [of jobs] have "acyclic {(i, j). needs jobs i j}" by simp
  with ok res show "sound_graph jobs budget res" by (auto simp: sound_graph_def)
  show "res = map (normalizedResources \<circ> jb_Resources) jobs" "distinct (map jb_ID jobs)" "\<not> hasDependencyCycle jobs"
    using res ok no_cycle by simp_all
  show "0 < rs_CPU budget" "0 < rs_MemoryMB budget" using given by (auto simp: normalizedResources_def)
qed

lemma first_schedule_inv:
  assumes "0 < rs_CPU budget" and "0 < rs_MemoryMB budget"
  shows "sched_inv jobs budget res [] (first_schedule jobs)"
  using assms by (auto simp: sched_inv_def first_schedule_def status_of_def pending_result_def demand_def fits_def needs_def)

lemma Run_ends:
  assumes law: "completes_once p busy" and "busy w = []" and valid: "validate scheduler jobs = Inr (budget, res)"
  shows "\<exists>results w'. Run p scheduler True jobs w = Some (Inr results, w') \<and> allJobsTerminal results \<and>
    map jr_ID results = map jb_ID jobs \<and>
    (sched_step p jobs budget res)\<^sup>*\<^sup>* (replicate (length jobs) StatusPending, w) (map jr_Status results, w')"
proof (cases "jobs = []")
  case True
  with valid show ?thesis by (simp add: Run_def allJobsTerminal_def)
next
  case False
  have inv: "sched_inv jobs budget res (busy w) (first_schedule jobs)"
    unfolding assms(2) by (rule first_schedule_inv [OF validate_sound(5,6) [OF valid]])
  have first: "statuses (first_schedule jobs) = replicate (length jobs) StatusPending"
    by (simp add: statuses_def first_schedule_def comp_def pending_result_def map_replicate_const)
  show ?thesis
    using run_loop_ends [OF law validate_sound(1) [OF valid] inv] False valid unfolding first by (simp add: Run_def)
qed

lemma noting_completes: "completes_once p busy \<Longrightarrow> completes_once (noting_pool p) (\<lambda>(w, log). busy w)"
  by (auto simp: completes_once_def noting_pool_def split: prod.splits) (metis fst_conv snd_conv)+

section \<open>Properties\<close>

text \<open>
  C33. The cycle check is exact: among jobs with distinct IDs that name only one another, it answers
  yes exactly where some job waits for itself, directly or through others.
\<close>

theorem cycle_check_is_exact:
  assumes "distinct (map jb_ID jobs)" and "\<And>job d. job \<in> set jobs \<Longrightarrow> d \<in> set (jb_DependsOn job) \<Longrightarrow> d \<in> jb_ID ` set jobs"
  shows "hasDependencyCycle jobs \<longleftrightarrow> (\<exists>i. (needs jobs)\<^sup>+\<^sup>+ i i)"
proof -
  have "edges jobs = {(i, j). needs jobs i j}" using edges_needs [OF assms] by auto
  then have "(i, i) \<in> (edges jobs)\<^sup>+ \<longleftrightarrow> (needs jobs)\<^sup>+\<^sup>+ i i" for i by (simp add: trancl_def)
  then show ?thesis by (simp add: hasDependencyCycle_edges acyclic_def)
qed

definition demo_job :: "string \<Rightarrow> string list \<Rightarrow> int \<Rightarrow> unit job" where
  "demo_job name deps cpu = \<lparr>jb_ID = name, jb_Kind = ''lint'', jb_DependsOn = deps,
     jb_Resources = \<lparr>rs_CPU = cpu, rs_MemoryMB = 0\<rparr>, jb_Run = Some ()\<rparr>"

theorem cycle_check_is_exact_witness:
  "\<exists>i. (needs [demo_job ''a'' [''b''] 1, demo_job ''b'' [''a''] 1])\<^sup>+\<^sup>+ i i"
proof -
  let ?jobs = "[demo_job ''a'' [''b''] 1, demo_job ''b'' [''a''] 1]"
  have ids: "distinct (map jb_ID ?jobs)" by code_simp
  have "hasDependencyCycle ?jobs" by code_simp
  moreover have "d \<in> jb_ID ` set ?jobs" if "job \<in> set ?jobs" "d \<in> set (jb_DependsOn job)" for job d
    using that by (auto simp: demo_job_def)
  ultimately show ?thesis using cycle_check_is_exact [OF ids] by blast
qed

text \<open>
  C11. A graph that passes the check always runs to its end, whatever the order in which its jobs
  complete: every job has a final status, none is left waiting for room in the budget, and the
  statuses were reached by steps of the relation above alone.
\<close>

theorem scheduler_finishes:
  assumes "completes_once p busy" and "busy w = []" and "validate scheduler jobs = Inr (budget, res)"
  shows "\<exists>results w'. Run p scheduler True jobs w = Some (Inr results, w') \<and> allJobsTerminal results \<and>
    map jr_ID results = map jb_ID jobs \<and>
    (sched_step p jobs budget res)\<^sup>*\<^sup>* (replicate (length jobs) StatusPending, w) (map jr_Status results, w')"
  using assms by (rule Run_ends)

text \<open>The last job started completes first, and the job of index one fails.\<close>

definition demo_pool :: "(unit, unit, nat list) pool" where
  "demo_pool = \<lparr>po_Cancelled = (\<lambda>w. (False, w)), po_Now = (\<lambda>w. (0, w)), po_Go = (\<lambda>i run w. i # w),
     po_Receive = (\<lambda>w. (\<lparr>cp_Index = hd w, cp_Evidence = (\<lambda>_. None),
        cp_Err = (if hd w = 1 then Some (Errorf ''failed'' []) else None), cp_Finished = 0, cp_Cancelled = False\<rparr>, tl w))\<rparr>"

definition demo_graph :: "unit job list" where
  "demo_graph = [demo_job ''lint'' [] 2, demo_job ''phpstan'' [] 1, demo_job ''report'' [''lint''] 1, demo_job ''merge'' [''phpstan'', ''report''] 0]"

lemma demo_length: "length demo_graph = 4"
  by (simp add: demo_graph_def)

lemma demo_completes: "completes_once demo_pool id"
  by (auto simp: completes_once_def demo_pool_def neq_Nil_conv)

lemma demo_valid:
  "validate (Some \<lparr>rs_CPU = 2, rs_MemoryMB = 8\<rparr>) demo_graph =
     Inr (\<lparr>rs_CPU = 2, rs_MemoryMB = 8\<rparr>, map (normalizedResources \<circ> jb_Resources) demo_graph)"
  by code_simp

theorem scheduler_finishes_witness:
  "\<exists>results w'. Run demo_pool (Some \<lparr>rs_CPU = 2, rs_MemoryMB = 8\<rparr>) True demo_graph [] = Some (Inr results, w') \<and>
     allJobsTerminal results"
  using scheduler_finishes [OF demo_completes _ demo_valid, of "[]"] by auto

text \<open>Whether a record of what was started and received keeps the budget and the order.\<close>

fun safe_log :: "'f job list \<Rightarrow> resources \<Rightarrow> resources list \<Rightarrow> sched_event list \<Rightarrow> bool" where
  "safe_log jobs budget res [] = True"
| "safe_log jobs budget res (Started i # log) =
     (fits budget (demand res (in_flight (Started i # log))) \<and>
      list_all (\<lambda>j. needs jobs i j \<longrightarrow> Finished j True \<in> set log) [0..<length jobs] \<and> safe_log jobs budget res log)"
| "safe_log jobs budget res (Finished i passed # log) = (i \<in> set (in_flight log) \<and> safe_log jobs budget res log)"

definition log_inv :: "'f job list \<Rightarrow> resources \<Rightarrow> resources list \<Rightarrow> audit_status list \<Rightarrow> sched_event list \<Rightarrow> bool" where
  "log_inv jobs budget res st log \<longleftrightarrow>
     safe_log jobs budget res log \<and> distinct (in_flight log) \<and> set (in_flight log) = set (running st) \<and>
     (\<forall>i < length st. st ! i = StatusPassed \<longrightarrow> Finished i True \<in> set log)"

lemma set_running: "set (running st) = {i. i < length st \<and> st ! i = StatusRunning}"
  by (auto simp: running_def)

lemma log_inv_step:
  assumes "sched_step (noting_pool p) jobs budget res (st, wl) (st', wl')" and "log_inv jobs budget res st (snd wl)"
    and "length st = length jobs"
  shows "log_inv jobs budget res st' (snd wl') \<and> length st' = length jobs"
  using assms
proof cases
  case (interrupt)
  then show ?thesis
    using assms by (auto simp: log_inv_def set_running noting_pool_def split: prod.splits if_splits)
next
  case (block i j)
  then show ?thesis
    using assms by (auto simp: log_inv_def set_running nth_list_update)
next
  case (commence i run)
  obtain w log where wl: "wl = (w, log)" by (cases wl)
  have log': "snd wl' = Started i # log" using commence wl by (simp add: noting_pool_def)
  have inv: "safe_log jobs budget res log" "distinct (in_flight log)" "set (in_flight log) = set (running st)"
    and passed: "\<And>j. j < length st \<Longrightarrow> st ! j = StatusPassed \<Longrightarrow> Finished j True \<in> set log"
    using assms(2) wl by (auto simp: log_inv_def)
  have "demand res (in_flight log) = demand res (running st)"
    by (rule demand_same_set) (use inv in \<open>simp_all add: running_def\<close>)
  then have "fits budget (demand res (in_flight (Started i # log)))" using commence by (simp add: demand_Cons)
  moreover have "needs jobs i j \<Longrightarrow> Finished j True \<in> set log" for j
    using commence passed assms(3) by (simp add: needs_def)
  moreover have "i \<notin> set (running st)" using commence by (simp add: set_running)
  moreover have "set (running st') = insert i (set (running st))"
    using commence by (auto simp: set_running nth_list_update)
  ultimately show ?thesis
    using commence inv passed assms(3) unfolding log'
    by (auto simp: log_inv_def list_all_iff nth_list_update)
next
  case (complete c)
  obtain w log where wl: "wl = (w, log)" by (cases wl)
  let ?i = "cp_Index c"
  have log': "snd wl' = Finished ?i (verdict c = StatusPassed) # log"
    using complete wl by (auto simp: noting_pool_def verdict_def split: prod.splits)
  have inv: "safe_log jobs budget res log" "distinct (in_flight log)" "set (in_flight log) = set (running st)"
    and passed: "\<And>j. j < length st \<Longrightarrow> st ! j = StatusPassed \<Longrightarrow> Finished j True \<in> set log"
    using assms(2) wl by (auto simp: log_inv_def)
  have "set (running st') = set (running st) - {?i}"
    using complete by (auto simp: set_running nth_list_update verdict_def)
  moreover have "?i \<in> set (in_flight log)" using complete inv by (simp add: set_running)
  ultimately show ?thesis
    using complete inv passed assms(3) unfolding log' by (auto simp: log_inv_def nth_list_update)
qed (use assms in \<open>auto simp: noting_pool_def split: prod.splits\<close>)

lemma log_inv_steps:
  assumes "(sched_step (noting_pool p) jobs budget res)\<^sup>*\<^sup>* (st, wl) (st', wl')" and "log_inv jobs budget res st (snd wl)"
    and "length st = length jobs"
  shows "log_inv jobs budget res st' (snd wl') \<and> length st' = length jobs"
  using assms by (induction "(st', wl')" arbitrary: st' wl' rule: rtranclp_induct) (auto dest: log_inv_step)

text \<open>
  C12. The budget and the order are kept at every moment of a run: whenever a job is started, what the
  jobs in flight demand together, it included, fits the budget, and the completion of every job it
  depends on has been received and was a success.
\<close>

theorem scheduler_keeps_budget_and_order:
  assumes "completes_once p busy" and "busy w = []" and "validate scheduler jobs = Inr (budget, res)"
    and "Run (noting_pool p) scheduler True jobs (w, []) = Some (result, (w', log))"
  shows "safe_log jobs budget res log"
proof -
  obtain results wl where run: "Run (noting_pool p) scheduler True jobs (w, []) = Some (Inr results, wl)"
    and steps: "(sched_step (noting_pool p) jobs budget res)\<^sup>*\<^sup>* (replicate (length jobs) StatusPending, (w, [])) (map jr_Status results, wl)"
    using Run_ends [OF noting_completes [OF assms(1)] _ assms(3), of "(w, [])"] assms(2) by auto
  have "log_inv jobs budget res (replicate (length jobs) StatusPending) []" by (simp add: log_inv_def running_def)
  with log_inv_steps [OF steps] have "safe_log jobs budget res (snd wl)" by (simp add: log_inv_def)
  moreover have "wl = (w', log)" using run assms(4) by simp
  ultimately show ?thesis by simp
qed

theorem scheduler_keeps_budget_and_order_witness:
  "\<exists>result w' log. Run (noting_pool demo_pool) (Some \<lparr>rs_CPU = 2, rs_MemoryMB = 8\<rparr>) True demo_graph ([], []) = Some (result, (w', log)) \<and>
     safe_log demo_graph \<lparr>rs_CPU = 2, rs_MemoryMB = 8\<rparr> (map (normalizedResources \<circ> jb_Resources) demo_graph) log"
proof -
  have "case Run (noting_pool demo_pool) (Some \<lparr>rs_CPU = 2, rs_MemoryMB = 8\<rparr>) True demo_graph ([], []) of
      Some (Inr results, (w', log)) \<Rightarrow> map jr_Status results = [StatusPassed, StatusFailed, StatusPassed, StatusCancelled]
    | _ \<Rightarrow> False" by code_simp
  then obtain result w' log where
    run: "Run (noting_pool demo_pool) (Some \<lparr>rs_CPU = 2, rs_MemoryMB = 8\<rparr>) True demo_graph ([], []) = Some (result, (w', log))"
    by (auto split: option.splits)
  from scheduler_keeps_budget_and_order [OF demo_completes _ demo_valid run] run show ?thesis by auto
qed

text \<open>What the failures of the jobs alone decide.\<close>

definition expected :: "'f job list \<Rightarrow> (nat \<Rightarrow> bool) \<Rightarrow> nat \<Rightarrow> audit_status" where
  "expected jobs fails i =
     (if \<exists>j. (needs jobs)\<^sup>+\<^sup>+ i j \<and> fails j then StatusCancelled else if fails i then StatusFailed else StatusPassed)"

text \<open>The context is never cancelled, and whether a job fails is its own doing.\<close>

definition undisturbed :: "('f, 'v, 'w) pool \<Rightarrow> (nat \<Rightarrow> bool) \<Rightarrow> bool" where
  "undisturbed p fails \<longleftrightarrow>
     (\<forall>w. \<not> fst (po_Cancelled p w)) \<and>
     (\<forall>w c w'. po_Receive p w = (c, w') \<longrightarrow> \<not> cp_Cancelled c \<and> (cp_Err c \<noteq> None \<longleftrightarrow> fails (cp_Index c)))"

definition explained :: "'f job list \<Rightarrow> (nat \<Rightarrow> bool) \<Rightarrow> audit_status list \<Rightarrow> nat \<Rightarrow> bool" where
  "explained jobs fails st i \<longleftrightarrow>
     (st ! i \<in> {StatusRunning, StatusPassed, StatusFailed} \<longrightarrow> (\<forall>j. needs jobs i j \<longrightarrow> st ! j = StatusPassed)) \<and>
     (st ! i = StatusPassed \<longrightarrow> \<not> fails i) \<and> (st ! i = StatusFailed \<longrightarrow> fails i) \<and>
     (st ! i = StatusCancelled \<longrightarrow> (\<exists>j. needs jobs i j \<and> st ! j \<in> {StatusFailed, StatusCancelled})) \<and>
     st ! i \<noteq> StatusNotComparable"

text \<open>A status that is final is explained by statuses that are final.\<close>

lemma explained_update:
  assumes "\<And>k. k < length st \<Longrightarrow> explained jobs fails st k" and "i < length st" and "length st = length jobs"
    and "st ! i \<in> {StatusPending, StatusRunning}" and "explained jobs fails (st[i := x]) i" and "k < length st"
  shows "explained jobs fails (st[i := x]) k"
proof (cases "k = i")
  case False
  have passed: "st[i := x] ! j = StatusPassed" if "st ! j = StatusPassed" for j
    using that assms(4) by (cases "j = i") auto
  have ended: "st[i := x] ! j \<in> {StatusFailed, StatusCancelled}" if "st ! j \<in> {StatusFailed, StatusCancelled}" for j
    using that assms(4) by (cases "j = i") auto
  have same: "st[i := x] ! k = st ! k" using False by simp
  from assms(1) [OF assms(6)] show ?thesis
    unfolding explained_def same using passed ended by blast
qed (use assms(5) in simp)

lemma needs_irreflexive: "acyclic {(i, j). needs jobs i j} \<Longrightarrow> \<not> needs jobs i i"
  unfolding acyclic_def by blast

lemma explained_step:
  assumes "sched_step p jobs budget res (st, w) (st', w')" and "undisturbed p fails" and "acyclic {(i, j). needs jobs i j}"
    and "length st = length jobs" and "\<And>k. k < length st \<Longrightarrow> explained jobs fails st k"
  shows "length st' = length jobs \<and> (\<forall>k < length jobs. explained jobs fails st' k)"
  using assms(1)
proof cases
  case interrupt
  with assms(2) show ?thesis by (simp add: undisturbed_def)
next
  case (block i j)
  then have "j \<noteq> i" by auto
  with block have "explained jobs fails (st[i := StatusCancelled]) i" by (auto simp: explained_def)
  with block assms(4,5) show ?thesis by (auto intro!: explained_update)
next
  case (commence i run)
  have "explained jobs fails (st[i := StatusRunning]) i"
    using commence needs_irreflexive [OF assms(3)] by (auto simp: explained_def nth_list_update)
  with commence assms(4,5) show ?thesis by (auto intro!: explained_update)
next
  case (complete c)
  have ran: "\<And>j. needs jobs (cp_Index c) j \<Longrightarrow> st ! j = StatusPassed"
    using assms(5) [of "cp_Index c"] complete by (simp add: explained_def)
  have "\<not> cp_Cancelled c" "cp_Err c \<noteq> None \<longleftrightarrow> fails (cp_Index c)"
    using complete assms(2) unfolding undisturbed_def by blast+
  then have "verdict c = (if fails (cp_Index c) then StatusFailed else StatusPassed)"
    by (cases "cp_Err c") (auto simp: verdict_def)
  then have "explained jobs fails (st[cp_Index c := verdict c]) (cp_Index c)"
    using complete ran needs_irreflexive [OF assms(3), of "cp_Index c"] by (auto simp: explained_def nth_list_update)
  with complete assms(4,5) show ?thesis by (auto intro!: explained_update)
qed (use assms in auto)

lemma explained_steps:
  assumes "(sched_step p jobs budget res)\<^sup>*\<^sup>* (st, w) (st', w')" and "undisturbed p fails" and "acyclic {(i, j). needs jobs i j}"
    and "length st = length jobs" and "\<forall>k < length jobs. explained jobs fails st k"
  shows "length st' = length jobs \<and> (\<forall>k < length jobs. explained jobs fails st' k)"
  using assms
proof (induction "(st', w')" arbitrary: st' w' rule: rtranclp_induct)
  case (step y)
  then show ?case using explained_step [of p jobs budget res "fst y" "snd y"] by (cases y) auto
qed simp

lemma explained_expected:
  assumes "\<And>k. k < length jobs \<Longrightarrow> explained jobs fails st k" and "acyclic {(i, j). needs jobs i j}"
    and final: "\<And>k. k < length jobs \<Longrightarrow> st ! k \<notin> {StatusPending, StatusRunning}" and "i < length jobs"
  shows "st ! i = expected jobs fails i"
proof -
  have bound: "needs jobs a b \<Longrightarrow> a < length jobs \<and> b < length jobs" for a b by (simp add: needs_def)
  have below: "st ! j = StatusPassed" if "(needs jobs)\<^sup>+\<^sup>+ k j" "st ! k \<in> {StatusPassed, StatusFailed}" for k j
    using that
  proof (induction rule: tranclp_induct)
    case (base j)
    have "explained jobs fails st k" using bound [OF base(1)] by (intro assms(1)) simp
    with base show ?case unfolding explained_def by blast
  next
    case (step j m)
    have "explained jobs fails st j" using bound [OF step(2)] by (intro assms(1)) simp
    with step(2) step(3) [OF step(4)] show ?case unfolding explained_def by blast
  qed
  have passes: "\<not> fails j" if "(needs jobs)\<^sup>+\<^sup>+ k j" "st ! k \<in> {StatusPassed, StatusFailed}" for k j
  proof -
    from that(1) bound have "j < length jobs" by cases auto
    from assms(1) [OF this] below [OF that] show ?thesis by (simp add: explained_def)
  qed
  have cause: "\<exists>j. (needs jobs)\<^sup>+\<^sup>+ k j \<and> fails j" if "k < length jobs" "st ! k = StatusCancelled" for k
  proof (rule ccontr)
    let ?Q = "{k. k < length jobs \<and> st ! k = StatusCancelled \<and> \<not> (\<exists>j. (needs jobs)\<^sup>+\<^sup>+ k j \<and> fails j)}"
    assume "\<not> (\<exists>j. (needs jobs)\<^sup>+\<^sup>+ k j \<and> fails j)"
    with that have "?Q \<noteq> {}" "?Q \<subseteq> {..<length jobs}" by auto
    then obtain m where m: "m \<in> ?Q" and least: "\<And>j. needs jobs m j \<Longrightarrow> j \<notin> ?Q"
      using acyclic_minimal [OF assms(2)] by meson
    with assms(1) [of m] obtain j where j: "needs jobs m j" "st ! j \<in> {StatusFailed, StatusCancelled}"
      by (auto simp: explained_def)
    show False
    proof (cases "st ! j = StatusFailed")
      case True
      with assms(1) [of j] bound [OF j(1)] have "fails j" by (simp add: explained_def)
      with m j(1) show False by blast
    next
      case False
      with j least [OF j(1)] bound [OF j(1)] obtain l where "(needs jobs)\<^sup>+\<^sup>+ j l" "fails l" by auto
      with m j(1) show False by (auto dest: tranclp_into_tranclp2)
    qed
  qed
  show ?thesis
    using assms(1) [OF assms(4)] final [OF assms(4)] passes [of i] cause [OF assms(4)]
    by (cases "st ! i") (auto simp: expected_def explained_def)
qed

text \<open>
  C13. The order in which jobs complete does not matter: where nothing is cancelled from outside, the
  statuses at the end are decided by which jobs fail.  A job is cancelled where something it
  depends on, directly or not, fails; otherwise it is failed or passed as it ends.
\<close>

theorem scheduler_result_is_determined:
  assumes "completes_once p busy" and "busy w = []" and "undisturbed p fails" and "validate scheduler jobs = Inr (budget, res)"
    and "Run p scheduler True jobs w = Some (Inr results, w')"
  shows "map jr_Status results = map (expected jobs fails) [0..<length jobs]"
proof -
  have graph: "acyclic {(i, j). needs jobs i j}" using validate_sound(1) [OF assms(4)] by (simp add: sound_graph_def)
  have steps: "(sched_step p jobs budget res)\<^sup>*\<^sup>* (replicate (length jobs) StatusPending, w) (map jr_Status results, w')"
    and final: "allJobsTerminal results"
    using Run_ends [OF assms(1,2,4)] assms(5) by auto
  have "\<forall>k < length jobs. explained jobs fails (replicate (length jobs) StatusPending) k" by (simp add: explained_def)
  from explained_steps [OF steps assms(3) graph _ this] have len: "length results = length jobs"
    and explained: "\<And>k. k < length jobs \<Longrightarrow> explained jobs fails (map jr_Status results) k" by auto
  show ?thesis
  proof (rule nth_equalityI)
    fix i assume "i < length (map jr_Status results)"
    then have i: "i < length jobs" using len by simp
    have "map jr_Status results ! i = expected jobs fails i"
      by (rule explained_expected [OF explained graph _ i]) (use final len in \<open>auto simp: allJobsTerminal_def list_all_length\<close>)
    with i show "map jr_Status results ! i = map (expected jobs fails) [0..<length jobs] ! i" by simp
  qed (simp add: len)
qed

theorem scheduler_result_is_determined_witness:
  "map (expected demo_graph (\<lambda>i. i = 1)) [0..<4] = [StatusPassed, StatusFailed, StatusPassed, StatusCancelled]"
proof -
  let ?run = "Run demo_pool (Some \<lparr>rs_CPU = 2, rs_MemoryMB = 8\<rparr>) True demo_graph []"
  have "case ?run of Some (Inr results, w') \<Rightarrow> map jr_Status results = [StatusPassed, StatusFailed, StatusPassed, StatusCancelled]
    | _ \<Rightarrow> False" by code_simp
  then obtain results w' where run: "?run = Some (Inr results, w')"
    and statuses: "map jr_Status results = [StatusPassed, StatusFailed, StatusPassed, StatusCancelled]"
    by (auto split: option.splits sum.splits prod.splits)
  have "undisturbed demo_pool (\<lambda>i. i = 1)" by (simp add: undisturbed_def demo_pool_def)
  from scheduler_result_is_determined [OF demo_completes _ this demo_valid run] statuses
  have "map (expected demo_graph (\<lambda>i. i = 1)) [0..<length demo_graph] = [StatusPassed, StatusFailed, StatusPassed, StatusCancelled]"
    by (simp only: id_apply)
  then show ?thesis by (simp only: demo_length)
qed

end
