(* ===== verification/Gateway.thy ===== *)
theory Gateway
  imports Prelude "HOL-Library.AList"
begin

text \<open>
  The registry of the SSH gateway (\<open>internal/gateway\<close>): the usernames it routes, the client keys
  it accepts, the two flat files it is rendered to, the commands that change it
  (\<open>internal/cmd/gateway.go\<close>, the registration and the pruning of \<open>sandbox_lifecycle.go\<close>), and
  the scripts of the gateway's image that read the files (\<open>docker/sshd\<close>), which are what the
  rendering has to agree with.

  The encoder of base64, the digest, the JSON codec, the clock and the file system are arguments.
  The map of the targets is an association list with distinct keys.
\<close>

section \<open>The registry\<close>

definition reservedUsers :: "string list" where
  "reservedUsers = [''root'', ''admin'', ''govard'', ''sshd'', ''nobody'']"

definition allowedKeyTypes :: "string list" where
  "allowedKeyTypes =
     [''ssh-rsa'', ''ssh-dss'', ''ecdsa-sha2-nistp256'', ''ecdsa-sha2-nistp384'', ''ecdsa-sha2-nistp521'',
      ''ssh-ed25519'', ''sk-ssh-ed25519@openssh.com'', ''sk-ecdsa-sha2-nistp256@openssh.com'']"

record gateway_target =
  gt_Container :: string
  gt_TargetUser :: string
  gt_Project :: string

record allowed_key =
  ak_Fingerprint :: string
  ak_KeyType :: string
  ak_KeyData :: string
  ak_Comment :: string
  ak_Added :: string

record registry =
  reg_Targets :: "(string \<times> gateway_target) list"
  reg_Allowlist :: "allowed_key list"

definition empty_registry :: registry where
  "empty_registry = \<lparr>reg_Targets = [], reg_Allowlist = []\<rparr>"

definition route_char :: "char \<Rightarrow> bool" where
  "route_char c \<longleftrightarrow> CHR ''a'' \<le> c \<and> c \<le> CHR ''z'' \<or> CHR ''0'' \<le> c \<and> c \<le> CHR ''9'' \<or> c = CHR ''-''"

definition RouteUsername :: "string \<Rightarrow> string option" where
  "RouteUsername project =
     (let slug = map (\<lambda>c. if c = CHR ''_'' then CHR ''-'' else c) (to_lower project) in
      if slug = [] then None else if list_all route_char slug then Some slug else None)"

definition AddTarget :: "string \<Rightarrow> gateway_target \<Rightarrow> registry \<Rightarrow> go_error option \<times> registry" where
  "AddTarget user t r =
     (if to_lower user \<in> set reservedUsers then
        (Some (Errorf ''%q is a reserved gateway username and cannot be a target'' [user]), r)
      else if user = [] then (Some (Errorf ''a gateway target needs a non-empty username'' []), r)
      else case map_of (reg_Targets r) user of
        Some existing \<Rightarrow>
          if gt_Container existing \<noteq> gt_Container t then
            (Some (Errorf ''gateway user %q is already routed to container %q (wanted %q)''
               [user, gt_Container existing, gt_Container t]), r)
          else (None, r\<lparr>reg_Targets := AList.update user t (reg_Targets r)\<rparr>)
      | None \<Rightarrow> (None, r\<lparr>reg_Targets := AList.update user t (reg_Targets r)\<rparr>))"

definition RemoveTarget :: "string \<Rightarrow> registry \<Rightarrow> registry" where
  "RemoveTarget user r = r\<lparr>reg_Targets := AList.delete user (reg_Targets r)\<rparr>"

text \<open>What the standard library gives: base64 with and without padding, SHA-256, the clock.\<close>

record 'w crypto =
  cr_Decode :: "string \<Rightarrow> go_error + string"
  cr_RawEncode :: "string \<Rightarrow> string"
  cr_Sum :: "string \<Rightarrow> string"
  cr_Now :: "'w \<Rightarrow> string"

definition Fingerprint :: "'w crypto \<Rightarrow> string \<Rightarrow> go_error + string" where
  "Fingerprint cr keyData =
     (case cr_Decode cr keyData of
        Inl err \<Rightarrow> Inl (Wrapf ''decode key material: %w'' [] err)
      | Inr blob \<Rightarrow> Inr (''SHA256:'' @ cr_RawEncode cr (cr_Sum cr blob)))"

fun refresh_key :: "string \<Rightarrow> string \<Rightarrow> string \<Rightarrow> allowed_key list \<Rightarrow> allowed_key list option" where
  "refresh_key fingerprint comment now [] = None"
| "refresh_key fingerprint comment now (k # ks) =
     (if ak_Fingerprint k = fingerprint then Some (k\<lparr>ak_Comment := comment, ak_Added := now\<rparr> # ks)
      else map_option ((#) k) (refresh_key fingerprint comment now ks))"

definition AllowKey :: "'w crypto \<Rightarrow> string \<Rightarrow> registry \<Rightarrow> 'w \<Rightarrow> (go_error + string) \<times> registry" where
  "AllowKey cr pubLine r w =
     (if contains_any pubLine [CHR 0x0A, CHR 0x0D] then (Inl (Errorf ''key comment must not contain a newline'' []), r)
      else case Fields (trim_space pubLine) of
        keyType # keyData # rest \<Rightarrow>
          (let comment = join '' '' rest in
           if keyType \<notin> set allowedKeyTypes then
             (Inl (Errorf ''unsupported key type %q (want one of ssh-rsa, ssh-dss, ecdsa-sha2-nistp256, ecdsa-sha2-nistp384, ecdsa-sha2-nistp521, ssh-ed25519, sk-ssh-ed25519@openssh.com, sk-ecdsa-sha2-nistp256@openssh.com)'' [keyType]), r)
           else case Fingerprint cr keyData of
             Inl err \<Rightarrow> (Inl err, r)
           | Inr fingerprint \<Rightarrow>
               (case refresh_key fingerprint comment (cr_Now cr w) (reg_Allowlist r) of
                  Some keys \<Rightarrow> (Inr fingerprint, r\<lparr>reg_Allowlist := keys\<rparr>)
                | None \<Rightarrow>
                    (Inr fingerprint,
                     r\<lparr>reg_Allowlist := reg_Allowlist r @
                       [\<lparr>ak_Fingerprint = fingerprint, ak_KeyType = keyType, ak_KeyData = keyData, ak_Comment = comment,
                         ak_Added = cr_Now cr w\<rparr>]\<rparr>)))
      | _ \<Rightarrow> (Inl (Errorf ''not a public key line: %q'' [pubLine]), r))"

definition names_key :: "string \<Rightarrow> allowed_key \<Rightarrow> bool" where
  "names_key wanted k \<longleftrightarrow> ak_Fingerprint k = wanted \<or> ak_Comment k = wanted"

definition RevokeKey :: "string \<Rightarrow> registry \<Rightarrow> go_error option \<times> registry" where
  "RevokeKey wanted r =
     (if \<not> list_ex (names_key wanted) (reg_Allowlist r) then (Some (Errorf ''no allowlisted key matches %q'' [wanted]), r)
      else (None, r\<lparr>reg_Allowlist := filter (\<lambda>k. \<not> names_key wanted k) (reg_Allowlist r)\<rparr>))"

section \<open>The flat files\<close>

definition target_line :: "string \<Rightarrow> gateway_target \<Rightarrow> string" where
  "target_line user t = user @ '' '' @ gt_Container t @ '' '' @ gt_TargetUser t @ [CHR 0x0A]"

definition targets_text :: "registry \<Rightarrow> string" where
  "targets_text r =
     concat (map (\<lambda>user. target_line user (the (map_of (reg_Targets r) user))) (sort (map fst (reg_Targets r))))"

definition key_line :: "allowed_key \<Rightarrow> string" where
  "key_line k = ak_Fingerprint k @ '' '' @ ak_KeyType k @ '' '' @ ak_KeyData k @ '' '' @ ak_Comment k @ [CHR 0x0A]"

definition keys_text :: "registry \<Rightarrow> string" where
  "keys_text r = concat (map key_line (sort_key ak_Fingerprint (reg_Allowlist r)))"

record 'w registry_fs =
  gf_ReadFile :: "string \<Rightarrow> 'w \<Rightarrow> go_error + string"
  gf_MkdirAll :: "string \<Rightarrow> int \<Rightarrow> 'w \<Rightarrow> go_error option \<times> 'w"
  gf_Chmod :: "string \<Rightarrow> int \<Rightarrow> 'w \<Rightarrow> go_error option \<times> 'w"
  gf_CreateTemp :: "string \<Rightarrow> string \<Rightarrow> 'w \<Rightarrow> (go_error + string) \<times> 'w"
  gf_Write :: "string \<Rightarrow> string \<Rightarrow> 'w \<Rightarrow> go_error option \<times> 'w"
  gf_Close :: "string \<Rightarrow> 'w \<Rightarrow> go_error option \<times> 'w"
  gf_Rename :: "string \<Rightarrow> string \<Rightarrow> 'w \<Rightarrow> go_error option \<times> 'w"
  gf_Remove :: "string \<Rightarrow> 'w \<Rightarrow> 'w"
  gf_Marshal :: "registry \<Rightarrow> go_error + string"
  gf_Unmarshal :: "string \<Rightarrow> go_error + registry"
  gf_Home :: string

text \<open>The steps after the temporary file exists; it is removed on every way out.\<close>

definition fill_and_rename ::
  "'w registry_fs \<Rightarrow> string \<Rightarrow> string \<Rightarrow> string \<Rightarrow> int \<Rightarrow> 'w \<Rightarrow> go_error option \<times> 'w" where
  "fill_and_rename fs tmp path content mode w =
     (case gf_Write fs tmp content w of
        (Some err, w) \<Rightarrow> (Some (Wrapf ''write %s: %w'' [path] err), snd (gf_Close fs tmp w))
      | (None, w) \<Rightarrow>
     (case gf_Close fs tmp w of
        (Some err, w) \<Rightarrow> (Some (Wrapf ''write %s: %w'' [path] err), w)
      | (None, w) \<Rightarrow>
     (case gf_Chmod fs tmp mode w of
        (Some err, w) \<Rightarrow> (Some (Wrapf ''chmod %s: %w'' [path] err), w)
      | (None, w) \<Rightarrow>
     (case gf_Rename fs tmp path w of
        (Some err, w) \<Rightarrow> (Some (Wrapf ''write %s: %w'' [path] err), w)
      | (None, w) \<Rightarrow>
     (case gf_Chmod fs path mode w of
        (Some err, w) \<Rightarrow> (Some (Wrapf ''chmod %s: %w'' [path] err), w)
      | (None, w) \<Rightarrow> (None, w))))))"

definition writeFileAtomic ::
  "'w registry_fs \<Rightarrow> string \<Rightarrow> string \<Rightarrow> string \<Rightarrow> int \<Rightarrow> 'w \<Rightarrow> go_error option \<times> 'w" where
  "writeFileAtomic fs dir name content mode w =
     (let path = path_join [dir, name] in
      case gf_CreateTemp fs dir (name @ ''.tmp-*'') w of
        (Inl err, w) \<Rightarrow> (Some (Wrapf ''write %s: %w'' [path] err), w)
      | (Inr tmp, w) \<Rightarrow>
          (case fill_and_rename fs tmp path content mode w of (result, w) \<Rightarrow> (result, gf_Remove fs tmp w)))"

definition GatewayDir :: "'w registry_fs \<Rightarrow> string" where
  "GatewayDir fs = path_join [gf_Home fs, ''gateway'']"

definition registryPath :: "'w registry_fs \<Rightarrow> string" where
  "registryPath fs = path_join [GatewayDir fs, ''registry.json'']"

text \<open>The directory, with the mode the container's account needs to enter it.\<close>

definition prepare_dir :: "'w registry_fs \<Rightarrow> 'w \<Rightarrow> go_error option \<times> 'w" where
  "prepare_dir fs w =
     (case gf_MkdirAll fs (GatewayDir fs) 493 w of
        (Some err, w) \<Rightarrow> (Some (Wrapf ''create %s: %w'' [GatewayDir fs] err), w)
      | (None, w) \<Rightarrow>
     (case gf_Chmod fs (GatewayDir fs) 493 w of
        (Some err, w) \<Rightarrow> (Some (Wrapf ''chmod %s: %w'' [GatewayDir fs] err), w)
      | (None, w) \<Rightarrow> (None, w)))"

definition RenderFlatFiles :: "'w registry_fs \<Rightarrow> registry \<Rightarrow> 'w \<Rightarrow> go_error option \<times> 'w" where
  "RenderFlatFiles fs r w =
     (case prepare_dir fs w of
        (Some err, w) \<Rightarrow> (Some err, w)
      | (None, w) \<Rightarrow>
     (case writeFileAtomic fs (GatewayDir fs) ''targets'' (targets_text r) 420 w of
        (Some err, w) \<Rightarrow> (Some (Wrapf ''render targets: %w'' [] err), w)
      | (None, w) \<Rightarrow>
     (case writeFileAtomic fs (GatewayDir fs) ''keys'' (keys_text r) 420 w of
        (Some err, w) \<Rightarrow> (Some (Wrapf ''render keys: %w'' [] err), w)
      | (None, w) \<Rightarrow> (None, w))))"

definition Save :: "'w registry_fs \<Rightarrow> registry \<Rightarrow> 'w \<Rightarrow> go_error option \<times> 'w" where
  "Save fs r w =
     (case prepare_dir fs w of
        (Some err, w) \<Rightarrow> (Some err, w)
      | (None, w) \<Rightarrow>
     (case gf_Marshal fs r of
        Inl err \<Rightarrow> (Some (Wrapf ''marshal registry: %w'' [] err), w)
      | Inr encoded \<Rightarrow>
     (case writeFileAtomic fs (GatewayDir fs) ''registry.json'' (encoded @ [CHR 0x0A]) 384 w of
        (Some err, w) \<Rightarrow> (Some err, w)
      | (None, w) \<Rightarrow> RenderFlatFiles fs r w)))"

definition Load :: "'w registry_fs \<Rightarrow> 'w \<Rightarrow> go_error + registry" where
  "Load fs w =
     (case gf_ReadFile fs (registryPath fs) w of
        Inl err \<Rightarrow>
          if errors_is err ErrNotExist then Inr empty_registry
          else Inl (Wrapf ''read %s: %w'' [registryPath fs] err)
      | Inr content \<Rightarrow>
          (case gf_Unmarshal fs content of
             Inl err \<Rightarrow> Inl (Wrapf ''parse %s: %w'' [registryPath fs] err)
           | Inr r \<Rightarrow> Inr r))"

section \<open>The commands\<close>

definition gatewayAllowKey :: "'w crypto \<Rightarrow> 'w registry_fs \<Rightarrow> string \<Rightarrow> 'w \<Rightarrow> (go_error + string) \<times> 'w" where
  "gatewayAllowKey cr fs line w =
     (case Load fs w of
        Inl err \<Rightarrow> (Inl err, w)
      | Inr r \<Rightarrow>
          (case AllowKey cr line r w of
             (Inl err, _) \<Rightarrow> (Inl err, w)
           | (Inr fingerprint, r) \<Rightarrow>
               (case Save fs r w of (Some err, w) \<Rightarrow> (Inl err, w) | (None, w) \<Rightarrow> (Inr fingerprint, w))))"

definition gatewayRevokeKey :: "'w registry_fs \<Rightarrow> string \<Rightarrow> 'w \<Rightarrow> go_error option \<times> 'w" where
  "gatewayRevokeKey fs wanted w =
     (case Load fs w of
        Inl err \<Rightarrow> (Some err, w)
      | Inr r \<Rightarrow>
          (case RevokeKey wanted r of
             (Some err, _) \<Rightarrow> (Some err, w)
           | (None, r) \<Rightarrow> Save fs r w))"

text \<open>
  \<open>useradd\<close> in the gateway's container; an account that is there already is success.  The command
  runner and the test for its message are arguments.
\<close>

definition EnsureTargetAccount ::
  "(string \<Rightarrow> string list \<Rightarrow> 'w \<Rightarrow> go_error option \<times> 'w) \<Rightarrow> (go_error \<Rightarrow> bool) \<Rightarrow> string \<Rightarrow> string \<Rightarrow> 'w \<Rightarrow>
   go_error option \<times> 'w" where
  "EnsureTargetAccount exec already_exists container user w =
     (case exec container [''useradd'', ''--non-unique'', ''--uid'', ''0'', ''--gid'', ''0'', ''--no-create-home'',
         ''--home-dir'', ''/nonexistent'', ''--shell'', ''/bin/sh'', ''--'', user] w of
        (None, w) \<Rightarrow> (None, w)
      | (Some err, w) \<Rightarrow>
          if already_exists err then (None, w)
          else (Some (Wrapf ''create the SSH gateway account %q in %s: %w'' [user, container] err), w))"

definition gatewayContainerName :: string where "gatewayContainerName = ''govard-proxy-sshd''"
definition SandboxUser :: string where "SandboxUser = ''deployer''"

text \<open>What \<open>sandbox up\<close> does with the registry; a failure is a note, so it has no result.\<close>

definition register_route ::
  "'w registry_fs \<Rightarrow> (string \<Rightarrow> string list \<Rightarrow> 'w \<Rightarrow> go_error option \<times> 'w) \<Rightarrow> (go_error \<Rightarrow> bool) \<Rightarrow> string \<Rightarrow> string \<Rightarrow>
   'w \<Rightarrow> 'w" where
  "register_route fs exec already_exists project container w =
     (case Load fs w of
        Inl _ \<Rightarrow> w
      | Inr r \<Rightarrow>
     (case RouteUsername project of
        None \<Rightarrow> w
      | Some user \<Rightarrow>
     (case AddTarget user \<lparr>gt_Container = container, gt_TargetUser = SandboxUser, gt_Project = project\<rparr> r of
        (Some _, _) \<Rightarrow> w
      | (None, r) \<Rightarrow>
     (case Save fs r w of
        (Some _, w) \<Rightarrow> w
      | (None, w) \<Rightarrow> snd (EnsureTargetAccount exec already_exists gatewayContainerName user w)))))"

text \<open>What \<open>sandbox down\<close> prunes: the slug, every spelling of it, and the name as it is.\<close>

definition prune_route :: "string \<Rightarrow> registry \<Rightarrow> registry" where
  "prune_route project r =
     RemoveTarget project
       (case RouteUsername project of
          None \<Rightarrow> r
        | Some slug \<Rightarrow>
            fold (\<lambda>user r. if RouteUsername user = Some slug then RemoveTarget user r else r) (map fst (reg_Targets (RemoveTarget slug r)))
              (RemoveTarget slug r))"

section \<open>The readers of the files\<close>

text \<open>The complete lines of a file.\<close>

definition file_lines :: "string \<Rightarrow> string list" where
  "file_lines s = butlast (split_on CHR 0x0A s)"

text \<open>\<open>IFS=' ' read -r\<close> into four variables: the last takes the rest of the line.\<close>

definition drop_blanks :: "string \<Rightarrow> string" where
  "drop_blanks s = dropWhile ((=) CHR '' '') s"

fun read_words :: "nat \<Rightarrow> string \<Rightarrow> string list" where
  "read_words 0 s = [s]"
| "read_words (Suc n) s = takeWhile ((\<noteq>) CHR '' '') s # read_words n (drop_blanks (dropWhile ((\<noteq>) CHR '' '') s))"

definition read_line :: "string \<Rightarrow> string list" where
  "read_line s = read_words 3 (rev (drop_blanks (rev (drop_blanks s))))"

text \<open>The keys \<open>authorized-keys-command.sh\<close> prints for a user, without the forced command.\<close>

definition authorized_keys_command :: "string \<Rightarrow> string \<Rightarrow> string list list" where
  "authorized_keys_command user keys =
     (if user = [] \<or> \<not> list_all route_char user then []
      else map tl (filter (\<lambda>ws. hd ws \<noteq> []) (map read_line (file_lines keys))))"

text \<open>Where \<open>gw-router.sh\<close> sends a user: the container and the account of its first line.\<close>

definition gw_router :: "string \<Rightarrow> string \<Rightarrow> (string \<times> string) option" where
  "gw_router user targets =
     (case find (\<lambda>ws. ws \<noteq> [] \<and> hd ws = user) (map Fields (file_lines targets)) of
        None \<Rightarrow> None
      | Some ws \<Rightarrow>
          (case tl ws of
             [] \<Rightarrow> Some ([], [])
           | [container] \<Rightarrow> Some (container, [])
           | container # account # _ \<Rightarrow> Some (container, account)))"

section \<open>Lemmas: reading a file back\<close>

definition word :: "string \<Rightarrow> bool" where
  "word w \<longleftrightarrow> w \<noteq> [] \<and> list_all (\<lambda>c. \<not> is_space c) w"

lemma split_on_line: "CHR 0x0A \<notin> set l \<Longrightarrow> split_on CHR 0x0A (l @ CHR 0x0A # rest) = l # split_on CHR 0x0A rest"
  by (induction l) auto

lemma file_lines_concat:
  assumes "\<And>l. l \<in> set ls \<Longrightarrow> CHR 0x0A \<notin> set l"
  shows "file_lines (concat (map (\<lambda>l. l @ [CHR 0x0A]) ls)) = ls"
proof -
  have "split_on CHR 0x0A (concat (map (\<lambda>l. l @ [CHR 0x0A]) ls)) = ls @ [[]]"
    using assms by (induction ls) (auto simp: split_on_line)
  then show ?thesis by (simp add: file_lines_def)
qed

lemma word_no_blank: "word w \<Longrightarrow> CHR '' '' \<notin> set w \<and> CHR 0x0A \<notin> set w"
  by (auto simp: word_def list_all_iff is_space_def)

lemma word_ends: "word w \<Longrightarrow> hd w \<noteq> CHR '' '' \<and> last w \<noteq> CHR '' ''"
  using word_no_blank [of w] by (metis hd_in_set last_in_set word_def)

lemma drop_blanks_id: "s = [] \<or> hd s \<noteq> CHR '' '' \<Longrightarrow> drop_blanks s = s"
  by (cases s) (auto simp: drop_blanks_def)

lemma take_word: "CHR '' '' \<notin> set w \<Longrightarrow> takeWhile ((\<noteq>) CHR '' '') (w @ CHR '' '' # s) = w"
  by (induction w) auto

lemma drop_word: "CHR '' '' \<notin> set w \<Longrightarrow> dropWhile ((\<noteq>) CHR '' '') (w @ CHR '' '' # s) = CHR '' '' # s"
  by (induction w) auto

lemma read_words_word:
  "CHR '' '' \<notin> set w \<Longrightarrow> s = [] \<or> hd s \<noteq> CHR '' '' \<Longrightarrow> read_words (Suc n) (w @ CHR '' '' # s) = w # read_words n s"
  using drop_blanks_id [of s] by (simp add: take_word drop_word) (simp add: drop_blanks_def)

lemma read_words_last: "CHR '' '' \<notin> set w \<Longrightarrow> read_words (Suc n) w = w # read_words n []"
proof -
  assume "CHR '' '' \<notin> set w"
  then have "takeWhile ((\<noteq>) CHR '' '') w = w" "dropWhile ((\<noteq>) CHR '' '') w = []" by (induction w) auto
  then show ?thesis by (simp only: read_words.simps drop_blanks_def dropWhile.simps)
qed

lemma read_line_fields:
  assumes "word a" and "word b" and "word c" and "rest = [] \<or> hd rest \<noteq> CHR '' '' \<and> last rest \<noteq> CHR '' ''"
  shows "read_line (a @ CHR '' '' # b @ CHR '' '' # c @ CHR '' '' # rest) = [a, b, c, rest]"
proof -
  let ?l = "a @ CHR '' '' # b @ CHR '' '' # c @ CHR '' '' # rest"
  have blank: "CHR '' '' \<notin> set a" "CHR '' '' \<notin> set b" "CHR '' '' \<notin> set c" using assms word_no_blank by blast+
  have ends: "a \<noteq> []" "b \<noteq> []" "c \<noteq> []" "hd a \<noteq> CHR '' ''" "hd b \<noteq> CHR '' ''" "hd c \<noteq> CHR '' ''" "last c \<noteq> CHR '' ''"
    using assms word_ends by (auto simp: word_def)
  have head: "drop_blanks ?l = ?l" using ends by (intro drop_blanks_id) simp
  show ?thesis
  proof (cases "rest = []")
    case True
    have "drop_blanks (rev ?l) = drop_blanks (CHR '' '' # rev (a @ CHR '' '' # b @ CHR '' '' # c))" using True by simp
    also have "\<dots> = drop_blanks (rev (a @ CHR '' '' # b @ CHR '' '' # c))" by (simp add: drop_blanks_def)
    also have "\<dots> = rev (a @ CHR '' '' # b @ CHR '' '' # c)" using ends by (intro drop_blanks_id) (simp add: hd_append hd_rev)
    finally have tail: "rev (drop_blanks (rev ?l)) = a @ CHR '' '' # b @ CHR '' '' # c" by simp
    have three: "(3::nat) = Suc (Suc (Suc 0))" by simp
    show ?thesis
      unfolding read_line_def head tail three using True blank ends
      by (simp add: read_words_word read_words_last del: read_words.simps) (simp add: read_words.simps)
  next
    case False
    have "drop_blanks (rev ?l) = rev ?l" using False assms(4) by (intro drop_blanks_id) (simp add: hd_append hd_rev)
    then have tail: "rev (drop_blanks (rev ?l)) = ?l" by simp
    have three: "(3::nat) = Suc (Suc (Suc 0))" by simp
    show ?thesis
      unfolding read_line_def head tail three using False assms(4) blank ends
      by (simp add: read_words_word del: read_words.simps(2))
  qed
qed

lemma join_words_ends:
  assumes "\<And>w. w \<in> set ws \<Longrightarrow> word w" and "ws \<noteq> []"
  shows "join '' '' ws \<noteq> [] \<and> hd (join '' '' ws) \<noteq> CHR '' '' \<and> last (join '' '' ws) \<noteq> CHR '' ''"
  using assms
proof (induction "'' '' :: string" ws rule: join.induct)
  case (2 w)
  then show ?case using word_ends [of w] by (auto simp: word_def)
next
  case (3 w v vs)
  then have "word w" by simp
  with 3 word_ends [of w] show ?case by (auto simp: word_def)
qed simp

lemma join_words_newline:
  "(\<And>w. w \<in> set ws \<Longrightarrow> word w) \<Longrightarrow> CHR 0x0A \<notin> set (join '' '' ws)"
proof (induction "'' '' :: string" ws rule: join.induct)
  case (3 w v vs)
  then show ?case using word_no_blank [of w] by auto
qed (auto dest: word_no_blank)

section \<open>Lemmas: what the operations keep\<close>

text \<open>Base64 is written without white space.\<close>

definition plain_encoding :: "'w crypto \<Rightarrow> bool" where
  "plain_encoding cr \<longleftrightarrow> (\<forall>s. list_all (\<lambda>c. \<not> is_space c) (cr_RawEncode cr s))"

definition key_ok :: "'w crypto \<Rightarrow> allowed_key \<Rightarrow> bool" where
  "key_ok cr k \<longleftrightarrow>
     ak_KeyType k \<in> set allowedKeyTypes \<and> word (ak_KeyType k) \<and> word (ak_KeyData k) \<and>
     Fingerprint cr (ak_KeyData k) = Inr (ak_Fingerprint k) \<and>
     (\<exists>ws. ak_Comment k = join '' '' ws \<and> (\<forall>w \<in> set ws. word w))"

definition registry_ok :: "'w crypto \<Rightarrow> registry \<Rightarrow> bool" where
  "registry_ok cr r \<longleftrightarrow>
     distinct (map ak_Fingerprint (reg_Allowlist r)) \<and> (\<forall>k \<in> set (reg_Allowlist r). key_ok cr k) \<and>
     distinct (map fst (reg_Targets r)) \<and>
     (\<forall>user \<in> fst ` set (reg_Targets r). user \<noteq> [] \<and> to_lower user \<notin> set reservedUsers)"

inductive registry_step :: "'w crypto \<Rightarrow> registry \<Rightarrow> registry \<Rightarrow> bool" for cr where
  add: "AddTarget user t r = (None, r') \<Longrightarrow> registry_step cr r r'"
| remove: "registry_step cr r (RemoveTarget user r)"
| allow: "AllowKey cr line r w = (Inr fingerprint, r') \<Longrightarrow> registry_step cr r r'"
| revoke: "RevokeKey wanted r = (None, r') \<Longrightarrow> registry_step cr r r'"

lemma Fields_word: "w \<in> set (Fields s) \<Longrightarrow> word w"
  using Fields_words by (auto simp: word_def)

lemma refresh_key_None: "refresh_key f c n ks = None \<longleftrightarrow> f \<notin> ak_Fingerprint ` set ks"
  by (induction ks) auto

lemma refresh_key_Some:
  assumes "refresh_key f c n ks = Some ks'"
  shows "map ak_Fingerprint ks' = map ak_Fingerprint ks \<and> map ak_KeyType ks' = map ak_KeyType ks \<and>
    map ak_KeyData ks' = map ak_KeyData ks \<and>
    (\<forall>k \<in> set ks'. k \<in> set ks \<or> (\<exists>k0 \<in> set ks. k = k0\<lparr>ak_Comment := c, ak_Added := n\<rparr>))"
  using assms
proof (induction ks arbitrary: ks')
  case (Cons k ks)
  show ?case
  proof (cases "ak_Fingerprint k = f")
    case False
    with Cons.prems obtain rest where "refresh_key f c n ks = Some rest" "ks' = k # rest" by auto
    with Cons.IH show ?thesis by auto
  qed (use Cons.prems in auto)
qed simp

lemma AllowKey_cases:
  assumes "AllowKey cr line r w = (Inr fingerprint, r')"
  obtains keyType keyData ws where "word keyType" "word keyData" "\<And>x. x \<in> set ws \<Longrightarrow> word x" "keyType \<in> set allowedKeyTypes"
    "Fingerprint cr keyData = Inr fingerprint" "\<not> contains_any line [CHR 0x0A, CHR 0x0D]"
    "r' = (case refresh_key fingerprint (join '' '' ws) (cr_Now cr w) (reg_Allowlist r) of
       Some keys \<Rightarrow> r\<lparr>reg_Allowlist := keys\<rparr>
     | None \<Rightarrow> r\<lparr>reg_Allowlist := reg_Allowlist r @
         [\<lparr>ak_Fingerprint = fingerprint, ak_KeyType = keyType, ak_KeyData = keyData, ak_Comment = join '' '' ws,
           ak_Added = cr_Now cr w\<rparr>]\<rparr>)"
proof -
  from assms obtain keyType keyData ws where ws: "Fields (trim_space line) = keyType # keyData # ws"
    by (auto simp: AllowKey_def split: if_splits list.splits)
  then have "word x" if "x \<in> set (keyType # keyData # ws)" for x using Fields_word that by metis
  then show ?thesis
    using assms ws by (intro that [of keyType keyData ws])
      (auto simp: AllowKey_def Let_def split: if_splits sum.splits option.splits)
qed

lemma set_delete_subset: "set (AList.delete k al) \<subseteq> set al"
  by (auto simp: AList.delete_eq)

lemma registry_step_ok:
  assumes "registry_step cr r r'" and "registry_ok cr r"
  shows "registry_ok cr r'"
  using assms(1)
proof cases
  case (add user t)
  then have "user \<noteq> []" "to_lower user \<notin> set reservedUsers" "r' = r\<lparr>reg_Targets := AList.update user t (reg_Targets r)\<rparr>"
    by (auto simp: AddTarget_def split: if_splits option.splits)
  with assms(2) show ?thesis by (simp add: registry_ok_def distinct_update dom_update)
next
  case (remove user)
  with assms(2) show ?thesis
    using set_delete_subset by (fastforce simp: RemoveTarget_def registry_ok_def distinct_delete)
next
  case (revoke wanted)
  with assms(2) show ?thesis
    by (auto simp: RevokeKey_def registry_ok_def distinct_map_filter split: if_splits)
next
  case (allow line w fingerprint)
  then obtain keyType keyData ws where new: "word keyType" "word keyData" "\<And>x. x \<in> set ws \<Longrightarrow> word x"
    "keyType \<in> set allowedKeyTypes" "Fingerprint cr keyData = Inr fingerprint"
    and r': "r' = (case refresh_key fingerprint (join '' '' ws) (cr_Now cr w) (reg_Allowlist r) of
       Some keys \<Rightarrow> r\<lparr>reg_Allowlist := keys\<rparr>
     | None \<Rightarrow> r\<lparr>reg_Allowlist := reg_Allowlist r @
         [\<lparr>ak_Fingerprint = fingerprint, ak_KeyType = keyType, ak_KeyData = keyData, ak_Comment = join '' '' ws,
           ak_Added = cr_Now cr w\<rparr>]\<rparr>)" by (rule AllowKey_cases) blast
  show ?thesis
  proof (cases "refresh_key fingerprint (join '' '' ws) (cr_Now cr w) (reg_Allowlist r)")
    case None
    with new assms(2) r' show ?thesis by (auto simp: registry_ok_def key_ok_def refresh_key_None)
  next
    case (Some keys)
    have ok: "key_ok cr k" if "k \<in> set keys" for k
    proof -
      from refresh_key_Some [OF Some] that consider "k \<in> set (reg_Allowlist r)"
        | k0 where "k0 \<in> set (reg_Allowlist r)" "k = k0\<lparr>ak_Comment := join '' '' ws, ak_Added := cr_Now cr w\<rparr>" by blast
      then show ?thesis
      proof cases
        case 2
        then have "key_ok cr k0" using assms(2) by (simp add: registry_ok_def)
        with 2 new(3) show ?thesis by (auto simp: key_ok_def)
      qed (use assms(2) in \<open>simp add: registry_ok_def\<close>)
    qed
    from Some r' have "r' = r\<lparr>reg_Allowlist := keys\<rparr>" by simp
    with ok refresh_key_Some [OF Some] assms(2) show ?thesis by (simp add: registry_ok_def)
  qed
qed

lemma empty_registry_ok: "registry_ok cr empty_registry"
  by (simp add: registry_ok_def empty_registry_def)

lemma registry_reachable_ok:
  assumes "(registry_step cr)\<^sup>*\<^sup>* empty_registry r"
  shows "registry_ok cr r"
  using assms by (induction rule: rtranclp_induct) (auto intro: registry_step_ok empty_registry_ok)

lemma key_ok_fingerprint:
  assumes "plain_encoding cr" and "key_ok cr k"
  shows "word (ak_Fingerprint k)"
proof -
  from assms(2) obtain blob where "''SHA256:'' @ cr_RawEncode cr (cr_Sum cr blob) = ak_Fingerprint k"
    by (auto simp: key_ok_def Fingerprint_def split: sum.splits)
  moreover have "list_all (\<lambda>c. \<not> is_space c) ''SHA256:''" by (simp add: is_space_def)
  then have "word (''SHA256:'' @ cr_RawEncode cr (cr_Sum cr blob))"
    using assms(1) unfolding word_def plain_encoding_def by (simp only: list_all_append) simp
  ultimately show ?thesis by simp
qed

lemma key_line_reads:
  assumes "plain_encoding cr" and "key_ok cr k"
  shows "\<exists>l. key_line k = l @ [CHR 0x0A] \<and> CHR 0x0A \<notin> set l \<and>
    read_line l = [ak_Fingerprint k, ak_KeyType k, ak_KeyData k, ak_Comment k]"
proof -
  from assms(2) obtain ws where comment: "ak_Comment k = join '' '' ws" "\<And>w. w \<in> set ws \<Longrightarrow> word w"
    by (auto simp: key_ok_def)
  have words: "word (ak_Fingerprint k)" "word (ak_KeyType k)" "word (ak_KeyData k)"
    using assms key_ok_fingerprint by (auto simp: key_ok_def)
  let ?l = "ak_Fingerprint k @ CHR '' '' # ak_KeyType k @ CHR '' '' # ak_KeyData k @ CHR '' '' # ak_Comment k"
  have "ak_Comment k = [] \<or> hd (ak_Comment k) \<noteq> CHR '' '' \<and> last (ak_Comment k) \<noteq> CHR '' ''"
    using comment join_words_ends [of ws] by (cases "ws = []") auto
  then have "read_line ?l = [ak_Fingerprint k, ak_KeyType k, ak_KeyData k, ak_Comment k]"
    by (rule read_line_fields [OF words])
  moreover have "CHR 0x0A \<notin> set ?l"
    using words comment join_words_newline [of ws] by (auto dest: word_no_blank)
  moreover have "key_line k = ?l @ [CHR 0x0A]" by (simp add: key_line_def)
  ultimately show ?thesis by blast
qed

lemma file_lines_of:
  assumes "\<And>x. x \<in> set xs \<Longrightarrow> \<exists>l. f x = l @ [CHR 0x0A] \<and> CHR 0x0A \<notin> set l \<and> g l = h x"
  shows "map g (file_lines (concat (map f xs))) = map h xs"
proof -
  have butlast: "f x = butlast (f x) @ [CHR 0x0A]" "CHR 0x0A \<notin> set (butlast (f x))" "g (butlast (f x)) = h x"
    if "x \<in> set xs" for x using assms [OF that] by auto
  then have "map f xs = map (\<lambda>l. l @ [CHR 0x0A]) (map (butlast \<circ> f) xs)" by simp
  then have "file_lines (concat (map f xs)) = map (butlast \<circ> f) xs"
    using butlast(2) by (simp only:) (rule file_lines_concat, auto)
  with butlast(3) show ?thesis by simp
qed

section \<open>Properties\<close>

text \<open>
  C14. The container's sshd sees the allowlist and nothing else: whatever was added, removed, allowed
  and revoked before, for a user it may ask about the script prints type, material and comment of
  every allowed key, each once, in the order of the fingerprints.
\<close>

theorem sshd_sees_the_allowlist:
  assumes "plain_encoding cr" and "(registry_step cr)\<^sup>*\<^sup>* empty_registry r" and "user \<noteq> []" and "list_all route_char user"
  shows "authorized_keys_command user (keys_text r) =
    map (\<lambda>k. [ak_KeyType k, ak_KeyData k, ak_Comment k]) (sort_key ak_Fingerprint (reg_Allowlist r))"
proof -
  let ?keys = "sort_key ak_Fingerprint (reg_Allowlist r)"
  have ok: "key_ok cr k" if "k \<in> set ?keys" for k
    using registry_reachable_ok [OF assms(2)] that by (simp add: registry_ok_def)
  have "map read_line (file_lines (keys_text r)) =
      map (\<lambda>k. [ak_Fingerprint k, ak_KeyType k, ak_KeyData k, ak_Comment k]) ?keys"
    unfolding keys_text_def by (rule file_lines_of) (use key_line_reads [OF assms(1)] ok in blast)
  moreover have "ak_Fingerprint k \<noteq> []" if "k \<in> set ?keys" for k
    using key_ok_fingerprint [OF assms(1) ok [OF that]] by (simp add: word_def)
  ultimately show ?thesis
    using assms(3,4) by (simp add: authorized_keys_command_def filter_map comp_def filter_True)
qed

definition demo_crypto :: "unit crypto" where
  "demo_crypto = \<lparr>cr_Decode = Inr, cr_RawEncode = filter (\<lambda>c. \<not> is_space c), cr_Sum = id, cr_Now = (\<lambda>_. ''now'')\<rparr>"

definition demo_registry :: registry where
  "demo_registry = snd (AllowKey demo_crypto ''ssh-rsa BBBB'' (snd (AllowKey demo_crypto ''ssh-ed25519 CCCC kai at laptop'' empty_registry ())) ())"

lemma demo_reachable: "(registry_step demo_crypto)\<^sup>*\<^sup>* empty_registry demo_registry"
proof -
  let ?one = "snd (AllowKey demo_crypto ''ssh-ed25519 CCCC kai at laptop'' empty_registry ())"
  have "registry_step demo_crypto empty_registry ?one"
    by (rule registry_step.allow [where line = "''ssh-ed25519 CCCC kai at laptop''" and w = "()" and fingerprint = "''SHA256:CCCC''"]) code_simp
  moreover have "registry_step demo_crypto ?one demo_registry"
    by (rule registry_step.allow [where line = "''ssh-rsa BBBB''" and w = "()" and fingerprint = "''SHA256:BBBB''"]) code_simp
  ultimately show ?thesis by auto
qed

theorem sshd_sees_the_allowlist_witness:
  "authorized_keys_command ''shop'' (keys_text demo_registry) =
     [[''ssh-rsa'', ''BBBB'', []], [''ssh-ed25519'', ''CCCC'', ''kai at laptop'']]"
proof -
  have "plain_encoding demo_crypto" by (simp add: plain_encoding_def demo_crypto_def list_all_iff)
  moreover have "list_all route_char ''shop''" by code_simp
  ultimately have "authorized_keys_command ''shop'' (keys_text demo_registry) =
    map (\<lambda>k. [ak_KeyType k, ak_KeyData k, ak_Comment k]) (sort_key ak_Fingerprint (reg_Allowlist demo_registry))"
    using sshd_sees_the_allowlist [OF _ demo_reachable, of "''shop''"] by simp
  also have "\<dots> = [[''ssh-rsa'', ''BBBB'', []], [''ssh-ed25519'', ''CCCC'', ''kai at laptop'']]" by code_simp
  finally show ?thesis .
qed

text \<open>
  C35. What any sequence of operations keeps: no fingerprint is listed twice, every key is of an
  allowed type and its material gives its fingerprint, and each routed name has one route and is
  neither empty nor reserved.
\<close>

theorem registry_stays_sound:
  assumes "(registry_step cr)\<^sup>*\<^sup>* empty_registry r"
  shows "distinct (map ak_Fingerprint (reg_Allowlist r)) \<and>
    (\<forall>k \<in> set (reg_Allowlist r). ak_KeyType k \<in> set allowedKeyTypes \<and> Fingerprint cr (ak_KeyData k) = Inr (ak_Fingerprint k)) \<and>
    distinct (map fst (reg_Targets r)) \<and>
    (\<forall>user \<in> fst ` set (reg_Targets r). user \<noteq> [] \<and> to_lower user \<notin> set reservedUsers)"
  using registry_reachable_ok [OF assms] by (simp add: registry_ok_def key_ok_def)

theorem registry_stays_sound_witness:
  "map ak_KeyType (reg_Allowlist demo_registry) = [''ssh-ed25519'', ''ssh-rsa''] \<and>
   distinct (map ak_Fingerprint (reg_Allowlist demo_registry))"
proof -
  have "map ak_KeyType (reg_Allowlist demo_registry) = [''ssh-ed25519'', ''ssh-rsa'']" by code_simp
  with registry_stays_sound [OF demo_reachable] show ?thesis by blast
qed

text \<open>Every target's words are words, as they are where \<open>sandbox up\<close> registered them.\<close>

definition plain_targets :: "registry \<Rightarrow> bool" where
  "plain_targets r \<longleftrightarrow>
     (\<forall>(user, t) \<in> set (reg_Targets r). word user \<and> word (gt_Container t) \<and> word (gt_TargetUser t))"

lemma Fields_word_rest: "word w \<Longrightarrow> Fields (w @ CHR '' '' # s) = w # Fields s"
proof -
  assume w: "word w"
  then obtain c cs where cs: "w = c # cs" "\<not> is_space c" by (cases w) (auto simp: word_def)
  have blank: "is_space CHR '' ''" by (simp add: is_space_def)
  have "takeWhile (\<lambda>c. \<not> is_space c) (w @ CHR '' '' # s) = w" "dropWhile (\<lambda>c. \<not> is_space c) (w @ CHR '' '' # s) = CHR '' '' # s"
    using w blank by (simp_all add: word_def list_all_iff)
  then have "Fields (w @ CHR '' '' # s) = w # Fields (CHR '' '' # s)"
    using cs by (subst Fields.simps) (simp add: Let_def)
  moreover have "Fields (CHR '' '' # s) = Fields s"
    using blank by (subst (1 2) Fields.simps) simp
  ultimately show ?thesis by simp
qed

lemma Fields_word_last: "word w \<Longrightarrow> Fields w = [w]"
proof -
  assume w: "word w"
  then obtain c cs where cs: "w = c # cs" "\<not> is_space c" by (cases w) (auto simp: word_def)
  have "takeWhile (\<lambda>c. \<not> is_space c) w = w" "dropWhile (\<lambda>c. \<not> is_space c) w = []"
    using w by (simp_all add: word_def list_all_iff)
  moreover have "Fields w = takeWhile (\<lambda>c. \<not> is_space c) w # Fields (dropWhile (\<lambda>c. \<not> is_space c) w)"
    using cs by (subst Fields.simps) (simp add: Let_def)
  ultimately show ?thesis by (simp only: Fields_Nil)
qed

lemma find_map_key:
  "find (\<lambda>ws. ws \<noteq> [] \<and> hd ws = user) (map (\<lambda>u. [u, a u, b u]) us) = (if user \<in> set us then Some [user, a user, b user] else None)"
  by (induction us) auto


definition demo_routes :: registry where
  "demo_routes = \<lparr>reg_Targets = [(''shop'', \<lparr>gt_Container = ''shop-sandbox'', gt_TargetUser = ''deployer'', gt_Project = ''shop''\<rparr>)], reg_Allowlist = []\<rparr>"


text \<open>
  Where the code and its words part.  Allowing a known key again keeps the type it was first
  allowed with, so a wrong one of the allowed types stays; a name with a blank, which \<open>AddTarget\<close>
  takes, routes the user before the blank; and an empty pattern revokes every key without a comment.
\<close>

lemma allowing_again_keeps_the_type:
  "map ak_KeyType (reg_Allowlist (snd (AllowKey demo_crypto ''ssh-ed25519 CCCC''
     (snd (AllowKey demo_crypto ''ssh-rsa CCCC'' empty_registry ())) ()))) = [''ssh-rsa'']"
  by code_simp

lemma blank_in_a_name_routes_another:
  "gw_router ''alice'' (targets_text (snd (AddTarget ''alice x'' \<lparr>gt_Container = ''box'', gt_TargetUser = ''deployer'', gt_Project = []\<rparr> empty_registry)))
     = Some (''x'', ''box'')"
  by code_simp

lemma empty_pattern_revokes:
  "map ak_Comment (reg_Allowlist (snd (RevokeKey [] demo_registry))) = [''kai at laptop'']"
  by code_simp

lemma AddTarget_never_reroutes:
  assumes "map_of (reg_Targets r) user = Some old" and "AddTarget user t r = (result, r')"
  shows "map_option gt_Container (map_of (reg_Targets r') user) = Some (gt_Container old)"
  using assms by (auto simp: AddTarget_def update_conv' split: if_splits option.splits)

lemma RevokeKey_cuts:
  assumes "RevokeKey wanted r = (None, r')" and "k \<in> set (reg_Allowlist r')"
  shows "ak_Fingerprint k \<noteq> wanted \<and> ak_Comment k \<noteq> wanted"
  using assms by (auto simp: RevokeKey_def names_key_def split: if_splits)

end
