(* ===== verification/RuntimeGate.thy ===== *)
theory RuntimeGate
  imports Prelude
begin

text \<open>
  What a command needs of the host, and the gate in front of it (\<open>internal/runtime\<close>,
  \<open>internal/cmd/gate.go\<close>, \<open>internal/cmd/capabilities.go\<close>): the requirement a command declares or
  inherits, the probe of the host, the error of the gate, and the list \<open>govard capabilities\<close>
  prints.

  A command is the list of itself and its parents, the root last, as its \<open>Parent\<close> pointers
  give it; a command registered under two parents has one such list.  The host is a record of
  what the probes find; an error of a probe is its text.  A capability between quotes is written as
  it is: \<open>%q\<close> escapes nothing in the known ones.
\<close>

section \<open>Capabilities\<close>

definition CapNone :: string where "CapNone = ''none''"
definition CapDocker :: string where "CapDocker = ''docker''"
definition CapSSH :: string where "CapSSH = ''ssh''"
definition CapRsync :: string where "CapRsync = ''rsync''"
definition CapCloudflared :: string where "CapCloudflared = ''cloudflared''"
definition CapNet :: string where "CapNet = ''net''"

definition knownCapabilities :: "string list" where
  "knownCapabilities = [CapNone, CapDocker, CapSSH, CapRsync, CapCloudflared, CapNet]"

definition capabilityHints :: "(string \<times> string) list" where
  "capabilityHints =
     [(CapDocker, ''start Docker Desktop/daemon and ensure the current user can reach the Docker socket; commands that need no containers are listed by `govard capabilities`''),
      (CapSSH, ''install an SSH client (openssh-client) and retry''),
      (CapRsync, ''install rsync and retry''),
      (CapCloudflared, ''install cloudflared (see the Govard tunnel documentation) and retry''),
      (CapNet, ''check outbound network connectivity and retry'')]"

record host_state =
  hs_Forced :: "string list"
  hs_TestSatisfied :: string
  hs_LookPath :: "string \<Rightarrow> string option"
  hs_DockerStatus :: "string option"
  hs_DockerCompose :: "string option"
  hs_Network :: "string option"

definition envForcedSatisfied :: "host_state \<Rightarrow> string \<Rightarrow> bool" where
  "envForcedSatisfied h capability =
     (let raw = trim_space (hs_TestSatisfied h) in
      raw \<noteq> [] \<and> list_ex (\<lambda>part. to_lower (trim_space part) = capability) (split_on CHR '','' raw))"

text \<open>The text of the first error, or the empty string.\<close>

fun first_error :: "string option list \<Rightarrow> string" where
  "first_error [] = []"
| "first_error (None # rest) = first_error rest"
| "first_error (Some text # rest) = text"

definition probeOne :: "host_state \<Rightarrow> string \<Rightarrow> string" where
  "probeOne h capability =
     (if capability \<in> set (hs_Forced h) \<or> envForcedSatisfied h capability then []
      else if capability = CapNone then []
      else if capability = CapDocker then first_error [hs_LookPath h ''docker'', hs_DockerStatus h, hs_DockerCompose h]
      else if capability = CapSSH then first_error [hs_LookPath h ''ssh'']
      else if capability = CapRsync then first_error [hs_LookPath h ''rsync'']
      else if capability = CapCloudflared then first_error [hs_LookPath h ''cloudflared'']
      else if capability = CapNet then first_error [hs_Network h]
      else ''unknown capability '' @ [CHR 0x22] @ capability @ [CHR 0x22])"

record missing_error =
  me_Caps :: "string list"
  me_Detail :: string
  me_Hint :: string

text \<open>The first hint that is there: a capability without one leaves the hint open.\<close>

fun first_hint :: "string list \<Rightarrow> string" where
  "first_hint [] = []"
| "first_hint (c # cs) =
     (case map_of capabilityHints c of Some hint \<Rightarrow> hint | None \<Rightarrow> first_hint cs)"

definition Probe :: "host_state \<Rightarrow> string list \<Rightarrow> missing_error option" where
  "Probe h caps =
     (let missing = filter (\<lambda>c. probeOne h c \<noteq> []) caps in
      case missing of
        [] \<Rightarrow> None
      | [one] \<Rightarrow> Some \<lparr>me_Caps = missing, me_Detail = probeOne h one, me_Hint = first_hint missing\<rparr>
      | _ \<Rightarrow> Some \<lparr>me_Caps = missing, me_Detail = join ''; '' (map (\<lambda>c. c @ '': '' @ probeOne h c) missing),
               me_Hint = first_hint missing\<rparr>)"

definition Error :: "missing_error \<Rightarrow> string" where
  "Error e =
     (let base = ''missing capability '' @ [CHR 0x22] @ join [CHR 0x22, CHR '','', CHR '' '', CHR 0x22] (me_Caps e) @ [CHR 0x22] in
      if trim_space (me_Detail e) = [] then base else base @ '': '' @ trim_space (me_Detail e))"

definition CodeCapabilityMissing :: int where "CodeCapabilityMissing = 3"

definition ExitCode :: "missing_error \<Rightarrow> int" where "ExitCode e = CodeCapabilityMissing"

definition MissingCapability :: "missing_error \<Rightarrow> string" where
  "MissingCapability e = (case me_Caps e of [] \<Rightarrow> [] | c # _ \<Rightarrow> c)"

section \<open>What a command requires\<close>

record cli_node =
  cn_Name :: string
  cn_Annotations :: "(string \<times> string) list"
  cn_Runnable :: bool

type_synonym command = "cli_node list"

definition AnnotationRequires :: string where "AnnotationRequires = ''govard.io/requires''"

definition alwaysRunnableNames :: "string list" where
  "alwaysRunnableNames = [''help'', ''completion'', ''doctor'', ''capabilities'', ''version'']"

text \<open>The name one level below the root; the root's own name for the root.\<close>

fun topLevelName :: "command \<Rightarrow> string" where
  "topLevelName [] = []"
| "topLevelName [node] = cn_Name node"
| "topLevelName [node, root] = cn_Name node"
| "topLevelName (node # parents) = topLevelName parents"

definition AlwaysRunnable :: "command \<Rightarrow> bool" where
  "AlwaysRunnable c \<longleftrightarrow> c \<noteq> [] \<and> topLevelName c \<in> set alwaysRunnableNames"

fun parse_parts :: "string list \<Rightarrow> string list \<Rightarrow> string list" where
  "parse_parts found [] = found"
| "parse_parts found (part # parts) =
     (let capability = to_lower (trim_space part) in
      if capability = [] then parse_parts found parts
      else let capability = (if capability \<in> set knownCapabilities then capability else CapDocker) in
        if capability \<in> set found then parse_parts found parts else parse_parts (found @ [capability]) parts)"

definition parseRequirements :: "string \<Rightarrow> string list" where
  "parseRequirements raw = parse_parts [] (split_on CHR '','' raw)"

fun nearest_requirements :: "command \<Rightarrow> string list" where
  "nearest_requirements [] = []"
| "nearest_requirements (node # parents) =
     (case map_of (cn_Annotations node) AnnotationRequires of
        None \<Rightarrow> nearest_requirements parents
      | Some raw \<Rightarrow>
          (if parseRequirements raw \<noteq> [] then parseRequirements raw else nearest_requirements parents))"

definition Requires :: "command \<Rightarrow> string list" where
  "Requires c =
     (case c of
        [] \<Rightarrow> []
      | node # _ \<Rightarrow>
          if AlwaysRunnable c then [CapNone]
          else if nearest_requirements c \<noteq> [] then nearest_requirements c
          else if cn_Runnable node then [CapDocker] else [])"

definition HasDeclaredRequirement :: "command \<Rightarrow> bool" where
  "HasDeclaredRequirement c = list_ex (\<lambda>node. map_of (cn_Annotations node) AnnotationRequires \<noteq> None) c"

section \<open>The gate\<close>

definition CommandPath :: "command \<Rightarrow> string" where
  "CommandPath c = join '' '' (rev (map cn_Name c))"

text \<open>The error names the command by its path.\<close>

definition gateError :: "host_state \<Rightarrow> command \<Rightarrow> (string \<times> missing_error) option" where
  "gateError h c =
     (if c = [] \<or> AlwaysRunnable c then None
      else if Requires c = [] then None
      else case Probe h (Requires c) of None \<Rightarrow> None | Some err \<Rightarrow> Some (CommandPath c, err))"

definition requireDocker :: "host_state \<Rightarrow> string \<Rightarrow> missing_error option" where
  "requireDocker h hint =
     (case Probe h [CapDocker] of
        None \<Rightarrow> None
      | Some err \<Rightarrow> Some \<lparr>me_Caps = [CapDocker], me_Detail = me_Detail err, me_Hint = hint\<rparr>)"

section \<open>The list of commands\<close>

text \<open>A command with its children, in the order they were registered.\<close>

datatype command_tree = CommandTree command "command_tree list"

fun walkCommandTree :: "command_tree \<Rightarrow> command list" where
  "walkCommandTree (CommandTree c children) = c # concat (map walkCommandTree children)"

record capability_row =
  row_Command :: string
  row_Requires :: string
  row_Satisfied :: bool

definition requirement_names :: "command \<Rightarrow> string list" where
  "requirement_names c = (if Requires c = [] then [CapNone] else Requires c)"

text \<open>One probe per distinct requirement: \<open>known\<close> are the answers so far.\<close>

fun rows_of ::
  "host_state \<Rightarrow> command \<Rightarrow> string list \<Rightarrow> (string \<times> bool) list \<Rightarrow> command list \<Rightarrow> capability_row list" where
  "rows_of h root emitted known [] = []"
| "rows_of h root emitted known (c # cs) =
     (if c = root \<or> c = [] \<or> \<not> cn_Runnable (hd c) then rows_of h root emitted known cs
      else if CommandPath c \<in> set emitted then rows_of h root emitted known cs
      else
        let requires = join '','' (requirement_names c);
            satisfied = (case map_of known requires of Some answer \<Rightarrow> answer | None \<Rightarrow> Probe h (Requires c) = None)
        in \<lparr>row_Command = CommandPath c, row_Requires = requires, row_Satisfied = satisfied\<rparr> #
           rows_of h root (CommandPath c # emitted) ((requires, satisfied) # known) cs)"

definition capabilityRows :: "host_state \<Rightarrow> command_tree \<Rightarrow> capability_row list" where
  "capabilityRows h tree =
     (case tree of CommandTree root _ \<Rightarrow> sort_key row_Command (rows_of h root [] [] (walkCommandTree tree)))"

definition capabilitiesText :: "capability_row list \<Rightarrow> string" where
  "capabilitiesText rows =
     concat (map (\<lambda>row. row_Command row @ [CHR 0x09] @ row_Requires row @ [CHR 0x09] @
       (if row_Satisfied row then ''ok'' else ''missing'') @ [CHR 0x0A]) rows)"

section \<open>Lemmas\<close>

definition usable :: "string \<Rightarrow> string" where
  "usable part = (let c = to_lower (trim_space part) in if c \<in> set knownCapabilities then c else CapDocker)"

lemma parse_parts_Cons:
  "parse_parts found (part # parts) =
     (if to_lower (trim_space part) = [] \<or> usable part \<in> set found then parse_parts found parts
      else parse_parts (found @ [usable part]) parts)"
  by (simp add: Let_def usable_def)

lemma parse_parts_set:
  "set (parse_parts found parts) = set found \<union> usable ` {part \<in> set parts. to_lower (trim_space part) \<noteq> []}"
proof (induction parts arbitrary: found)
  case (Cons part parts)
  show ?case
  proof (cases "to_lower (trim_space part) = []")
    case True
    then have "{p \<in> set (part # parts). to_lower (trim_space p) \<noteq> []} = {p \<in> set parts. to_lower (trim_space p) \<noteq> []}" by auto
    with True Cons show ?thesis by (simp only: parse_parts_Cons if_True simp_thms)
  next
    case False
    then have "{p \<in> set (part # parts). to_lower (trim_space p) \<noteq> []} = insert part {p \<in> set parts. to_lower (trim_space p) \<noteq> []}" by auto
    then show ?thesis unfolding parse_parts_Cons using False Cons by auto
  qed
qed simp

lemma usable_known: "usable part \<in> set knownCapabilities"
  by (simp add: usable_def Let_def knownCapabilities_def)

lemma parseRequirements_set:
  "set (parseRequirements raw) = usable ` {part \<in> set (split_on CHR '','' raw). to_lower (trim_space part) \<noteq> []}"
  by (simp add: parseRequirements_def parse_parts_set)

lemma nearest_known: "set (nearest_requirements c) \<subseteq> set knownCapabilities"
proof (induction c)
  case (Cons node parents)
  then show ?case by (auto simp: parseRequirements_set usable_known split: option.splits)
qed simp

lemma Requires_known: "set (Requires c) \<subseteq> set knownCapabilities"
proof -
  have "CapNone \<in> set knownCapabilities" "CapDocker \<in> set knownCapabilities" by (simp_all add: knownCapabilities_def)
  with nearest_known [of c] show ?thesis by (cases c) (auto simp: Requires_def)
qed

lemma Probe_None: "Probe h caps = None \<longleftrightarrow> (\<forall>c \<in> set caps. probeOne h c = [])"
proof -
  have "Probe h caps = None \<longleftrightarrow> filter (\<lambda>c. probeOne h c \<noteq> []) caps = []"
    by (auto simp: Probe_def Let_def split: list.splits)
  then show ?thesis by (simp add: filter_empty_conv)
qed

text \<open>The name of a known capability has no comma, so a list of them is read back from its text.\<close>

lemma known_no_comma: "c \<in> set knownCapabilities \<Longrightarrow> CHR '','' \<notin> set c \<and> c \<noteq> []"
  by (auto simp: knownCapabilities_def CapNone_def CapDocker_def CapSSH_def CapRsync_def CapCloudflared_def CapNet_def)

lemma split_on_plain: "CHR '','' \<notin> set c \<Longrightarrow> split_on CHR '','' c = [c]"
  by (induction c) auto

lemma split_on_comma: "CHR '','' \<notin> set c \<Longrightarrow> split_on CHR '','' (c @ CHR '','' # rest) = c # split_on CHR '','' rest"
  by (induction c) auto

lemma split_join_names:
  "(\<And>c. c \<in> set cs \<Longrightarrow> CHR '','' \<notin> set c) \<Longrightarrow> cs \<noteq> [] \<Longrightarrow> split_on CHR '','' (join '','' cs) = cs"
  by (induction "'','' :: string" cs rule: join.induct) (auto simp: split_on_plain split_on_comma)

lemma requirement_names_inj:
  assumes "join '','' (requirement_names a) = join '','' (requirement_names b)"
  shows "requirement_names a = requirement_names b"
proof -
  have "split_on CHR '','' (join '','' (requirement_names c)) = requirement_names c" for c
  proof (rule split_join_names)
    show "requirement_names c \<noteq> []" by (simp add: requirement_names_def)
    show "CHR '','' \<notin> set x" if "x \<in> set (requirement_names c)" for x
      using that Requires_known [of c] known_no_comma [of x] known_no_comma [of CapNone]
      by (auto simp: requirement_names_def knownCapabilities_def split: if_splits)
  qed
  with assms show ?thesis by metis
qed

lemma Probe_names: "Probe h (Requires c) = None \<longleftrightarrow> (\<forall>x \<in> set (requirement_names c). probeOne h x = [])"
  by (auto simp: Probe_None requirement_names_def probeOne_def)

lemma gateError_Probe:
  assumes "c \<noteq> []"
  shows "gateError h c = None \<longleftrightarrow> Probe h (Requires c) = None"
proof (cases "AlwaysRunnable c")
  case True
  then have "Requires c = [CapNone]" using assms by (cases c) (simp_all add: Requires_def)
  with True show ?thesis by (simp add: gateError_def Probe_None probeOne_def)
next
  case False
  have "Requires c = [] \<Longrightarrow> Probe h (Requires c) = None" by (simp add: Probe_None)
  with False assms show ?thesis by (auto simp: gateError_def split: option.splits)
qed

lemma rows_of_sound:
  assumes "row \<in> set (rows_of h root emitted known cs)"
    and "\<And>r a. map_of known r = Some a \<Longrightarrow> \<exists>c. r = join '','' (requirement_names c) \<and> a = (Probe h (Requires c) = None)"
  shows "\<exists>c \<in> set cs. row_Command row = CommandPath c \<and> row_Requires row = join '','' (requirement_names c) \<and>
    cn_Runnable (hd c) \<and> c \<noteq> [] \<and> row_Satisfied row = (Probe h (Requires c) = None)"
  using assms
proof (induction cs arbitrary: emitted known)
  case (Cons c cs)
  let ?requires = "join '','' (requirement_names c)"
  let ?answer = "case map_of known ?requires of Some answer \<Rightarrow> answer | None \<Rightarrow> Probe h (Requires c) = None"
  show ?case
  proof (cases "(c = root \<or> c = [] \<or> \<not> cn_Runnable (hd c)) \<or> CommandPath c \<in> set emitted")
    case True
    then have "rows_of h root emitted known (c # cs) = rows_of h root emitted known cs" by auto
    with Cons.IH [of emitted known] Cons.prems show ?thesis by auto
  next
    case False
    have answer: "?answer = (Probe h (Requires c) = None)"
    proof (cases "map_of known ?requires")
      case (Some a)
      then obtain d where "?requires = join '','' (requirement_names d)" "a = (Probe h (Requires d) = None)"
        using Cons.prems(2) by blast
      then show ?thesis using Some requirement_names_inj [of c d] by (simp add: Probe_names)
    qed simp
    from False Cons.prems(1) consider
        "row = \<lparr>row_Command = CommandPath c, row_Requires = ?requires, row_Satisfied = ?answer\<rparr>"
      | "row \<in> set (rows_of h root (CommandPath c # emitted) ((?requires, ?answer) # known) cs)"
      by (auto simp: Let_def)
    then show ?thesis
    proof cases
      case 1
      with False answer show ?thesis by (intro bexI [of _ c]) auto
    next
      case 2
      have "\<exists>d. r = join '','' (requirement_names d) \<and> a = (Probe h (Requires d) = None)"
        if "map_of ((?requires, ?answer) # known) r = Some a" for r a
        using that Cons.prems(2) answer by (auto split: if_splits)
      from Cons.IH [OF 2 this] show ?thesis by auto
    qed
  qed
qed simp

lemma rows_of_complete:
  "c \<in> set cs \<Longrightarrow> c \<noteq> root \<Longrightarrow> c \<noteq> [] \<Longrightarrow> cn_Runnable (hd c) \<Longrightarrow>
     CommandPath c \<in> set emitted \<or> (\<exists>row \<in> set (rows_of h root emitted known cs). row_Command row = CommandPath c)"
proof (induction cs arbitrary: emitted known)
  case (Cons d cs)
  show ?case
  proof (cases "(d = root \<or> d = [] \<or> \<not> cn_Runnable (hd d)) \<or> CommandPath d \<in> set emitted")
    case True
    then have "rows_of h root emitted known (d # cs) = rows_of h root emitted known cs" by auto
    with True Cons show ?thesis by auto
  next
    case False
    let ?requires = "join '','' (requirement_names d)"
    let ?answer = "case map_of known ?requires of Some answer \<Rightarrow> answer | None \<Rightarrow> Probe h (Requires d) = None"
    have rows: "rows_of h root emitted known (d # cs) =
        \<lparr>row_Command = CommandPath d, row_Requires = ?requires, row_Satisfied = ?answer\<rparr> #
        rows_of h root (CommandPath d # emitted) ((?requires, ?answer) # known) cs"
      using False by (auto simp: Let_def)
    show ?thesis
    proof (cases "c = d")
      case False
      with Cons.prems Cons.IH [of "CommandPath d # emitted" "(?requires, ?answer) # known"] show ?thesis
        unfolding rows by auto
    next
      case True
      then show ?thesis unfolding rows by simp
    qed
  qed
qed simp

lemma nearest_without_docker:
  assumes "nearest_requirements c \<noteq> []" and "CapDocker \<notin> set (nearest_requirements c)"
  shows "\<exists>node \<in> set c. \<exists>raw. map_of (cn_Annotations node) AnnotationRequires = Some raw \<and>
    (\<forall>part \<in> set (split_on CHR '','' raw). to_lower (trim_space part) = [] \<or>
       to_lower (trim_space part) \<in> set knownCapabilities - {CapDocker})"
  using assms
proof (induction c)
  case (Cons node parents)
  show ?case
  proof (cases "map_of (cn_Annotations node) AnnotationRequires")
    case None
    with Cons show ?thesis by auto
  next
    case (Some raw)
    show ?thesis
    proof (cases "parseRequirements raw = []")
      case True
      with Some Cons show ?thesis by auto
    next
      case False
      with Some Cons.prems have free: "CapDocker \<notin> set (parseRequirements raw)" by simp
      have "to_lower (trim_space part) \<in> set knownCapabilities - {CapDocker}"
        if "part \<in> set (split_on CHR '','' raw)" "to_lower (trim_space part) \<noteq> []" for part
      proof -
        have "usable part \<in> set (parseRequirements raw)" using that by (auto simp: parseRequirements_set)
        with free have "usable part \<noteq> CapDocker" by metis
        then show ?thesis by (auto simp: usable_def Let_def split: if_splits)
      qed
      with Some show ?thesis by auto
    qed
  qed
qed simp

section \<open>Properties\<close>

text \<open>
  C36. The list of commands tells what the gate does: every row is of a runnable command, and it is
  marked as satisfied exactly where the gate lets that command run, although one probe answers
  for every command of the same requirement; and every runnable command but the root has a row.
\<close>

theorem manifest_agrees_with_gate:
  assumes "tree = CommandTree root children"
  shows "(\<forall>row \<in> set (capabilityRows h tree). \<exists>c \<in> set (walkCommandTree tree). cn_Runnable (hd c) \<and>
      row_Command row = CommandPath c \<and> (row_Satisfied row \<longleftrightarrow> gateError h c = None)) \<and>
    (\<forall>c \<in> set (walkCommandTree tree). c \<noteq> root \<longrightarrow> c \<noteq> [] \<longrightarrow> cn_Runnable (hd c) \<longrightarrow>
      (\<exists>row \<in> set (capabilityRows h tree). row_Command row = CommandPath c))"
proof -
  have rows: "set (capabilityRows h tree) = set (rows_of h root [] [] (walkCommandTree tree))"
    by (simp add: capabilityRows_def assms)
  have "\<exists>c \<in> set (walkCommandTree tree). cn_Runnable (hd c) \<and> row_Command row = CommandPath c \<and>
      (row_Satisfied row \<longleftrightarrow> gateError h c = None)" if "row \<in> set (capabilityRows h tree)" for row
  proof -
    from that rows have "row \<in> set (rows_of h root [] [] (walkCommandTree tree))" by blast
    then have "\<exists>c \<in> set (walkCommandTree tree). row_Command row = CommandPath c \<and>
        row_Requires row = join '','' (requirement_names c) \<and> cn_Runnable (hd c) \<and> c \<noteq> [] \<and>
        row_Satisfied row = (Probe h (Requires c) = None)"
      by (rule rows_of_sound) simp
    then show ?thesis using gateError_Probe by metis
  qed
  moreover have "\<exists>row \<in> set (capabilityRows h tree). row_Command row = CommandPath c"
    if "c \<in> set (walkCommandTree tree)" "c \<noteq> root" "c \<noteq> []" "cn_Runnable (hd c)" for c
    using rows_of_complete [OF that, of "[]" h "[]"] rows by simp
  ultimately show ?thesis by blast
qed

definition demo_node :: "string \<Rightarrow> (string \<times> string) list \<Rightarrow> bool \<Rightarrow> cli_node" where
  "demo_node name annotations runs = \<lparr>cn_Name = name, cn_Annotations = annotations, cn_Runnable = runs\<rparr>"

definition demo_root :: command where "demo_root = [demo_node ''govard'' [] False]"
definition demo_deploy_command :: command where
  "demo_deploy_command = demo_node ''deploy'' [(AnnotationRequires, ''ssh'')] True # demo_root"
definition demo_up_command :: command where "demo_up_command = demo_node ''up'' [] True # demo_root"

definition demo_host :: host_state where
  "demo_host = \<lparr>hs_Forced = [], hs_TestSatisfied = [], hs_LookPath = (\<lambda>name. if name = ''docker'' then Some ''not found'' else None),
     hs_DockerStatus = None, hs_DockerCompose = None, hs_Network = None\<rparr>"

theorem manifest_agrees_with_gate_witness:
  "\<exists>row \<in> set (capabilityRows demo_host (CommandTree demo_root [CommandTree demo_deploy_command [], CommandTree demo_up_command []])).
     row_Command row = CommandPath demo_up_command"
proof -
  have "demo_up_command \<noteq> demo_root" "demo_up_command \<noteq> []" "cn_Runnable (hd demo_up_command)"
    by (simp_all add: demo_up_command_def demo_root_def demo_node_def)
  with manifest_agrees_with_gate [OF refl, of demo_host demo_root "[CommandTree demo_deploy_command [], CommandTree demo_up_command []]"]
  show ?thesis by simp
qed

lemma demo_rows:
  "map row_Satisfied (capabilityRows demo_host (CommandTree demo_root [CommandTree demo_deploy_command [], CommandTree demo_up_command []]))
     = [True, False]"
  by code_simp



text \<open>An annotation that names nothing is passed over, so a parent's decides although it is not the nearest.\<close>

lemma blank_annotation_is_passed_over:
  "Requires [demo_node ''up'' [(AnnotationRequires, '' , '')] True, demo_node ''env'' [(AnnotationRequires, ''none'')] False, demo_node ''govard'' [] False]
     = [CapNone]"
  by code_simp

end
