(* ===== verification/EditDistance.thy ===== *)
theory EditDistance
  imports Prelude
begin

text \<open>
  The edit distance behind the "did you mean" of an unknown deployment setting
  (\<open>editDistance\<close> in \<open>internal/deploy/settings.go\<close>): the two-row dynamic program of the
  code, the recursive distance it computes, and the edit scripts both are about.
\<close>

section \<open>The two-row program\<close>

text \<open>
  One pass of the inner loop: \<open>diag\<close> is \<open>previous[j-1]\<close>, the head of the list of remaining
  cells is \<open>previous[j]\<close> and \<open>left\<close> is \<open>current[j-1]\<close>.
\<close>

fun fill_row :: "char \<Rightarrow> string \<Rightarrow> nat \<Rightarrow> nat list \<Rightarrow> nat \<Rightarrow> nat list" where
  "fill_row ai (bj # bs) diag (up # ups) left =
     (let cost = (if ai = bj then 0 else 1);
          cell = min (min (up + 1) (left + 1)) (diag + cost)
      in cell # fill_row ai bs up ups cell)"
| "fill_row ai bs diag ups left = []"

fun edit_rows :: "nat \<Rightarrow> string \<Rightarrow> string \<Rightarrow> nat list \<Rightarrow> nat list" where
  "edit_rows i [] b previous = previous"
| "edit_rows i (ai # as) b previous =
     edit_rows (i + 1) as b (i # fill_row ai b (hd previous) (tl previous) i)"

definition editDistance :: "string \<Rightarrow> string \<Rightarrow> nat" where
  "editDistance a b = last (edit_rows 1 a b [0..<length b + 1])"

section \<open>Edit scripts\<close>

inductive edits :: "nat \<Rightarrow> 'a list \<Rightarrow> 'a list \<Rightarrow> bool" where
  edit_done: "edits 0 [] []"
| edit_keep: "edits n xs ys \<Longrightarrow> edits n (c # xs) (c # ys)"
| edit_delete: "edits n xs ys \<Longrightarrow> edits (Suc n) (c # xs) ys"
| edit_insert: "edits n xs ys \<Longrightarrow> edits (Suc n) xs (c # ys)"
| edit_change: "edits n xs ys \<Longrightarrow> edits (Suc n) (c # xs) (d # ys)"

inductive_cases edits_NilE: "edits n [] []"

lemma edits_append: "edits m us vs \<Longrightarrow> edits n xs ys \<Longrightarrow> edits (m + n) (us @ xs) (vs @ ys)"
  by (induction rule: edits.induct) (auto intro: edits.intros)

lemma edits_rev: "edits n xs ys \<Longrightarrow> edits n (rev xs) (rev ys)"
proof (induction rule: edits.induct)
  case edit_done
  show ?case by (simp add: edits.edit_done)
next
  case (edit_keep n xs ys c)
  then show ?case
    using edits_append [OF edit_keep.IH edits.edit_keep [OF edits.edit_done, of c]] by simp
next
  case (edit_delete n xs ys c)
  then show ?case
    using edits_append [OF edit_delete.IH edits.edit_delete [OF edits.edit_done, of c]] by simp
next
  case (edit_insert n xs ys c)
  then show ?case
    using edits_append [OF edit_insert.IH edits.edit_insert [OF edits.edit_done, of c]] by simp
next
  case (edit_change n xs ys c d)
  then show ?case
    using edits_append [OF edit_change.IH edits.edit_change [OF edits.edit_done, of c d]] by simp
qed

section \<open>The recursive distance\<close>

fun lev :: "'a list \<Rightarrow> 'a list \<Rightarrow> nat" where
  "lev [] ys = length ys"
| "lev xs [] = length xs"
| "lev (x # xs) (y # ys) =
     min (min (lev xs (y # ys) + 1) (lev (x # xs) ys + 1)) (lev xs ys + (if x = y then 0 else 1))"

lemma lev_Nil2 [simp]: "lev xs [] = length xs"
  by (cases xs) simp_all

lemma edits_Nil_left: "edits (length ys) [] ys"
  by (induction ys) (auto intro: edits.intros)

lemma edits_Nil_right: "edits (length xs) xs []"
  by (induction xs) (auto intro: edits.intros)

lemma edits_lev: "edits (lev xs ys) xs ys"
proof (induction xs ys rule: lev.induct)
  case (1 ys)
  then show ?case by (simp add: edits_Nil_left)
next
  case (2 x xs)
  then show ?case using edits_Nil_right [of "x # xs"] by simp
next
  case (3 x xs y ys)
  consider (del) "lev (x # xs) (y # ys) = lev xs (y # ys) + 1"
    | (ins) "lev (x # xs) (y # ys) = lev (x # xs) ys + 1"
    | (diag) "lev (x # xs) (y # ys) = lev xs ys + (if x = y then 0 else 1)"
    by (simp add: min_def) metis
  then show ?case
  proof cases
    case del
    with 3 show ?thesis by (simp add: edit_delete del: lev.simps)
  next
    case ins
    with 3 show ?thesis by (simp add: edit_insert del: lev.simps)
  next
    case diag
    with 3 show ?thesis by (simp add: edit_keep edit_change del: lev.simps)
  qed
qed

lemma lev_Cons1: "lev (c # xs) ys \<le> Suc (lev xs ys)"
  by (cases ys) auto

lemma lev_Cons2: "lev xs (c # ys) \<le> Suc (lev xs ys)"
  by (cases xs) auto

lemma lev_minimal: "edits n xs ys \<Longrightarrow> lev xs ys \<le> n"
proof (induction rule: edits.induct)
  case (edit_delete n xs ys c)
  then show ?case using lev_Cons1 [of c xs ys] by simp
next
  case (edit_insert n xs ys c)
  then show ?case using lev_Cons2 [of xs c ys] by simp
qed auto

lemma lev_rev: "lev (rev xs) (rev ys) = lev xs ys"
  by (metis edits_lev edits_rev lev_minimal le_antisym rev_rev_ident)

section \<open>The program computes the recursive distance\<close>

text \<open>
  The row after the characters \<open>rev r\<close> of the first word holds the distances to all
  prefixes of the second.
\<close>

definition lev_row :: "string \<Rightarrow> string \<Rightarrow> string \<Rightarrow> nat list" where
  "lev_row r b1 b = map (\<lambda>k. lev r (rev (b1 @ take k b))) [0..<length b + 1]"

lemma lev_row_Nil [simp]: "lev_row r b1 [] = [lev r (rev b1)]"
  by (simp add: lev_row_def)

lemma lev_row_Cons: "lev_row r b1 (c # b) = lev r (rev b1) # lev_row r (b1 @ [c]) b"
proof -
  have "[0..<length (c # b) + 1] = 0 # map Suc [0..<length b + 1]"
    by (simp add: map_Suc_upt upt_conv_Cons del: upt_Suc)
  then show ?thesis by (simp add: lev_row_def del: upt_Suc)
qed

lemma lev_row_hd: "hd (lev_row r b1 b) = lev r (rev b1)"
  by (cases b) (simp_all add: lev_row_Cons)

lemma lev_row_nonempty [simp]: "lev_row r b1 b \<noteq> []"
  by (simp add: lev_row_def)

lemma lev_row_last: "last (lev_row r b1 b) = lev r (rev (b1 @ b))"
  by (simp add: lev_row_def)

lemma fill_row_lev:
  "fill_row ai b (lev r (rev b1)) (tl (lev_row r b1 b)) (lev (ai # r) (rev b1)) =
   tl (lev_row (ai # r) b1 b)"
proof (induction b arbitrary: b1)
  case Nil
  then show ?case by simp
next
  case (Cons bj b)
  obtain ups where ups: "lev_row r (b1 @ [bj]) b = lev r (rev (b1 @ [bj])) # ups"
    using lev_row_hd [of r "b1 @ [bj]" b] by (cases "lev_row r (b1 @ [bj]) b") auto
  obtain ups' where ups': "lev_row (ai # r) (b1 @ [bj]) b = lev (ai # r) (rev (b1 @ [bj])) # ups'"
    using lev_row_hd [of "ai # r" "b1 @ [bj]" b]
    by (cases "lev_row (ai # r) (b1 @ [bj]) b") auto
  show ?case
    using Cons.IH [of "b1 @ [bj]"] ups ups' by (simp add: lev_row_Cons Let_def)
qed

lemma edit_rows_lev:
  "length r = i \<Longrightarrow> edit_rows (i + 1) as b (lev_row r [] b) = lev_row (rev as @ r) [] b"
proof (induction as arbitrary: i r)
  case Nil
  then show ?case by simp
next
  case (Cons ai as)
  have "(i + 1) # fill_row ai b (hd (lev_row r [] b)) (tl (lev_row r [] b)) (i + 1) =
      lev_row (ai # r) [] b"
    using fill_row_lev [of ai b r "[]"] lev_row_hd [of r "[]" b] lev_row_hd [of "ai # r" "[]" b]
      Cons.prems
    by (cases "lev_row (ai # r) [] b") simp_all
  with Cons.IH [of "ai # r" "i + 1"] Cons.prems show ?case by simp
qed

lemma editDistance_lev: "editDistance a b = lev a b"
proof -
  have "[0..<length b + 1] = lev_row [] [] b"
  proof -
    have "map (\<lambda>k. length (take k b)) [0..<length b + 1] = map (\<lambda>k. k) [0..<length b + 1]"
      by (rule map_cong) auto
    then show ?thesis by (simp add: lev_row_def del: upt_Suc)
  qed
  then have "editDistance a b = last (lev_row (rev a) [] b)"
    using edit_rows_lev [of "[]" 0 a b] by (simp add: editDistance_def del: upt_Suc)
  then show ?thesis by (simp add: lev_row_last lev_rev)
qed

text \<open>
  The two-row program returns the length of a shortest edit script: there is a script
  of insertions, deletions and substitutions with that many edits, and no shorter one.
\<close>

theorem editDistance_shortest:
  "edits (editDistance a b) a b \<and> (\<forall>n. edits n a b \<longrightarrow> editDistance a b \<le> n)"
  by (simp add: editDistance_lev edits_lev lev_minimal)

theorem editDistance_shortest_witness:
  "editDistance ''owner'' ''owmer'' \<le> 1"
proof -
  have "edits 0 ''er'' ''er''" by (intro edits.intros)
  then have "edits 1 ''ner'' ''mer''" using edit_change by fastforce
  then have "edits 1 ''owner'' ''owmer''" by (intro edit_keep)
  then show ?thesis using editDistance_shortest [of "''owner''" "''owmer''"] by blast
qed

end
