(* ===== verification/SettingValues.thy ===== *)
theory SettingValues
  imports Prelude
begin

text \<open>
  The values of \<open>deploy.settings\<close> and the declarations a recipe makes of them
  (\<open>internal/deploy/settings.go\<close>, \<open>ArgsSpec\<close> of \<open>args.go\<close>): rendering a value as text, and
  checking one value against its declared kind.

  A value is a Go \<open>any\<close>; the constructors are the dynamic types the code switches on.  A Go
  map is a list of pairs with distinct keys in the order one iteration happens to visit
  them: a lookup does not depend on that order, and the lemmas say where a result does.
  A \<open>float64\<close> carries what the code observes of it: the integer it equals, if any, and its
  shortest decimal text.
\<close>

datatype sval =
    SNil
  | SStr string
  | SBool bool
  | SInt int
  | SInt64 int
  | SFloat "int option" string
  | SStrs "string list"
  | SAnys "sval list"
  | SMap "(string \<times> sval) list"
  | SMapStrs "(string \<times> string list) list"
  | SArgs string string bool sval string

text \<open>The fields of an \<open>ArgsSpec\<close>, which a recipe's defaults may hold as a value.\<close>

record args_spec =
  Flag :: string
  ValueFlag :: string
  Words :: bool
  Default :: sval
  DefaultFrom :: string

definition args_value :: "args_spec \<Rightarrow> sval" where
  "args_value spec =
     SArgs (Flag spec) (ValueFlag spec) (Words spec) (Default spec) (DefaultFrom spec)"

type_synonym settings = "(string \<times> sval) list"

text \<open>\<open>%T\<close>: the name of a value's dynamic type.\<close>

fun go_type :: "sval \<Rightarrow> string" where
  "go_type SNil = ''<nil>''"
| "go_type (SStr s) = ''string''"
| "go_type (SBool b) = ''bool''"
| "go_type (SInt n) = ''int''"
| "go_type (SInt64 n) = ''int64''"
| "go_type (SFloat i t) = ''float64''"
| "go_type (SStrs ws) = ''[]string''"
| "go_type (SAnys vs) = ''[]interface {}''"
| "go_type (SMap m) = ''map[string]interface {}''"
| "go_type (SMapStrs m) = ''map[string][]string''"
| "go_type (SArgs f v w d from) = ''deploy.ArgsSpec''"

datatype setting_kind =
    SettingString | SettingBool | SettingInt | SettingStringList | SettingStringListMap
  | SettingArgs | SettingCommand | SettingUnsupported | SettingOther string

record setting =
  set_key :: string
  set_kind :: setting_kind
  set_title :: string
  set_enum :: "string list"

definition SettingText :: "sval \<Rightarrow> string option" where
  "SettingText v =
     (case v of
        SStr s \<Rightarrow> Some s
      | SBool b \<Rightarrow> Some (if b then ''true'' else ''false'')
      | SInt n \<Rightarrow> Some (itoa n)
      | SInt64 n \<Rightarrow> Some (itoa n)
      | SFloat i t \<Rightarrow> (case i of Some n \<Rightarrow> Some (itoa n) | None \<Rightarrow> Some t)
      | _ \<Rightarrow> None)"

section \<open>The readers of a value\<close>

fun all_strings :: "sval list \<Rightarrow> string list option" where
  "all_strings [] = Some []"
| "all_strings (v # vs) =
     (case v of SStr s \<Rightarrow> map_option (Cons s) (all_strings vs) | _ \<Rightarrow> None)"

definition settingStringListValue :: "sval \<Rightarrow> string list option" where
  "settingStringListValue v =
     (case v of
        SStrs ws \<Rightarrow> Some ws
      | SStr s \<Rightarrow> Some [s]
      | SAnys vs \<Rightarrow> all_strings vs
      | _ \<Rightarrow> None)"

definition line_breaks :: string where
  "line_breaks = [CHR 0x0A, CHR 0x0D]"

definition sandboxPackageProblem :: "sval \<Rightarrow> string option" where
  "sandboxPackageProblem v =
     (case settingStringListValue v of
        None \<Rightarrow> None
      | Some words \<Rightarrow> find (\<lambda>word. contains_any word line_breaks) words)"

definition blanks :: string where
  "blanks = [CHR '' '', CHR 0x09, CHR 0x0A]"

definition has_blank :: "string \<Rightarrow> bool" where
  "has_blank word = contains_any word blanks"

fun strings_of :: "sval list \<Rightarrow> string list" where
  "strings_of [] = []"
| "strings_of (v # vs) = (case v of SStr s \<Rightarrow> s # strings_of vs | _ \<Rightarrow> strings_of vs)"

text \<open>The words \<open>argsElementWithWhitespace\<close> inspects, in the order it inspects them.\<close>

definition inspected_words :: "sval \<Rightarrow> string list" where
  "inspected_words v =
     (case v of
        SStrs ws \<Rightarrow> ws
      | SAnys vs \<Rightarrow> strings_of vs
      | SMapStrs m \<Rightarrow> concat (map (\<lambda>(k, ws). k # ws) m)
      | SMap m \<Rightarrow>
          concat (map (\<lambda>(k, raw).
            k # (case settingStringListValue raw of Some ws \<Rightarrow> ws | None \<Rightarrow> [])) m)
      | _ \<Rightarrow> [])"

definition argsElementWithWhitespace :: "sval \<Rightarrow> string option" where
  "argsElementWithWhitespace v = find has_blank (inspected_words v)"

definition settingArgsValue :: "sval \<Rightarrow> bool" where
  "settingArgsValue v =
     (case v of
        SStr s \<Rightarrow> True
      | SMapStrs m \<Rightarrow> True
      | SMap m \<Rightarrow> list_all (\<lambda>(k, raw). settingStringListValue raw \<noteq> None) m
      | SAnys vs \<Rightarrow> settingStringListValue v \<noteq> None
      | SStrs ws \<Rightarrow> True
      | _ \<Rightarrow> False)"

text \<open>\<open>settingsString\<close> and \<open>settingsStringList\<close> of \<open>tasks_prepare.go\<close>: how the steps read settings.\<close>

definition settingsString :: "settings \<Rightarrow> string \<Rightarrow> string" where
  "settingsString m key =
     (case map_of m key of Some (SStr s) \<Rightarrow> trim_space s | _ \<Rightarrow> [])"

definition list_words :: "sval \<Rightarrow> string list" where
  "list_words v =
     (case v of SStrs ws \<Rightarrow> ws | SAnys vs \<Rightarrow> strings_of vs | SStr s \<Rightarrow> [s] | _ \<Rightarrow> [])"

definition settingsStringList :: "settings \<Rightarrow> string list \<Rightarrow> string list" where
  "settingsStringList m keys =
     filter (\<lambda>w. w \<noteq> [])
       (map trim_space
         (concat (map (\<lambda>key. case map_of m key of Some v \<Rightarrow> list_words v | None \<Rightarrow> []) keys)))"

section \<open>One value against its declaration\<close>

definition ParseBool :: "string \<Rightarrow> bool option" where
  "ParseBool s =
     (if s \<in> set [''1'', ''t'', ''T'', ''true'', ''TRUE'', ''True''] then Some True
      else if s \<in> set [''0'', ''f'', ''F'', ''false'', ''FALSE'', ''False''] then Some False
      else None)"

definition describe :: "string \<Rightarrow> setting \<Rightarrow> sval \<Rightarrow> string \<Rightarrow> go_error" where
  "describe key s v wanted =
     Errorf ''deploy.settings.%s must be %s (%s), got %T'' [key, wanted, set_title s, go_type v]"

text \<open>\<open>None\<close> is the nil error.\<close>

definition validateSettingValue :: "string \<Rightarrow> setting \<Rightarrow> sval \<Rightarrow> go_error option" where
  "validateSettingValue key s v =
     (case set_kind s of
        SettingString \<Rightarrow>
          (case v of
             SStr typed \<Rightarrow>
               if set_enum s \<noteq> [] \<and> typed \<noteq> [] \<and> typed \<notin> set (set_enum s)
               then Some (Errorf ''deploy.settings.%s must be one of %s, got %q''
                      [key, join '', '' (set_enum s), typed])
               else None
           | _ \<Rightarrow> Some (describe key s v ''a quoted string''))
      | SettingBool \<Rightarrow>
          (case v of
             SBool b \<Rightarrow> None
           | SStr typed \<Rightarrow>
               if ParseBool (trim_space typed) \<noteq> None then None
               else Some (describe key s v ''true or false'')
           | _ \<Rightarrow> Some (describe key s v ''true or false''))
      | SettingInt \<Rightarrow>
          (case v of
             SInt n \<Rightarrow> None
           | SInt64 n \<Rightarrow> None
           | SFloat i t \<Rightarrow> None
           | SStr typed \<Rightarrow>
               if atoi (trim_space typed) \<noteq> None then None
               else Some (describe key s v ''a number'')
           | _ \<Rightarrow> Some (describe key s v ''a number''))
      | SettingStringList \<Rightarrow>
          (if settingStringListValue v = None
           then Some (describe key s v ''a list of strings'')
           else if key = ''sandbox_packages'' then
             (case sandboxPackageProblem v of
                Some entry \<Rightarrow>
                  Some (Wrapf
                    ''%w: deploy.settings.sandbox_packages has %q, which is not a package name; the value lands in a Dockerfile RUN line, where a newline cannot be quoted away''
                    [entry] (Sentinel ErrInvalidConfiguration))
              | None \<Rightarrow> None)
           else None)
      | SettingStringListMap \<Rightarrow>
          (case v of
             SMap m \<Rightarrow>
               (case find (\<lambda>(k, entry). settingStringListValue entry = None) m of
                  Some (k, entry) \<Rightarrow>
                    Some (Errorf ''deploy.settings.%s.%s must be a list of strings, got %T''
                      [key, k, go_type entry])
                | None \<Rightarrow> None)
           | _ \<Rightarrow> Some (describe key s v ''a map of lists''))
      | SettingCommand \<Rightarrow>
          (case v of SStr typed \<Rightarrow> None | _ \<Rightarrow> Some (describe key s v ''a command line''))
      | SettingArgs \<Rightarrow>
          (case argsElementWithWhitespace v of
             Some entry \<Rightarrow>
               Some (Wrapf
                 ''%w: deploy.settings.%s has the list entry %q with a space in it; a list contributes one argument per entry; write it as separate entries, or use the string form to pass a multi-word value verbatim''
                 [key, entry] (Sentinel ErrInvalidConfiguration))
           | None \<Rightarrow>
               if settingArgsValue v then None
               else Some (describe key s v ''a string, a list of strings or a map of lists''))
      | SettingUnsupported \<Rightarrow> None
      | SettingOther k \<Rightarrow> None)"

section \<open>Lemmas\<close>

lemma all_strings_Some: "all_strings vs = Some ws \<longleftrightarrow> vs = map SStr ws"
  by (induction vs arbitrary: ws) (auto split: sval.splits)

lemma strings_of_map [simp]: "strings_of (map SStr ws) = ws"
  by (induction ws) auto

lemma settingStringListValue_words:
  "settingStringListValue v = Some ws \<Longrightarrow> list_words v = ws"
  by (auto simp: settingStringListValue_def list_words_def all_strings_Some split: sval.splits)

lemma settingsStringList_words:
  "w \<in> set (settingsStringList m keys) \<Longrightarrow> w \<noteq> []"
  by (auto simp: settingsStringList_def)

text \<open>
  A value accepted for a kind is one its reader takes whole: nothing in it is skipped or
  read as the empty value.
\<close>

lemma accepted_string:
  assumes "set_kind s = SettingString" and "validateSettingValue key s v = None"
  shows "\<exists>t. v = SStr t \<and> (set_enum s = [] \<or> t = [] \<or> t \<in> set (set_enum s))"
  using assms by (auto simp: validateSettingValue_def split: sval.splits if_splits)

lemma accepted_list:
  assumes "set_kind s = SettingStringList" and "validateSettingValue key s v = None"
  shows "\<exists>ws. settingStringListValue v = Some ws \<and> list_words v = ws"
  using assms settingStringListValue_words
  by (auto simp: validateSettingValue_def split: if_splits)

lemma accepted_package:
  assumes "set_kind s = SettingStringList" and "validateSettingValue ''sandbox_packages'' s v = None"
    and "w \<in> set (list_words v)"
  shows "\<not> contains_any w line_breaks"
proof -
  from assms(1,2) obtain ws where ws: "settingStringListValue v = Some ws" "list_words v = ws"
    using accepted_list by blast
  with assms(1,2) have "find (\<lambda>word. contains_any word line_breaks) ws = None"
    by (auto simp: validateSettingValue_def sandboxPackageProblem_def split: option.splits)
  with assms(3) ws show ?thesis by (auto simp: find_None_iff)
qed

lemma accepted_args:
  assumes "set_kind s = SettingArgs" and "validateSettingValue key s v = None"
  shows "settingArgsValue v" and "\<And>w. w \<in> set (inspected_words v) \<Longrightarrow> \<not> has_blank w"
  using assms
  by (auto simp: validateSettingValue_def argsElementWithWhitespace_def find_None_iff
      split: option.splits if_splits)

end
