(* ===== verification/Pipeline.thy ===== *)
theory Pipeline
  imports Prelude
begin

text \<open>
  The vocabulary of the pipeline (\<open>internal/deploy/recipe.go\<close>): stages, run locations,
  the neutral task ids, their canonical order, their stages and their titles.

  Stages, run locations and ids are string types in the source and its empty value is used
  ("no stage chosen"), so they are strings here.  The two package-level maps are lists of
  pairs read with \<open>map_of\<close>.
\<close>

type_synonym stage = string
type_synonym run_on = string

definition StagePrepare :: stage where "StagePrepare = ''prepare''"
definition StageBuild :: stage where "StageBuild = ''build''"
definition StagePublish :: stage where "StagePublish = ''publish''"
definition StageVerify :: stage where "StageVerify = ''verify''"
definition StageCleanup :: stage where "StageCleanup = ''cleanup''"

definition StageOrder :: "stage list" where
  "StageOrder = [StagePrepare, StageBuild, StagePublish, StageVerify, StageCleanup]"

definition RunRemote :: run_on where "RunRemote = ''remote''"
definition RunLocal :: run_on where "RunLocal = ''local''"

definition TaskCheck :: string where "TaskCheck = ''deploy:check''"
definition TaskLock :: string where "TaskLock = ''deploy:lock''"
definition TaskRelease :: string where "TaskRelease = ''deploy:release''"
definition TaskCode :: string where "TaskCode = ''deploy:code''"
definition TaskShared :: string where "TaskShared = ''deploy:shared''"
definition TaskWritable :: string where "TaskWritable = ''deploy:writable''"
definition TaskVendors :: string where "TaskVendors = ''build:vendors''"
definition TaskPatches :: string where "TaskPatches = ''build:patches''"
definition TaskCompile :: string where "TaskCompile = ''build:compile''"
definition TaskFrontend :: string where "TaskFrontend = ''build:frontend''"
definition TaskAssets :: string where "TaskAssets = ''build:assets''"
definition TaskArtifact :: string where "TaskArtifact = ''deploy:artifact''"
definition TaskMaintenanceEnable :: string where "TaskMaintenanceEnable = ''maintenance:enable''"
definition TaskWorkersPause :: string where "TaskWorkersPause = ''app:workers:pause''"
definition TaskDBBackup :: string where "TaskDBBackup = ''db:backup''"
definition TaskAppConfigure :: string where "TaskAppConfigure = ''app:configure''"
definition TaskDBMigrate :: string where "TaskDBMigrate = ''db:migrate''"
definition TaskActivate :: string where "TaskActivate = ''publish:activate''"
definition TaskAppCacheFlush :: string where "TaskAppCacheFlush = ''app:cache:flush''"
definition TaskWorkersResume :: string where "TaskWorkersResume = ''app:workers:resume''"
definition TaskMaintenanceDisable :: string where "TaskMaintenanceDisable = ''maintenance:disable''"
definition TaskRecord :: string where "TaskRecord = ''deploy:record''"
definition TaskVerify :: string where "TaskVerify = ''deploy:verify''"
definition TaskCleanup :: string where "TaskCleanup = ''deploy:cleanup''"
definition TaskUnlock :: string where "TaskUnlock = ''deploy:unlock''"

lemmas stage_defs = StagePrepare_def StageBuild_def StagePublish_def StageVerify_def StageCleanup_def

lemmas run_on_defs = RunRemote_def RunLocal_def

lemmas task_defs =
  TaskCheck_def TaskLock_def TaskRelease_def TaskCode_def TaskShared_def TaskWritable_def
  TaskVendors_def TaskPatches_def TaskCompile_def TaskFrontend_def TaskAssets_def TaskArtifact_def
  TaskMaintenanceEnable_def TaskWorkersPause_def TaskDBBackup_def TaskAppConfigure_def
  TaskDBMigrate_def TaskActivate_def TaskAppCacheFlush_def TaskWorkersResume_def
  TaskMaintenanceDisable_def TaskRecord_def TaskVerify_def TaskCleanup_def TaskUnlock_def

definition taskOrder :: "string list" where
  "taskOrder =
     [TaskCheck, TaskLock, TaskRelease, TaskCode, TaskShared, TaskWritable,
      TaskVendors, TaskPatches, TaskCompile, TaskFrontend, TaskAssets, TaskArtifact,
      TaskMaintenanceEnable, TaskWorkersPause, TaskDBBackup, TaskAppConfigure, TaskDBMigrate,
      TaskActivate, TaskAppCacheFlush, TaskWorkersResume, TaskMaintenanceDisable, TaskRecord,
      TaskVerify, TaskCleanup, TaskUnlock]"

definition taskStages :: "(string \<times> stage) list" where
  "taskStages =
     [(TaskCheck, StagePrepare), (TaskLock, StagePrepare), (TaskRelease, StagePrepare),
      (TaskCode, StagePrepare), (TaskShared, StagePrepare), (TaskWritable, StagePrepare),
      (TaskVendors, StageBuild), (TaskPatches, StageBuild), (TaskCompile, StageBuild),
      (TaskFrontend, StageBuild), (TaskAssets, StageBuild), (TaskArtifact, StageBuild),
      (TaskMaintenanceEnable, StagePublish), (TaskWorkersPause, StagePublish),
      (TaskDBBackup, StagePublish), (TaskAppConfigure, StagePublish),
      (TaskDBMigrate, StagePublish), (TaskActivate, StagePublish),
      (TaskAppCacheFlush, StagePublish), (TaskWorkersResume, StagePublish),
      (TaskMaintenanceDisable, StagePublish), (TaskRecord, StagePublish),
      (TaskVerify, StageVerify),
      (TaskCleanup, StageCleanup), (TaskUnlock, StageCleanup)]"

definition TaskIDList :: "string list" where
  "TaskIDList = taskOrder"

definition IsKnownTaskID :: "string \<Rightarrow> bool" where
  "IsKnownTaskID tid = (map_of taskStages tid \<noteq> None)"

definition StageForTask :: "string \<Rightarrow> stage \<times> bool" where
  "StageForTask tid =
     (case map_of taskStages tid of Some stage \<Rightarrow> (stage, True) | None \<Rightarrow> ([], False))"

text \<open>Reading a Go map at an absent key gives the zero value.\<close>

definition task_stage :: "string \<Rightarrow> stage" where
  "task_stage tid = (case map_of taskStages tid of Some stage \<Rightarrow> stage | None \<Rightarrow> [])"

definition defaultTaskTitles :: "(string \<times> string) list" where
  "defaultTaskTitles =
     [(TaskCheck, ''preflight: connectivity, permissions, layout''),
      (TaskLock, ''acquire the deploy lock''),
      (TaskRelease, ''create the release directory''),
      (TaskCode, ''materialise the revision from the git mirror''),
      (TaskShared, ''link shared files and directories''),
      (TaskWritable, ''apply write permissions and ownership''),
      (TaskVendors, ''install dependencies''),
      (TaskPatches, ''apply patches''),
      (TaskCompile, ''generate code''),
      (TaskFrontend, ''build frontend assets''),
      (TaskAssets, ''deploy static assets''),
      (TaskArtifact, ''receive a prebuilt artifact''),
      (TaskMaintenanceEnable, ''enable maintenance mode''),
      (TaskWorkersPause, ''pause background workers''),
      (TaskDBBackup, ''back up the database''),
      (TaskAppConfigure, ''import application configuration''),
      (TaskDBMigrate, ''run schema and data migrations''),
      (TaskActivate, ''activate the new release''),
      (TaskAppCacheFlush, ''flush caches''),
      (TaskWorkersResume, ''resume background workers''),
      (TaskMaintenanceDisable, ''disable maintenance mode''),
      (TaskRecord, ''write the release record and history''),
      (TaskVerify, ''verify the live release''),
      (TaskCleanup, ''prune old releases''),
      (TaskUnlock, ''release the deploy lock'')]"

definition default_title :: "string \<Rightarrow> string" where
  "default_title tid = (case map_of defaultTaskTitles tid of Some t \<Rightarrow> t | None \<Rightarrow> [])"

section \<open>The tables agree\<close>

lemma distinct_taskOrder: "distinct taskOrder"
  by (simp add: taskOrder_def task_defs)

lemma taskStages_keys: "map fst taskStages = taskOrder"
  by (simp add: taskStages_def taskOrder_def)

lemma defaultTaskTitles_keys: "map fst defaultTaskTitles = taskOrder"
  by (simp add: defaultTaskTitles_def taskOrder_def)

lemma IsKnownTaskID_iff: "IsKnownTaskID tid \<longleftrightarrow> tid \<in> set taskOrder"
proof -
  have "set taskOrder = fst ` set taskStages"
    by (simp flip: taskStages_keys)
  then show ?thesis by (simp add: IsKnownTaskID_def map_of_eq_None_iff)
qed

lemma task_stage_known:
  "tid \<in> set taskOrder \<Longrightarrow> map_of taskStages tid = Some (task_stage tid)"
  using IsKnownTaskID_iff [of tid] by (auto simp: IsKnownTaskID_def task_stage_def)

lemma taskOrder_nonempty_ids: "tid \<in> set taskOrder \<Longrightarrow> tid \<noteq> []"
  by (auto simp: taskOrder_def task_defs)

lemma taskOrder_no_hook_prefix: "tid \<in> set taskOrder \<Longrightarrow> \<not> has_prefix tid ''hook:''"
  by (auto simp: taskOrder_def task_defs)

lemma distinct_StageOrder: "distinct StageOrder"
  by (simp add: StageOrder_def stage_defs)

text \<open>The position of a stage in the canonical order, the number of stages for any other.\<close>

fun position :: "'a list \<Rightarrow> 'a \<Rightarrow> nat" where
  "position [] x = 0"
| "position (y # ys) x = (if y = x then 0 else Suc (position ys x))"

definition stage_rank :: "stage \<Rightarrow> nat" where
  "stage_rank s = position StageOrder s"

text \<open>The canonical order never returns to an earlier stage.\<close>

lemma stages_ascending: "sorted (map (\<lambda>tid. stage_rank (task_stage tid)) taskOrder)"
proof -
  have "task_stage (fst p) = snd p" if "p \<in> set taskStages" for p
  proof -
    have "distinct (map fst taskStages)" by (simp add: taskStages_keys distinct_taskOrder)
    then have "map_of taskStages (fst p) = Some (snd p)"
      using that by (simp add: map_of_is_SomeI)
    then show ?thesis by (simp add: task_stage_def)
  qed
  then have "map task_stage (map fst taskStages) = map snd taskStages" by simp
  then have "map task_stage taskOrder = map snd taskStages" by (simp only: taskStages_keys)
  then have "map (\<lambda>tid. stage_rank (task_stage tid)) taskOrder = map stage_rank (map snd taskStages)"
    by (metis (no_types, lifting) comp_apply map_eq_conv map_map)
  then show ?thesis
    by (simp add: taskStages_def stage_rank_def StageOrder_def stage_defs)
qed

end
