(* ===== verification/Hooks.thy ===== *)
theory Hooks
  imports Pipeline
begin

text \<open>
  Hooks and their anchors (\<open>internal/deploy/hook.go\<close>): the hook record, its construction
  from configuration, and the classification of the \<open>on\<close> value.
\<close>

type_synonym hook_position = string

definition PositionBefore :: hook_position where "PositionBefore = ''before''"
definition PositionAfter :: hook_position where "PositionAfter = ''after''"

lemmas position_defs = PositionBefore_def PositionAfter_def

datatype anchor_kind = AnchorTask | AnchorStage | AnchorHook

record hook =
  hook_Name :: string
  hook_On :: string
  hook_Position :: hook_position
  hook_Order :: int
  hook_Run :: string
  hook_RunOn :: run_on
  hook_Optional :: bool
  hook_Source :: string

text \<open>\<open>engine.DeployHookConfig\<close>: the hook as the project's configuration spells it.\<close>

record hook_config =
  cfg_Name :: string
  cfg_On :: string
  cfg_Position :: string
  cfg_Order :: int
  cfg_Run :: string
  cfg_RunOn :: string
  cfg_Optional :: bool

definition HookID :: "hook \<Rightarrow> string" where
  "HookID h = ''hook:'' @ hook_Name h"

definition HookFromConfig :: "hook_config \<Rightarrow> go_error + hook" where
  "HookFromConfig cfg =
     (let name = trim_space (cfg_Name cfg);
          anchor = trim_space (cfg_On cfg);
          position = to_lower (trim_space (cfg_Position cfg));
          runon = to_lower (trim_space (cfg_RunOn cfg))
      in if name = [] then Inl (Errorf ''deploy hook: name is required'' [])
      else if anchor = [] then Inl (Errorf ''deploy hook %q: on is required'' [name])
      else if trim_space (cfg_Run cfg) = [] then Inl (Errorf ''deploy hook %q: run is required'' [name])
      else
        let position = (if position = [] then PositionAfter else position) in
        if position \<noteq> PositionBefore \<and> position \<noteq> PositionAfter then
          Inl (Errorf ''deploy hook %q: position must be %q or %q'' [name, PositionBefore, PositionAfter])
        else
          let runon = (if runon = [] then RunRemote else runon) in
          if runon \<noteq> RunRemote \<and> runon \<noteq> RunLocal then
            Inl (Errorf ''deploy hook %q: run_on must be %q or %q'' [name, RunRemote, RunLocal])
          else Inr \<lparr>hook_Name = name, hook_On = anchor, hook_Position = position,
            hook_Order = cfg_Order cfg, hook_Run = cfg_Run cfg, hook_RunOn = runon,
            hook_Optional = cfg_Optional cfg, hook_Source = ''config''\<rparr>)"

definition stageByName :: "string \<Rightarrow> stage option" where
  "stageByName name = find (\<lambda>s. s = name) StageOrder"

definition parseAnchor :: "string \<Rightarrow> go_error + (anchor_kind \<times> string)" where
  "parseAnchor raw =
     (let anchor = trim_space raw in
      if anchor = [] then Inl (Errorf ''empty hook anchor'' [])
      else if has_prefix anchor ''stage:'' then
        (let name = trim_space (trim_prefix anchor ''stage:'') in
         if stageByName name = None then Inl (Errorf ''unknown stage %q'' [name])
         else Inr (AnchorStage, name))
      else if has_prefix anchor ''hook:'' then
        (let name = trim_space (trim_prefix anchor ''hook:'') in
         if name = [] then Inl (Errorf ''empty hook anchor name'' [])
         else Inr (AnchorHook, name))
      else Inr (AnchorTask, anchor))"

section \<open>Lemmas\<close>

lemma HookID_inject: "HookID h = HookID h' \<longleftrightarrow> hook_Name h = hook_Name h'"
  by (simp add: HookID_def)

lemma find_equal: "find (\<lambda>s. s = name) xs = (if name \<in> set xs then Some name else None)"
  by (induction xs) auto

lemma stageByName_iff: "stageByName name = Some s \<longleftrightarrow> s = name \<and> name \<in> set StageOrder"
  by (auto simp: stageByName_def find_equal)

lemma stageByName_None: "stageByName name = None \<longleftrightarrow> name \<notin> set StageOrder"
  by (simp add: stageByName_def find_equal)

text \<open>A hook built from configuration is complete: every later reader finds a usable value.\<close>

lemma HookFromConfig_complete:
  assumes "HookFromConfig cfg = Inr h"
  shows "hook_Name h \<noteq> []" and "hook_On h \<noteq> []" and "trim_space (hook_Run h) \<noteq> []"
    and "hook_Position h \<in> {PositionBefore, PositionAfter}"
    and "hook_RunOn h \<in> {RunRemote, RunLocal}"
    and "hook_Source h = ''config''"
  using assms by (auto simp: HookFromConfig_def Let_def split: if_splits)

lemma parseAnchor_stage:
  "parseAnchor raw = Inr (AnchorStage, name) \<Longrightarrow> name \<in> set StageOrder"
  using stageByName_None [of name] by (auto simp: parseAnchor_def Let_def split: if_splits)

lemma parseAnchor_hook: "parseAnchor raw = Inr (AnchorHook, name) \<Longrightarrow> name \<noteq> []"
  by (auto simp: parseAnchor_def Let_def split: if_splits)

lemma parseAnchor_task: "parseAnchor raw = Inr (AnchorTask, name) \<Longrightarrow> name = trim_space raw \<and> name \<noteq> []"
  by (auto simp: parseAnchor_def Let_def split: if_splits)

end
