(* ===== verification/Recipe.thy ===== *)
theory Recipe
  imports SettingValues Hooks
begin

text \<open>
  Recipes (\<open>internal/deploy/recipe.go\<close>): tasks, checks, the migration probe, the recipe
  record, the default recipe with the Go implementations wired in, and \<open>ValidateRecipe\<close>
  (\<open>settings.go\<close>).

  A \<open>TaskFunc\<close> is named rather than stored: the ones the program attaches to a recipe are the
  twelve of \<open>wireCoreTasks\<close> and the database backup a framework builds from its dump command.  The sandbox requirements of a recipe are not modelled;
  nothing in the pipeline reads them.
\<close>

datatype core_fn =
    CoreCheckFn | CoreLockFn | CoreUnlockFn | CoreReleaseFn | CoreCodeFn | CoreSharedFn
  | CoreWritableFn | CoreActivateFn | CoreArtifactFn | CoreRecordFn | CoreVerifyFn | CoreCleanupFn
  | CoreDBBackupFn string

record task =
  task_ID :: string
  task_Stage :: stage
  task_Title :: string
  task_Command :: string
  task_Core :: "core_fn option"
  task_RunOn :: run_on
  task_Optional :: bool
  task_NeedsApplication :: bool
  task_NeedsMigration :: bool
  task_ReusableOutputs :: "string list"

record check =
  check_ID :: string
  check_Title :: string
  check_Command :: string
  check_OnlyForPublishStrategy :: string

record migration_probe =
  probe_Title :: string
  probe_Command :: string

record db_backup_probe =
  dump_Command :: string
  dump_Needs :: string

record recipe =
  rec_ID :: string
  rec_Tasks :: "task list"
  rec_Hooks :: "hook list"
  rec_Checks :: "check list"
  rec_Settings :: "setting list"
  rec_Defaults :: settings
  rec_Restore :: string
  rec_DBBackupCommand :: string
  rec_DBBackupProbe :: db_backup_probe
  rec_VerifyRejectPaths :: "string list"
  rec_MigrationProbe :: "migration_probe option"

definition zero_task :: task where
  "zero_task = \<lparr>task_ID = [], task_Stage = [], task_Title = [], task_Command = [], task_Core = None,
     task_RunOn = [], task_Optional = False, task_NeedsApplication = False,
     task_NeedsMigration = False, task_ReusableOutputs = []\<rparr>"

definition IsEmpty :: "task \<Rightarrow> bool" where
  "IsEmpty t = (task_Command t = [] \<and> task_Core t = None)"

fun find_task :: "task list \<Rightarrow> string \<Rightarrow> task" where
  "find_task [] tid = zero_task"
| "find_task (t # ts) tid = (if task_ID t = tid then t else find_task ts tid)"

definition recipe_task :: "recipe \<Rightarrow> string \<Rightarrow> task" where
  "recipe_task r tid = find_task (rec_Tasks r) tid"

fun replace_task :: "task \<Rightarrow> task list \<Rightarrow> task list" where
  "replace_task t [] = [t]"
| "replace_task t (x # xs) = (if task_ID x = task_ID t then t # xs else x # replace_task t xs)"

definition ReplaceTask :: "task \<Rightarrow> recipe \<Rightarrow> recipe" where
  "ReplaceTask t r = r\<lparr>rec_Tasks := replace_task t (rec_Tasks r)\<rparr>"

definition engineSettings :: "setting list" where
  "engineSettings =
     [\<lparr>set_key = ''shared_files'', set_kind = SettingStringList, set_title = ''files linked from shared/ into the release'', set_enum = []\<rparr>,
      \<lparr>set_key = ''shared_dirs'', set_kind = SettingStringList, set_title = ''directories linked from shared/ into the release'', set_enum = []\<rparr>,
      \<lparr>set_key = ''writable_dirs'', set_kind = SettingStringList, set_title = ''paths made writable in the release'', set_enum = []\<rparr>,
      \<lparr>set_key = ''writable_mode'', set_kind = SettingString, set_title = ''how the writable paths are made writable'',
        set_enum = [''chmod'', ''chown'', ''chmod+chown'', ''acl'', ''skip'']\<rparr>,
      \<lparr>set_key = ''writable_permissions'', set_kind = SettingString, set_title = ''the chmod mode, for example 775'', set_enum = []\<rparr>,
      \<lparr>set_key = ''owner'', set_kind = SettingString, set_title = ''user:group applied to the writable paths'', set_enum = []\<rparr>,
      \<lparr>set_key = ''sync_paths'', set_kind = SettingStringList, set_title = ''paths copied into an in-place docroot'', set_enum = []\<rparr>,
      \<lparr>set_key = ''php_bin'', set_kind = SettingString, set_title = ''the PHP interpreter on the target'', set_enum = []\<rparr>,
      \<lparr>set_key = ''php_version'', set_kind = SettingString, set_title = ''the PHP series the project expects'', set_enum = []\<rparr>,
      \<lparr>set_key = ''composer_bin'', set_kind = SettingString, set_title = ''the Composer binary on the target'', set_enum = []\<rparr>,
      \<lparr>set_key = ''content_version'', set_kind = SettingString, set_title = ''static content version; defaults to the revision'', set_enum = []\<rparr>,
      \<lparr>set_key = ''sandbox_packages'', set_kind = SettingStringList, set_title = ''extra apt packages the sandbox image installs'', set_enum = []\<rparr>,
      \<lparr>set_key = ''sandbox_extensions'', set_kind = SettingStringList, set_title = ''PHP extensions the sandbox image installs, as php-<name>'', set_enum = []\<rparr>,
      \<lparr>set_key = ''sandbox_services'', set_kind = SettingStringList, set_title = ''init services the sandbox starts before sshd'', set_enum = []\<rparr>,
      \<lparr>set_key = ''sandbox_reuse_assets'', set_kind = SettingBool, set_title = ''whether a sandbox deploy may reuse static content an earlier release produced; default true'', set_enum = []\<rparr>,
      \<lparr>set_key = ''sandbox_tools'', set_kind = SettingStringList, set_title = ''binaries the sandbox image installs, from the engine's known list'', set_enum = []\<rparr>]"

text \<open>The map of \<open>wireCoreTasks\<close>.\<close>

definition core_tasks :: "(string \<times> core_fn) list" where
  "core_tasks =
     [(TaskCheck, CoreCheckFn), (TaskLock, CoreLockFn), (TaskUnlock, CoreUnlockFn),
      (TaskRelease, CoreReleaseFn), (TaskCode, CoreCodeFn), (TaskShared, CoreSharedFn),
      (TaskWritable, CoreWritableFn), (TaskActivate, CoreActivateFn),
      (TaskArtifact, CoreArtifactFn), (TaskRecord, CoreRecordFn),
      (TaskVerify, CoreVerifyFn), (TaskCleanup, CoreCleanupFn)]"

definition wireCoreTasks :: "recipe \<Rightarrow> recipe" where
  "wireCoreTasks r = r\<lparr>rec_Tasks := map (\<lambda>t.
     case map_of core_tasks (task_ID t) of
       Some fn \<Rightarrow> t\<lparr>task_Core := Some fn\<rparr>
     | None \<Rightarrow> t) (rec_Tasks r)\<rparr>"

definition DefaultRecipe :: recipe where
  "DefaultRecipe = wireCoreTasks
     \<lparr>rec_ID = ''default'',
      rec_Tasks = map (\<lambda>tid. zero_task\<lparr>task_ID := tid, task_Stage := task_stage tid,
        task_Title := default_title tid, task_RunOn := RunRemote\<rparr>) taskOrder,
      rec_Hooks = [], rec_Checks = [], rec_Settings = engineSettings, rec_Defaults = [],
      rec_Restore = [], rec_DBBackupCommand = [],
      rec_DBBackupProbe = \<lparr>dump_Command = [], dump_Needs = []\<rparr>,
      rec_VerifyRejectPaths = [], rec_MigrationProbe = None\<rparr>"

text \<open>The two loops of \<open>ValidateRecipe\<close>.\<close>

fun duplicate_setting :: "string set \<Rightarrow> setting list \<Rightarrow> setting option" where
  "duplicate_setting seen [] = None"
| "duplicate_setting seen (s # ss) =
     (if set_key s \<in> seen then Some s else duplicate_setting (insert (set_key s) seen) ss)"

fun gated_task_error :: "recipe \<Rightarrow> task list \<Rightarrow> go_error option" where
  "gated_task_error r [] = None"
| "gated_task_error r (t # ts) =
     (if task_NeedsMigration t \<and> task_Command t = [] \<and> task_Core t = None then
        Some (Errorf ''recipe %q marks %s NeedsMigration but implements nothing; a conditional step with no command can never run''
          [rec_ID r, task_ID t])
      else if task_NeedsMigration t \<and> rec_MigrationProbe r = None then
        Some (Errorf ''recipe %q uses NeedsMigration without a migration probe; declare MigrationProbe or drop the flag''
          [rec_ID r])
      else gated_task_error r ts)"

definition ValidateRecipe :: "recipe \<Rightarrow> go_error option" where
  "ValidateRecipe r =
     (case duplicate_setting {} (rec_Settings r) of
        Some s \<Rightarrow>
          Some (Errorf ''recipe %q declares deploy.settings.%s twice; the second declaration would silently win''
            [rec_ID r, set_key s])
      | None \<Rightarrow> gated_task_error r (rec_Tasks r))"

definition SettingsDeclare :: "recipe \<Rightarrow> string \<Rightarrow> bool" where
  "SettingsDeclare r key = list_ex (\<lambda>s. set_key s = key) (rec_Settings r)"

text \<open>\<open>ValidateDBBackup\<close> of \<open>dbbackup.go\<close>, on the flag it reads from the options.\<close>

definition ValidateDBBackup :: "recipe \<Rightarrow> bool \<Rightarrow> go_error option" where
  "ValidateDBBackup r backup =
     (if \<not> backup then None
      else if \<not> IsEmpty (recipe_task r TaskDBBackup) then None
      else Some (Wrapf
        ''%w: %q: --db-backup needs a dump command this recipe does not provide; drop the flag, or take the dump yourself with a deploy.hooks entry anchored on db:backup''
        [rec_ID r] (Sentinel ErrInvalidConfiguration)))"

section \<open>Lemmas\<close>

interpretation recipe_tasks: keyed_upsert task_ID replace_task
  by unfold_locales simp_all

lemma find_task_ID: "find_task ts tid = zero_task \<or> task_ID (find_task ts tid) = tid"
  by (induction ts) auto

lemma find_task_mem: "tid \<in> task_ID ` set ts \<Longrightarrow> find_task ts tid \<in> set ts \<and> task_ID (find_task ts tid) = tid"
  by (induction ts) auto

lemma find_task_absent: "tid \<notin> task_ID ` set ts \<Longrightarrow> find_task ts tid = zero_task"
  by (induction ts) auto

lemma zero_task_ID [simp]: "task_ID zero_task = []"
  by (simp add: zero_task_def)

lemma recipe_task_declared:
  "tid \<noteq> [] \<Longrightarrow> task_ID (recipe_task r tid) \<noteq> [] \<longleftrightarrow> tid \<in> task_ID ` set (rec_Tasks r)"
  using find_task_mem [of tid "rec_Tasks r"] find_task_absent [of tid "rec_Tasks r"]
  by (cases "tid \<in> task_ID ` set (rec_Tasks r)") (simp_all add: recipe_task_def)

lemma find_task_lookup:
  "find_task ts tid =
   (case map_of (map (\<lambda>t. (task_ID t, t)) ts) tid of Some t \<Rightarrow> t | None \<Rightarrow> zero_task)"
  by (induction ts) auto

lemma wireCoreTasks_ids: "map task_ID (rec_Tasks (wireCoreTasks r)) = map task_ID (rec_Tasks r)"
  by (simp add: wireCoreTasks_def split: option.split)

lemma DefaultRecipe_ids: "map task_ID (rec_Tasks DefaultRecipe) = taskOrder"
  by (simp add: DefaultRecipe_def wireCoreTasks_ids comp_def)

lemma duplicate_setting_None:
  "duplicate_setting seen ss = None \<longleftrightarrow>
   distinct (map set_key ss) \<and> set_key ` set ss \<inter> seen = {}"
  by (induction seen ss rule: duplicate_setting.induct) auto

lemma gated_task_error_None:
  "gated_task_error r ts = None \<longleftrightarrow>
   (\<forall>t \<in> set ts. task_NeedsMigration t \<longrightarrow> \<not> IsEmpty t \<and> rec_MigrationProbe r \<noteq> None)"
  by (induction ts) (auto simp: IsEmpty_def)

lemma ValidateRecipe_None:
  "ValidateRecipe r = None \<longleftrightarrow>
   distinct (map set_key (rec_Settings r)) \<and>
   (\<forall>t \<in> set (rec_Tasks r). task_NeedsMigration t \<longrightarrow> \<not> IsEmpty t \<and> rec_MigrationProbe r \<noteq> None)"
  using duplicate_setting_None [of "{}" "rec_Settings r"] gated_task_error_None [of r "rec_Tasks r"]
  by (auto simp: ValidateRecipe_def split: option.splits)

section \<open>Properties\<close>

text \<open>
  Replacing a task: the pipeline then runs the replacement under that id and every other
  task as before, and a recipe that declared each id once still does.
\<close>

theorem ReplaceTask_effect:
  "recipe_task (ReplaceTask t r) tid = (if tid = task_ID t then t else recipe_task r tid) \<and>
   (distinct (map task_ID (rec_Tasks r)) \<longrightarrow> distinct (map task_ID (rec_Tasks (ReplaceTask t r)))) \<and>
   filter (\<lambda>x. task_ID x \<noteq> task_ID t) (rec_Tasks (ReplaceTask t r)) =
   filter (\<lambda>x. task_ID x \<noteq> task_ID t) (rec_Tasks r)"
  using recipe_tasks.lookup_put [of t "rec_Tasks r" tid]
    recipe_tasks.distinct_put [of "rec_Tasks r" t] recipe_tasks.others_put [of t "rec_Tasks r"]
  by (simp add: recipe_task_def ReplaceTask_def find_task_lookup)

theorem ReplaceTask_effect_witness:
  "distinct (map task_ID (rec_Tasks (ReplaceTask (zero_task\<lparr>task_ID := TaskVendors\<rparr>) DefaultRecipe)))"
proof -
  have "distinct (map task_ID (rec_Tasks DefaultRecipe))"
    by (simp only: DefaultRecipe_ids distinct_taskOrder)
  then show ?thesis using ReplaceTask_effect [of _ DefaultRecipe] by blast
qed

end
