(* ===== verification/Settings.thy ===== *)
theory Settings
  imports Recipe EditDistance
begin

text \<open>
  Checking a project's \<open>deploy.settings\<close> against what the recipe declares
  (\<open>ValidateSettings\<close>, \<open>nearestSetting\<close> in \<open>internal/deploy/settings.go\<close>).
\<close>

section \<open>The operations\<close>

text \<open>The declarations as a map: the last one of a key wins.\<close>

fun put_setting :: "setting \<Rightarrow> setting list \<Rightarrow> setting list" where
  "put_setting s [] = [s]"
| "put_setting s (x # xs) = (if set_key x = set_key s then s # xs else x # put_setting s xs)"

definition known_settings :: "recipe \<Rightarrow> setting list" where
  "known_settings r = fold put_setting (rec_Settings r) []"

definition known_at :: "setting list \<Rightarrow> string \<Rightarrow> setting option" where
  "known_at known key = map_of (map (\<lambda>s. (set_key s, s)) known) key"

text \<open>The loop over the map: strictly closer candidates replace the best one.\<close>

fun nearest :: "string \<Rightarrow> string \<Rightarrow> nat \<Rightarrow> string list \<Rightarrow> string \<times> nat" where
  "nearest key best bestDistance [] = (best, bestDistance)"
| "nearest key best bestDistance (c # cs) =
     (let d = editDistance key c in
      if d < bestDistance then nearest key c d cs else nearest key best bestDistance cs)"

definition nearestSetting :: "string \<Rightarrow> setting list \<Rightarrow> string" where
  "nearestSetting key known =
     (let best = fst (nearest key [] 3 (map set_key known)) in
      if best = [] then [] else ''; did you mean '' @ best @ ''?'')"

definition validate_setting :: "setting list \<Rightarrow> string \<Rightarrow> sval \<Rightarrow> go_error option" where
  "validate_setting known key v =
     (case known_at known key of
        None \<Rightarrow>
          (let derived = (case cut_suffix key ''_args'' of
                 Some base \<Rightarrow>
                   (case known_at known base of
                      Some parent \<Rightarrow> set_kind parent = SettingArgs
                    | None \<Rightarrow> False)
               | None \<Rightarrow> False)
           in if derived then None
              else Some (Wrapf ''%w: deploy.settings.%s is not a setting this recipe knows%s''
                [key, nearestSetting key known] (Sentinel ErrInvalidConfiguration)))
      | Some s \<Rightarrow>
          if set_kind s = SettingUnsupported then
            Some (Wrapf ''%w: deploy.settings.%s is not implemented yet (%s)''
              [key, set_title s] (Sentinel ErrInvalidConfiguration))
          else
            (case validateSettingValue key s v of
               Some e \<Rightarrow> Some (Wrapf ''%w: %v'' (error_text e) (Sentinel ErrInvalidConfiguration))
             | None \<Rightarrow> None))"

definition sortedSettingKeys :: "settings \<Rightarrow> string list" where
  "sortedSettingKeys m = sort (map fst m)"

fun validate_keys :: "setting list \<Rightarrow> settings \<Rightarrow> string list \<Rightarrow> go_error option" where
  "validate_keys known m [] = None"
| "validate_keys known m (key # keys) =
     (case validate_setting known key (case map_of m key of Some v \<Rightarrow> v | None \<Rightarrow> SNil) of
        Some e \<Rightarrow> Some e
      | None \<Rightarrow> validate_keys known m keys)"

definition ValidateSettings :: "recipe \<Rightarrow> settings \<Rightarrow> go_error option" where
  "ValidateSettings r m =
     (if m = [] then None else validate_keys (known_settings r) m (sortedSettingKeys m))"

section \<open>Lemmas\<close>

interpretation known: keyed_upsert set_key put_setting
  by unfold_locales simp_all

lemma known_at_put: "known_at (put_setting s ss) k = (if k = set_key s then Some s else known_at ss k)"
  unfolding known_at_def by (rule known.lookup_put)

lemma known_at_Nil [simp]: "known_at [] k = None"
  by (simp add: known_at_def)

lemma known_at_fold:
  "known_at (fold put_setting ss acc) k =
   (case map_of (map (\<lambda>s. (set_key s, s)) (rev ss)) k of Some s \<Rightarrow> Some s | None \<Rightarrow> known_at acc k)"
  by (induction ss arbitrary: acc) (auto simp: known_at_put map_add_def split: option.splits)

lemma known_settings_at:
  assumes "distinct (map set_key (rec_Settings r))" and "s \<in> set (rec_Settings r)"
  shows "known_at (known_settings r) (set_key s) = Some s"
proof -
  have "map_of (map (\<lambda>s. (set_key s, s)) (rev (rec_Settings r))) (set_key s) = Some s"
    using assms by (intro map_of_is_SomeI) (auto simp: comp_def rev_map [symmetric])
  then show ?thesis by (simp add: known_settings_def known_at_fold)
qed

lemma known_settings_mem:
  assumes "known_at (known_settings r) k = Some s"
  shows "s \<in> set (rec_Settings r) \<and> set_key s = k"
proof -
  have "map_of (map (\<lambda>s. (set_key s, s)) (rev (rec_Settings r))) k = Some s"
    using assms by (simp add: known_settings_def known_at_fold split: option.splits)
  then show ?thesis by (auto dest: map_of_SomeD)
qed

lemma known_settings_None:
  "known_at (known_settings r) k = None \<longleftrightarrow> k \<notin> set_key ` set (rec_Settings r)"
proof
  assume none: "known_at (known_settings r) k = None"
  then have "map_of (map (\<lambda>s. (set_key s, s)) (rev (rec_Settings r))) k = None"
    by (auto simp: known_settings_def known_at_fold split: option.splits)
  then show "k \<notin> set_key ` set (rec_Settings r)" by (auto simp: map_of_eq_None_iff image_image)
next
  assume "k \<notin> set_key ` set (rec_Settings r)"
  then show "known_at (known_settings r) k = None"
    using known_settings_mem [of r k] by (cases "known_at (known_settings r) k") auto
qed

lemma nearest_best:
  assumes "nearest key best d cs = (b, e)"
  shows "e \<le> d \<and> (\<forall>c \<in> set cs. e \<le> editDistance key c) \<and>
    (e < d \<longrightarrow> b \<in> set cs \<and> editDistance key b = e) \<and> (e = d \<longrightarrow> b = best)"
  using assms
proof (induction cs arbitrary: best d)
  case Nil
  then show ?case by simp
next
  case (Cons c cs)
  show ?case
  proof (cases "editDistance key c < d")
    case True
    with Cons.prems have "nearest key c (editDistance key c) cs = (b, e)" by (simp add: Let_def)
    from Cons.IH [OF this] True show ?thesis by fastforce
  next
    case False
    with Cons.prems have "nearest key best d cs = (b, e)" by (simp add: Let_def)
    from Cons.IH [OF this] False show ?thesis by fastforce
  qed
qed

lemma validate_keys_None:
  "validate_keys known m keys = None \<longleftrightarrow>
   (\<forall>key \<in> set keys.
      validate_setting known key (case map_of m key of Some v \<Rightarrow> v | None \<Rightarrow> SNil) = None)"
  by (induction keys) (auto split: option.splits)

lemma validate_keys_Some:
  assumes "validate_keys known m keys = Some e" and "sorted keys"
  shows "\<exists>key \<in> set keys.
      validate_setting known key (case map_of m key of Some v \<Rightarrow> v | None \<Rightarrow> SNil) = Some e \<and>
      (\<forall>k \<in> set keys. k < key \<longrightarrow>
         validate_setting known k (case map_of m k of Some v \<Rightarrow> v | None \<Rightarrow> SNil) = None)"
  using assms
proof (induction keys)
  case Nil
  then show ?case by simp
next
  case (Cons key keys)
  let ?v = "\<lambda>k. case map_of m k of Some v \<Rightarrow> v | None \<Rightarrow> SNil"
  show ?case
  proof (cases "validate_setting known key (?v key)")
    case None
    with Cons obtain k where "k \<in> set keys" "validate_setting known k (?v k) = Some e"
      "\<forall>j \<in> set keys. j < k \<longrightarrow> validate_setting known j (?v j) = None"
      by fastforce
    with None show ?thesis by (intro bexI [of _ k]) auto
  next
    case (Some e')
    with Cons.prems have "e' = e" by simp
    moreover have "\<not> k < key" if "k \<in> set (key # keys)" for k
      using Cons.prems(2) that by auto
    ultimately show ?thesis using Some by (intro bexI [of _ key]) auto
  qed
qed

lemma validate_setting_sentinel:
  "validate_setting known key v = Some e \<Longrightarrow> errors_is e ErrInvalidConfiguration"
  by (auto simp: validate_setting_def Let_def split: option.splits if_splits)

text \<open>What the recipe says about one entry: declared and of the declared shape, or derived.\<close>

definition setting_ok :: "recipe \<Rightarrow> string \<Rightarrow> sval \<Rightarrow> bool" where
  "setting_ok r key v \<longleftrightarrow>
     (if key \<in> set_key ` set (rec_Settings r)
      then list_all (\<lambda>s. set_key s = key \<longrightarrow>
             set_kind s \<noteq> SettingUnsupported \<and> validateSettingValue key s v = None) (rec_Settings r)
      else list_ex (\<lambda>s. set_kind s = SettingArgs \<and> key = set_key s @ ''_args'') (rec_Settings r))"

lemma has_suffix_iff: "has_suffix s p \<longleftrightarrow> (\<exists>r. s = r @ p)"
proof -
  have "has_suffix s p \<longleftrightarrow> (\<exists>r. rev s = rev p @ r)"
    by (simp add: has_suffix_def has_prefix_iff)
  also have "\<dots> \<longleftrightarrow> (\<exists>r. s = rev r @ p)"
    using rev_is_rev_conv [of s "rev _ @ p"] by simp
  also have "\<dots> \<longleftrightarrow> (\<exists>r. s = r @ p)"
    by (metis rev_rev_ident)
  finally show ?thesis .
qed

lemma cut_suffix_Some: "cut_suffix s p = Some r \<longleftrightarrow> s = r @ p"
  by (auto simp: cut_suffix_def has_suffix_iff)

lemma validate_setting_ok:
  assumes distinct: "distinct (map set_key (rec_Settings r))"
  shows "validate_setting (known_settings r) key v = None \<longleftrightarrow> setting_ok r key v"
proof (cases "known_at (known_settings r) key")
  case (Some s)
  then have s: "s \<in> set (rec_Settings r)" "set_key s = key"
    using known_settings_mem by auto
  have only: "t = s" if "t \<in> set (rec_Settings r)" "set_key t = key" for t
    using known_settings_at [OF distinct that(1)] that(2) Some by simp
  have "key \<in> set_key ` set (rec_Settings r)" using s by blast
  then have "setting_ok r key v \<longleftrightarrow>
      (\<forall>t \<in> set (rec_Settings r). set_key t = key \<longrightarrow>
        set_kind t \<noteq> SettingUnsupported \<and> validateSettingValue key t v = None)"
    by (simp only: setting_ok_def if_True list_all_iff)
  also have "\<dots> \<longleftrightarrow> set_kind s \<noteq> SettingUnsupported \<and> validateSettingValue key s v = None"
    by (metis only s)
  finally have "setting_ok r key v \<longleftrightarrow>
      set_kind s \<noteq> SettingUnsupported \<and> validateSettingValue key s v = None" .
  with Some show ?thesis
    by (auto simp: validate_setting_def split: option.splits)
next
  case None
  have "(\<exists>base. key = base @ ''_args'' \<and> (\<exists>p. known_at (known_settings r) base = Some p \<and> set_kind p = SettingArgs)) \<longleftrightarrow>
      (\<exists>s \<in> set (rec_Settings r). set_kind s = SettingArgs \<and> key = set_key s @ ''_args'')"
    using known_settings_mem known_settings_at [OF distinct] by blast
  moreover have "key \<notin> set_key ` set (rec_Settings r)"
    using None by (simp add: known_settings_None)
  moreover have "validate_setting (known_settings r) key v = None \<longleftrightarrow>
      (\<exists>base. key = base @ ''_args'' \<and> (\<exists>p. known_at (known_settings r) base = Some p \<and> set_kind p = SettingArgs))"
  proof -
    have "validate_setting (known_settings r) key v = None \<longleftrightarrow>
        (\<exists>base. cut_suffix key ''_args'' = Some base \<and>
          (\<exists>p. known_at (known_settings r) base = Some p \<and> set_kind p = SettingArgs))"
      using None by (simp add: validate_setting_def Let_def split: option.split)
    then show ?thesis by (simp only: cut_suffix_Some)
  qed
  ultimately show ?thesis by (simp add: setting_ok_def list_ex_iff)
qed

section \<open>Properties\<close>


definition typo_settings :: settings where
  "typo_settings = [(''zone'', SStr ''eu''), (''ownr'', SStr ''www-data'')]"


text \<open>
  The suggestion for an unknown key names a declared key at the least edit distance, and
  is given exactly when some declared key is within two edits.
\<close>

theorem nearestSetting_closest:
  assumes "[] \<notin> set_key ` set declared"
  shows "if \<exists>s \<in> set declared. editDistance key (set_key s) < 3
    then \<exists>s \<in> set declared. nearestSetting key declared = ''; did you mean '' @ set_key s @ ''?'' \<and>
      (\<forall>t \<in> set declared. editDistance key (set_key s) \<le> editDistance key (set_key t))
    else nearestSetting key declared = []"
proof -
  obtain b e where be: "nearest key [] 3 (map set_key declared) = (b, e)" by fastforce
  from nearest_best [OF be] have least: "\<forall>t \<in> set declared. e \<le> editDistance key (set_key t)"
    and close: "e < 3 \<longrightarrow> (\<exists>s \<in> set declared. b = set_key s \<and> editDistance key b = e)"
    and far: "e = 3 \<longrightarrow> b = []" and "e \<le> 3"
    by auto
  show ?thesis
  proof (cases "e < 3")
    case True
    with close obtain s where s: "s \<in> set declared" "b = set_key s" "editDistance key b = e" by blast
    then have "b \<noteq> []" using assms by (metis image_eqI)
    with be have "nearestSetting key declared = ''; did you mean '' @ set_key s @ ''?''"
      using s by (simp add: nearestSetting_def)
    moreover have "editDistance key (set_key s) < 3" using s True by simp
    ultimately show ?thesis using s least by auto
  next
    case False
    with \<open>e \<le> 3\<close> far have "b = []" by simp
    with be have "nearestSetting key declared = []" by (simp add: nearestSetting_def)
    moreover have "\<not> (\<exists>s \<in> set declared. editDistance key (set_key s) < 3)"
      using least False by fastforce
    ultimately show ?thesis by simp
  qed
qed

theorem nearestSetting_closest_witness:
  "nearestSetting ''ownr'' engineSettings = ''; did you mean owner?'' \<and>
   (\<exists>s \<in> set engineSettings. nearestSetting ''ownr'' engineSettings = ''; did you mean '' @ set_key s @ ''?'')"
proof -
  have "[] \<notin> set_key ` set engineSettings" by code_simp
  moreover have "\<exists>s \<in> set engineSettings. editDistance ''ownr'' (set_key s) < 3" by code_simp
  moreover have "nearestSetting ''ownr'' engineSettings = ''; did you mean owner?''" by code_simp
  ultimately show ?thesis using nearestSetting_closest [of engineSettings "''ownr''"] by auto
qed

end
