(* ===== verification/Shell.thy ===== *)
theory Shell
  imports Prelude
begin

text \<open>
  Quoting for the target's shell: \<open>ShellQuote\<close> (\<open>internal/conventions/paths.go\<close>),
  \<open>QuoteRemotePath\<close> (\<open>internal/engine/remote/ssh.go\<close>) and the argument quoting of
  \<open>internal/deploy/args.go\<close>.

  Their contract is stated against a reader that follows the quoting rules of the POSIX
  shell command language: it splits a command line into words and keeps, for every word,
  what is literal text, what is a parameter expansion and what is a character the shell
  acts on.  The interface \<open>quoting\<close> says that quoted text reads back as one word with a
  given meaning wherever it is placed.
\<close>

section \<open>The reader\<close>

text \<open>
  A piece of a word is a literal character, a parameter expansion (the flag says whether it
  stands inside double quotes, where its value is not split into fields), or a character
  with a meaning of its own: an operator, a pattern, a substitution or a comment.
\<close>

datatype piece = Ch char | Var bool string | Active char

datatype sh_mode = Plain | Single | Double

definition sq :: char where "sq = CHR 0x27"
definition dq :: char where "dq = CHR 0x22"
definition bsl :: char where "bsl = CHR 0x5C"

definition sh_blank :: "char \<Rightarrow> bool" where
  "sh_blank c \<longleftrightarrow> c = CHR '' '' \<or> c = CHR 0x09"

definition sh_meta :: "char \<Rightarrow> bool" where
  "sh_meta c \<longleftrightarrow> c \<in> set ''|&;<>()*?[]{}~#!'' \<or> c = CHR 0x0A \<or> c = CHR 0x60"

definition sh_name_char :: "char \<Rightarrow> bool" where
  "sh_name_char c \<longleftrightarrow>
     (CHR ''a'' \<le> c \<and> c \<le> CHR ''z'') \<or> (CHR ''A'' \<le> c \<and> c \<le> CHR ''Z'') \<or> is_digit c \<or> c = CHR ''_''"

fun word_of :: "piece list option \<Rightarrow> piece list" where
  "word_of None = []"
| "word_of (Some w) = w"

fun finish_word :: "piece list option \<Rightarrow> piece list list \<Rightarrow> piece list list" where
  "finish_word None ws = ws"
| "finish_word (Some w) ws = w # ws"

function sh_words :: "sh_mode \<Rightarrow> piece list option \<Rightarrow> string \<Rightarrow> piece list list option" where
  "sh_words Plain cur [] = Some (finish_word cur [])"
| "sh_words Single cur [] = None"
| "sh_words Double cur [] = None"
| "sh_words Plain cur (c # s) =
     (if sh_blank c then map_option (finish_word cur) (sh_words Plain None s)
      else if c = sq then sh_words Single (Some (word_of cur)) s
      else if c = dq then sh_words Double (Some (word_of cur)) s
      else if c = bsl then
        (case s of [] \<Rightarrow> None | d # t \<Rightarrow> sh_words Plain (Some (word_of cur @ [Ch d])) t)
      else if c = CHR ''$'' then
        (let n = takeWhile sh_name_char s in
         if n = [] then sh_words Plain (Some (word_of cur @ [Active c])) s
         else sh_words Plain (Some (word_of cur @ [Var False n])) (drop (length n) s))
      else if sh_meta c then sh_words Plain (Some (word_of cur @ [Active c])) s
      else sh_words Plain (Some (word_of cur @ [Ch c])) s)"
| "sh_words Single cur (c # s) =
     (if c = sq then sh_words Plain cur s
      else sh_words Single (Some (word_of cur @ [Ch c])) s)"
| "sh_words Double cur (c # s) =
     (if c = dq then sh_words Plain cur s
      else if c = bsl then
        (case s of
           [] \<Rightarrow> None
         | d # t \<Rightarrow>
             if d = CHR ''$'' \<or> d = dq \<or> d = bsl \<or> d = CHR 0x60
             then sh_words Double (Some (word_of cur @ [Ch d])) t
             else sh_words Double (Some (word_of cur @ [Ch c])) s)
      else if c = CHR ''$'' then
        (let n = takeWhile sh_name_char s in
         if n = [] then sh_words Double (Some (word_of cur @ [Active c])) s
         else sh_words Double (Some (word_of cur @ [Var True n])) (drop (length n) s))
      else if c = CHR 0x60 then sh_words Double (Some (word_of cur @ [Active c])) s
      else sh_words Double (Some (word_of cur @ [Ch c])) s)"
  by pat_completeness auto
termination by (relation "measure (\<lambda>(m, cur, s). length s)") auto

text \<open>A word is inert when the shell finds nothing to act on in it.\<close>

definition inert :: "piece list \<Rightarrow> bool" where
  "inert w \<longleftrightarrow> list_all (\<lambda>p. case p of Ch c \<Rightarrow> True | _ \<Rightarrow> False) w"

lemma inert_map_Ch [simp]: "inert (map Ch s)"
  by (simp add: inert_def list_all_iff)

lemmas quote_chars = sq_def dq_def bsl_def sh_blank_def sh_meta_def

section \<open>The quoting functions\<close>

definition ShellQuote :: "string \<Rightarrow> string" where
  "ShellQuote raw =
     (if raw = [] then [sq, sq]
      else [sq] @ concat (map (\<lambda>c. if c = sq then [sq, dq, sq, dq, sq] else [c]) raw) @ [sq])"

definition QuoteRemotePath :: "string \<Rightarrow> string" where
  "QuoteRemotePath path =
     (if has_prefix path ''~/'' then ''$HOME/'' @ ShellQuote (drop 2 path)
      else ShellQuote path)"

definition isSafeArgument :: "string \<Rightarrow> bool" where
  "isSafeArgument word =
     list_all (\<lambda>char.
       (CHR ''a'' \<le> char \<and> char \<le> CHR ''z'') \<or> (CHR ''A'' \<le> char \<and> char \<le> CHR ''Z'') \<or>
       (CHR ''0'' \<le> char \<and> char \<le> CHR ''9'') \<or> char \<in> set ''_@%+=:,./-'') word"

definition quoteIfNeeded :: "string \<Rightarrow> string" where
  "quoteIfNeeded word = (if word = [] \<or> isSafeArgument word then word else ShellQuote word)"

definition shellQuotedWords :: "string list \<Rightarrow> string" where
  "shellQuotedWords words = join '' '' (map ShellQuote words)"

definition flagWords :: "string \<Rightarrow> string list \<Rightarrow> string" where
  "flagWords flag words =
     (if trim_space flag = [] then join '' '' words
      else trim_space (flag @ '' '' @ join '' '' words))"

text \<open>The rendering of one word of a configured command, the loop body of \<open>CommandWords\<close>.\<close>

definition commandWord :: "string \<Rightarrow> string" where
  "commandWord word =
     (case cut_prefix word ''~/'' of
        Some rest \<Rightarrow> [dq] @ ''$HOME'' @ [dq] @ ''/'' @ ShellQuote rest
      | None \<Rightarrow> ShellQuote word)"

section \<open>The interface\<close>

locale quoting =
  fixes quote :: "string \<Rightarrow> string"
    and ok :: "string \<Rightarrow> bool"
    and denotes :: "string \<Rightarrow> piece list"
  assumes reads: "ok s \<Longrightarrow>
    sh_words Plain cur (quote s @ rest) = sh_words Plain (Some (word_of cur @ denotes s)) rest"
begin

lemma reads_alone: "ok s \<Longrightarrow> sh_words Plain None (quote s) = Some [denotes s]"
  using reads [of s None "[]"] by simp

lemma words_join:
  "list_all ok ws \<Longrightarrow> sh_words Plain None (join '' '' (map quote ws)) = Some (map denotes ws)"
proof (induction ws)
  case Nil
  then show ?case by simp
next
  case (Cons w ws)
  then show ?case by (cases ws) (simp_all add: reads_alone reads sh_blank_def)
qed

end

locale literal_quoting = quoting quote ok "map Ch" for quote :: "string \<Rightarrow> string" and ok
begin

lemma words_join_literal:
  "list_all ok ws \<Longrightarrow> sh_words Plain None (join '' '' (map quote ws)) = Some (map (map Ch) ws)"
  by (rule words_join)

lemma words_join_inert:
  "list_all ok ws \<Longrightarrow> sh_words Plain None (join '' '' (map quote ws)) = Some us \<Longrightarrow> list_all inert us"
  by (auto simp: words_join list_all_iff)

end

section \<open>The quoting functions meet it\<close>

lemma single_run:
  "sh_words Single (Some w) (concat (map (\<lambda>c. if c = sq then [sq, dq, sq, dq, sq] else [c]) s) @ sq # rest) =
   sh_words Plain (Some (w @ map Ch s)) rest"
proof (induction s arbitrary: w)
  case Nil
  then show ?case by simp
next
  case (Cons c s)
  then show ?case by (simp add: quote_chars)
qed

lemma ShellQuote_reads:
  "sh_words Plain cur (ShellQuote s @ rest) = sh_words Plain (Some (word_of cur @ map Ch s)) rest"
proof (cases "s = []")
  case True
  then show ?thesis by (simp add: ShellQuote_def quote_chars)
next
  case False
  have "sh_words Plain cur (ShellQuote s @ rest) =
    sh_words Single (Some (word_of cur))
      (concat (map (\<lambda>c. if c = sq then [sq, dq, sq, dq, sq] else [c]) s) @ sq # rest)"
    using False by (simp add: ShellQuote_def sh_blank_def) (simp add: sq_def)
  then show ?thesis by (simp only: single_run)
qed

interpretation shell_quote: literal_quoting ShellQuote "\<lambda>_. True"
  by unfold_locales (rule ShellQuote_reads)

lemma safe_char_literal:
  assumes "isSafeArgument [c]"
  shows "\<not> sh_blank c \<and> c \<noteq> sq \<and> c \<noteq> dq \<and> c \<noteq> bsl \<and> c \<noteq> CHR ''$'' \<and> \<not> sh_meta c"
  using assms by (auto simp: isSafeArgument_def quote_chars less_eq_char_def)

lemma safe_run:
  "isSafeArgument s \<Longrightarrow>
   sh_words Plain (Some w) (s @ rest) = sh_words Plain (Some (w @ map Ch s)) rest"
proof (induction s arbitrary: w)
  case Nil
  then show ?case by simp
next
  case (Cons c s)
  then have "isSafeArgument [c]" and "isSafeArgument s"
    by (simp_all add: isSafeArgument_def)
  with Cons.IH show ?case using safe_char_literal [of c] by simp
qed

lemma quoteIfNeeded_reads:
  assumes "s \<noteq> []"
  shows "sh_words Plain cur (quoteIfNeeded s @ rest) = sh_words Plain (Some (word_of cur @ map Ch s)) rest"
proof (cases "isSafeArgument s")
  case True
  obtain c t where s: "s = c # t" using assms by (cases s) auto
  with True have c: "isSafeArgument [c]" and t: "isSafeArgument t"
    by (simp_all add: isSafeArgument_def)
  show ?thesis
    using True s safe_char_literal [OF c] safe_run [OF t]
    by (simp add: quoteIfNeeded_def)
next
  case False
  then show ?thesis by (simp add: quoteIfNeeded_def assms ShellQuote_reads)
qed

interpretation quote_if_needed: literal_quoting quoteIfNeeded "\<lambda>w. w \<noteq> []"
  by unfold_locales (rule quoteIfNeeded_reads)

text \<open>
  A home-relative path keeps its expansion: what is left of the tilde is the variable
  \<open>HOME\<close>, unquoted in a remote path and inside double quotes in a command word.
\<close>

definition home_denotes :: "bool \<Rightarrow> string \<Rightarrow> piece list" where
  "home_denotes quoted p =
     (case cut_prefix p ''~/'' of
        Some rest \<Rightarrow> Var quoted ''HOME'' # Ch (CHR ''/'') # map Ch rest
      | None \<Rightarrow> map Ch p)"

lemma slash_ends_name: "\<not> sh_name_char (CHR ''/'')" "\<not> sh_name_char dq"
  by (simp_all add: sh_name_char_def is_digit_def dq_def less_eq_char_def)

lemma home_is_name: "list_all sh_name_char ''HOME''"
  by (simp add: sh_name_char_def is_digit_def less_eq_char_def)

lemma take_home:
  "\<not> sh_name_char c \<Longrightarrow> takeWhile sh_name_char (''HOME'' @ c # s) = ''HOME''"
  using home_is_name by simp

lemma home_plain:
  "sh_words Plain cur (''$HOME/'' @ s) =
   sh_words Plain (Some (word_of cur @ [Var False ''HOME'', Ch (CHR ''/'')])) s"
  using take_home [OF slash_ends_name(1), of s]
  by (simp add: quote_chars Let_def del: takeWhile.simps)

lemma home_double:
  "sh_words Plain cur ([dq] @ ''$HOME'' @ [dq] @ ''/'' @ s) =
   sh_words Plain (Some (word_of cur @ [Var True ''HOME'', Ch (CHR ''/'')])) s"
  using take_home [OF slash_ends_name(2), of "''/'' @ s"]
  by (simp add: quote_chars Let_def del: takeWhile.simps)

lemma QuoteRemotePath_reads:
  "sh_words Plain cur (QuoteRemotePath s @ rest) =
   sh_words Plain (Some (word_of cur @ home_denotes False s)) rest"
proof (cases "cut_prefix s ''~/''")
  case None
  then have "\<not> has_prefix s ''~/''" by (simp only: cut_prefix_None simp_thms)
  then have "QuoteRemotePath s = ShellQuote s" by (simp add: QuoteRemotePath_def)
  with None show ?thesis by (simp only: ShellQuote_reads home_denotes_def option.case)
next
  case (Some r)
  then have "s = ''~/'' @ r" by (simp only: cut_prefix_Some)
  then have "QuoteRemotePath s = ''$HOME/'' @ ShellQuote r"
    by (simp add: QuoteRemotePath_def)
  with Some show ?thesis
    by (simp only: append_assoc home_plain ShellQuote_reads home_denotes_def option.case word_of.simps)
      simp
qed

lemma commandWord_reads:
  "sh_words Plain cur (commandWord s @ rest) =
   sh_words Plain (Some (word_of cur @ home_denotes True s)) rest"
proof (cases "cut_prefix s ''~/''")
  case None
  then show ?thesis by (simp add: commandWord_def home_denotes_def ShellQuote_reads)
next
  case (Some r)
  then have "commandWord s = [dq] @ ''$HOME'' @ [dq] @ ''/'' @ ShellQuote r"
    by (simp only: commandWord_def option.case)
  with Some show ?thesis
    by (simp only: append_assoc home_double ShellQuote_reads home_denotes_def option.case word_of.simps)
      simp
qed

interpretation remote_path: quoting QuoteRemotePath "\<lambda>_. True" "home_denotes False"
  by unfold_locales (rule QuoteRemotePath_reads)

interpretation command_word: quoting commandWord "\<lambda>_. True" "home_denotes True"
  by unfold_locales (rule commandWord_reads)

end
