(* ===== verification/Args.thy ===== *)
theory Args
  imports SettingValues Shell
begin

text \<open>
  Rendering a setting as command arguments (\<open>internal/deploy/args.go\<close>): lists repeat a flag,
  maps give one group per key, a list of words is quoted for a loop, and a configured
  command becomes quoted words.  The lemmas say which words the target's shell reads.
\<close>

section \<open>The operations\<close>

definition cleanWords :: "string list \<Rightarrow> string list" where
  "cleanWords vs = filter (\<lambda>w. w \<noteq> []) (map trim_space vs)"

definition argWords :: "sval \<Rightarrow> string list" where
  "argWords v =
     (case v of
        SStr s \<Rightarrow> Fields s
      | SStrs ws \<Rightarrow> cleanWords ws
      | SAnys vs \<Rightarrow> cleanWords (strings_of vs)
      | _ \<Rightarrow> [])"

type_synonym groups = "(string \<times> string list) list"

definition argGroups :: "sval \<Rightarrow> groups option" where
  "argGroups v =
     (case v of
        SMap m \<Rightarrow> Some (map (\<lambda>(key, entry). (key, argWords entry)) m)
      | SMapStrs m \<Rightarrow> Some (map (\<lambda>(key, entry). (key, cleanWords entry)) m)
      | _ \<Rightarrow> None)"

definition group_at :: "groups \<Rightarrow> string \<Rightarrow> string list" where
  "group_at groups key = (case map_of groups key of Some ws \<Rightarrow> ws | None \<Rightarrow> [])"

definition argWordsAll :: "sval \<Rightarrow> string list" where
  "argWordsAll v =
     (case argGroups v of
        None \<Rightarrow> argWords v
      | Some groups \<Rightarrow>
          cleanWords (concat (map (\<lambda>key. key # group_at groups key) (sort (map fst groups)))))"

text \<open>The loop with its \<open>seen\<close> set.\<close>

fun first_seen :: "string set \<Rightarrow> string list \<Rightarrow> string list" where
  "first_seen seen [] = []"
| "first_seen seen (v # vs) =
     (if v \<in> seen then first_seen seen vs else v # first_seen (insert v seen) vs)"

definition distinctGroupValues :: "groups \<Rightarrow> string list" where
  "distinctGroupValues groups = sort (first_seen {} (concat (map snd groups)))"

definition renderArgGroups :: "args_spec \<Rightarrow> groups \<Rightarrow> string" where
  "renderArgGroups spec groups =
     (let keys = sort (map fst groups) in
      if ValueFlag spec = [] then
        join '' '' (map (\<lambda>key. flagWords (Flag spec)
          (quoteIfNeeded key # map quoteIfNeeded (group_at groups key))) keys)
      else
        join '' '' (map (\<lambda>key. flagWords (Flag spec) [quoteIfNeeded key]) keys @
          map (\<lambda>v. flagWords (ValueFlag spec) [quoteIfNeeded v]) (distinctGroupValues groups)))"

definition RenderSettingArgs :: "args_spec \<Rightarrow> sval \<Rightarrow> string" where
  "RenderSettingArgs spec v =
     (if Words spec then shellQuotedWords (argWordsAll v)
      else case v of
        SStr text \<Rightarrow> trim_space text
      | _ \<Rightarrow>
          (case argGroups v of
             Some groups \<Rightarrow> renderArgGroups spec groups
           | None \<Rightarrow>
               join '' '' (map (\<lambda>word. flagWords (Flag spec) [quoteIfNeeded word]) (argWords v))))"

definition CommandWords :: "settings \<Rightarrow> string \<Rightarrow> string \<Rightarrow> string" where
  "CommandWords m key fallback =
     (let raw = (case map_of m key of
                   Some (SStr entry) \<Rightarrow> if trim_space entry \<noteq> [] then entry else fallback
                 | _ \<Rightarrow> fallback)
      in join '' '' (map commandWord (Fields raw)))"

section \<open>Texts that read as given words\<close>

text \<open>
  A text reads as some words when the shell reads it so at the end of a line, and before a
  blank and more text.
\<close>

definition reads_as :: "string \<Rightarrow> string list \<Rightarrow> bool" where
  "reads_as s ws \<longleftrightarrow>
     sh_words Plain None s = Some (map (map Ch) ws) \<and>
     (\<forall>rest. sh_words Plain None (s @ CHR '' '' # rest) =
             map_option (append (map (map Ch) ws)) (sh_words Plain None rest))"

lemma reads_as_end: "reads_as s ws \<Longrightarrow> sh_words Plain None s = Some (map (map Ch) ws)"
  by (simp add: reads_as_def)

lemma map_finish_None [simp]: "map_option (finish_word None) r = r"
  by (cases r) simp_all

lemma map_append_Nil [simp]: "map_option ((@) []) r = r"
  by (cases r) simp_all

lemma reads_as_Nil: "reads_as [] []"
  by (simp add: reads_as_def quote_chars)

lemma reads_as_word: "w \<noteq> [] \<Longrightarrow> reads_as (quoteIfNeeded w) [w]"
  by (auto simp: reads_as_def quoteIfNeeded_reads quote_if_needed.reads_alone sh_blank_def
      intro: option.map_cong0)

lemma append_fun: "(@) (xs @ ys) = (\<lambda>zs. xs @ ys @ zs)"
  by (simp add: fun_eq_iff)

lemma reads_as_append:
  assumes "reads_as s ws" and "reads_as t vs"
  shows "reads_as (s @ '' '' @ t) (ws @ vs)"
  using assms by (simp add: reads_as_def option.map_comp comp_def append_fun)

lemma reads_as_join:
  "list_all2 reads_as ss wss \<Longrightarrow> reads_as (join '' '' ss) (concat wss)"
proof (induction ss wss rule: list_all2_induct)
  case Nil
  then show ?case by (simp add: reads_as_Nil)
next
  case (Cons s ss ws wss)
  then show ?case
    using reads_as_append [of s ws "join '' '' ss" "concat wss"] by (cases ss) auto
qed

lemma reads_as_inert: "reads_as s ws \<Longrightarrow> sh_words Plain None s = Some us \<Longrightarrow> list_all inert us"
  by (auto simp: reads_as_def list_all_iff)

section \<open>A flag and its words\<close>

definition tidy :: "string \<Rightarrow> bool" where
  "tidy s \<longleftrightarrow> s \<noteq> [] \<and> \<not> is_space (hd s) \<and> \<not> is_space (last s)"

lemma trim_space_tidy:
  assumes "tidy s"
  shows "trim_space s = s"
proof -
  have "dropWhile is_space s = s"
    using assms by (cases s) (auto simp: tidy_def)
  moreover have "dropWhile is_space (rev s) = rev s"
    using assms by (cases s rule: rev_cases) (auto simp: tidy_def)
  ultimately show ?thesis by (simp add: trim_space_def trim_left_def trim_right_def)
qed

lemma tidy_no_space: "s \<noteq> [] \<Longrightarrow> list_all (\<lambda>c. \<not> is_space c) s \<Longrightarrow> tidy s"
  by (simp add: tidy_def list_all_iff)

lemma safe_no_space: "isSafeArgument s \<Longrightarrow> list_all (\<lambda>c. \<not> is_space c) s"
  by (auto simp: isSafeArgument_def list_all_iff is_space_def less_eq_char_def)

lemma ShellQuote_tidy: "tidy (ShellQuote s)"
  by (simp add: tidy_def ShellQuote_def is_space_def sq_def)

lemma quoteIfNeeded_tidy: "w \<noteq> [] \<Longrightarrow> tidy (quoteIfNeeded w)"
  by (simp add: quoteIfNeeded_def ShellQuote_tidy tidy_no_space safe_no_space)

lemma join_tidy: "ws \<noteq> [] \<Longrightarrow> list_all tidy ws \<Longrightarrow> tidy (join '' '' ws)"
  by (induction "'' ''" ws rule: join.induct) (auto simp: tidy_def)

lemma tidy_append: "tidy s \<Longrightarrow> tidy t \<Longrightarrow> tidy (s @ m @ t)"
  by (auto simp: tidy_def)

text \<open>The words a flag with some arguments stands for: an empty argument renders to nothing.\<close>

definition flag_group :: "string \<Rightarrow> string list \<Rightarrow> string list" where
  "flag_group flag ws = (if flag = [] then [] else [flag]) @ filter (\<lambda>w. w \<noteq> []) ws"

lemma flagWords_tidy:
  assumes "isSafeArgument flag" and "flag \<noteq> []" and "ws \<noteq> []" and "list_all tidy ws"
  shows "flagWords flag ws = flag @ '' '' @ join '' '' ws"
proof -
  have flag: "tidy flag" using assms by (simp add: tidy_no_space safe_no_space)
  have "trim_space flag = flag" using flag by (rule trim_space_tidy)
  moreover have "tidy (flag @ '' '' @ join '' '' ws)"
    using flag assms by (intro tidy_append join_tidy)
  ultimately show ?thesis using assms by (simp add: flagWords_def trim_space_tidy)
qed

lemma safe_as_quoted: "isSafeArgument w \<Longrightarrow> quoteIfNeeded w = w"
  by (simp add: quoteIfNeeded_def)

lemma reads_as_words:
  assumes "[] \<notin> set ws"
  shows "reads_as (join '' '' (map quoteIfNeeded ws)) ws"
proof -
  have "list_all2 reads_as (map quoteIfNeeded ws) (map (\<lambda>w. [w]) ws)"
    using assms by (induction ws) (auto simp: reads_as_word)
  from reads_as_join [OF this] show ?thesis by (simp add: concat_map_singleton)
qed

lemma reads_as_flag_words:
  assumes "isSafeArgument flag" and "[] \<notin> set ws" and "ws \<noteq> []"
  shows "reads_as (flagWords flag (map quoteIfNeeded ws)) (flag_group flag ws)"
proof (cases "flag = []")
  case True
  have "filter (\<lambda>w. w \<noteq> []) ws = ws" using assms(2) by (auto simp: filter_id_conv)
  with True reads_as_words [OF assms(2)] show ?thesis
    by (simp add: flagWords_def flag_group_def)
next
  case False
  have "list_all tidy (map quoteIfNeeded ws)"
    using assms(2) by (auto simp: list_all_iff intro: quoteIfNeeded_tidy)
  then have "flagWords flag (map quoteIfNeeded ws) = flag @ '' '' @ join '' '' (map quoteIfNeeded ws)"
    using assms False by (simp add: flagWords_tidy)
  moreover have "reads_as flag [flag]"
    using reads_as_word [OF False] assms(1) by (simp add: safe_as_quoted)
  moreover have "filter (\<lambda>w. w \<noteq> []) ws = ws" using assms(2) by (auto simp: filter_id_conv)
  ultimately show ?thesis
    using reads_as_append [OF _ reads_as_words [OF assms(2)], of flag "[flag]"] False
    by (simp add: flag_group_def)
qed

text \<open>The empty key of a map: the flag stands alone, or has one blank more before its values.\<close>

lemma reads_as_blank: "reads_as s ws \<Longrightarrow> reads_as (CHR '' '' # s) ws"
  by (simp add: reads_as_def quote_chars)

lemma flagWords_empty:
  assumes "isSafeArgument flag"
  shows "reads_as (flagWords flag [[]]) (flag_group flag [[]])"
proof (cases "flag = []")
  case True
  then show ?thesis by (simp add: flagWords_def flag_group_def reads_as_Nil)
next
  case False
  have flag: "tidy flag" using assms False by (simp add: tidy_no_space safe_no_space)
  have "dropWhile is_space (flag @ '' '') = flag @ '' ''"
    using flag by (cases flag) (auto simp: tidy_def)
  moreover have "dropWhile is_space (rev (flag @ '' '')) = rev flag"
    using flag by (cases flag rule: rev_cases) (auto simp: tidy_def is_space_def)
  ultimately have "trim_space (flag @ '' '') = flag"
    by (simp add: trim_space_def trim_left_def trim_right_def)
  then have "flagWords flag [[]] = flag"
    using trim_space_tidy [OF flag] False by (simp add: flagWords_def)
  with False reads_as_word [OF False] assms show ?thesis
    by (simp add: flag_group_def safe_as_quoted)
qed

lemma flagWords_empty_key:
  assumes "isSafeArgument flag" and "[] \<notin> set ws" and "ws \<noteq> []"
  shows "reads_as (flagWords flag ([] # map quoteIfNeeded ws)) (flag_group flag ([] # ws))"
proof -
  obtain v vs where ws: "ws = v # vs" using assms(3) by (cases ws) auto
  let ?line = "join '' '' (map quoteIfNeeded ws)"
  have line: "join '' '' ([] # map quoteIfNeeded ws) = CHR '' '' # ?line"
    using ws by simp
  have words: "reads_as (CHR '' '' # ?line) ws"
    by (intro reads_as_blank reads_as_words assms)
  have keep: "filter (\<lambda>w. w \<noteq> []) ws = ws" using assms(2) by (auto simp: filter_id_conv)
  show ?thesis
  proof (cases "flag = []")
    case True
    then show ?thesis using words line keep by (simp add: flagWords_def flag_group_def)
  next
    case False
    have flag: "tidy flag" using assms False by (simp add: tidy_no_space safe_no_space)
    have "tidy ?line"
      using assms by (intro join_tidy) (auto simp: list_all_iff intro: quoteIfNeeded_tidy)
    with flag have "tidy (flag @ '' '' @ CHR '' '' # ?line)"
      using tidy_append [of flag ?line "''  ''"] by simp
    then have "flagWords flag ([] # map quoteIfNeeded ws) = flag @ '' '' @ CHR '' '' # ?line"
      using flag False line by (simp add: flagWords_def trim_space_tidy)
    moreover have "reads_as flag [flag]"
      using reads_as_word [OF False] assms(1) by (simp add: safe_as_quoted)
    ultimately show ?thesis
      using reads_as_append [OF _ words, of flag "[flag]"] False keep by (simp add: flag_group_def)
  qed
qed

lemma reads_as_group:
  assumes "isSafeArgument flag" and "[] \<notin> set ws"
  shows "reads_as (flagWords flag (quoteIfNeeded key # map quoteIfNeeded ws)) (flag_group flag (key # ws))"
proof (cases "key = []")
  case False
  then show ?thesis using reads_as_flag_words [of flag "key # ws"] assms by simp
next
  case True
  have "quoteIfNeeded [] = []" by (simp add: quoteIfNeeded_def)
  with True assms show ?thesis
    by (cases "ws = []") (simp_all add: flagWords_empty flagWords_empty_key)
qed

section \<open>What a rendered setting reads as\<close>

definition group_words :: "args_spec \<Rightarrow> groups \<Rightarrow> string list" where
  "group_words spec groups =
     (let keys = sort (map fst groups) in
      if ValueFlag spec = [] then
        concat (map (\<lambda>key. flag_group (Flag spec) (key # group_at groups key)) keys)
      else
        concat (map (\<lambda>key. flag_group (Flag spec) [key]) keys) @
        concat (map (\<lambda>v. flag_group (ValueFlag spec) [v]) (distinctGroupValues groups)))"

definition setting_words :: "args_spec \<Rightarrow> sval \<Rightarrow> string list" where
  "setting_words spec v =
     (case argGroups v of
        Some groups \<Rightarrow> group_words spec groups
      | None \<Rightarrow> concat (map (\<lambda>word. flag_group (Flag spec) [word]) (argWords v)))"

lemma cleanWords_nonempty: "[] \<notin> set (cleanWords ws)"
  by (auto simp: cleanWords_def)

lemma argWords_nonempty: "[] \<notin> set (argWords v)"
  using Fields_words [of "[]"] by (auto simp: argWords_def cleanWords_nonempty split: sval.splits)

lemma argGroups_nonempty:
  assumes "argGroups v = Some groups"
  shows "[] \<notin> set (group_at groups key)"
proof -
  have "[] \<notin> set ws" if "(k, ws) \<in> set groups" for k ws
    using assms that argWords_nonempty cleanWords_nonempty
    by (auto simp: argGroups_def split: sval.splits)
  moreover have "map_of groups key = Some ws \<Longrightarrow> (key, ws) \<in> set groups" for ws
    by (rule map_of_SomeD)
  ultimately show ?thesis by (cases "map_of groups key") (auto simp: group_at_def)
qed

lemma reads_as_map:
  "(\<And>x. x \<in> set xs \<Longrightarrow> reads_as (f x) (g x)) \<Longrightarrow>
   list_all2 reads_as (map f xs) (map g xs)"
  by (induction xs) auto

lemma reads_as_single: "isSafeArgument flag \<Longrightarrow> reads_as (flagWords flag [quoteIfNeeded w]) (flag_group flag [w])"
  using reads_as_group [of flag "[]" w] by simp

lemma renderArgGroups_reads:
  assumes "isSafeArgument (Flag spec)" and "isSafeArgument (ValueFlag spec)"
    and "\<And>key. [] \<notin> set (group_at groups key)"
  shows "reads_as (renderArgGroups spec groups) (group_words spec groups)"
proof (cases "ValueFlag spec = []")
  case True
  have "reads_as (join '' '' (map (\<lambda>key. flagWords (Flag spec)
          (quoteIfNeeded key # map quoteIfNeeded (group_at groups key))) (sort (map fst groups))))
    (concat (map (\<lambda>key. flag_group (Flag spec) (key # group_at groups key)) (sort (map fst groups))))"
    by (intro reads_as_join reads_as_map reads_as_group assms)
  with True show ?thesis by (simp add: renderArgGroups_def group_words_def Let_def)
next
  case False
  let ?keys = "sort (map fst groups)" and ?vals = "distinctGroupValues groups"
  have "list_all2 reads_as
      (map (\<lambda>key. flagWords (Flag spec) [quoteIfNeeded key]) ?keys @
       map (\<lambda>v. flagWords (ValueFlag spec) [quoteIfNeeded v]) ?vals)
      (map (\<lambda>key. flag_group (Flag spec) [key]) ?keys @
       map (\<lambda>v. flag_group (ValueFlag spec) [v]) ?vals)"
    by (intro list_all2_appendI reads_as_map reads_as_single assms)
  from reads_as_join [OF this] False show ?thesis
    by (simp add: renderArgGroups_def group_words_def Let_def)
qed

lemma RenderSettingArgs_reads:
  assumes "isSafeArgument (Flag spec)" and "isSafeArgument (ValueFlag spec)"
    and "\<not> Words spec" and "\<forall>text. v \<noteq> SStr text"
  shows "reads_as (RenderSettingArgs spec v) (setting_words spec v)"
proof -
  have scalar: "reads_as (join '' '' (map (\<lambda>word. flagWords (Flag spec) [quoteIfNeeded word]) ws))
      (concat (map (\<lambda>word. flag_group (Flag spec) [word]) ws))" for ws
    by (intro reads_as_join reads_as_map reads_as_single assms)
  show ?thesis
  proof (cases "argGroups v")
    case None
    then show ?thesis using assms scalar
      by (cases v) (simp_all add: RenderSettingArgs_def setting_words_def)
  next
    case (Some groups)
    have "reads_as (renderArgGroups spec groups) (group_words spec groups)"
      by (intro renderArgGroups_reads argGroups_nonempty [OF Some] assms)
    with Some assms show ?thesis
      by (cases v) (simp_all add: RenderSettingArgs_def setting_words_def)
  qed
qed

section \<open>Properties\<close>

text \<open>
  A setting a recipe renders as arguments reaches the shell as the flags and values it
  holds and nothing else: every word is literal text, whatever characters the project wrote.
\<close>

theorem RenderSettingArgs_words:
  assumes "isSafeArgument (Flag spec)" and "isSafeArgument (ValueFlag spec)"
    and "\<not> Words spec" and "\<forall>text. v \<noteq> SStr text"
  shows "sh_words Plain None (RenderSettingArgs spec v) = Some (map (map Ch) (setting_words spec v))"
  by (rule reads_as_end [OF RenderSettingArgs_reads [OF assms]])

definition theme_spec :: args_spec where
  "theme_spec = \<lparr>Flag = ''-t'', ValueFlag = ''--language'', Words = False, Default = SNil, DefaultFrom = []\<rparr>"

theorem RenderSettingArgs_words_witness:
  "sh_words Plain None
     (RenderSettingArgs theme_spec (SMapStrs [(''b;reboot'', [''en_US'']), (''a'', [''$(id)'', ''en_US''])])) =
   Some (map (map Ch) [''-t'', ''a'', ''-t'', ''b;reboot'', ''--language'', ''$(id)'', ''--language'', ''en_US''])"
proof -
  let ?v = "SMapStrs [(''b;reboot'', [''en_US'']), (''a'', [''$(id)'', ''en_US''])]"
  have "setting_words theme_spec ?v =
    [''-t'', ''a'', ''-t'', ''b;reboot'', ''--language'', ''$(id)'', ''--language'', ''en_US'']"
    by code_simp
  moreover have "isSafeArgument (Flag theme_spec)" "isSafeArgument (ValueFlag theme_spec)"
    "\<not> Words theme_spec"
    by code_simp+
  ultimately show ?thesis
    using RenderSettingArgs_words [of theme_spec ?v] by (simp del: map_map)
qed

lemma shellQuotedWords_reads:
  "sh_words Plain None (shellQuotedWords ws) = Some (map (map Ch) ws)"
  unfolding shellQuotedWords_def by (intro shell_quote.words_join_literal) (simp add: list_all_iff)

text \<open>
  A configured command (\<open>php_bin\<close>, \<open>composer_bin\<close>) becomes exactly its white-space
  separated words: shell syntax in the value is inert, except a leading \<open>~/\<close>, which still
  names the home directory.
\<close>

theorem CommandWords_words:
  "sh_words Plain None (CommandWords m key fallback) =
   Some (map (home_denotes True)
     (Fields (case map_of m key of
        Some (SStr entry) \<Rightarrow> if trim_space entry \<noteq> [] then entry else fallback
      | _ \<Rightarrow> fallback)))"
  unfolding CommandWords_def Let_def
  by (rule command_word.words_join) (simp add: list_all_iff)

section \<open>Independence of the iteration order\<close>

lemma map_of_same_set:
  assumes "distinct (map fst m)" and "distinct (map fst m')" and "set m = set m'"
  shows "map_of m = map_of m'"
  using assms by (intro map_of_inject_set [THEN iffD2])

lemma sort_same_set:
  assumes "distinct xs" and "distinct ys" and "set xs = set ys"
  shows "sort xs = sort (ys :: 'a :: linorder list)"
  using assms by (metis set_eq_iff_mset_eq_distinct properties_for_sort mset_sort sorted_sort)

lemma first_seen_set: "set (first_seen seen vs) = set vs - seen"
  by (induction seen vs rule: first_seen.induct) auto

lemma first_seen_distinct: "distinct (first_seen seen vs)"
  by (induction seen vs rule: first_seen.induct) (auto simp: first_seen_set)

lemma distinctGroupValues_set: "set (distinctGroupValues groups) = \<Union> (set ` snd ` set groups)"
  by (auto simp: distinctGroupValues_def first_seen_set)

lemma distinctGroupValues_sorted:
  "sorted (distinctGroupValues groups) \<and> distinct (distinctGroupValues groups)"
  by (simp add: distinctGroupValues_def first_seen_distinct)

lemma distinctGroupValues_same_set:
  "set groups = set groups' \<Longrightarrow> distinctGroupValues groups = distinctGroupValues groups'"
  unfolding distinctGroupValues_def
  by (intro sort_same_set) (simp_all add: first_seen_distinct first_seen_set)

lemma argGroups_same_set:
  assumes "distinct (map fst m)" and "distinct (map fst m')" and "set m = set m'"
  shows "\<exists>g g'. argGroups (SMap m) = Some g \<and> argGroups (SMap m') = Some g' \<and>
    distinct (map fst g) \<and> distinct (map fst g') \<and> set g = set g'"
  using assms by (simp add: argGroups_def case_prod_unfold comp_def)

lemma renderArgGroups_same_set:
  assumes "distinct (map fst g)" and "distinct (map fst g')" and "set g = set g'"
  shows "renderArgGroups spec g = renderArgGroups spec g'"
proof -
  have "group_at g = group_at g'"
    using map_of_same_set [OF assms] by (simp add: group_at_def fun_eq_iff)
  moreover have "sort (map fst g) = sort (map fst g')"
    using assms by (intro sort_same_set) auto
  moreover have "distinctGroupValues g = distinctGroupValues g'"
    using assms(3) by (rule distinctGroupValues_same_set)
  ultimately show ?thesis by (simp only: renderArgGroups_def)
qed

text \<open>
  The rendered argument list is stable: it does not depend on the order in which the
  run visits the entries of a configured map.
\<close>

theorem RenderSettingArgs_stable:
  assumes "distinct (map fst m)" and "distinct (map fst m')" and "set m = set m'"
  shows "RenderSettingArgs spec (SMap m) = RenderSettingArgs spec (SMap m')"
proof -
  obtain g g' where g: "argGroups (SMap m) = Some g" "argGroups (SMap m') = Some g'"
    and d: "distinct (map fst g)" "distinct (map fst g')" and eq: "set g = set g'"
    using argGroups_same_set [OF assms] by blast
  have "sort (map fst g) = sort (map fst g')"
    using d eq by (intro sort_same_set) auto
  moreover have "group_at g = group_at g'"
    using map_of_same_set [OF d eq] by (simp add: group_at_def fun_eq_iff)
  ultimately have "argWordsAll (SMap m) = argWordsAll (SMap m')"
    using g by (simp add: argWordsAll_def)
  with g renderArgGroups_same_set [OF d eq] show ?thesis
    by (simp add: RenderSettingArgs_def)
qed

theorem RenderSettingArgs_stable_witness:
  "RenderSettingArgs theme_spec (SMap [(''b'', SStr ''x y''), (''a'', SStr ''y'')]) =
   RenderSettingArgs theme_spec (SMap [(''a'', SStr ''y''), (''b'', SStr ''x y'')])"
  by (rule RenderSettingArgs_stable) auto

end
