(* ===== verification/Plan.thy ===== *)
theory Plan
  imports Recipe
begin

text \<open>
  The plan of a deploy and its transformations (\<open>internal/deploy/plan.go\<close>): steps, sub-plans,
  the branch of the build mode, the maintenance window of the publish strategy.

  A transformation never loses or duplicates a step: the interface \<open>plan_transform\<close> states
  that, and every transformation of the program is an instance of it.
\<close>

type_synonym step_kind = string

definition StepTask :: step_kind where "StepTask = ''task''"
definition StepHook :: step_kind where "StepHook = ''hook''"

lemmas kind_defs = StepTask_def StepHook_def

record step =
  ID :: string
  Kind :: step_kind
  Stage :: stage
  Title :: string
  Command :: string
  RunOn :: run_on
  Optional :: bool
  NeedsApplication :: bool
  NeedsMigration :: bool
  ReusableOutputs :: "string list"
  Source :: string
  Checks :: "check list"
  Skipped :: bool
  SkipReason :: string
  order :: int
  core :: "core_fn option"

datatype implementation = ImplementationEngine | ImplementationCommand | ImplementationNone

definition Implementation :: "step \<Rightarrow> implementation" where
  "Implementation s =
     (if core s \<noteq> None then ImplementationEngine
      else if Command s \<noteq> [] then ImplementationCommand
      else ImplementationNone)"

definition Implemented :: "step \<Rightarrow> bool" where
  "Implemented s =
     (if Skipped s then False
      else Command s \<noteq> [] \<or> core s \<noteq> None \<or> Kind s = StepHook)"

record plan =
  Steps :: "step list"
  plan_MigrationProbe :: "migration_probe option"
  plan_VerifyRejectPaths :: "string list"

definition withSteps :: "step list \<Rightarrow> plan \<Rightarrow> plan" where
  "withSteps steps p =
     \<lparr>Steps = steps, plan_MigrationProbe = plan_MigrationProbe p,
      plan_VerifyRejectPaths = plan_VerifyRejectPaths p\<rparr>"

section \<open>Addressing and sub-plans\<close>

definition StepIDs :: "plan \<Rightarrow> string list" where
  "StepIDs p = map ID (Steps p)"

text \<open>Index searches: a position, or \<open>None\<close> for the source's \<open>-1\<close>.\<close>

fun index_where :: "('a \<Rightarrow> bool) \<Rightarrow> 'a list \<Rightarrow> nat option" where
  "index_where P [] = None"
| "index_where P (x # xs) = (if P x then Some 0 else map_option Suc (index_where P xs))"

definition IndexOf :: "string \<Rightarrow> plan \<Rightarrow> nat option" where
  "IndexOf sid p = index_where (\<lambda>s. ID s = sid) (Steps p)"

definition From :: "string \<Rightarrow> plan \<Rightarrow> plan option" where
  "From sid p =
     (case IndexOf sid p of
        None \<Rightarrow> None
      | Some i \<Rightarrow> Some (withSteps (drop i (Steps p)) p))"

definition Only :: "string list \<Rightarrow> plan \<Rightarrow> plan" where
  "Only ids p = withSteps (filter (\<lambda>s. ID s \<in> set ids) (Steps p)) p"

definition Excluding :: "string list \<Rightarrow> plan \<Rightarrow> plan" where
  "Excluding ids p = withSteps (filter (\<lambda>s. ID s \<notin> set ids) (Steps p)) p"

fun runs_in :: "string \<Rightarrow> step list \<Rightarrow> bool" where
  "runs_in sid [] = False"
| "runs_in sid (s # ss) = (if ID s = sid then Kind s = StepTask \<and> Implemented s else runs_in sid ss)"

definition Runs :: "string \<Rightarrow> plan \<Rightarrow> bool" where
  "Runs sid p = runs_in sid (Steps p)"

text \<open>\<open>MissingVerifyWarning\<close>, on the verify URL it reads from the options.\<close>

definition MissingVerifyWarning :: "plan \<Rightarrow> string \<Rightarrow> string" where
  "MissingVerifyWarning p verifyURL =
     (if trim_space verifyURL \<noteq> [] then []
      else if \<not> Runs TaskDBMigrate p then []
      else ''this deploy runs '' @ TaskDBMigrate @ '' and no deploy.verify.url is configured: verification is SSH-only, so it proves the files are in place and not that the application serves. Set deploy.verify.url for this remote.'')"

section \<open>The build mode\<close>

definition BuildServer :: string where "BuildServer = ''server''"
definition BuildArtifact :: string where "BuildArtifact = ''artifact''"

definition artifactReplacedBuildTasks :: "string list" where
  "artifactReplacedBuildTasks = [TaskVendors, TaskPatches, TaskCompile, TaskFrontend, TaskAssets]"

text \<open>The last step with the id, and the first step of the build stage.\<close>

definition last_index :: "('a \<Rightarrow> bool) \<Rightarrow> 'a list \<Rightarrow> nat option" where
  "last_index P xs = map_option (\<lambda>i. length xs - 1 - i) (index_where P (rev xs))"

definition moveArtifactBeforeTheBuildTasks :: "step list \<Rightarrow> step list" where
  "moveArtifactBeforeTheBuildTasks steps =
     (case (last_index (\<lambda>s. ID s = TaskArtifact) steps, index_where (\<lambda>s. Stage s = StageBuild) steps) of
        (Some artifactAt, Some firstBuild) \<Rightarrow>
          if artifactAt < firstBuild then steps
          else take firstBuild steps @ steps ! artifactAt #
            drop firstBuild (take artifactAt steps) @ drop (artifactAt + 1) steps
      | _ \<Rightarrow> steps)"

definition mode_step :: "bool \<Rightarrow> step \<Rightarrow> step" where
  "mode_step artifact s =
     (if Kind s \<noteq> StepTask then s
      else if artifact \<and> ID s \<in> set artifactReplacedBuildTasks \<and> \<not> NeedsApplication s then
        s\<lparr>Skipped := True, SkipReason := ''artifact mode: the artifact already provides this''\<rparr>
      else if \<not> artifact \<and> ID s = TaskArtifact then
        s\<lparr>Skipped := True, SkipReason := ''server mode: the target builds this release''\<rparr>
      else s)"

definition ForBuildMode :: "string \<Rightarrow> plan \<Rightarrow> plan" where
  "ForBuildMode mode p =
     (let artifact = (mode = BuildArtifact);
          steps = map (mode_step artifact) (Steps p)
      in withSteps (if artifact then moveArtifactBeforeTheBuildTasks steps else steps) p)"

section \<open>The maintenance window\<close>

definition PublishSymlink :: string where "PublishSymlink = ''symlink''"
definition PublishInPlace :: string where "PublishInPlace = ''in_place''"

definition window_id :: "string \<Rightarrow> bool" where
  "window_id sid \<longleftrightarrow> sid = TaskMaintenanceEnable \<or> sid = TaskMaintenanceDisable"

definition withUngatedMaintenanceWindow :: "plan \<Rightarrow> plan" where
  "withUngatedMaintenanceWindow p =
     withSteps (map (\<lambda>s. if window_id (ID s) then s\<lparr>NeedsMigration := False\<rparr> else s) (Steps p)) p"

definition withoutMaintenanceWindow :: "plan \<Rightarrow> plan" where
  "withoutMaintenanceWindow p =
     withSteps (map (\<lambda>s.
       if Kind s = StepTask \<and> window_id (ID s) then
         s\<lparr>Skipped := True,
           SkipReason := ''a symlink activation is atomic and nothing in this plan changes state the live release depends on''\<rparr>
       else s) (Steps p)) p"

text \<open>
  The source's switch tests the disable id first, so a call with that id as the anchor finds
  no anchor; the only caller passes the activation.  The second loop rebuilds the list.
\<close>

fun close_loop :: "nat \<Rightarrow> nat \<Rightarrow> step \<Rightarrow> nat \<Rightarrow> step list \<Rightarrow> step list" where
  "close_loop disableAt anchorAt disable idx [] = []"
| "close_loop disableAt anchorAt disable idx (s # ss) =
     (if idx = disableAt then close_loop disableAt anchorAt disable (Suc idx) ss
      else if idx = anchorAt then disable # s # close_loop disableAt anchorAt disable (Suc idx) ss
      else s # close_loop disableAt anchorAt disable (Suc idx) ss)"

definition closeWindowBefore :: "string \<Rightarrow> plan \<Rightarrow> plan" where
  "closeWindowBefore sid p =
     (case (index_where (\<lambda>s. Kind s = StepTask \<and> ID s = TaskMaintenanceDisable) (Steps p),
            index_where (\<lambda>s. Kind s = StepTask \<and> ID s \<noteq> TaskMaintenanceDisable \<and> ID s = sid) (Steps p)) of
        (Some disableAt, Some anchorAt) \<Rightarrow>
          if disableAt < anchorAt then p
          else withSteps (close_loop disableAt anchorAt (Steps p ! disableAt) 0 (Steps p)) p
      | _ \<Rightarrow> p)"

definition needsMaintenanceWindow :: "plan \<Rightarrow> bool" where
  "needsMaintenanceWindow p = list_ex (\<lambda>sid. Runs sid p) [TaskDBMigrate, TaskAppConfigure]"

definition ForPublishStrategy :: "string \<Rightarrow> plan \<Rightarrow> plan" where
  "ForPublishStrategy strategy p =
     (if strategy \<noteq> PublishSymlink then withUngatedMaintenanceWindow p
      else if \<not> needsMaintenanceWindow p then withoutMaintenanceWindow p
      else closeWindowBefore TaskActivate p)"

fun window_from :: "nat \<Rightarrow> bool \<Rightarrow> step list \<Rightarrow> nat set" where
  "window_from i opened [] = {}"
| "window_from i opened (s # ss) =
     (let now = opened \<or> (Kind s = StepTask \<and> ID s = TaskMaintenanceEnable \<and> Implemented s);
          closes = (Kind s = StepTask \<and> ID s = TaskMaintenanceDisable \<and> Implemented s)
      in (if now then {i} else {}) \<union> window_from (Suc i) (now \<and> \<not> closes) ss)"

definition maintenanceWindow :: "plan \<Rightarrow> nat set" where
  "maintenanceWindow p =
     (if \<not> Runs TaskMaintenanceEnable p then {} else window_from 0 False (Steps p))"

definition windowIsGated :: "plan \<Rightarrow> bool" where
  "windowIsGated p =
     (case find (\<lambda>s. ID s = TaskMaintenanceEnable) (Steps p) of
        Some s \<Rightarrow> NeedsMigration s
      | None \<Rightarrow> False)"

section \<open>Lemmas on positions\<close>

lemma index_where_Some:
  "index_where P xs = Some i \<longleftrightarrow> i < length xs \<and> P (xs ! i) \<and> (\<forall>j < i. \<not> P (xs ! j))"
proof (induction xs arbitrary: i)
  case Nil
  then show ?case by simp
next
  case (Cons x xs)
  then show ?case
    by (cases i; cases "P x") (simp_all add: All_less_Suc2)
qed

lemma index_where_None: "index_where P xs = None \<longleftrightarrow> (\<forall>x \<in> set xs. \<not> P x)"
  by (induction xs) auto

lemma index_where_append:
  "index_where P (xs @ ys) =
   (case index_where P xs of Some i \<Rightarrow> Some i | None \<Rightarrow> map_option ((+) (length xs)) (index_where P ys))"
proof (induction xs)
  case Nil
  then show ?case by (cases "index_where P ys") simp_all
next
  case (Cons x xs)
  then show ?case
    by (cases "index_where P xs"; cases "index_where P ys") simp_all
qed

definition move_before :: "nat \<Rightarrow> nat \<Rightarrow> 'a list \<Rightarrow> 'a list" where
  "move_before from to xs =
     take to xs @ xs ! from # drop to (take from xs) @ drop (from + 1) xs"

lemma move_before_split:
  assumes "to \<le> from" and "from < length xs"
  obtains as bs cs where "xs = as @ bs @ xs ! from # cs" and "length as = to"
    and "length as + length bs = from" and "move_before from to xs = as @ xs ! from # bs @ cs"
proof
  show "xs = take to xs @ drop to (take from xs) @ xs ! from # drop (from + 1) xs"
    using assms id_take_nth_drop [of "from" xs]
    by (metis Suc_eq_plus1 append_take_drop_id append.assoc min.absorb1 take_take)
qed (use assms in \<open>auto simp: move_before_def\<close>)

section \<open>What a transformation keeps\<close>

text \<open>A step without the three fields the transformations set.\<close>

definition shape :: "step \<Rightarrow> step" where
  "shape s = s\<lparr>NeedsMigration := False, Skipped := False, SkipReason := []\<rparr>"

lemma shape_fields [simp]:
  "ID (shape s) = ID s" "Kind (shape s) = Kind s" "Stage (shape s) = Stage s"
  "Command (shape s) = Command s" "RunOn (shape s) = RunOn s" "Optional (shape s) = Optional s"
  "core (shape s) = core s" "NeedsApplication (shape s) = NeedsApplication s"
  by (simp_all add: shape_def)

lemma withSteps_fields [simp]:
  "Steps (withSteps ss p) = ss"
  "plan_MigrationProbe (withSteps ss p) = plan_MigrationProbe p"
  "plan_VerifyRejectPaths (withSteps ss p) = plan_VerifyRejectPaths p"
  by (simp_all add: withSteps_def)

locale plan_transform =
  fixes f :: "plan \<Rightarrow> plan"
  assumes same_shape: "mset (map shape (Steps (f p))) = mset (map shape (Steps p))"
    and same_probe: "plan_MigrationProbe (f p) = plan_MigrationProbe p"
    and same_reject: "plan_VerifyRejectPaths (f p) = plan_VerifyRejectPaths p"
begin

lemma ids: "mset (StepIDs (f p)) = mset (StepIDs p)"
proof -
  have "mset (map ID (map shape (Steps (f p)))) = mset (map ID (map shape (Steps p)))"
    using same_shape [of p] by (metis mset_map)
  then show ?thesis by (simp add: StepIDs_def comp_def)
qed

lemma id_set: "set (StepIDs (f p)) = set (StepIDs p)"
  using ids [of p] by (metis set_mset_mset)

lemma distinct_ids: "distinct (StepIDs (f p)) = distinct (StepIDs p)"
  using ids [of p] by (metis mset_eq_imp_distinct_iff)

lemma same_length: "length (Steps (f p)) = length (Steps p)"
  using same_shape [of p] by (metis length_map size_mset)

lemma step_origin: "t \<in> set (Steps (f p)) \<Longrightarrow> \<exists>s \<in> set (Steps p). shape t = shape s"
proof -
  assume "t \<in> set (Steps (f p))"
  then have "shape t \<in># mset (map shape (Steps (f p)))" by simp
  then have "shape t \<in># mset (map shape (Steps p))" by (simp only: same_shape)
  then show ?thesis by auto
qed

lemma step_kept: "s \<in> set (Steps p) \<Longrightarrow> \<exists>t \<in> set (Steps (f p)). shape t = shape s"
proof -
  assume "s \<in> set (Steps p)"
  then have "shape s \<in># mset (map shape (Steps p))" by simp
  then have "shape s \<in># mset (map shape (Steps (f p)))" by (simp only: same_shape)
  then show ?thesis by auto
qed

end

lemma plan_transform_comp: "plan_transform f \<Longrightarrow> plan_transform g \<Longrightarrow> plan_transform (g \<circ> f)"
  by (simp add: plan_transform_def)

lemma map_shape:
  "(\<And>s. shape (h s) = shape s) \<Longrightarrow> map shape (map h ss) = map shape ss"
  by simp

lemma mset_map_shape:
  "(\<And>s. shape (h s) = shape s) \<Longrightarrow> mset (map shape (map h ss)) = mset (map shape ss)"
  by (simp only: map_shape)

lemma shape_mode_step: "shape (mode_step artifact s) = shape s"
  by (simp add: mode_step_def shape_def)

lemma mset_move_before:
  assumes "to \<le> from" and "from < length xs"
  shows "mset (move_before from to xs) = mset xs"
proof -
  obtain as bs cs where xs: "xs = as @ bs @ xs ! from # cs"
    and m: "move_before from to xs = as @ xs ! from # bs @ cs"
    using move_before_split [OF assms] .
  show ?thesis by (simp add: m) (subst xs, simp)
qed

lemma move_before_filter:
  assumes "to \<le> from" and "from < length xs" and "\<not> P (xs ! from)"
  shows "filter P (move_before from to xs) = filter P xs"
proof -
  obtain as bs cs where xs: "xs = as @ bs @ xs ! from # cs"
    and m: "move_before from to xs = as @ xs ! from # bs @ cs"
    using move_before_split [OF assms(1,2)] .
  have "filter P xs = filter P (as @ bs @ xs ! from # cs)" by (rule arg_cong [OF xs])
  with assms(3) m show ?thesis by simp
qed

lemma last_index_Some:
  assumes "last_index P xs = Some i"
  shows "i < length xs \<and> P (xs ! i) \<and> (\<forall>j < length xs. i < j \<longrightarrow> \<not> P (xs ! j))"
proof -
  from assms obtain k where k: "index_where P (rev xs) = Some k" and i: "i = length xs - 1 - k"
    by (auto simp: last_index_def)
  then have k': "k < length xs" "P (rev xs ! k)" "\<forall>j < k. \<not> P (rev xs ! j)"
    by (auto simp: index_where_Some)
  have "\<not> P (xs ! j)" if "j < length xs" "i < j" for j
    using k'(3) [rule_format, of "length xs - 1 - j"] that i k'(1) by (simp add: rev_nth)
  with k' i show ?thesis by (auto simp: rev_nth)
qed

lemma last_index_None: "last_index P xs = None \<longleftrightarrow> (\<forall>x \<in> set xs. \<not> P x)"
  by (simp add: last_index_def index_where_None)

lemma moveArtifact_cases:
  obtains "moveArtifactBeforeTheBuildTasks steps = steps"
  | artifactAt firstBuild where
    "last_index (\<lambda>s. ID s = TaskArtifact) steps = Some artifactAt"
    "index_where (\<lambda>s. Stage s = StageBuild) steps = Some firstBuild"
    "firstBuild \<le> artifactAt" "artifactAt < length steps"
    "moveArtifactBeforeTheBuildTasks steps = move_before artifactAt firstBuild steps"
proof (cases "last_index (\<lambda>s. ID s = TaskArtifact) steps")
  case None
  then show ?thesis by (simp add: moveArtifactBeforeTheBuildTasks_def that(1))
next
  case (Some a)
  show ?thesis
  proof (cases "index_where (\<lambda>s. Stage s = StageBuild) steps")
    case None
    with Some show ?thesis by (simp add: moveArtifactBeforeTheBuildTasks_def that(1))
  next
    case (Some b)
    with \<open>last_index _ steps = Some a\<close> show ?thesis
      using that(2) [of a b] that(1) last_index_Some [of _ steps a]
      by (cases "a < b") (auto simp: moveArtifactBeforeTheBuildTasks_def move_before_def)
  qed
qed

lemma mset_moveArtifact: "mset (moveArtifactBeforeTheBuildTasks steps) = mset steps"
  by (rule moveArtifact_cases [of steps]) (simp_all add: mset_move_before)

lemma close_loop_append:
  "close_loop d a x i (xs @ ys) = close_loop d a x i xs @ close_loop d a x (i + length xs) ys"
  by (induction xs arbitrary: i) auto

lemma close_loop_id:
  "\<not> (i \<le> d \<and> d < i + length xs) \<Longrightarrow> \<not> (i \<le> a \<and> a < i + length xs) \<Longrightarrow>
   close_loop d a x i xs = xs"
  by (induction xs arbitrary: i) auto

lemma close_loop_move:
  assumes "a < d" and "d < length xs"
  shows "close_loop d a (xs ! d) 0 xs = move_before d a xs"
proof -
  obtain as bs cs where xs: "xs = as @ bs @ xs ! d # cs" and la: "length as = a"
    and lb: "length as + length bs = d" and m: "move_before d a xs = as @ xs ! d # bs @ cs"
    using move_before_split [of a d xs] assms by auto
  obtain b bs' where bs: "bs = b # bs'" using la lb assms by (cases bs) auto
  have "close_loop d a (xs ! d) 0 (as @ (b # bs') @ xs ! d # cs) = as @ xs ! d # bs @ cs"
    using la lb bs assms(1) by (simp add: close_loop_append close_loop_id)
  then show ?thesis using m bs xs by metis
qed

lemma closeWindow_cases:
  obtains "closeWindowBefore sid p = p"
  | d a where
    "index_where (\<lambda>s. Kind s = StepTask \<and> ID s = TaskMaintenanceDisable) (Steps p) = Some d"
    "index_where (\<lambda>s. Kind s = StepTask \<and> ID s \<noteq> TaskMaintenanceDisable \<and> ID s = sid) (Steps p) = Some a"
    "a < d" "d < length (Steps p)"
    "closeWindowBefore sid p = withSteps (move_before d a (Steps p)) p"
proof (cases "index_where (\<lambda>s. Kind s = StepTask \<and> ID s = TaskMaintenanceDisable) (Steps p)")
  case None
  then show ?thesis by (simp add: closeWindowBefore_def that(1))
next
  case (Some d)
  note d = this
  show ?thesis
  proof (cases "index_where (\<lambda>s. Kind s = StepTask \<and> ID s \<noteq> TaskMaintenanceDisable \<and> ID s = sid) (Steps p)")
    case None
    with d show ?thesis by (simp add: closeWindowBefore_def that(1))
  next
    case (Some a)
    have "d < length (Steps p)" "a \<noteq> d" using d Some by (auto simp: index_where_Some)
    then show ?thesis
      using d Some that(2) [of d a] that(1)
      by (cases "d < a") (simp_all add: closeWindowBefore_def close_loop_move)
  qed
qed

interpretation build_mode: plan_transform "ForBuildMode mode" for mode
proof
  fix p
  have "mset (map shape (Steps (ForBuildMode mode p))) =
      image_mset shape (mset (map (mode_step (mode = BuildArtifact)) (Steps p)))"
    by (simp add: ForBuildMode_def Let_def mset_moveArtifact)
  then show "mset (map shape (Steps (ForBuildMode mode p))) = mset (map shape (Steps p))"
    by (simp add: shape_mode_step image_mset.compositionality comp_def)
qed (simp_all add: ForBuildMode_def Let_def)

interpretation ungated: plan_transform withUngatedMaintenanceWindow
proof
  fix p
  show "mset (map shape (Steps (withUngatedMaintenanceWindow p))) = mset (map shape (Steps p))"
    unfolding withUngatedMaintenanceWindow_def withSteps_fields
    by (rule mset_map_shape) (simp add: shape_def)
qed (simp_all add: withUngatedMaintenanceWindow_def)

interpretation windowless: plan_transform withoutMaintenanceWindow
proof
  fix p
  show "mset (map shape (Steps (withoutMaintenanceWindow p))) = mset (map shape (Steps p))"
    unfolding withoutMaintenanceWindow_def withSteps_fields
    by (rule mset_map_shape) (simp add: shape_def)
qed (simp_all add: withoutMaintenanceWindow_def)

interpretation close_window: plan_transform "closeWindowBefore sid" for sid
proof
  fix p
  show "mset (map shape (Steps (closeWindowBefore sid p))) = mset (map shape (Steps p))"
    by (rule closeWindow_cases [of sid p]) (simp_all add: mset_move_before)
  show "plan_MigrationProbe (closeWindowBefore sid p) = plan_MigrationProbe p"
    by (rule closeWindow_cases [of sid p]) simp_all
  show "plan_VerifyRejectPaths (closeWindowBefore sid p) = plan_VerifyRejectPaths p"
    by (rule closeWindow_cases [of sid p]) simp_all
qed

interpretation publish_strategy: plan_transform "ForPublishStrategy strategy" for strategy
  by unfold_locales
    (simp_all add: ForPublishStrategy_def ungated.same_shape windowless.same_shape
      close_window.same_shape ungated.same_probe windowless.same_probe close_window.same_probe
      ungated.same_reject windowless.same_reject close_window.same_reject del: mset_map)

text \<open>The two branches as the commands apply them: the build mode, then the strategy.\<close>

interpretation shaped: plan_transform "ForPublishStrategy strategy \<circ> ForBuildMode mode"
  for strategy mode
  by (intro plan_transform_comp build_mode.plan_transform_axioms publish_strategy.plan_transform_axioms)

end
