(* ===== verification/PlanShape.thy ===== *)
theory PlanShape
  imports Plan
begin

text \<open>
  What the two branches of a plan mean: which steps the build mode lets run and in which
  order, and which steps the publish strategy lets run inside the maintenance window.
\<close>

section \<open>Which steps run\<close>

lemma runs_in_distinct:
  "distinct (map ID ss) \<Longrightarrow>
   runs_in sid ss \<longleftrightarrow> (\<exists>s \<in> set ss. ID s = sid \<and> Kind s = StepTask \<and> Implemented s)"
  by (induction ss) (auto simp: image_iff)

lemma Runs_iff:
  "distinct (StepIDs p) \<Longrightarrow>
   Runs sid p \<longleftrightarrow> (\<exists>s \<in> set (Steps p). ID s = sid \<and> Kind s = StepTask \<and> Implemented s)"
  by (simp add: Runs_def StepIDs_def runs_in_distinct)

lemma set_moveArtifact: "set (moveArtifactBeforeTheBuildTasks ss) = set ss"
  by (metis mset_moveArtifact set_mset_mset)

lemma Steps_ForBuildMode:
  "set (Steps (ForBuildMode mode p)) = mode_step (mode = BuildArtifact) ` set (Steps p)"
  by (simp add: ForBuildMode_def Let_def set_moveArtifact)

lemma mode_step_fields [simp]:
  "ID (mode_step a s) = ID s" "Kind (mode_step a s) = Kind s" "Stage (mode_step a s) = Stage s"
  by (simp_all add: mode_step_def)

lemma mode_step_Implemented:
  "Kind s = StepTask \<Longrightarrow>
   Implemented (mode_step a s) \<longleftrightarrow>
     Implemented s \<and>
     (if a then ID s \<in> set artifactReplacedBuildTasks \<longrightarrow> NeedsApplication s
      else ID s \<noteq> TaskArtifact)"
  by (simp add: mode_step_def Implemented_def kind_defs)

lemma ForBuildMode_runs:
  assumes "distinct (StepIDs p)"
  shows "Runs tid (ForBuildMode mode p) \<longleftrightarrow>
    Runs tid p \<and>
    (if mode = BuildArtifact
     then tid \<in> set artifactReplacedBuildTasks \<longrightarrow>
       (\<exists>s \<in> set (Steps p). ID s = tid \<and> NeedsApplication s)
     else tid \<noteq> TaskArtifact)"
proof -
  have "distinct (StepIDs (ForBuildMode mode p))"
    using assms by (simp add: build_mode.distinct_ids)
  then have "Runs tid (ForBuildMode mode p) \<longleftrightarrow>
      (\<exists>s \<in> set (Steps p). ID s = tid \<and> Kind s = StepTask \<and>
         Implemented (mode_step (mode = BuildArtifact) s))"
    by (auto simp: Runs_iff Steps_ForBuildMode)
  moreover have "s = t" if "s \<in> set (Steps p)" "t \<in> set (Steps p)" "ID s = ID t" for s t
    using assms that by (auto simp: StepIDs_def distinct_map dest: inj_onD)
  ultimately show ?thesis
    using Runs_iff [OF assms, of tid] mode_step_Implemented
    by (smt (verit))
qed

text \<open>
  The build mode's branch is exact.  In artifact mode a task runs when it ran before and
  the artifact does not replace it, or it needs the application; in every other mode only
  the reception of an artifact is left out.
\<close>

theorem ForBuildMode_branch:
  assumes "distinct (StepIDs p)"
  shows "Runs tid (ForBuildMode mode p) \<longleftrightarrow>
    Runs tid p \<and>
    (if mode = BuildArtifact
     then tid \<in> set artifactReplacedBuildTasks \<longrightarrow>
       (\<exists>s \<in> set (Steps p). ID s = tid \<and> NeedsApplication s)
     else tid \<noteq> TaskArtifact)"
  by (rule ForBuildMode_runs [OF assms])

text \<open>A plan to apply the statements to: every task, with a command.\<close>

definition sample_step :: "string \<Rightarrow> step" where
  "sample_step tid =
     \<lparr>ID = tid, Kind = StepTask, Stage = task_stage tid, Title = default_title tid,
      Command = ''true'', RunOn = RunRemote, Optional = False, NeedsApplication = False,
      NeedsMigration = False, ReusableOutputs = [], Source = ''recipe'', Checks = [],
      Skipped = False, SkipReason = [], order = 0, core = None\<rparr>"

definition sample_plan :: plan where
  "sample_plan = \<lparr>Steps = map sample_step taskOrder, plan_MigrationProbe = None,
     plan_VerifyRejectPaths = []\<rparr>"

lemma sample_plan_ids: "StepIDs sample_plan = taskOrder"
  by (simp add: StepIDs_def sample_plan_def sample_step_def comp_def)

theorem ForBuildMode_branch_witness:
  "\<not> Runs TaskVendors (ForBuildMode BuildArtifact sample_plan) \<and>
   Runs TaskArtifact (ForBuildMode BuildArtifact sample_plan) \<and>
   \<not> Runs TaskArtifact (ForBuildMode BuildServer sample_plan)"
proof -
  have d: "distinct (StepIDs sample_plan)" by (simp only: sample_plan_ids distinct_taskOrder)
  have "\<not> (\<exists>s \<in> set (Steps sample_plan). ID s = TaskVendors \<and> NeedsApplication s)"
    by (simp add: sample_plan_def sample_step_def)
  moreover have "TaskVendors \<in> set artifactReplacedBuildTasks"
    "TaskArtifact \<notin> set artifactReplacedBuildTasks" "BuildServer \<noteq> BuildArtifact"
    "Runs TaskArtifact sample_plan"
    by code_simp+
  ultimately show ?thesis
    using ForBuildMode_branch [OF d, of TaskVendors BuildArtifact]
      ForBuildMode_branch [OF d, of TaskArtifact BuildArtifact]
      ForBuildMode_branch [OF d, of TaskArtifact BuildServer]
    by simp
qed

section \<open>The artifact comes first\<close>

lemma moveArtifact_first:
  assumes "distinct (map ID ss)"
    and "i < length ss" "ID (moveArtifactBeforeTheBuildTasks ss ! i) = TaskArtifact"
    and "j < length ss" "Stage (moveArtifactBeforeTheBuildTasks ss ! j) = StageBuild"
  shows "i \<le> j"
proof -
  let ?r = "moveArtifactBeforeTheBuildTasks ss"
  have perm: "mset ?r = mset ss" by (rule mset_moveArtifact)
  have len: "length ?r = length ss" using perm by (metis size_mset)
  have dist: "distinct (map ID ?r)"
    using assms(1) perm by (metis mset_map mset_eq_imp_distinct_iff)
  have art: "?r ! i \<in> set ss" and bld: "?r ! j \<in> set ss"
    using assms len perm by (metis nth_mem set_mset_mset)+
  have only: "k = i" if "k < length ss" "ID (?r ! k) = TaskArtifact" for k
    using dist that assms(2,3) len by (metis length_map nth_eq_iff_index_eq nth_map)
  obtain a where a: "last_index (\<lambda>s. ID s = TaskArtifact) ss = Some a"
    using art assms(3) last_index_None [of "\<lambda>s. ID s = TaskArtifact" ss]
    by (cases "last_index (\<lambda>s. ID s = TaskArtifact) ss") auto
  obtain b where b: "index_where (\<lambda>s. Stage s = StageBuild) ss = Some b"
    using bld assms(5) index_where_None [of "\<lambda>s. Stage s = StageBuild" ss]
    by (cases "index_where (\<lambda>s. Stage s = StageBuild) ss") auto
  have a': "a < length ss" "ID (ss ! a) = TaskArtifact" using last_index_Some [OF a] by auto
  have b': "b < length ss" "\<And>k. k < b \<Longrightarrow> Stage (ss ! k) \<noteq> StageBuild"
    using b by (auto simp: index_where_Some)
  show ?thesis
  proof (cases "a < b")
    case True
    then have r: "?r = ss" using a b by (simp add: moveArtifactBeforeTheBuildTasks_def)
    have "a = i" using only [of a] a' r by simp
    moreover have "b \<le> j" using b'(2) assms(5) r by (metis not_le)
    ultimately show ?thesis using True by simp
  next
    case False
    then have r: "?r = move_before a b ss"
      using a b by (simp add: moveArtifactBeforeTheBuildTasks_def move_before_def)
    have "b \<le> a" using False by simp
    obtain as bs cs where ss: "ss = as @ bs @ ss ! a # cs" and la: "length as = b"
      and "length as + length bs = a" and m: "move_before a b ss = as @ ss ! a # bs @ cs"
      using move_before_split [OF \<open>b \<le> a\<close> a'(1)] .
    have "?r ! b = ss ! a" using r m la by (metis nth_append_length)
    then have "b = i" using only [of b] b'(1) a'(2) by simp
    moreover have "b \<le> j"
    proof (rule ccontr)
      assume "\<not> b \<le> j"
      then have "?r ! j = as ! j" and "ss ! j = as ! j"
        using r m la ss by (metis not_le nth_append)+
      with assms(5) b'(2) \<open>\<not> b \<le> j\<close> show False by (metis not_le)
    qed
    ultimately show ?thesis by simp
  qed
qed

lemma moveArtifact_others:
  "filter (\<lambda>s. ID s \<noteq> TaskArtifact) (moveArtifactBeforeTheBuildTasks ss) =
   filter (\<lambda>s. ID s \<noteq> TaskArtifact) ss"
proof (rule moveArtifact_cases [of ss])
  fix a b
  assume "last_index (\<lambda>s. ID s = TaskArtifact) ss = Some a" "b \<le> a" "a < length ss"
    and r: "moveArtifactBeforeTheBuildTasks ss = move_before a b ss"
  then show ?thesis
    using last_index_Some [of "\<lambda>s. ID s = TaskArtifact" ss a]
    by (simp add: r move_before_filter)
qed simp

lemma ForBuildMode_others:
  "filter (\<lambda>sid. sid \<noteq> TaskArtifact) (StepIDs (ForBuildMode mode p)) =
   filter (\<lambda>sid. sid \<noteq> TaskArtifact) (StepIDs p)"
proof -
  let ?ss = "map (mode_step (mode = BuildArtifact)) (Steps p)"
  have "map ID (filter (\<lambda>s. ID s \<noteq> TaskArtifact) (Steps (ForBuildMode mode p))) =
      map ID (filter (\<lambda>s. ID s \<noteq> TaskArtifact) ?ss)"
    by (simp add: ForBuildMode_def Let_def moveArtifact_others)
  then show ?thesis by (simp add: StepIDs_def filter_map comp_def)
qed

text \<open>
  In artifact mode the artifact is received before any build step that still runs, and
  every other step keeps its place relative to the others.
\<close>

theorem artifact_before_build:
  assumes "distinct (StepIDs p)"
    and "IndexOf TaskArtifact (ForBuildMode BuildArtifact p) = Some i"
    and "j < length (Steps (ForBuildMode BuildArtifact p))"
    and "Stage (Steps (ForBuildMode BuildArtifact p) ! j) = StageBuild"
  shows "i \<le> j \<and>
    filter (\<lambda>sid. sid \<noteq> TaskArtifact) (StepIDs (ForBuildMode BuildArtifact p)) =
    filter (\<lambda>sid. sid \<noteq> TaskArtifact) (StepIDs p)"
proof -
  let ?ss = "map (mode_step True) (Steps p)"
  have r: "Steps (ForBuildMode BuildArtifact p) = moveArtifactBeforeTheBuildTasks ?ss"
    by (simp add: ForBuildMode_def Let_def)
  have len: "length (moveArtifactBeforeTheBuildTasks ?ss) = length ?ss"
    by (metis mset_moveArtifact size_mset)
  have "distinct (map ID ?ss)" using assms(1) by (simp add: StepIDs_def comp_def)
  moreover have "i < length ?ss" "ID (moveArtifactBeforeTheBuildTasks ?ss ! i) = TaskArtifact"
    using assms(2) len by (simp_all add: IndexOf_def r index_where_Some)
  ultimately have "i \<le> j"
    using assms(3,4) moveArtifact_first [of ?ss i j] len by (simp only: r)
  then show ?thesis by (simp add: ForBuildMode_others)
qed

theorem artifact_before_build_witness:
  "\<exists>i. IndexOf TaskArtifact (ForBuildMode BuildArtifact sample_plan) = Some i \<and> i \<le> 7 \<and>
    ID (Steps (ForBuildMode BuildArtifact sample_plan) ! 7) = TaskVendors"
proof -
  have "distinct (StepIDs sample_plan)" by (simp only: sample_plan_ids distinct_taskOrder)
  moreover have "IndexOf TaskArtifact (ForBuildMode BuildArtifact sample_plan) = Some 6"
    "7 < length (Steps (ForBuildMode BuildArtifact sample_plan))"
    "Stage (Steps (ForBuildMode BuildArtifact sample_plan) ! 7) = StageBuild"
    "ID (Steps (ForBuildMode BuildArtifact sample_plan) ! 7) = TaskVendors"
    by code_simp+
  ultimately show ?thesis using artifact_before_build [of sample_plan 6 7] by blast
qed

section \<open>The maintenance window\<close>

definition opens :: "step \<Rightarrow> bool" where
  "opens s \<longleftrightarrow> Kind s = StepTask \<and> ID s = TaskMaintenanceEnable \<and> Implemented s"

definition closes :: "step \<Rightarrow> bool" where
  "closes s \<longleftrightarrow> Kind s = StepTask \<and> ID s = TaskMaintenanceDisable \<and> Implemented s"

lemma window_from_Cons:
  "window_from i w (s # ss) =
   (if w \<or> opens s then {i} else {}) \<union> window_from (Suc i) ((w \<or> opens s) \<and> \<not> closes s) ss"
  by (simp add: opens_def closes_def Let_def)

text \<open>A position is in the window when an enable stands at or before it with no disable between.\<close>

lemma window_from_iff:
  "i + k \<in> window_from i w ss \<longleftrightarrow>
   k < length ss \<and>
   ((w \<and> (\<forall>c < k. \<not> closes (ss ! c))) \<or>
    (\<exists>e \<le> k. opens (ss ! e) \<and> (\<forall>c < k. e \<le> c \<longrightarrow> \<not> closes (ss ! c))))"
proof (induction ss arbitrary: i k w)
  case Nil
  then show ?case by simp
next
  case (Cons s ss)
  have low: "j \<in> window_from n v ss \<Longrightarrow> n \<le> j" for j n v and ss :: "step list"
    by (induction ss arbitrary: n v) (fastforce simp: Let_def split: if_splits)+
  show ?case
  proof (cases k)
    case 0
    then show ?thesis
      using low [of i "Suc i" "(w \<or> opens s) \<and> \<not> closes s" ss]
      by (auto simp: window_from_Cons simp del: window_from.simps)
  next
    case (Suc n)
    have "i + k \<in> window_from i w (s # ss) \<longleftrightarrow>
        Suc i + n \<in> window_from (Suc i) ((w \<or> opens s) \<and> \<not> closes s) ss"
      using Suc by (simp add: window_from_Cons del: window_from.simps)
    also have "\<dots> \<longleftrightarrow> n < length ss \<and>
        (((w \<or> opens s) \<and> \<not> closes s \<and> (\<forall>c < n. \<not> closes (ss ! c))) \<or>
         (\<exists>e \<le> n. opens (ss ! e) \<and> (\<forall>c < n. e \<le> c \<longrightarrow> \<not> closes (ss ! c))))"
      using Cons.IH [of "Suc i" n "(w \<or> opens s) \<and> \<not> closes s"] by blast
    also have "\<dots> \<longleftrightarrow> k < length (s # ss) \<and>
        ((w \<and> (\<forall>c < k. \<not> closes ((s # ss) ! c))) \<or>
         (\<exists>e \<le> k. opens ((s # ss) ! e) \<and> (\<forall>c < k. e \<le> c \<longrightarrow> \<not> closes ((s # ss) ! c))))"
    proof -
      have ex: "(\<exists>e \<le> Suc n. P e) \<longleftrightarrow> P 0 \<or> (\<exists>e \<le> n. P (Suc e))" for P
        by (metis Suc_le_mono le0 not0_implies_Suc)
      show ?thesis unfolding Suc ex by (auto simp: All_less_Suc2)
    qed
    finally show ?thesis .
  qed
qed

lemma maintenanceWindow_iff:
  "k \<in> maintenanceWindow p \<Longrightarrow>
   k < length (Steps p) \<and>
   (\<exists>e \<le> k. opens (Steps p ! e) \<and> (\<forall>c < k. e \<le> c \<longrightarrow> \<not> closes (Steps p ! c)))"
  using window_from_iff [of 0 k False "Steps p"]
  by (auto simp: maintenanceWindow_def split: if_splits)

lemma IndexOf_Some:
  "IndexOf sid p = Some i \<longleftrightarrow>
   i < length (Steps p) \<and> ID (Steps p ! i) = sid \<and> (\<forall>j < i. ID (Steps p ! j) \<noteq> sid)"
  by (simp add: IndexOf_def index_where_Some)

lemma distinct_index:
  "distinct (StepIDs p) \<Longrightarrow> i < length (Steps p) \<Longrightarrow> j < length (Steps p) \<Longrightarrow>
   ID (Steps p ! i) = ID (Steps p ! j) \<Longrightarrow> i = j"
  unfolding StepIDs_def by (metis length_map nth_eq_iff_index_eq nth_map)

text \<open>A window that opens before it closes is closed from then on.\<close>

lemma window_ends:
  assumes "distinct (StepIDs p)" and "IndexOf TaskMaintenanceEnable p = Some e"
    and "d < length (Steps p)" "closes (Steps p ! d)" and "e \<le> d"
    and "k \<in> maintenanceWindow p"
  shows "k \<le> d"
proof (rule ccontr)
  assume "\<not> k \<le> d"
  moreover obtain e' where e': "e' \<le> k" "opens (Steps p ! e')" "k < length (Steps p)"
    and free: "\<forall>c < k. e' \<le> c \<longrightarrow> \<not> closes (Steps p ! c)"
    using maintenanceWindow_iff [OF assms(6)] by blast
  have "ID (Steps p ! e') = ID (Steps p ! e)"
    using e' assms(2) by (simp add: opens_def IndexOf_Some)
  then have "e' = e"
    using e' assms(1,2) by (intro distinct_index) (auto simp: IndexOf_Some)
  ultimately show False using free assms(4,5) by auto
qed

lemma IndexOf_distinct:
  "distinct (StepIDs p) \<Longrightarrow> i < length (Steps p) \<Longrightarrow> ID (Steps p ! i) = sid \<Longrightarrow>
   IndexOf sid p = Some i"
  unfolding IndexOf_Some using distinct_index [of p] by (metis nat_neq_iff order.strict_trans)

lemma Runs_at:
  assumes "Runs sid p"
  obtains i where "IndexOf sid p = Some i" and "Kind (Steps p ! i) = StepTask"
    and "Implemented (Steps p ! i)"
proof -
  have "\<exists>i. index_where (\<lambda>s. ID s = sid) ss = Some i \<and> Kind (ss ! i) = StepTask \<and> Implemented (ss ! i)"
    if "runs_in sid ss" for ss
    using that by (induction ss) (auto split: if_splits)
  with assms that show ?thesis by (auto simp: Runs_def IndexOf_def)
qed

lemma closeWindow_positions:
  assumes dist: "distinct (StepIDs p)"
    and e: "IndexOf TaskMaintenanceEnable p = Some e"
    and d: "d < length (Steps p)" "closes (Steps p ! d)"
    and a: "IndexOf TaskActivate p = Some a" "Kind (Steps p ! a) = StepTask"
    and order: "e < d" "e < a"
  shows "\<exists>d' a'. IndexOf TaskMaintenanceEnable (closeWindowBefore TaskActivate p) = Some e \<and>
    IndexOf TaskActivate (closeWindowBefore TaskActivate p) = Some a' \<and>
    d' < length (Steps (closeWindowBefore TaskActivate p)) \<and>
    closes (Steps (closeWindowBefore TaskActivate p) ! d') \<and> e < d' \<and> d' < a'"
proof -
  let ?q = "closeWindowBefore TaskActivate p"
  have neq: "TaskActivate \<noteq> TaskMaintenanceDisable" by (simp add: task_defs)
  have isd: "index_where (\<lambda>s. Kind s = StepTask \<and> ID s = TaskMaintenanceDisable) (Steps p) = Some d"
    unfolding index_where_Some
    using d distinct_index [OF dist] unfolding closes_def by (metis nat_neq_iff order.strict_trans)
  have isa: "index_where (\<lambda>s. Kind s = StepTask \<and> ID s \<noteq> TaskMaintenanceDisable \<and> ID s = TaskActivate) (Steps p) = Some a"
    using a neq unfolding index_where_Some IndexOf_Some by auto
  have al: "a < length (Steps p)" "ID (Steps p ! a) = TaskActivate" using a by (auto simp: IndexOf_Some)
  show ?thesis
  proof (cases "d < a")
    case True
    then have "?q = p" by (simp add: closeWindowBefore_def isd isa)
    with True assms show ?thesis by auto
  next
    case False
    have "a \<noteq> d" using al d neq by (auto simp: closes_def)
    with False have ad: "a < d" by simp
    then have q: "Steps ?q = move_before d a (Steps p)"
      using d by (simp add: closeWindowBefore_def isd isa close_loop_move)
    obtain as bs cs where ss: "Steps p = as @ bs @ Steps p ! d # cs" and la: "length as = a"
      and lb: "length as + length bs = d" and m: "move_before d a (Steps p) = as @ Steps p ! d # bs @ cs"
      using move_before_split [of a d "Steps p"] ad d(1) by auto
    obtain b bs' where bs: "bs = b # bs'" using la lb ad by (cases bs) auto
    have dq: "distinct (StepIDs ?q)" using dist by (simp add: close_window.distinct_ids)
    have len: "length (Steps ?q) = length (Steps p)" by (rule close_window.same_length)
    have at_e: "Steps ?q ! e = Steps p ! e"
      using q m ss la order(2) by (metis nth_append)
    have at_a: "Steps ?q ! a = Steps p ! d" using q m la by (metis nth_append_length)
    have "Steps p ! a = b" using ss bs la by (metis append_Cons nth_append_length)
    moreover have "Steps ?q = (as @ [Steps p ! d]) @ b # bs' @ cs" using q m bs by simp
    then have "Steps ?q ! Suc a = b" using la by (metis length_append_singleton nth_append_length)
    ultimately have at_Suc: "Steps ?q ! Suc a = Steps p ! a" by simp
    have "IndexOf TaskMaintenanceEnable ?q = Some e"
      using dq at_e e len by (intro IndexOf_distinct) (auto simp: IndexOf_Some)
    moreover have "IndexOf TaskActivate ?q = Some (Suc a)"
      using dq at_Suc al len ad d(1) by (intro IndexOf_distinct) auto
    moreover have "closes (Steps ?q ! a)" using at_a d(2) by simp
    ultimately show ?thesis using order al len by auto
  qed
qed

lemma window_without: "maintenanceWindow (withoutMaintenanceWindow p) = {}"
proof -
  have "runs_in TaskMaintenanceEnable (map (\<lambda>s.
       if Kind s = StepTask \<and> window_id (ID s) then s\<lparr>Skipped := True, SkipReason := r\<rparr> else s) ss) \<Longrightarrow> False"
    for ss r
    by (induction ss) (auto simp: window_id_def Implemented_def split: if_splits)
  then show ?thesis
    by (auto simp: maintenanceWindow_def Runs_def withoutMaintenanceWindow_def)
qed

lemma symlink_window:
  assumes dist: "distinct (StepIDs p)"
    and e: "IndexOf TaskMaintenanceEnable p = Some e"
    and d: "Runs TaskMaintenanceDisable p" "IndexOf TaskMaintenanceDisable p = Some d"
    and a: "IndexOf TaskActivate p = Some a" "Kind (Steps p ! a) = StepTask"
    and order: "e < d" "e < a"
    and k: "k \<in> maintenanceWindow (ForPublishStrategy PublishSymlink p)"
  shows "\<exists>a'. IndexOf TaskActivate (ForPublishStrategy PublishSymlink p) = Some a' \<and> k < a'"
proof -
  have needs: "needsMaintenanceWindow p"
    using k window_without by (auto simp: ForPublishStrategy_def split: if_splits)
  then have f: "ForPublishStrategy PublishSymlink p = closeWindowBefore TaskActivate p"
    by (simp add: ForPublishStrategy_def)
  from d(1) obtain i where "IndexOf TaskMaintenanceDisable p = Some i" "Kind (Steps p ! i) = StepTask"
    "Implemented (Steps p ! i)" by (rule Runs_at)
  with d(2) have d': "d < length (Steps p)" "closes (Steps p ! d)"
    by (auto simp: closes_def IndexOf_Some)
  from closeWindow_positions [OF dist e d' a order] obtain d' a' where
    q: "IndexOf TaskMaintenanceEnable (closeWindowBefore TaskActivate p) = Some e"
    "IndexOf TaskActivate (closeWindowBefore TaskActivate p) = Some a'"
    "d' < length (Steps (closeWindowBefore TaskActivate p))"
    "closes (Steps (closeWindowBefore TaskActivate p) ! d')" "e < d'" "d' < a'" by blast
  have dq: "distinct (StepIDs (closeWindowBefore TaskActivate p))"
    using dist by (simp only: close_window.distinct_ids)
  have kq: "k \<in> maintenanceWindow (closeWindowBefore TaskActivate p)" using k by (simp only: f)
  have "k \<le> d'" by (rule window_ends [OF dq q(1,3,4) less_imp_le [OF q(5)] kq])
  then have "k < a'" using q(6) by simp
  with q(2) show ?thesis unfolding f by blast
qed

section \<open>In place\<close>

lemma ungated_fields:
  "Implemented (if c then s\<lparr>NeedsMigration := False\<rparr> else s) = Implemented s"
  "opens (if c then s\<lparr>NeedsMigration := False\<rparr> else s) = opens s"
  "closes (if c then s\<lparr>NeedsMigration := False\<rparr> else s) = closes s"
  by (simp_all add: Implemented_def opens_def closes_def)

text \<open>
  In place, the strategy changes no step's place and no step's window: the same
  positions run in maintenance mode, and the window no longer waits for the migration probe.
\<close>

theorem in_place_window:
  assumes "strategy \<noteq> PublishSymlink"
  shows "StepIDs (ForPublishStrategy strategy p) = StepIDs p \<and>
    maintenanceWindow (ForPublishStrategy strategy p) = maintenanceWindow p \<and>
    \<not> windowIsGated (ForPublishStrategy strategy p)"
proof -
  let ?h = "\<lambda>s. if window_id (ID s) then s\<lparr>NeedsMigration := False\<rparr> else s"
  have ids: "map ID (map ?h ss) = map ID ss" for ss by simp
  have runs: "runs_in sid (map ?h ss) = runs_in sid ss" for sid ss
    by (induction ss) (auto simp: ungated_fields)
  have win: "window_from i w (map ?h ss) = window_from i w ss" for i w ss
    by (induction ss arbitrary: i w)
      (simp_all only: window_from_Cons list.map ungated_fields window_from.simps(1))
  have "\<not> windowIsGated (withUngatedMaintenanceWindow p)"
  proof -
    have "\<not> NeedsMigration s" if "find (\<lambda>s. ID s = TaskMaintenanceEnable) (map ?h ss) = Some s" for s ss
      using that by (induction ss) (auto simp: window_id_def split: if_splits)
    then show ?thesis
      by (auto simp: windowIsGated_def withUngatedMaintenanceWindow_def split: option.split)
  qed
  with assms show ?thesis
    by (simp add: ForPublishStrategy_def withUngatedMaintenanceWindow_def maintenanceWindow_def
        Runs_def StepIDs_def comp_def runs win)
qed

theorem in_place_window_witness:
  "PublishInPlace \<noteq> PublishSymlink \<and>
   maintenanceWindow (ForPublishStrategy PublishInPlace sample_plan) = {12..20}"
proof -
  have "PublishInPlace \<noteq> PublishSymlink" by code_simp
  moreover have "maintenanceWindow sample_plan = {12..20}" by code_simp
  ultimately show ?thesis using in_place_window [of PublishInPlace sample_plan] by simp
qed

end
