(* ===== verification/PlanBuild.thy ===== *)
theory PlanBuild
  imports PlanShape
begin

text \<open>
  Composing a recipe with hooks into one plan (\<open>BuildPlan\<close>, \<open>insertHooks\<close> and its helpers in
  \<open>internal/deploy/plan.go\<close>).

  Hooks are inserted in rounds: a round places every pending hook whose anchor is in the
  plan, and a round that places none ends in an error that says why.  A slice expression
  out of range is the outcome \<open>Panic\<close>.
\<close>

section \<open>The operations\<close>

definition hookExists :: "step list \<Rightarrow> string \<Rightarrow> bool" where
  "hookExists steps name = list_ex (\<lambda>s. ID s = ''hook:'' @ name) steps"

definition stageAnchorIndex :: "step list \<Rightarrow> stage \<Rightarrow> hook_position \<Rightarrow> nat" where
  "stageAnchorIndex steps st pos =
     (case (index_where (\<lambda>s. Stage s = st) steps, last_index (\<lambda>s. Stage s = st) steps) of
        (Some firstAt, Some lastAt) \<Rightarrow> if pos = PositionBefore then firstAt else lastAt
      | _ \<Rightarrow> length steps)"

definition anchorIndex :: "step list \<Rightarrow> hook \<Rightarrow> go_error + nat option" where
  "anchorIndex steps h =
     (case parseAnchor (hook_On h) of
        Inl e \<Rightarrow> Inl (Wrapf ''%w: hook %q: %s'' (hook_Name h # error_text e) (Sentinel ErrUnknownAnchor))
      | Inr (kind, name) \<Rightarrow>
          (case kind of
             AnchorTask \<Rightarrow>
               if \<not> IsKnownTaskID name then
                 Inl (Wrapf ''%w: hook %q anchors on unknown task %q'' [hook_Name h, name]
                   (Sentinel ErrUnknownAnchor))
               else Inr (index_where (\<lambda>s. ID s = name) steps)
           | AnchorHook \<Rightarrow> Inr (index_where (\<lambda>s. ID s = ''hook:'' @ name) steps)
           | AnchorStage \<Rightarrow> Inr (Some (stageAnchorIndex steps
               (case stageByName name of Some st \<Rightarrow> st | None \<Rightarrow> []) (hook_Position h)))))"

definition hookStep :: "hook \<Rightarrow> step list \<Rightarrow> go_error + step" where
  "hookStep h steps =
     (case parseAnchor (hook_On h) of
        Inl e \<Rightarrow> Inl (Wrapf ''%w: hook %q: %s'' (hook_Name h # error_text e) (Sentinel ErrUnknownAnchor))
      | Inr (kind, name) \<Rightarrow>
          (let st = (case kind of
                 AnchorTask \<Rightarrow> task_stage name
               | AnchorHook \<Rightarrow>
                   (case find (\<lambda>s. ID s = ''hook:'' @ name) steps of Some s \<Rightarrow> Stage s | None \<Rightarrow> [])
               | AnchorStage \<Rightarrow> (case stageByName name of Some st \<Rightarrow> st | None \<Rightarrow> []))
           in Inr \<lparr>ID = HookID h, Kind = StepHook, Stage = st, Title = hook_Name h,
                Command = hook_Run h, RunOn = hook_RunOn h, Optional = hook_Optional h,
                NeedsApplication = False, NeedsMigration = False, ReusableOutputs = [],
                Source = (if hook_Source h = [] then ''config'' else hook_Source h),
                Checks = [], Skipped = False, SkipReason = [], order = hook_Order h, core = None\<rparr>))"

text \<open>How far the search past the anchor goes: over hooks with no larger order.\<close>

fun skip_hooks :: "int \<Rightarrow> step list \<Rightarrow> nat" where
  "skip_hooks ord [] = 0"
| "skip_hooks ord (c # cs) =
     (if Kind c \<noteq> StepHook then 0
      else if ord < order c then 0
      else Suc (skip_hooks ord cs))"

definition insert_at :: "nat \<Rightarrow> 'a \<Rightarrow> 'a list \<Rightarrow> 'a list" where
  "insert_at i x xs = take i xs @ x # drop i xs"

text \<open>
  Past the end of the list the copy's slice bounds are out of range; only the \<open>after\<close> branch
  can compute such a position, from an anchor that is already the end.
\<close>

definition insertStepAt :: "step list \<Rightarrow> step \<Rightarrow> nat \<Rightarrow> hook \<Rightarrow> step list option" where
  "insertStepAt steps st anchor h =
     (if hook_Position h = PositionBefore then
        (if length steps < anchor then None else Some (insert_at anchor st steps))
      else
        let at = anchor + 1 + skip_hooks (hook_Order h) (drop (anchor + 1) steps)
        in if length steps < at then None else Some (insert_at at st steps))"

fun insert_round :: "step list \<Rightarrow> hook list \<Rightarrow> (step list \<times> hook list \<times> nat) outcome" where
  "insert_round steps [] = Done (steps, [], 0)"
| "insert_round steps (h # hs) =
     (case anchorIndex steps h of
        Inl e \<Rightarrow> Fail e
      | Inr None \<Rightarrow>
          (case insert_round steps hs of
             Done (steps', remaining, inserted) \<Rightarrow> Done (steps', h # remaining, inserted)
           | Fail e \<Rightarrow> Fail e
           | Panic \<Rightarrow> Panic)
      | Inr (Some i) \<Rightarrow>
          (case hookStep h steps of
             Inl e \<Rightarrow> Fail e
           | Inr st \<Rightarrow>
               (case insertStepAt steps st i h of
                  None \<Rightarrow> Panic
                | Some steps' \<Rightarrow>
                    (case insert_round steps' hs of
                       Done (steps'', remaining, inserted) \<Rightarrow> Done (steps'', remaining, Suc inserted)
                     | Fail e \<Rightarrow> Fail e
                     | Panic \<Rightarrow> Panic))))"

text \<open>Telling apart the two reasons why nothing could be placed.\<close>

fun stuck_error :: "step list \<Rightarrow> hook list \<Rightarrow> hook list \<Rightarrow> go_error" where
  "stuck_error steps remaining [] =
     Wrapf ''%w involving hooks %v'' (map hook_Name remaining) (Sentinel ErrHookCycle)"
| "stuck_error steps remaining (h # hs) =
     (case parseAnchor (hook_On h) of
        Inl e \<Rightarrow> Wrapf ''%w: hook %q: %s'' (hook_Name h # error_text e) (Sentinel ErrUnknownAnchor)
      | Inr (kind, name) \<Rightarrow>
          if kind = AnchorHook \<and> (name \<in> set (map hook_Name remaining) \<or> hookExists steps name)
          then stuck_error steps remaining hs
          else if kind = AnchorTask then
            Wrapf ''%w: hook %q anchors on unknown task %q'' [hook_Name h, name] (Sentinel ErrUnknownAnchor)
          else
            Wrapf ''%w: hook %q anchors on %q, which is not in the plan'' [hook_Name h, hook_On h]
              (Sentinel ErrUnknownAnchor))"

lemma insert_round_count:
  "insert_round steps hs = Done (steps', remaining, inserted) \<Longrightarrow>
   inserted + length remaining = length hs"
  by (induction steps hs arbitrary: steps' remaining inserted rule: insert_round.induct)
    (auto split: sum.splits option.splits outcome.splits)

function insert_rounds :: "step list \<Rightarrow> hook list \<Rightarrow> step list outcome" where
  "insert_rounds steps pending =
     (if pending = [] then Done steps
      else case insert_round steps pending of
        Done (steps', remaining, inserted) \<Rightarrow>
          if inserted = 0 then Fail (stuck_error steps' remaining remaining)
          else insert_rounds steps' remaining
      | Fail e \<Rightarrow> Fail e
      | Panic \<Rightarrow> Panic)"
  by pat_completeness auto
termination
  by (relation "measure (\<lambda>(steps, pending). length pending)") (auto dest: insert_round_count)

declare insert_rounds.simps [simp del]

fun duplicate_hook :: "string set \<Rightarrow> hook list \<Rightarrow> go_error option" where
  "duplicate_hook seen [] = None"
| "duplicate_hook seen (h # hs) =
     (if hook_Name h = [] then Some (Wrapf ''%w: a hook has no name'' [] (Sentinel ErrDuplicateHook))
      else if HookID h \<in> seen then Some (Wrapf ''%w: %s'' [hook_Name h] (Sentinel ErrDuplicateHook))
      else duplicate_hook (insert (HookID h) seen) hs)"

definition insertHooks :: "step list \<Rightarrow> hook list \<Rightarrow> step list outcome" where
  "insertHooks steps hooks =
     (case duplicate_hook {} hooks of
        Some e \<Rightarrow> Fail e
      | None \<Rightarrow> insert_rounds steps hooks)"

definition task_step :: "recipe \<Rightarrow> string \<Rightarrow> step" where
  "task_step r tid =
     (let t = recipe_task r tid in
      \<lparr>ID = tid, Kind = StepTask,
       Stage = (if task_Stage t = [] then task_stage tid else task_Stage t),
       Title = (if task_Title t = [] then default_title tid else task_Title t),
       Command = task_Command t, RunOn = task_RunOn t, Optional = task_Optional t,
       NeedsApplication = task_NeedsApplication t, NeedsMigration = task_NeedsMigration t,
       ReusableOutputs = task_ReusableOutputs t, Source = ''recipe'',
       Checks = (if tid = TaskVerify then rec_Checks r else []),
       Skipped = False, SkipReason = [], order = 0, core = task_Core t\<rparr>)"

definition recipe_steps :: "recipe \<Rightarrow> step list" where
  "recipe_steps r = map (task_step r) (filter (\<lambda>tid. task_ID (recipe_task r tid) \<noteq> []) taskOrder)"

definition all_hooks :: "recipe \<Rightarrow> hook list \<Rightarrow> hook list" where
  "all_hooks r hooks = map (\<lambda>h. h\<lparr>hook_Source := ''recipe''\<rparr>) (rec_Hooks r) @ hooks"

definition BuildPlan :: "recipe \<Rightarrow> hook list \<Rightarrow> plan outcome" where
  "BuildPlan r hooks =
     (case ValidateRecipe r of
        Some e \<Rightarrow> Fail e
      | None \<Rightarrow>
          (case insertHooks (recipe_steps r) (all_hooks r hooks) of
             Done ordered \<Rightarrow>
               Done \<lparr>Steps = ordered, plan_MigrationProbe = rec_MigrationProbe r,
                 plan_VerifyRejectPaths = rec_VerifyRejectPaths r\<rparr>
           | Fail e \<Rightarrow> Fail e
           | Panic \<Rightarrow> Panic))"

end
