(* ===== verification/PlanHooks.thy ===== *)
theory PlanHooks
  imports PlanBuild
begin

text \<open>
  What \<open>BuildPlan\<close> promises: the tasks of the recipe in the canonical order, every hook
  exactly once and on the right side of its anchor, success whenever the anchors are well
  founded, and hooks after one task sorted by their order.
\<close>

section \<open>Inserting one step\<close>

lemma insert_at_nth:
  assumes "i \<le> length xs"
  shows "insert_at i x xs ! i = x" and "k < i \<Longrightarrow> insert_at i x xs ! k = xs ! k"
    and "i \<le> k \<Longrightarrow> k < length xs \<Longrightarrow> insert_at i x xs ! Suc k = xs ! k"
    and "length (insert_at i x xs) = Suc (length xs)"
  using assms by (auto simp: insert_at_def nth_append Suc_diff_le)

lemma insert_at_map: "map f (insert_at i x xs) = insert_at i (f x) (map f xs)"
  by (simp add: insert_at_def take_map drop_map)

lemma insert_at_subseq: "subseq xs (insert_at i x xs)"
proof -
  have "subseq (take i xs @ drop i xs) (take i xs @ x # drop i xs)"
    by (intro list_emb_append_mono) auto
  then show ?thesis by (simp add: insert_at_def)
qed

lemma insert_at_mset: "mset (insert_at i x xs) = add_mset x (mset xs)"
proof -
  have "mset (take i xs) + mset (drop i xs) = mset xs"
    by (metis append_take_drop_id mset_append)
  then show ?thesis by (simp add: insert_at_def)
qed

lemma insert_at_filter: "\<not> P x \<Longrightarrow> filter P (insert_at i x xs) = filter P xs"
  by (simp add: insert_at_def) (metis append_take_drop_id filter_append)

lemma subseq_pair:
  assumes "i < j" and "j < length xs"
  shows "subseq [xs ! i, xs ! j] xs"
proof -
  have "xs ! i \<in> set (take j xs)" using assms by (metis in_set_conv_nth length_take min.absorb4 nth_take)
  then have "subseq [xs ! i] (take j xs)" by (simp add: subseq_singleton_left)
  then have "subseq ([xs ! i] @ [xs ! j]) (take j xs @ xs ! j # drop (Suc j) xs)"
    by (intro list_emb_append_mono) auto
  then show ?thesis using id_take_nth_drop [OF assms(2)] by simp
qed

lemma subseq_set: "subseq xs ys \<Longrightarrow> set xs \<subseteq> set ys"
  by (auto dest: list_emb_set)

lemma distinct_subseq: "subseq xs ys \<Longrightarrow> distinct ys \<Longrightarrow> distinct xs"
  by (auto simp: subseq_conv_nths)

lemma skip_hooks_le: "skip_hooks n cs \<le> length cs"
  by (induction cs) auto

lemma insertStepAt_Some:
  assumes "insertStepAt steps st anchor h = Some steps'"
  shows "\<exists>at. at \<le> length steps \<and> steps' = insert_at at st steps \<and>
    (if hook_Position h = PositionBefore then at = anchor else anchor < at)"
proof (cases "hook_Position h = PositionBefore")
  case True
  with assms show ?thesis by (simp add: insertStepAt_def split: if_splits)
next
  case False
  with assms show ?thesis
    by (intro exI [of _ "anchor + 1 + skip_hooks (hook_Order h) (drop (anchor + 1) steps)"])
      (simp add: insertStepAt_def Let_def split: if_splits)
qed

lemma insertStepAt_total:
  assumes "anchor \<le> length steps" and "hook_Position h = PositionBefore \<or> anchor < length steps"
  shows "insertStepAt steps st anchor h \<noteq> None"
proof -
  have "anchor + 1 + skip_hooks (hook_Order h) (drop (anchor + 1) steps) \<le> length steps"
    if "anchor < length steps"
    using that skip_hooks_le [of "hook_Order h" "drop (anchor + 1) steps"] by simp
  with assms show ?thesis by (auto simp: insertStepAt_def Let_def)
qed

lemma hookStep_fields:
  assumes "hookStep h steps = Inr st"
  shows "ID st = HookID h" and "Kind st = StepHook" and "order st = hook_Order h"
    and "Command st = hook_Run h" and "Optional st = hook_Optional h"
  using assms by (auto simp: hookStep_def Let_def split: sum.splits)

section \<open>Where a hook stands\<close>

text \<open>A hook stands right when it is on the declared side of what it anchors on.\<close>

definition beside :: "hook \<Rightarrow> string \<Rightarrow> step list \<Rightarrow> bool" where
  "beside h sid steps \<longleftrightarrow>
     subseq (if hook_Position h = PositionBefore then [HookID h, sid] else [sid, HookID h]) (map ID steps)"

definition stands_right :: "step list \<Rightarrow> hook \<Rightarrow> bool" where
  "stands_right steps h \<longleftrightarrow>
     (case parseAnchor (hook_On h) of
        Inl e \<Rightarrow> False
      | Inr (kind, name) \<Rightarrow>
          (case kind of
             AnchorTask \<Rightarrow> beside h name steps
           | AnchorHook \<Rightarrow> beside h (''hook:'' @ name) steps
           | AnchorStage \<Rightarrow>
               (\<forall>s \<in> set steps. Kind s = StepTask \<and> Stage s = name \<longrightarrow> beside h (ID s) steps)))"

lemma beside_insert:
  assumes at: "at \<le> length steps" and st: "ID st = HookID h" and k: "k < length steps"
    and side: "if hook_Position h = PositionBefore then at \<le> k else k < at"
  shows "beside h (ID (steps ! k)) (insert_at at st steps)"
proof (cases "hook_Position h = PositionBefore")
  case True
  then have "at \<le> k" using side by simp
  then have "insert_at at st steps ! Suc k = steps ! k" "insert_at at st steps ! at = st"
    using insert_at_nth [OF at] k by auto
  moreover have "subseq [map ID (insert_at at st steps) ! at, map ID (insert_at at st steps) ! Suc k]
      (map ID (insert_at at st steps))"
    using \<open>at \<le> k\<close> k insert_at_nth(4) [OF at] by (intro subseq_pair) simp_all
  ultimately show ?thesis
    using True st k at \<open>at \<le> k\<close> insert_at_nth(4) [OF at, of st] by (simp add: beside_def)
next
  case False
  then have "k < at" using side by simp
  then have "insert_at at st steps ! k = steps ! k" "insert_at at st steps ! at = st"
    using insert_at_nth [OF at] by auto
  moreover have "subseq [map ID (insert_at at st steps) ! k, map ID (insert_at at st steps) ! at]
      (map ID (insert_at at st steps))"
    using \<open>k < at\<close> at insert_at_nth(4) [OF at] by (intro subseq_pair) simp_all
  ultimately show ?thesis
    using False st k at insert_at_nth(4) [OF at, of st] by (simp add: beside_def)
qed

lemma stageAnchorIndex_side:
  assumes "k < length steps" and "Stage (steps ! k) = name"
  shows "if pos = PositionBefore then stageAnchorIndex steps name pos \<le> k
    else k \<le> stageAnchorIndex steps name pos"
proof -
  have in_set: "steps ! k \<in> set steps" using assms by simp
  obtain a where a: "index_where (\<lambda>s. Stage s = name) steps = Some a"
    using index_where_None [of "\<lambda>s. Stage s = name" steps] in_set assms(2)
    by (cases "index_where (\<lambda>s. Stage s = name) steps") auto
  obtain b where b: "last_index (\<lambda>s. Stage s = name) steps = Some b"
    using last_index_None [of "\<lambda>s. Stage s = name" steps] in_set assms(2)
    by (cases "last_index (\<lambda>s. Stage s = name) steps") auto
  have "a \<le> k" using a assms(2) unfolding index_where_Some by (metis not_le)
  moreover have "k \<le> b" using last_index_Some [OF b] assms by (metis not_le)
  ultimately show ?thesis by (simp add: stageAnchorIndex_def a b)
qed

lemma placed_right:
  assumes anchor: "anchorIndex steps h = Inr (Some i)" and step: "hookStep h steps = Inr st"
    and ins: "insertStepAt steps st i h = Some steps'"
  shows "stands_right steps' h"
proof -
  obtain kind name where parse: "parseAnchor (hook_On h) = Inr (kind, name)"
    using anchor by (auto simp: anchorIndex_def split: sum.splits)
  obtain at where at: "at \<le> length steps" "steps' = insert_at at st steps"
    and side: "if hook_Position h = PositionBefore then at = i else i < at"
    using insertStepAt_Some [OF ins] by blast
  note id = hookStep_fields(1) [OF step]
  have one: "beside h sid steps'" if "index_where (\<lambda>s. ID s = sid) steps = Some i" for sid
    using that beside_insert [OF at(1) id, of i] side at(2)
    by (auto simp: index_where_Some split: if_splits)
  show ?thesis
  proof (cases kind)
    case AnchorTask
    with parse anchor have "index_where (\<lambda>s. ID s = name) steps = Some i"
      by (auto simp: anchorIndex_def split: if_splits)
    from one [OF this] show ?thesis using parse AnchorTask by (simp add: stands_right_def)
  next
    case AnchorHook
    with parse anchor have "index_where (\<lambda>s. ID s = ''hook:'' @ name) steps = Some i"
      by (simp add: anchorIndex_def)
    from one [OF this] show ?thesis using parse AnchorHook by (simp add: stands_right_def)
  next
    case AnchorStage
    with parse have "stageByName name = Some name"
      using parseAnchor_stage [of "hook_On h" name] by (simp add: stageByName_iff)
    with parse anchor AnchorStage have i: "i = stageAnchorIndex steps name (hook_Position h)"
      by (simp add: anchorIndex_def)
    have "beside h (ID s) steps'" if "s \<in> set steps'" "Kind s = StepTask" "Stage s = name" for s
    proof -
      have "s \<noteq> st" using that(2) hookStep_fields(2) [OF step] by (auto simp: kind_defs)
      then have "s \<in> set steps" using that(1) at(2)
        by (metis insert_at_mset insert_iff set_mset_add_mset_insert set_mset_mset)
      then obtain k where k: "k < length steps" "steps ! k = s" by (auto simp: in_set_conv_nth)
      show ?thesis
        using stageAnchorIndex_side [OF k(1), of name "hook_Position h"] k that(3) side i
          beside_insert [OF at(1) id k(1)] at(2)
        by (auto split: if_splits)
    qed
    with parse AnchorStage show ?thesis by (simp add: stands_right_def)
  qed
qed

text \<open>Later insertions keep it so.\<close>

lemma stands_right_extend:
  assumes "stands_right steps h" and "subseq steps steps'"
    and "filter (\<lambda>s. Kind s = StepTask) steps' = filter (\<lambda>s. Kind s = StepTask) steps"
  shows "stands_right steps' h"
proof -
  have "subseq (map ID steps) (map ID steps')" using assms(2) by (rule subseq_map)
  then have mono: "beside h sid steps \<Longrightarrow> beside h sid steps'" for sid
    unfolding beside_def by (metis subseq_order.order_trans)
  have "s \<in> set steps" if "s \<in> set steps'" "Kind s = StepTask" for s
    using assms(3) that by (metis (mono_tags, lifting) mem_Collect_eq set_filter)
  with assms(1) mono show ?thesis
    by (auto simp: stands_right_def split: sum.splits anchor_kind.splits)
qed

section \<open>Rounds\<close>

text \<open>What one or several rounds do to the plan, with the hooks that are still pending.\<close>

definition hooks_placed :: "step list \<Rightarrow> hook list \<Rightarrow> step list \<Rightarrow> hook list \<Rightarrow> bool" where
  "hooks_placed steps hs steps' remaining \<longleftrightarrow>
     mset (map ID steps') + mset (map HookID remaining) = mset (map ID steps) + mset (map HookID hs) \<and>
     filter (\<lambda>s. Kind s = StepTask) steps' = filter (\<lambda>s. Kind s = StepTask) steps \<and>
     subseq steps steps' \<and> subseq remaining hs \<and>
     (\<forall>h \<in> set hs. h \<in> set remaining \<or> stands_right steps' h)"

lemma hooks_placedI:
  assumes "mset (map ID steps') + mset (map HookID remaining) = mset (map ID steps) + mset (map HookID hs)"
    and "filter (\<lambda>s. Kind s = StepTask) steps' = filter (\<lambda>s. Kind s = StepTask) steps"
    and "subseq steps steps'" and "subseq remaining hs"
    and "\<And>h. h \<in> set hs \<Longrightarrow> h \<in> set remaining \<or> stands_right steps' h"
  shows "hooks_placed steps hs steps' remaining"
  using assms by (simp add: hooks_placed_def)

lemma hooks_placedD:
  assumes "hooks_placed steps hs steps' remaining"
  shows "mset (map ID steps') + mset (map HookID remaining) = mset (map ID steps) + mset (map HookID hs)"
    and "filter (\<lambda>s. Kind s = StepTask) steps' = filter (\<lambda>s. Kind s = StepTask) steps"
    and "subseq steps steps'" and "subseq remaining hs"
    and "h \<in> set hs \<Longrightarrow> h \<in> set remaining \<or> stands_right steps' h"
  using assms by (simp_all add: hooks_placed_def)

lemma hooks_placed_extend:
  "hooks_placed steps hs steps' remaining \<Longrightarrow> stands_right steps h \<Longrightarrow> stands_right steps' h"
  by (rule stands_right_extend [of steps]) (simp_all add: hooks_placedD(2,3))

lemma hooks_placed_Nil: "hooks_placed steps [] steps []"
  by (rule hooks_placedI) simp_all

lemma hooks_placed_skip:
  "hooks_placed steps hs steps' remaining \<Longrightarrow> hooks_placed steps (h # hs) steps' (h # remaining)"
  by (rule hooks_placedI) (auto dest: hooks_placedD)

lemma hooks_placed_trans:
  assumes "hooks_placed steps hs steps1 pending" and "hooks_placed steps1 pending steps2 remaining"
  shows "hooks_placed steps hs steps2 remaining"
proof (rule hooks_placedI)
  note one = hooks_placedD [OF assms(1)] and two = hooks_placedD [OF assms(2)]
  show "mset (map ID steps2) + mset (map HookID remaining) = mset (map ID steps) + mset (map HookID hs)"
    by (simp only: two(1) one(1))
  show "filter (\<lambda>s. Kind s = StepTask) steps2 = filter (\<lambda>s. Kind s = StepTask) steps"
    by (simp only: two(2) one(2))
  show "subseq steps steps2" using one(3) two(3) by (rule subseq_order.order_trans)
  show "subseq remaining hs" using two(4) one(4) by (rule subseq_order.order_trans)
  show "h \<in> set remaining \<or> stands_right steps2 h" if "h \<in> set hs" for h
    using one(5) [OF that] two(5) hooks_placed_extend [OF assms(2)] by blast
qed

lemma hooks_placed_insert:
  assumes "anchorIndex steps h = Inr (Some i)" and "hookStep h steps = Inr st"
    and "insertStepAt steps st i h = Some steps1"
    and placed: "hooks_placed steps1 hs steps' remaining"
  shows "hooks_placed steps (h # hs) steps' remaining"
proof (rule hooks_placedI)
  note rest = hooks_placedD [OF placed]
  obtain at where at: "at \<le> length steps" "steps1 = insert_at at st steps"
    using insertStepAt_Some [OF assms(3)] by blast
  have st: "ID st = HookID h" "\<not> Kind st = StepTask"
    using hookStep_fields [OF assms(2)] by (simp_all add: kind_defs)
  have ids: "mset (map ID steps1) = add_mset (HookID h) (mset (map ID steps))"
    by (simp only: at(2) insert_at_map insert_at_mset st)
  then show "mset (map ID steps') + mset (map HookID remaining) = mset (map ID steps) + mset (map HookID (h # hs))"
    using rest(1) by simp
  have "filter (\<lambda>s. Kind s = StepTask) steps1 = filter (\<lambda>s. Kind s = StepTask) steps"
    unfolding at(2) by (rule insert_at_filter) (rule st(2))
  then show "filter (\<lambda>s. Kind s = StepTask) steps' = filter (\<lambda>s. Kind s = StepTask) steps"
    by (simp only: rest(2))
  have "subseq steps steps1" unfolding at(2) by (rule insert_at_subseq)
  then show "subseq steps steps'" using rest(3) by (rule subseq_order.order_trans)
  show "subseq remaining (h # hs)" using rest(4) by (rule list_emb_Cons)
  show "g \<in> set remaining \<or> stands_right steps' g" if "g \<in> set (h # hs)" for g
    using that rest(5) [of g] hooks_placed_extend [OF placed placed_right [OF assms(1-3)]] by auto
qed

lemma insert_round_placed:
  "insert_round steps hs = Done (steps', remaining, inserted) \<Longrightarrow> hooks_placed steps hs steps' remaining"
proof (induction steps hs arbitrary: steps' remaining inserted rule: insert_round.induct)
  case (1 steps)
  then show ?case by (simp add: hooks_placed_Nil)
next
  case (2 steps h hs)
  show ?case
  proof (cases "anchorIndex steps h")
    case (Inl e)
    with 2 show ?thesis by simp
  next
    case (Inr found)
    show ?thesis
    proof (cases found)
      case None
      with Inr 2 show ?thesis
        by (auto intro: hooks_placed_skip split: outcome.splits)
    next
      case (Some i)
      note anchor = Inr [unfolded Some]
      obtain st where st: "hookStep h steps = Inr st"
        using anchor "2.prems" by (cases "hookStep h steps") auto
      obtain steps1 where steps1: "insertStepAt steps st i h = Some steps1"
        using anchor st "2.prems" by (cases "insertStepAt steps st i h") auto
      obtain n where "insert_round steps1 hs = Done (steps', remaining, n)"
        using anchor st steps1 "2.prems" by (auto split: outcome.splits)
      then have "hooks_placed steps1 hs steps' remaining"
        using "2.IH"(2) [OF anchor refl st steps1] by blast
      then show ?thesis by (rule hooks_placed_insert [OF anchor st steps1])
    qed
  qed
qed

lemma insert_rounds_placed:
  "insert_rounds steps pending = Done steps' \<Longrightarrow> hooks_placed steps pending steps' []"
proof (induction steps pending rule: insert_rounds.induct)
  case (1 steps pending)
  show ?case
  proof (cases "pending = []")
    case True
    with "1.prems" show ?thesis by (simp add: insert_rounds.simps hooks_placed_Nil)
  next
    case False
    then obtain steps1 remaining n where round: "insert_round steps pending = Done (steps1, remaining, n)"
      using "1.prems" by (auto simp: insert_rounds.simps [of steps pending] split: outcome.splits)
    then have n: "n \<noteq> 0" and rest: "insert_rounds steps1 remaining = Done steps'"
      using "1.prems" False by (auto simp: insert_rounds.simps [of steps pending] split: if_splits)
    have "hooks_placed steps1 remaining steps' []"
      using "1.IH" [OF False round refl refl n rest] .
    with insert_round_placed [OF round] show ?thesis by (rule hooks_placed_trans)
  qed
qed

lemma duplicate_hook_None:
  "duplicate_hook seen hs = None \<longleftrightarrow>
   distinct (map HookID hs) \<and> HookID ` set hs \<inter> seen = {} \<and> (\<forall>h \<in> set hs. hook_Name h \<noteq> [])"
  by (induction seen hs rule: duplicate_hook.induct) auto

lemma BuildPlan_Done:
  assumes "BuildPlan r hooks = Done p"
  shows "ValidateRecipe r = None" and "duplicate_hook {} (all_hooks r hooks) = None"
    and "insert_rounds (recipe_steps r) (all_hooks r hooks) = Done (Steps p)"
    and "hooks_placed (recipe_steps r) (all_hooks r hooks) (Steps p) []"
proof -
  show "ValidateRecipe r = None" and "duplicate_hook {} (all_hooks r hooks) = None"
    using assms by (auto simp: BuildPlan_def insertHooks_def split: option.splits)
  then show "insert_rounds (recipe_steps r) (all_hooks r hooks) = Done (Steps p)"
    using assms by (auto simp: BuildPlan_def insertHooks_def split: outcome.splits)
  then show "hooks_placed (recipe_steps r) (all_hooks r hooks) (Steps p) []"
    by (rule insert_rounds_placed)
qed

section \<open>The tasks and the ids of a plan\<close>

definition declared_ids :: "recipe \<Rightarrow> string list" where
  "declared_ids r = filter (\<lambda>tid. tid \<in> task_ID ` set (rec_Tasks r)) taskOrder"

lemma task_step_fields [simp]: "ID (task_step r tid) = tid" "Kind (task_step r tid) = StepTask"
  by (simp_all add: task_step_def Let_def)

lemma recipe_steps_ids: "map ID (recipe_steps r) = declared_ids r"
proof -
  have "filter (\<lambda>tid. task_ID (recipe_task r tid) \<noteq> []) taskOrder = declared_ids r"
    unfolding declared_ids_def
    by (rule filter_cong) (auto simp: recipe_task_declared taskOrder_nonempty_ids)
  then show ?thesis by (simp add: recipe_steps_def comp_def)
qed

lemma recipe_steps_tasks: "filter (\<lambda>s. Kind s = StepTask) (recipe_steps r) = recipe_steps r"
  by (simp add: recipe_steps_def filter_map comp_def)

lemma HookID_not_task: "HookID h \<notin> set taskOrder"
  using taskOrder_no_hook_prefix [of "HookID h"] by (auto simp: HookID_def)

lemma BuildPlan_facts:
  assumes "BuildPlan r hooks = Done p"
  shows "map ID (filter (\<lambda>s. Kind s = StepTask) (Steps p)) = declared_ids r"
    and "mset (StepIDs p) = mset (declared_ids r) + mset (map HookID (all_hooks r hooks))"
    and "distinct (StepIDs p)"
    and "h \<in> set (all_hooks r hooks) \<Longrightarrow> stands_right (Steps p) h"
proof -
  note placed = hooks_placedD [OF BuildPlan_Done(4) [OF assms]]
  show "map ID (filter (\<lambda>s. Kind s = StepTask) (Steps p)) = declared_ids r"
    by (simp only: placed(2) recipe_steps_tasks recipe_steps_ids)
  show ids: "mset (StepIDs p) = mset (declared_ids r) + mset (map HookID (all_hooks r hooks))"
    using placed(1) by (simp add: StepIDs_def flip: recipe_steps_ids)
  have "distinct (map HookID (all_hooks r hooks))"
    using BuildPlan_Done(2) [OF assms] by (simp add: duplicate_hook_None)
  moreover have "set (declared_ids r) \<inter> set (map HookID (all_hooks r hooks)) = {}"
    using HookID_not_task by (auto simp: declared_ids_def)
  ultimately have "distinct (declared_ids r @ map HookID (all_hooks r hooks))"
    by (simp add: declared_ids_def distinct_taskOrder)
  then show "distinct (StepIDs p)"
    using ids by (metis mset_append mset_eq_imp_distinct_iff)
  show "stands_right (Steps p) h" if "h \<in> set (all_hooks r hooks)"
    using placed(5) [OF that] by simp
qed

text \<open>
  C1. A plan holds exactly the tasks the recipe declares, in the canonical order whatever the
  order of declaration, plus one step per hook; no two steps share an id.
\<close>

theorem BuildPlan_canonical:
  assumes "BuildPlan r hooks = Done p"
  shows "map ID (filter (\<lambda>s. Kind s = StepTask) (Steps p)) =
      filter (\<lambda>tid. tid \<in> task_ID ` set (rec_Tasks r)) taskOrder \<and>
    mset (map ID (filter (\<lambda>s. Kind s \<noteq> StepTask) (Steps p))) = mset (map HookID (all_hooks r hooks)) \<and>
    distinct (StepIDs p)"
proof -
  have "mset (StepIDs p) = mset (map ID (filter (\<lambda>s. Kind s = StepTask) (Steps p))) +
      mset (map ID (filter (\<lambda>s. Kind s \<noteq> StepTask) (Steps p)))"
  proof -
    have "mset (Steps p) = mset (filter (\<lambda>s. Kind s = StepTask) (Steps p)) +
        mset (filter (\<lambda>s. Kind s \<noteq> StepTask) (Steps p))"
      by (simp flip: multiset_partition)
    then show ?thesis by (simp add: StepIDs_def flip: image_mset_union)
  qed
  with BuildPlan_facts [OF assms] show ?thesis by (simp add: declared_ids_def)
qed

text \<open>
  C2. Every hook of a plan stands on the declared side of its anchor: of the task or hook it
  names, or of every task of the stage it names.
\<close>

theorem BuildPlan_anchors:
  assumes "BuildPlan r hooks = Done p" and "h \<in> set (all_hooks r hooks)"
  shows "stands_right (Steps p) h"
  by (rule BuildPlan_facts(4) [OF assms])

section \<open>Success\<close>

text \<open>What a hook needs to be placed at once, and what it may still wait for.\<close>

definition resolvable :: "step list \<Rightarrow> hook \<Rightarrow> bool" where
  "resolvable steps h \<longleftrightarrow>
     (case parseAnchor (hook_On h) of
        Inl e \<Rightarrow> False
      | Inr (kind, name) \<Rightarrow>
          (case kind of
             AnchorTask \<Rightarrow> IsKnownTaskID name \<and> name \<in> ID ` set steps
           | AnchorStage \<Rightarrow> hook_Position h = PositionBefore \<or> name \<in> Stage ` set steps
           | AnchorHook \<Rightarrow> True))"

definition waits_for :: "hook \<Rightarrow> string \<Rightarrow> bool" where
  "waits_for h name \<longleftrightarrow> parseAnchor (hook_On h) = Inr (AnchorHook, name)"

lemma resolvable_extend: "resolvable steps h \<Longrightarrow> set steps \<subseteq> set steps' \<Longrightarrow> resolvable steps' h"
  by (fastforce simp: resolvable_def split: sum.splits anchor_kind.splits)

lemma stageAnchorIndex_bound:
  "stageAnchorIndex steps st pos \<le> length steps \<and>
   (st \<in> Stage ` set steps \<longrightarrow> stageAnchorIndex steps st pos < length steps)"
proof (cases "st \<in> Stage ` set steps")
  case True
  then obtain k where k: "k < length steps" "Stage (steps ! k) = st"
    by (auto simp: in_set_conv_nth)
  obtain a where a: "index_where (\<lambda>s. Stage s = st) steps = Some a"
    using True index_where_None [of "\<lambda>s. Stage s = st" steps]
    by (cases "index_where (\<lambda>s. Stage s = st) steps") auto
  obtain b where b: "last_index (\<lambda>s. Stage s = st) steps = Some b"
    using True last_index_None [of "\<lambda>s. Stage s = st" steps]
    by (cases "last_index (\<lambda>s. Stage s = st) steps") auto
  have "a < length steps" "b < length steps"
    using a last_index_Some [OF b] by (auto simp: index_where_Some)
  then show ?thesis by (simp add: stageAnchorIndex_def a b)
next
  case False
  then have "index_where (\<lambda>s. Stage s = st) steps = None" by (auto simp: index_where_None)
  with False show ?thesis by (simp add: stageAnchorIndex_def)
qed

lemma resolvable_step:
  assumes "resolvable steps h"
  shows "(\<exists>i st steps'. anchorIndex steps h = Inr (Some i) \<and> hookStep h steps = Inr st \<and>
            insertStepAt steps st i h = Some steps') \<or>
         (anchorIndex steps h = Inr None \<and> (\<exists>n. waits_for h n \<and> ''hook:'' @ n \<notin> ID ` set steps))"
proof -
  obtain kind name where parse: "parseAnchor (hook_On h) = Inr (kind, name)"
    using assms by (auto simp: resolvable_def split: sum.splits)
  then obtain st where st: "hookStep h steps = Inr st" by (simp add: hookStep_def Let_def)
  have place: ?thesis if "anchorIndex steps h = Inr (Some i)" "i \<le> length steps"
    "hook_Position h = PositionBefore \<or> i < length steps" for i
    using that st insertStepAt_total [of i steps h st] by auto
  have found: "index_where (\<lambda>s. ID s = sid) steps = None \<longleftrightarrow> sid \<notin> ID ` set steps" for sid
    by (auto simp: index_where_None)
  have inside: "i < length steps" if "index_where (\<lambda>s. ID s = sid) steps = Some i" for sid i
    using that by (simp add: index_where_Some)
  show ?thesis
  proof (cases kind)
    case AnchorTask
    with parse assms have "IsKnownTaskID name" "name \<in> ID ` set steps" by (auto simp: resolvable_def)
    then obtain i where "index_where (\<lambda>s. ID s = name) steps = Some i" using found by fastforce
    with place [of i] inside parse AnchorTask \<open>IsKnownTaskID name\<close> show ?thesis
      by (simp add: anchorIndex_def less_imp_le)
  next
    case AnchorHook
    show ?thesis
    proof (cases "index_where (\<lambda>s. ID s = ''hook:'' @ name) steps")
      case None
      then have "''hook:'' @ name \<notin> ID ` set steps" using found by blast
      moreover have "anchorIndex steps h = Inr None" "waits_for h name"
        using None parse AnchorHook by (simp_all add: anchorIndex_def waits_for_def)
      ultimately show ?thesis by blast
    next
      case (Some i)
      with place [of i] inside [OF Some] parse AnchorHook show ?thesis
        by (simp add: anchorIndex_def less_imp_le)
    qed
  next
    case AnchorStage
    with parse have "stageByName name = Some name"
      using parseAnchor_stage [of "hook_On h" name] by (simp add: stageByName_iff)
    with parse AnchorStage have i: "anchorIndex steps h =
        Inr (Some (stageAnchorIndex steps name (hook_Position h)))"
      by (simp add: anchorIndex_def)
    have "hook_Position h = PositionBefore \<or> name \<in> Stage ` set steps"
      using assms parse AnchorStage by (simp add: resolvable_def)
    with place [OF i] stageAnchorIndex_bound [of steps name "hook_Position h"] show ?thesis by blast
  qed
qed

text \<open>A round over resolvable hooks ends, and leaves only hooks whose anchor was absent.\<close>

lemma insert_round_total:
  "\<forall>h \<in> set hs. resolvable steps h \<Longrightarrow>
   \<exists>steps' remaining n. insert_round steps hs = Done (steps', remaining, n) \<and>
     (\<forall>h \<in> set remaining. \<exists>m. waits_for h m \<and> ''hook:'' @ m \<notin> ID ` set steps)"
proof (induction hs arbitrary: steps)
  case Nil
  then show ?case by simp
next
  case (Cons h hs)
  have "resolvable steps h" using Cons.prems by simp
  from resolvable_step [OF this] show ?case
  proof
    assume "anchorIndex steps h = Inr None \<and> (\<exists>n. waits_for h n \<and> ''hook:'' @ n \<notin> ID ` set steps)"
    with Cons.IH [of steps] Cons.prems show ?thesis by auto
  next
    assume "\<exists>i st steps'. anchorIndex steps h = Inr (Some i) \<and> hookStep h steps = Inr st \<and>
            insertStepAt steps st i h = Some steps'"
    then obtain i st steps' where ins: "anchorIndex steps h = Inr (Some i)" "hookStep h steps = Inr st"
      "insertStepAt steps st i h = Some steps'" by blast
    then obtain at where "at \<le> length steps" "steps' = insert_at at st steps"
      using insertStepAt_Some by blast
    then have "set steps' = insert st (set steps)"
      by (metis insert_at_mset set_mset_add_mset_insert set_mset_mset)
    then have sub: "set steps \<subseteq> set steps'" by auto
    then have "\<forall>g \<in> set hs. resolvable steps' g"
      using Cons.prems resolvable_extend by auto
    from Cons.IH [OF this] ins sub show ?thesis by fastforce
  qed
qed

text \<open>Hooks that wait only for placed hooks, or for pending ones of smaller rank.\<close>

definition grounded :: "(hook \<Rightarrow> nat) \<Rightarrow> step list \<Rightarrow> hook list \<Rightarrow> bool" where
  "grounded rank steps pending \<longleftrightarrow>
     distinct (map HookID pending) \<and>
     (\<forall>h \<in> set pending. resolvable steps h \<and>
       (\<forall>n. waits_for h n \<longrightarrow> ''hook:'' @ n \<in> ID ` set steps \<or>
         (\<exists>g \<in> set pending. hook_Name g = n \<and> rank g < rank h)))"

lemma grounded_round:
  assumes "grounded rank steps pending" and placed: "hooks_placed steps pending steps' remaining"
  shows "grounded rank steps' remaining"
proof -
  note facts = hooks_placedD [OF placed]
  have sub: "set steps \<subseteq> set steps'" using facts(3) by (rule subseq_set)
  have rem: "set remaining \<subseteq> set pending" using facts(4) by (rule subseq_set)
  have dist: "distinct (map HookID pending)" using assms(1) by (simp add: grounded_def)
  then have "distinct (map HookID remaining)"
    using subseq_map [OF facts(4), of HookID] by (metis distinct_subseq)
  moreover have "''hook:'' @ hook_Name g \<in> ID ` set steps'"
    if "g \<in> set pending" "g \<notin> set remaining" for g
  proof -
    have "HookID g \<notin> HookID ` set remaining"
      using dist that rem by (auto simp: distinct_map dest: inj_onD)
    moreover have "HookID g \<in># mset (map ID steps') + mset (map HookID remaining)"
      unfolding facts(1) using that(1) by simp
    ultimately show ?thesis by (auto simp: HookID_def)
  qed
  moreover have "resolvable steps' h" if "h \<in> set remaining" for h
    using that rem assms(1) sub by (auto simp: grounded_def intro: resolvable_extend)
  ultimately show ?thesis
    using assms(1) rem sub unfolding grounded_def by blast
qed

lemma insert_rounds_total:
  "grounded rank steps pending \<Longrightarrow> \<exists>steps'. insert_rounds steps pending = Done steps'"
proof (induction steps pending rule: insert_rounds.induct)
  case (1 steps pending)
  show ?case
  proof (cases "pending = []")
    case True
    then show ?thesis by (simp add: insert_rounds.simps)
  next
    case False
    obtain steps1 remaining n where round: "insert_round steps pending = Done (steps1, remaining, n)"
      and absent: "\<forall>h \<in> set remaining. \<exists>m. waits_for h m \<and> ''hook:'' @ m \<notin> ID ` set steps"
      using insert_round_total [of pending steps] "1.prems" by (auto simp: grounded_def)
    note placed = insert_round_placed [OF round]
    obtain h where h: "h \<in> set pending" and least: "\<forall>g \<in> set pending. rank h \<le> rank g"
      using False ex_has_least_nat [of "\<lambda>g. g \<in> set pending" "hd pending" rank] by auto
    have "n \<noteq> 0"
    proof
      assume "n = 0"
      then have "length remaining = length pending" using insert_round_count [OF round] by simp
      then have "remaining = pending"
        using hooks_placedD(4) [OF placed] by (metis subseq_same_length)
      then obtain m where "waits_for h m" "''hook:'' @ m \<notin> ID ` set steps" using absent h by blast
      then obtain g where "g \<in> set pending" "rank g < rank h"
        using "1.prems" h unfolding grounded_def by blast
      with least show False by (metis not_le)
    qed
    have "grounded rank steps1 remaining" by (rule grounded_round [OF "1.prems" placed])
    then obtain steps' where "insert_rounds steps1 remaining = Done steps'"
      using "1.IH" [OF False round refl refl \<open>n \<noteq> 0\<close>] by blast
    then show ?thesis
      using False round \<open>n \<noteq> 0\<close> by (simp add: insert_rounds.simps [of steps pending])
  qed
qed

text \<open>
  C3. Building a plan succeeds, whatever the order the hooks are given in, when the recipe is
  consistent, hook names are given and distinct, every task or stage a hook anchors on is in
  the recipe, and hooks anchored on hooks can be ranked.
\<close>

theorem BuildPlan_succeeds:
  assumes "ValidateRecipe r = None"
    and "distinct (map hook_Name (all_hooks r hooks))" and "[] \<notin> hook_Name ` set (all_hooks r hooks)"
    and "\<forall>h \<in> set (all_hooks r hooks). resolvable (recipe_steps r) h"
    and "\<forall>h \<in> set (all_hooks r hooks). \<forall>n. waits_for h n \<longrightarrow>
      (\<exists>g \<in> set (all_hooks r hooks). hook_Name g = n \<and> rank g < (rank h :: nat))"
  shows "\<exists>p. BuildPlan r hooks = Done p"
proof -
  have "distinct (map HookID (all_hooks r hooks))"
    using assms(2) by (auto simp: distinct_map HookID_inject inj_on_def)
  moreover from this have "duplicate_hook {} (all_hooks r hooks) = None"
    using assms(3) by (simp add: duplicate_hook_None) (metis image_eqI)
  moreover have "grounded rank (recipe_steps r) (all_hooks r hooks)"
    using calculation(1) assms(4,5) unfolding grounded_def by blast
  ultimately show ?thesis
    using assms(1) insert_rounds_total [of rank "recipe_steps r" "all_hooks r hooks"]
    by (auto simp: BuildPlan_def insertHooks_def)
qed

section \<open>Hooks after one task\<close>

lemma sort_key_snoc:
  fixes f :: "'a \<Rightarrow> 'b :: linorder"
  assumes split: "sort_key f xs = as @ bs"
    and low: "\<forall>y \<in> set as. f y \<le> f x" and high: "\<forall>y \<in> set bs. f x < f y"
  shows "sort_key f (xs @ [x]) = as @ x # bs"
proof (rule properties_for_sort_key)
  have "mset xs = mset as + mset bs" by (metis split mset_append mset_sort)
  then show "mset (as @ x # bs) = mset (xs @ [x])" by simp
  have "sorted (map f as @ map f bs)" using sorted_sort_key [of f xs] by (simp add: split)
  then show "sorted (map f (as @ x # bs))"
    using low high by (auto simp: sorted_append less_imp_le)
  show "filter (\<lambda>y. f k = f y) (as @ x # bs) = filter (\<lambda>y. f k = f y) (xs @ [x])" for k
  proof -
    have "filter (\<lambda>y. f y = f k) (as @ bs) = filter (\<lambda>y. f y = f k) xs"
      using sort_key_stable [of f "f k" xs] by (simp add: split)
    moreover have "filter (\<lambda>y. f k = f y) bs = []" if "f k = f x"
      using high that by (auto simp: filter_empty_conv)
    ultimately show ?thesis by (auto simp: eq_commute [of "f k"])
  qed
qed

lemma insert_after_equals:
  fixes f :: "'a \<Rightarrow> 'b :: linorder"
  shows "takeWhile (\<lambda>y. f y \<le> f x) (sort_key f xs) @ x # dropWhile (\<lambda>y. f y \<le> f x) (sort_key f xs) =
    sort_key f (xs @ [x])"
proof (rule sym, rule sort_key_snoc)
  let ?P = "\<lambda>y. f y \<le> f x" and ?s = "sort_key f xs"
  show "?s = takeWhile ?P ?s @ dropWhile ?P ?s" by (simp only: takeWhile_dropWhile_id)
  show "\<forall>y \<in> set (takeWhile ?P ?s). f y \<le> f x" by (auto dest: set_takeWhileD)
  have high: "\<forall>y \<in> set (dropWhile ?P ys). f x < f y" if "sorted (map f ys)" for ys
    using that by (induction ys) (auto simp: not_le intro: less_le_trans)
  show "\<forall>y \<in> set (dropWhile ?P ?s). f x < f y" by (rule high) simp
qed

lemma insort_key_map:
  "\<forall>y \<in> insert x (set ys). f (g y) = k y \<Longrightarrow> insort_key f (g x) (map g ys) = map g (insort_key k x ys)"
  by (induction ys) auto

lemma sort_key_map:
  "\<forall>x \<in> set xs. f (g x) = k x \<Longrightarrow> sort_key f (map g xs) = map g (sort_key k xs)"
  by (induction xs) (simp_all add: insort_key_map)

lemma skip_hooks_run:
  assumes "list_all (\<lambda>s. Kind s = StepHook) run" and "post = [] \<or> Kind (hd post) \<noteq> StepHook"
  shows "skip_hooks n (run @ post) = length (takeWhile (\<lambda>s. order s \<le> n) run)"
proof -
  have "skip_hooks n post = 0" using assms(2) by (cases post) auto
  then show ?thesis using assms(1) by (induction run) (auto simp: not_less)
qed

text \<open>The step of a hook anchored on a task depends on nothing else in the plan.\<close>

definition task_hook_step :: "string \<Rightarrow> hook \<Rightarrow> step" where
  "task_hook_step tid h = (case hookStep h [] of Inr st \<Rightarrow> st | Inl e \<Rightarrow> undefined)"

lemma task_hook_step_eq:
  assumes "parseAnchor (hook_On h) = Inr (AnchorTask, tid)"
  shows "hookStep h steps = Inr (task_hook_step tid h)"
  using assms by (simp add: task_hook_step_def hookStep_def Let_def)

lemma task_hook_step_fields:
  assumes "parseAnchor (hook_On h) = Inr (AnchorTask, tid)"
  shows "Kind (task_hook_step tid h) = StepHook" and "order (task_hook_step tid h) = hook_Order h"
    and "ID (task_hook_step tid h) = HookID h"
  using hookStep_fields [OF task_hook_step_eq [OF assms]] by auto

lemma insert_round_after:
  assumes "\<forall>h \<in> set hs. parseAnchor (hook_On h) = Inr (AnchorTask, tid) \<and> hook_Position h \<noteq> PositionBefore"
    and "IsKnownTaskID tid" and "tid \<notin> ID ` set pre" and "ID t = tid"
    and "post = [] \<or> Kind (hd post) \<noteq> StepHook"
    and "list_all (\<lambda>s. Kind s = StepHook) done"
  shows "insert_round (pre @ t # sort_key order done @ post) hs =
    Done (pre @ t # sort_key order (done @ map (task_hook_step tid) hs) @ post, [], length hs)"
  using assms(1,6)
proof (induction hs arbitrary: "done")
  case Nil
  then show ?case by simp
next
  case (Cons h hs)
  let ?run = "sort_key order done" and ?st = "task_hook_step tid h"
  let ?P = "\<lambda>s. order s \<le> hook_Order h"
  have h: "parseAnchor (hook_On h) = Inr (AnchorTask, tid)" "hook_Position h \<noteq> PositionBefore"
    using Cons.prems(1) by auto
  have at: "index_where (\<lambda>s. ID s = tid) (pre @ t # ?run @ post) = Some (length pre)"
  proof -
    have "index_where (\<lambda>s. ID s = tid) pre = None" using assms(3) by (auto simp: index_where_None)
    then show ?thesis using assms(4) by (simp add: index_where_append)
  qed
  have "list_all (\<lambda>s. Kind s = StepHook) ?run" using Cons.prems(2) by (simp add: list_all_iff)
  from skip_hooks_run [OF this assms(5)]
  have "insertStepAt (pre @ t # ?run @ post) ?st (length pre) h =
      Some (insert_at (length pre + 1 + length (takeWhile ?P ?run)) ?st (pre @ t # ?run @ post))"
    using h(2) length_takeWhile_le [of ?P ?run] by (simp add: insertStepAt_def Let_def)
  also have "insert_at (length pre + 1 + length (takeWhile ?P ?run)) ?st (pre @ t # ?run @ post) =
      pre @ t # (takeWhile ?P ?run @ ?st # dropWhile ?P ?run) @ post"
  proof -
    have "take (length (takeWhile ?P ?run)) (?run @ post) = takeWhile ?P ?run"
      and "drop (length (takeWhile ?P ?run)) (?run @ post) = dropWhile ?P ?run @ post"
      using length_takeWhile_le [of ?P ?run]
      by (simp_all add: takeWhile_eq_take [symmetric] dropWhile_eq_drop [symmetric])
    then show ?thesis by (simp add: insert_at_def)
  qed
  also have "takeWhile ?P ?run @ ?st # dropWhile ?P ?run = sort_key order (done @ [?st])"
    using insert_after_equals [of order ?st "done"] task_hook_step_fields(2) [OF h(1)] by simp
  finally have "insertStepAt (pre @ t # ?run @ post) ?st (length pre) h =
      Some (pre @ t # sort_key order (done @ [?st]) @ post)" .
  moreover have "anchorIndex (pre @ t # ?run @ post) h = Inr (Some (length pre))"
    using h(1) at assms(2) by (simp add: anchorIndex_def)
  moreover have "list_all (\<lambda>s. Kind s = StepHook) (done @ [?st])"
    using Cons.prems(2) task_hook_step_fields(1) [OF h(1)] by simp
  ultimately show ?case
    using Cons.IH [of "done @ [?st]"] Cons.prems(1) task_hook_step_eq [OF h(1)] by simp
qed

text \<open>
  Hooks that all run after one task run in the order of their \<open>order\<close> field, ties in the
  order of declaration: together they are a stable sort.
\<close>

theorem hooks_after_task_sorted:
  assumes "\<forall>h \<in> set hs. parseAnchor (hook_On h) = Inr (AnchorTask, tid) \<and> hook_Position h = PositionAfter"
    and "tid \<in> set (declared_ids r)"
    and "distinct (map hook_Name hs)" and "[] \<notin> hook_Name ` set hs"
    and "rec_Hooks r = []" and "ValidateRecipe r = None"
  shows "\<exists>p pre post. BuildPlan r hs = Done p \<and> declared_ids r = pre @ tid # post \<and>
    StepIDs p = pre @ tid # map HookID (sort_key hook_Order hs) @ post"
proof -
  obtain i where i: "i < length (declared_ids r)" "declared_ids r ! i = tid"
    using assms(2) by (auto simp: in_set_conv_nth)
  let ?steps = "recipe_steps r"
  have ids: "map ID ?steps = declared_ids r" by (rule recipe_steps_ids)
  then have il: "i < length ?steps" "ID (?steps ! i) = tid"
    using i by (metis length_map, metis length_map nth_map)
  define pre t post where split: "pre = take i ?steps" "t = ?steps ! i" "post = drop (Suc i) ?steps"
  have steps: "?steps = pre @ t # post" using il(1) by (simp add: split id_take_nth_drop)
  have tid: "ID t = tid" using il(2) split(2) by simp
  have "distinct (map ID ?steps)" by (simp add: ids declared_ids_def distinct_taskOrder)
  then have notin: "tid \<notin> ID ` set pre" unfolding steps tid [symmetric] by auto
  have tasks: "Kind s \<noteq> StepHook" if "s \<in> set ?steps" for s
    using that by (auto simp: recipe_steps_def kind_defs)
  have post: "post = [] \<or> Kind (hd post) \<noteq> StepHook" using tasks steps by (cases post) auto
  have known: "IsKnownTaskID tid" using assms(2) by (simp add: IsKnownTaskID_iff declared_ids_def)
  have hooks: "all_hooks r hs = hs" using assms(5) by (simp add: all_hooks_def)
  have dup: "duplicate_hook {} hs = None"
    using assms(3,4) by (simp add: duplicate_hook_None distinct_map HookID_inject inj_on_def)
      (metis image_eqI)
  have "PositionAfter \<noteq> PositionBefore" by (simp add: position_defs)
  then have round: "insert_round ?steps hs =
      Done (pre @ t # sort_key order (map (task_hook_step tid) hs) @ post, [], length hs)"
    using insert_round_after [of hs tid pre t post "[]"] assms(1) known notin tid post steps
    by simp
  then have "insert_rounds ?steps hs = Done (pre @ t # sort_key order (map (task_hook_step tid) hs) @ post)"
  proof (cases "hs = []")
    case True
    with steps show ?thesis by (simp add: insert_rounds.simps [of _ "[]"])
  next
    case False
    with round show ?thesis
      by (subst insert_rounds.simps) (simp add: insert_rounds.simps [of _ "[]"])
  qed
  then obtain p where p: "BuildPlan r hs = Done p"
    "Steps p = pre @ t # sort_key order (map (task_hook_step tid) hs) @ post"
    using assms(6) dup by (simp add: BuildPlan_def insertHooks_def hooks)
  have fields: "order (task_hook_step tid h) = hook_Order h \<and> ID (task_hook_step tid h) = HookID h"
    if "h \<in> set hs" for h
    using assms(1) that task_hook_step_fields by blast
  then have "sort_key order (map (task_hook_step tid) hs) = map (task_hook_step tid) (sort_key hook_Order hs)"
    by (intro sort_key_map) simp
  moreover have "map ID (map (task_hook_step tid) (sort_key hook_Order hs)) = map HookID (sort_key hook_Order hs)"
    using fields by simp
  ultimately have "StepIDs p = map ID pre @ tid # map HookID (sort_key hook_Order hs) @ map ID post"
    using p(2) tid by (simp add: StepIDs_def)
  moreover have "declared_ids r = map ID pre @ tid # map ID post"
    using steps tid by (metis ids list.simps(9) map_append)
  ultimately show ?thesis using p(1) by blast
qed

section \<open>The window of a built plan\<close>

lemma subseq_pair_index:
  "subseq [x, y] xs \<Longrightarrow> \<exists>i j. i < j \<and> j < length xs \<and> xs ! i = x \<and> xs ! j = y"
proof (induction xs)
  case Nil
  then show ?case by simp
next
  case (Cons z zs)
  show ?case
  proof (cases "z = x")
    case True
    then have "y \<in> set zs" using Cons.prems by (simp add: subseq_singleton_left)
    then obtain j where "j < length zs" "zs ! j = y" by (auto simp: in_set_conv_nth)
    with True show ?thesis by (intro exI [of _ 0] exI [of _ "Suc j"]) simp
  next
    case False
    with Cons.prems have "subseq [x, y] zs" by simp
    then obtain i j where "i < j" "j < length zs" "zs ! i = x" "zs ! j = y" using Cons.IH by blast
    then show ?thesis by (intro exI [of _ "Suc i"] exI [of _ "Suc j"]) simp
  qed
qed

lemma ids_pair_index:
  assumes "distinct (StepIDs p)" and "subseq [x, y] (StepIDs p)"
  obtains i j where "IndexOf x p = Some i" and "IndexOf y p = Some j" and "i < j"
proof -
  obtain i j where "i < j" "j < length (StepIDs p)" "StepIDs p ! i = x" "StepIDs p ! j = y"
    using subseq_pair_index [OF assms(2)] by blast
  then have "IndexOf x p = Some i" "IndexOf y p = Some j"
    using IndexOf_distinct [OF assms(1)] by (auto simp: StepIDs_def)
  with \<open>i < j\<close> show ?thesis by (rule that [rotated 2])
qed

lemma BuildPlan_task:
  assumes "BuildPlan r hooks = Done p" and "tid \<in> set (declared_ids r)"
  shows "task_step r tid \<in> set (Steps p)"
proof -
  have "map ID (recipe_steps r) = declared_ids r" by (rule recipe_steps_ids)
  then obtain s where "s \<in> set (recipe_steps r)" "ID s = tid"
    using assms(2) by (metis image_iff image_set)
  then have "task_step r tid \<in> set (recipe_steps r)" by (auto simp: recipe_steps_def)
  moreover have "subseq (recipe_steps r) (Steps p)"
    by (rule hooks_placedD(3) [OF BuildPlan_Done(4) [OF assms(1)]])
  ultimately show ?thesis using subseq_set by blast
qed

lemma BuildPlan_order:
  assumes "BuildPlan r hooks = Done p" and "subseq [x, y] taskOrder"
    and "x \<in> task_ID ` set (rec_Tasks r)" and "y \<in> task_ID ` set (rec_Tasks r)"
    and "x \<noteq> TaskArtifact" and "y \<noteq> TaskArtifact"
  shows "subseq [x, y] (StepIDs (ForBuildMode mode p))"
proof -
  have "subseq [x, y] (declared_ids r)"
    unfolding declared_ids_def
    using subseq_filter [OF assms(2), of "\<lambda>tid. tid \<in> task_ID ` set (rec_Tasks r)"] assms(3,4) by simp
  moreover have "subseq (declared_ids r) (StepIDs p)"
    using subseq_map [OF hooks_placedD(3) [OF BuildPlan_Done(4) [OF assms(1)]], of ID]
    by (simp add: recipe_steps_ids StepIDs_def)
  ultimately have "subseq [x, y] (StepIDs p)" by (rule subseq_order.order_trans)
  from subseq_filter [OF this, of "\<lambda>sid. sid \<noteq> TaskArtifact"]
  have "subseq [x, y] (filter (\<lambda>sid. sid \<noteq> TaskArtifact) (StepIDs (ForBuildMode mode p)))"
    using assms(5,6) by (simp add: ForBuildMode_others)
  then show ?thesis using subseq_filter_left by (rule subseq_order.order_trans)
qed

text \<open>
  C4. With an atomic symlink activation the site is never in maintenance mode at or after the
  swap: in every plan built from a recipe that can close the window, in every build mode, the
  window's steps all come before the activation.
\<close>

theorem window_closed_before_swap:
  assumes "BuildPlan r hooks = Done p"
    and "{TaskMaintenanceEnable, TaskMaintenanceDisable, TaskActivate} \<subseteq> task_ID ` set (rec_Tasks r)"
    and "\<not> IsEmpty (recipe_task r TaskMaintenanceDisable)"
    and "k \<in> maintenanceWindow (ForPublishStrategy PublishSymlink (ForBuildMode mode p))"
  shows "\<exists>a. IndexOf TaskActivate (ForPublishStrategy PublishSymlink (ForBuildMode mode p)) = Some a \<and> k < a"
proof -
  let ?q = "ForBuildMode mode p"
  have dp: "distinct (StepIDs p)" by (rule BuildPlan_facts(3) [OF assms(1)])
  then have dq: "distinct (StepIDs ?q)" by (simp only: build_mode.distinct_ids)
  have art: "TaskMaintenanceEnable \<noteq> TaskArtifact" "TaskMaintenanceDisable \<noteq> TaskArtifact"
    "TaskActivate \<noteq> TaskArtifact" by (simp_all add: task_defs)
  have "subseq [TaskMaintenanceEnable, TaskMaintenanceDisable] taskOrder"
    "subseq [TaskMaintenanceEnable, TaskActivate] taskOrder"
    by (simp_all add: taskOrder_def task_defs)
  then have ed: "subseq [TaskMaintenanceEnable, TaskMaintenanceDisable] (StepIDs ?q)"
    and ea: "subseq [TaskMaintenanceEnable, TaskActivate] (StepIDs ?q)"
    using BuildPlan_order [OF assms(1)] assms(2) art by simp_all
  obtain e d where e: "IndexOf TaskMaintenanceEnable ?q = Some e"
    and d: "IndexOf TaskMaintenanceDisable ?q = Some d" "e < d" by (rule ids_pair_index [OF dq ed])
  obtain e' a where e': "IndexOf TaskMaintenanceEnable ?q = Some e'"
    and a: "IndexOf TaskActivate ?q = Some a" "e' < a" by (rule ids_pair_index [OF dq ea])
  have "e' = e" using e e' by simp
  have declared: "TaskMaintenanceDisable \<in> set (declared_ids r)" "TaskActivate \<in> set (declared_ids r)"
    using assms(2) by (simp_all add: declared_ids_def) (simp_all add: taskOrder_def)
  have "Implemented (task_step r TaskMaintenanceDisable)"
    using assms(3) by (auto simp: Implemented_def task_step_def Let_def IsEmpty_def)
  then have "Runs TaskMaintenanceDisable p"
    using BuildPlan_task [OF assms(1) declared(1)] Runs_iff [OF dp]
    by (metis task_step_fields(1) task_step_fields(2))
  moreover have "TaskMaintenanceDisable \<notin> set artifactReplacedBuildTasks"
    by (simp add: artifactReplacedBuildTasks_def task_defs)
  ultimately have runs: "Runs TaskMaintenanceDisable ?q"
    using art by (simp add: ForBuildMode_runs [OF dp])
  have "mode_step (mode = BuildArtifact) (task_step r TaskActivate) \<in> set (Steps ?q)"
    using BuildPlan_task [OF assms(1) declared(2)] by (simp add: Steps_ForBuildMode)
  then obtain i where i: "i < length (Steps ?q)"
    "Steps ?q ! i = mode_step (mode = BuildArtifact) (task_step r TaskActivate)"
    by (auto simp: in_set_conv_nth)
  then have "IndexOf TaskActivate ?q = Some i" using dq by (intro IndexOf_distinct) simp_all
  then have "Kind (Steps ?q ! a) = StepTask" using a i by simp
  with symlink_window [OF dq e runs d(1) a(1) _ d(2)] a(2) \<open>e' = e\<close> assms(4) show ?thesis by blast
qed

section \<open>A recipe to apply the statements to\<close>

text \<open>Tasks declared out of order, a hook on a hook declared first, and a stage hook.\<close>

definition demo_hook :: "string \<Rightarrow> string \<Rightarrow> hook_position \<Rightarrow> int \<Rightarrow> hook" where
  "demo_hook name on pos ord =
     \<lparr>hook_Name = name, hook_On = on, hook_Position = pos, hook_Order = ord,
      hook_Run = ''true'', hook_RunOn = RunRemote, hook_Optional = False, hook_Source = []\<rparr>"

definition demo_recipe :: recipe where
  "demo_recipe =
     \<lparr>rec_ID = ''demo'',
      rec_Tasks = map (\<lambda>tid. zero_task\<lparr>task_ID := tid, task_Command := ''true''\<rparr>)
        [TaskActivate, TaskMaintenanceDisable, TaskDBMigrate, TaskMaintenanceEnable, TaskCheck, TaskUnlock],
      rec_Hooks = [], rec_Checks = [], rec_Settings = [], rec_Defaults = [], rec_Restore = [],
      rec_DBBackupCommand = [], rec_DBBackupProbe = \<lparr>dump_Command = [], dump_Needs = []\<rparr>,
      rec_VerifyRejectPaths = [], rec_MigrationProbe = None\<rparr>"

definition demo_hooks :: "hook list" where
  "demo_hooks = [demo_hook ''warm'' ''hook:dump'' PositionAfter 0,
     demo_hook ''dump'' ''db:migrate'' PositionBefore 0,
     demo_hook ''notify'' ''stage:cleanup'' PositionBefore 0]"

definition plan_ids :: "plan outcome \<Rightarrow> string list" where
  "plan_ids o' = (case o' of Done p \<Rightarrow> StepIDs p | _ \<Rightarrow> [])"

lemma demo_plan:
  obtains p where "BuildPlan demo_recipe demo_hooks = Done p"
    and "StepIDs p = [TaskCheck, TaskMaintenanceEnable, ''hook:dump'', ''hook:warm'', TaskDBMigrate,
      TaskActivate, TaskMaintenanceDisable, ''hook:notify'', TaskUnlock]"
proof -
  have "plan_ids (BuildPlan demo_recipe demo_hooks) =
    [TaskCheck, TaskMaintenanceEnable, ''hook:dump'', ''hook:warm'', TaskDBMigrate,
      TaskActivate, TaskMaintenanceDisable, ''hook:notify'', TaskUnlock]"
    by code_simp
  with that show ?thesis by (cases "BuildPlan demo_recipe demo_hooks") (simp_all add: plan_ids_def)
qed

theorem BuildPlan_canonical_witness:
  "\<exists>p. BuildPlan demo_recipe demo_hooks = Done p \<and>
    map ID (filter (\<lambda>s. Kind s = StepTask) (Steps p)) =
      [TaskCheck, TaskMaintenanceEnable, TaskDBMigrate, TaskActivate, TaskMaintenanceDisable, TaskUnlock]"
proof -
  obtain p where p: "BuildPlan demo_recipe demo_hooks = Done p" by (rule demo_plan)
  have "filter (\<lambda>tid. tid \<in> task_ID ` set (rec_Tasks demo_recipe)) taskOrder =
      [TaskCheck, TaskMaintenanceEnable, TaskDBMigrate, TaskActivate, TaskMaintenanceDisable, TaskUnlock]"
    by code_simp
  with BuildPlan_canonical [OF p] p show ?thesis by auto
qed

theorem BuildPlan_anchors_witness:
  "\<exists>p. BuildPlan demo_recipe demo_hooks = Done p \<and>
    stands_right (Steps p) (demo_hook ''warm'' ''hook:dump'' PositionAfter 0)"
proof -
  obtain p where p: "BuildPlan demo_recipe demo_hooks = Done p" by (rule demo_plan)
  have "demo_hook ''warm'' ''hook:dump'' PositionAfter 0 \<in> set (all_hooks demo_recipe demo_hooks)"
    by (simp add: all_hooks_def demo_hooks_def)
  with BuildPlan_anchors [OF p] p show ?thesis by blast
qed

theorem BuildPlan_succeeds_witness: "\<exists>p. BuildPlan demo_recipe demo_hooks = Done p"
proof (rule BuildPlan_succeeds)
  let ?rank = "\<lambda>h. if hook_Name h = ''warm'' then 1 else 0 :: nat"
  have hooks: "all_hooks demo_recipe demo_hooks = demo_hooks"
    by (simp add: all_hooks_def demo_recipe_def)
  show "ValidateRecipe demo_recipe = None" by code_simp
  show "distinct (map hook_Name (all_hooks demo_recipe demo_hooks))" unfolding hooks by code_simp
  show "[] \<notin> hook_Name ` set (all_hooks demo_recipe demo_hooks)" unfolding hooks by code_simp
  show "\<forall>h \<in> set (all_hooks demo_recipe demo_hooks). resolvable (recipe_steps demo_recipe) h"
    unfolding hooks by code_simp
  have parsed: "parseAnchor ''hook:dump'' = Inr (AnchorHook, ''dump'')"
    "parseAnchor ''db:migrate'' = Inr (AnchorTask, ''db:migrate'')"
    "parseAnchor ''stage:cleanup'' = Inr (AnchorStage, ''cleanup'')"
    by code_simp+
  show "\<forall>h \<in> set (all_hooks demo_recipe demo_hooks). \<forall>n. waits_for h n \<longrightarrow>
      (\<exists>g \<in> set (all_hooks demo_recipe demo_hooks). hook_Name g = n \<and> ?rank g < ?rank h)"
    unfolding hooks by (simp add: demo_hooks_def demo_hook_def waits_for_def parsed)
qed

definition ordered_hooks :: "hook list" where
  "ordered_hooks = [demo_hook ''late'' ''db:migrate'' PositionAfter 9,
     demo_hook ''first'' ''db:migrate'' PositionAfter 1, demo_hook ''second'' ''db:migrate'' PositionAfter 1]"

theorem hooks_after_task_sorted_witness:
  "\<exists>p pre post. BuildPlan demo_recipe ordered_hooks = Done p \<and>
    StepIDs p = pre @ [''db:migrate'', ''hook:first'', ''hook:second'', ''hook:late''] @ post"
proof -
  have parsed: "parseAnchor ''db:migrate'' = Inr (AnchorTask, ''db:migrate'')" by code_simp
  have "\<forall>h \<in> set ordered_hooks. parseAnchor (hook_On h) = Inr (AnchorTask, ''db:migrate'') \<and>
      hook_Position h = PositionAfter"
    by (simp add: ordered_hooks_def demo_hook_def parsed)
  moreover have "''db:migrate'' \<in> set (declared_ids demo_recipe)"
    "distinct (map hook_Name ordered_hooks)" "[] \<notin> hook_Name ` set ordered_hooks"
    "rec_Hooks demo_recipe = []" "ValidateRecipe demo_recipe = None"
    by code_simp+
  moreover have "map HookID (sort_key hook_Order ordered_hooks) = [''hook:first'', ''hook:second'', ''hook:late'']"
    by code_simp
  ultimately show ?thesis
    using hooks_after_task_sorted [of ordered_hooks "''db:migrate''" demo_recipe] by auto
qed

theorem window_closed_before_swap_witness:
  "\<exists>p. BuildPlan demo_recipe demo_hooks = Done p \<and>
    (\<exists>a. IndexOf TaskActivate (ForPublishStrategy PublishSymlink (ForBuildMode BuildServer p)) = Some a \<and> 4 < a)"
proof -
  obtain p where p: "BuildPlan demo_recipe demo_hooks = Done p" by (rule demo_plan)
  have "case BuildPlan demo_recipe demo_hooks of
      Done p \<Rightarrow> 4 \<in> maintenanceWindow (ForPublishStrategy PublishSymlink (ForBuildMode BuildServer p))
    | _ \<Rightarrow> False"
    by code_simp
  then have "4 \<in> maintenanceWindow (ForPublishStrategy PublishSymlink (ForBuildMode BuildServer p))"
    by (simp add: p)
  moreover have "{TaskMaintenanceEnable, TaskMaintenanceDisable, TaskActivate} \<subseteq>
      task_ID ` set (rec_Tasks demo_recipe)"
    "\<not> IsEmpty (recipe_task demo_recipe TaskMaintenanceDisable)"
    by code_simp+
  ultimately show ?thesis using window_closed_before_swap [OF p] p by blast
qed

section \<open>Where the code differs from its comments\<close>

text \<open>
  Hooks before one task are placed in declaration order: \<open>insertStepAt\<close> does not look at their
  \<open>order\<close>, which the comment of \<open>insertHooks\<close> says they are sorted by.
\<close>

lemma before_hooks_ignore_order:
  "plan_ids (BuildPlan demo_recipe
     [demo_hook ''b'' ''db:migrate'' PositionBefore 9, demo_hook ''a'' ''db:migrate'' PositionBefore 1]) =
   [TaskCheck, TaskMaintenanceEnable, ''hook:b'', ''hook:a'', TaskDBMigrate, TaskActivate,
    TaskMaintenanceDisable, TaskUnlock]"
  by code_simp

text \<open>
  A hook after a stage no task of the recipe belongs to ends in a slice out of range: the
  anchor is then the end of the plan, and the hook is inserted one past it.
\<close>

lemma after_empty_stage_panics:
  "BuildPlan demo_recipe [demo_hook ''smoke'' ''stage:verify'' PositionAfter 0] = Panic"
  by code_simp

end
