(* ===== verification/Release.thy ===== *)
theory Release
  imports Plan
begin

text \<open>
  The record of one deploy (\<open>internal/deploy/release.go\<close>): its data and the operations that
  do not touch the target.  A nil pointer field is \<open>None\<close>.
\<close>

definition StatusRunning :: string where "StatusRunning = ''running''"
definition StatusOK :: string where "StatusOK = ''ok''"
definition StatusFailed :: string where "StatusFailed = ''failed''"

definition StepOK :: string where "StepOK = ''ok''"
definition StepSkipped :: string where "StepSkipped = ''skipped''"
definition StepFailed :: string where "StepFailed = ''failed''"

lemmas status_defs = StatusRunning_def StatusOK_def StatusFailed_def StepOK_def StepSkipped_def StepFailed_def

definition ReleaseTool :: string where "ReleaseTool = ''govard''"
definition ReleaseSchemaVersion :: int where "ReleaseSchemaVersion = 1"

record migration_record =
  mig_Required :: bool
  mig_ProbeExit :: int
  mig_ResolvedAt :: string

record ci_record =
  ci_Pipeline :: string
  ci_Job :: string

record build_record =
  bld_Mode :: string
  bld_DurationMS :: int
  bld_ArtifactRevision :: string
  bld_ArtifactFiles :: int
  bld_ArtifactBytes :: int

record step_record =
  srec_ID :: string
  srec_Status :: string
  srec_DurationMS :: int
  srec_Error :: "string list"

record publish_record =
  pub_Strategy :: string
  pub_Docroot :: string
  pub_PreviousRelease :: string

record check_result =
  chk_ID :: string
  chk_Status :: string
  chk_Detail :: string

record verify_record =
  ver_Status :: string
  ver_Checks :: "check_result list"

record release =
  rel_SchemaVersion :: int
  rel_Tool :: string
  rel_Release :: string
  rel_Revision :: string
  rel_Branch :: string
  rel_CreatedAt :: string
  rel_CreatedBy :: string
  rel_CI :: "ci_record option"
  rel_Build :: build_record
  rel_Tasks :: "step_record list"
  rel_Publish :: publish_record
  rel_Verify :: verify_record
  rel_DatabaseBackup :: string
  rel_Migration :: "migration_record option"
  rel_Status :: string
  rel_Path :: string

text \<open>\<open>firstEnv\<close>, \<open>currentCI\<close> and \<open>currentActor\<close>, over the process environment.\<close>

type_synonym environment = "string \<Rightarrow> string"

fun firstEnv :: "environment \<Rightarrow> string list \<Rightarrow> string" where
  "firstEnv getenv [] = []"
| "firstEnv getenv (name # names) =
     (let v = trim_space (getenv name) in if v \<noteq> [] then v else firstEnv getenv names)"

definition currentCI :: "environment \<Rightarrow> ci_record option" where
  "currentCI getenv =
     (let pipeline = firstEnv getenv [''CI_PIPELINE_ID'', ''GITHUB_RUN_ID''];
          job = firstEnv getenv [''CI_JOB_NAME'', ''GITHUB_JOB'']
      in if pipeline = [] \<and> job = [] then None
         else Some \<lparr>ci_Pipeline = pipeline, ci_Job = job\<rparr>)"

definition currentActor :: "environment \<Rightarrow> string" where
  "currentActor getenv =
     (let who = firstEnv getenv [''GITLAB_USER_LOGIN'', ''GITHUB_ACTOR'', ''USER'', ''LOGNAME'']
      in if who \<noteq> [] then who else ''local'')"

definition NewRelease :: "environment \<Rightarrow> string \<Rightarrow> string \<Rightarrow> string \<Rightarrow> string \<Rightarrow> release" where
  "NewRelease getenv now number revision branch =
     \<lparr>rel_SchemaVersion = ReleaseSchemaVersion, rel_Tool = ReleaseTool, rel_Release = number,
      rel_Revision = revision, rel_Branch = branch, rel_CreatedAt = now,
      rel_CreatedBy = currentActor getenv, rel_CI = currentCI getenv,
      rel_Build = \<lparr>bld_Mode = [], bld_DurationMS = 0, bld_ArtifactRevision = [],
        bld_ArtifactFiles = 0, bld_ArtifactBytes = 0\<rparr>,
      rel_Tasks = [], rel_Publish = \<lparr>pub_Strategy = [], pub_Docroot = [], pub_PreviousRelease = []\<rparr>,
      rel_Verify = \<lparr>ver_Status = [], ver_Checks = []\<rparr>, rel_DatabaseBackup = [],
      rel_Migration = None, rel_Status = StatusRunning, rel_Path = []\<rparr>"

fun record_task :: "step_record \<Rightarrow> step_record list \<Rightarrow> step_record list" where
  "record_task r [] = [r]"
| "record_task r (x # xs) = (if srec_ID x = srec_ID r then r # xs else x # record_task r xs)"

definition RecordTask :: "step_record \<Rightarrow> release \<Rightarrow> release" where
  "RecordTask r rel = rel\<lparr>rel_Tasks := record_task r (rel_Tasks rel)\<rparr>"

text \<open>The loop of \<open>MaintenanceMayBeOn\<close>, which returns early from a recorded disable.\<close>

fun maintenance_on :: "bool \<Rightarrow> step_record list \<Rightarrow> bool" where
  "maintenance_on enabled [] = enabled"
| "maintenance_on enabled (t # ts) =
     (if srec_ID t = TaskMaintenanceEnable then
        maintenance_on (srec_Status t = StepOK \<or> srec_Status t = StepFailed) ts
      else if srec_ID t = TaskMaintenanceDisable \<and> srec_Status t = StepOK then False
      else maintenance_on enabled ts)"

definition MaintenanceMayBeOn :: "release \<Rightarrow> bool" where
  "MaintenanceMayBeOn rel = maintenance_on False (rel_Tasks rel)"

definition RecordedBuildMode :: "release option \<Rightarrow> string" where
  "RecordedBuildMode release =
     (case release of
        None \<Rightarrow> []
      | Some rel \<Rightarrow>
          if trim_space (bld_Mode (rel_Build rel)) \<noteq> [] then trim_space (bld_Mode (rel_Build rel))
          else if list_ex (\<lambda>t. srec_Status t = StepOK \<and> srec_ID t = TaskArtifact) (rel_Tasks rel)
          then BuildArtifact
          else if list_ex (\<lambda>t. srec_Status t = StepOK \<and> srec_ID t \<in> set artifactReplacedBuildTasks)
              (rel_Tasks rel)
          then BuildServer
          else [])"

definition artifactAlreadyDelivered :: "release option \<Rightarrow> bool" where
  "artifactAlreadyDelivered release =
     (case release of
        None \<Rightarrow> False
      | Some rel \<Rightarrow> list_ex (\<lambda>t. srec_ID t = TaskArtifact \<and> srec_Status t = StepOK) (rel_Tasks rel))"

section \<open>Lemmas\<close>

interpretation release_tasks: keyed_upsert srec_ID record_task
  by unfold_locales simp_all

text \<open>The recorded status of a task, the first entry with its id.\<close>

definition task_status :: "release \<Rightarrow> string \<Rightarrow> string option" where
  "task_status rel tid = map_option srec_Status (map_of (map (\<lambda>t. (srec_ID t, t)) (rel_Tasks rel)) tid)"

lemma task_status_RecordTask:
  "task_status (RecordTask r rel) tid =
   (if tid = srec_ID r then Some (srec_Status r) else task_status rel tid)"
  by (simp add: task_status_def RecordTask_def release_tasks.lookup_put)

lemma task_status_mem:
  "distinct (map srec_ID ts) \<Longrightarrow> t \<in> set ts \<Longrightarrow>
   map_of (map (\<lambda>t. (srec_ID t, t)) ts) (srec_ID t) = Some t"
  by (intro map_of_is_SomeI) (auto simp: comp_def)

lemma maintenance_on_distinct:
  assumes "distinct (map srec_ID ts)"
  shows "maintenance_on b ts \<longleftrightarrow>
    \<not> (\<exists>t \<in> set ts. srec_ID t = TaskMaintenanceDisable \<and> srec_Status t = StepOK) \<and>
    (if TaskMaintenanceEnable \<in> srec_ID ` set ts
     then \<exists>t \<in> set ts. srec_ID t = TaskMaintenanceEnable \<and> srec_Status t \<in> {StepOK, StepFailed}
     else b)"
  using assms
proof (induction ts arbitrary: b)
  case Nil
  then show ?case by simp
next
  case (Cons t ts)
  have neq: "TaskMaintenanceEnable \<noteq> TaskMaintenanceDisable" by (simp add: task_defs)
  have rest: "\<And>c. maintenance_on c ts \<longleftrightarrow>
    \<not> (\<exists>t \<in> set ts. srec_ID t = TaskMaintenanceDisable \<and> srec_Status t = StepOK) \<and>
    (if TaskMaintenanceEnable \<in> srec_ID ` set ts
     then \<exists>t \<in> set ts. srec_ID t = TaskMaintenanceEnable \<and> srec_Status t \<in> {StepOK, StepFailed}
     else c)"
    using Cons by simp
  show ?case
  proof (cases "srec_ID t = TaskMaintenanceEnable")
    case True
    then have "TaskMaintenanceEnable \<notin> srec_ID ` set ts" using Cons.prems by auto
    then have "\<forall>u \<in> set ts. srec_ID u \<noteq> TaskMaintenanceEnable" by (metis image_eqI)
    with True rest neq show ?thesis by auto
  next
    case False
    with rest show ?thesis by auto
  qed
qed

section \<open>Properties\<close>

text \<open>
  Recording a step outcome replaces what an earlier attempt recorded for that step and
  nothing else, so a record never holds two entries for one step.
\<close>

theorem RecordTask_effect:
  "task_status (RecordTask r rel) tid =
     (if tid = srec_ID r then Some (srec_Status r) else task_status rel tid) \<and>
   (distinct (map srec_ID (rel_Tasks rel)) \<longrightarrow> distinct (map srec_ID (rel_Tasks (RecordTask r rel)))) \<and>
   RecordTask r (RecordTask r rel) = RecordTask r rel"
  using release_tasks.distinct_put [of "rel_Tasks rel" r]
  by (simp add: task_status_RecordTask)
    (simp add: RecordTask_def release_tasks.put_put_same)

theorem RecordTask_effect_witness:
  "distinct (map srec_ID (rel_Tasks (RecordTask
     \<lparr>srec_ID = TaskCode, srec_Status = StepOK, srec_DurationMS = 5, srec_Error = []\<rparr>
     (NewRelease (\<lambda>_. []) ''now'' ''7'' ''abc'' ''main''))))"
proof -
  have "distinct (map srec_ID (rel_Tasks (NewRelease (\<lambda>_. []) ''now'' ''7'' ''abc'' ''main'')))"
    by (simp add: NewRelease_def)
  then show ?thesis
    using RecordTask_effect [of _ "NewRelease (\<lambda>_. []) ''now'' ''7'' ''abc'' ''main''"] by blast
qed

text \<open>
  A release may still have the site in maintenance exactly when its record says enabling
  ran, successfully or not, and does not say that disabling succeeded.
\<close>

theorem MaintenanceMayBeOn_exact:
  assumes "distinct (map srec_ID (rel_Tasks rel))"
  shows "MaintenanceMayBeOn rel \<longleftrightarrow>
    task_status rel TaskMaintenanceEnable \<in> {Some StepOK, Some StepFailed} \<and>
    task_status rel TaskMaintenanceDisable \<noteq> Some StepOK"
proof -
  let ?ts = "rel_Tasks rel"
  have status: "task_status rel tid = Some st \<longleftrightarrow> (\<exists>t \<in> set ?ts. srec_ID t = tid \<and> srec_Status t = st)"
    for tid st
  proof
    assume "task_status rel tid = Some st"
    then obtain t where t: "map_of (map (\<lambda>t. (srec_ID t, t)) ?ts) tid = Some t" "srec_Status t = st"
      by (auto simp: task_status_def)
    then show "\<exists>t \<in> set ?ts. srec_ID t = tid \<and> srec_Status t = st"
      using map_of_SomeD [OF t(1)] by auto
  next
    assume "\<exists>t \<in> set ?ts. srec_ID t = tid \<and> srec_Status t = st"
    then show "task_status rel tid = Some st"
      using task_status_mem [OF assms] by (auto simp: task_status_def)
  qed
  show ?thesis
    unfolding MaintenanceMayBeOn_def maintenance_on_distinct [OF assms]
    using status by (auto simp: image_iff)
qed

theorem MaintenanceMayBeOn_exact_witness:
  "MaintenanceMayBeOn (RecordTask
     \<lparr>srec_ID = TaskMaintenanceEnable, srec_Status = StepFailed, srec_DurationMS = 5, srec_Error = []\<rparr>
     (NewRelease (\<lambda>_. []) ''now'' ''7'' ''abc'' ''main''))"
proof -
  let ?rel = "RecordTask
     \<lparr>srec_ID = TaskMaintenanceEnable, srec_Status = StepFailed, srec_DurationMS = 5, srec_Error = []\<rparr>
     (NewRelease (\<lambda>_. []) ''now'' ''7'' ''abc'' ''main'')"
  have "distinct (map srec_ID (rel_Tasks ?rel))" by (simp add: RecordTask_def NewRelease_def)
  moreover have "task_status ?rel TaskMaintenanceEnable = Some StepFailed"
    "task_status ?rel TaskMaintenanceDisable \<noteq> Some StepOK"
    by code_simp+
  ultimately show ?thesis using MaintenanceMayBeOn_exact [of ?rel] by blast
qed

text \<open>
  A resume that enables maintenance again and fails there keeps the earlier run's record that
  disabling succeeded, and the release then counts as out of maintenance although a failed
  enable may have set the flag.
\<close>

lemma failed_enable_after_disable_not_seen:
  "MaintenanceMayBeOn (RecordTask
     \<lparr>srec_ID = TaskMaintenanceEnable, srec_Status = StepFailed, srec_DurationMS = 5, srec_Error = []\<rparr>
     ((NewRelease (\<lambda>_. []) ''now'' ''7'' ''abc'' ''main'')\<lparr>rel_Tasks :=
       [\<lparr>srec_ID = TaskMaintenanceEnable, srec_Status = StepOK, srec_DurationMS = 5, srec_Error = []\<rparr>,
        \<lparr>srec_ID = TaskMaintenanceDisable, srec_Status = StepOK, srec_DurationMS = 5, srec_Error = []\<rparr>]\<rparr>)) =
   False"
  by code_simp

end
