(* ===== verification/Resolve.thy ===== *)
theory Resolve
  imports Plan Args "HOL-Library.AList"
begin

text \<open>
  Resolving the options of one deploy (\<open>internal/deploy/resolve.go\<close>, \<open>deploy_config.go\<close> and
  \<open>remote_config.go\<close> of \<open>internal/engine\<close>): the project's deploy block, the remote's override,
  the recipe's defaults and the flags, in the order the code layers them.

  Durations are integers of nanoseconds; \<open>time.ParseDuration\<close> is the argument \<open>parseDuration\<close>,
  an error text or a duration.  The synthetic sandbox remote is read from the container
  runtime, so its resolution is the argument \<open>sandboxRemote\<close>.  A flag that may be unset is an
  option where the source has a pointer.
\<close>

section \<open>Configuration and options\<close>

definition PublishAuto :: string where "PublishAuto = ''auto''"
definition BuildAuto :: string where "BuildAuto = ''auto''"
definition SandboxRemoteName :: string where "SandboxRemoteName = ''sandbox''"

definition minute :: int where "minute = 60 * 10 ^ 9"

definition DefaultCommandTimeout :: int where "DefaultCommandTimeout = 30 * minute"
definition DefaultVerifyTimeout :: int where "DefaultVerifyTimeout = 30 * 10 ^ 9"
definition DefaultLockStaleAfter :: int where "DefaultLockStaleAfter = 120 * minute"
definition DefaultMaintenanceTimeout :: int where "DefaultMaintenanceTimeout = 15 * minute"
definition DefaultKeepReleases :: int where "DefaultKeepReleases = 5"

record deploy_config =
  dc_KeepReleases :: int
  dc_CommandTimeout :: string
  dc_LockStaleAfter :: string
  dc_MaintenanceTimeout :: string
  dc_ArtifactDir :: string
  dc_DBBackup :: bool
  dc_Repository :: string
  dc_Branch :: string
  dc_Publish :: string
  dc_DeployPath :: string
  dc_VerifyURL :: string
  dc_VerifyTimeout :: string
  dc_VerifyFollowRedirects :: bool
  dc_Settings :: settings
  dc_Hooks :: "hook_config list"

record remote_auth =
  auth_Method :: string
  auth_KeyPath :: string
  auth_StrictHostKey :: bool
  auth_KnownHostsFile :: string

record remote_config =
  rc_Host :: string
  rc_User :: string
  rc_Port :: int
  rc_Auth :: remote_auth
  rc_Path :: string
  rc_Local :: bool
  rc_Sandbox :: bool
  rc_Protected :: "bool option"
  rc_Deploy :: "deploy_config option"

record config =
  cf_Deploy :: deploy_config
  cf_Remotes :: "(string \<times> remote_config) list"

record overrides =
  ov_Branch :: string
  ov_Revision :: string
  ov_Tag :: string
  ov_Build :: string
  ov_ArtifactDir :: string
  ov_Publish :: string
  ov_KeepReleases :: int
  ov_Verify :: "bool option"
  ov_DBBackup :: "bool option"
  ov_Lock :: "bool option"
  ov_IgnoreDeployerLock :: bool
  ov_CommandTimeout :: int
  ov_Resume :: bool
  ov_From :: string
  ov_Force :: bool
  ov_Yes :: bool
  ov_JSON :: bool
  ov_Verbose :: bool

record options =
  opt_Branch :: string
  opt_Revision :: string
  opt_Tag :: string
  opt_Repository :: string
  opt_Build :: string
  opt_ArtifactDir :: string
  opt_Publish :: string
  opt_KeepReleases :: int
  opt_Verify :: bool
  opt_VerifyURL :: string
  opt_VerifyTimeout :: int
  opt_VerifyFollowRedirects :: bool
  opt_VerifyRejectPaths :: "string list"
  opt_LockStaleAfter :: int
  opt_MaintenanceTimeout :: int
  opt_DBBackup :: bool
  opt_DBBackupProbe :: db_backup_probe
  opt_SkipLock :: bool
  opt_IgnoreDeployerLock :: bool
  opt_CommandTimeout :: int
  opt_Resume :: bool
  opt_From :: string
  opt_Force :: bool
  opt_Yes :: bool
  opt_JSON :: bool
  opt_Verbose :: bool
  opt_Settings :: settings
  opt_RawSettings :: "string list"
  opt_Hooks :: "hook_config list"

definition KeepReleasesOr :: "deploy_config \<Rightarrow> int" where
  "KeepReleasesOr c = (if dc_KeepReleases c \<le> 0 then DefaultKeepReleases else dc_KeepReleases c)"

section \<open>Remote names\<close>

definition RemoteEnvDev :: string where "RemoteEnvDev = ''development''"
definition RemoteEnvStaging :: string where "RemoteEnvStaging = ''staging''"
definition RemoteEnvProd :: string where "RemoteEnvProd = ''production''"

definition NormalizeRemoteEnvironment :: "string \<Rightarrow> string" where
  "NormalizeRemoteEnvironment v =
     (let cleaned = to_lower (trim_space v) in
      if cleaned \<in> set [''staging'', ''stage'', ''stg''] then RemoteEnvStaging
      else if cleaned \<in> set [''dev'', ''development'', ''develop''] then RemoteEnvDev
      else if cleaned \<in> set [''prod'', ''production'', ''live''] then RemoteEnvProd
      else cleaned)"

definition remotePriority :: "string \<Rightarrow> nat" where
  "remotePriority name =
     (let env = NormalizeRemoteEnvironment name in
      if env = RemoteEnvDev then 10
      else if env = RemoteEnvStaging then 20
      else if env = RemoteEnvProd then 30
      else 100)"

text \<open>By priority, then by name: a stable sort by priority of the sorted names.\<close>

definition SortRemoteNames :: "string list \<Rightarrow> string list" where
  "SortRemoteNames names = sort_key remotePriority (sort names)"

definition configuredRemotes :: "config \<Rightarrow> string" where
  "configuredRemotes cfg =
     (let names = SortRemoteNames (map fst (cf_Remotes cfg)) in
      if names = [] then ''(none)'' else join '', '' names)"

definition errUnknownRemote :: "string \<Rightarrow> config \<Rightarrow> go_error" where
  "errUnknownRemote name cfg =
     Wrapf ''%w %q; configured remotes: %s'' [name, configuredRemotes cfg] (Sentinel ErrUnknownRemote)"

section \<open>Layers\<close>

text \<open>Storing the entries of one map into another, in iteration order.\<close>

definition store_all :: "(string \<times> 'v) list \<Rightarrow> (string \<times> 'v) list \<Rightarrow> (string \<times> 'v) list" where
  "store_all m base = fold (\<lambda>(k, v). AList.update k v) m base"

definition mergedSettings :: "settings \<Rightarrow> settings" where
  "mergedSettings m = store_all m []"

definition mergeDeployConfig :: "deploy_config \<Rightarrow> deploy_config \<Rightarrow> deploy_config" where
  "mergeDeployConfig project override = project\<lparr>
     dc_KeepReleases := (if 0 < dc_KeepReleases override then dc_KeepReleases override else dc_KeepReleases project),
     dc_CommandTimeout := (if dc_CommandTimeout override \<noteq> [] then dc_CommandTimeout override else dc_CommandTimeout project),
     dc_ArtifactDir := (if dc_ArtifactDir override \<noteq> [] then dc_ArtifactDir override else dc_ArtifactDir project),
     dc_Repository := (if dc_Repository override \<noteq> [] then dc_Repository override else dc_Repository project),
     dc_Branch := (if dc_Branch override \<noteq> [] then dc_Branch override else dc_Branch project),
     dc_Publish := (if dc_Publish override \<noteq> [] then dc_Publish override else dc_Publish project),
     dc_DeployPath := (if dc_DeployPath override \<noteq> [] then dc_DeployPath override else dc_DeployPath project),
     dc_DBBackup := (if dc_DBBackup override then True else dc_DBBackup project),
     dc_VerifyURL := (if dc_VerifyURL override \<noteq> [] then dc_VerifyURL override else dc_VerifyURL project),
     dc_VerifyTimeout := (if dc_VerifyTimeout override \<noteq> [] then dc_VerifyTimeout override else dc_VerifyTimeout project),
     dc_Hooks := (if dc_Hooks override \<noteq> [] then dc_Hooks override else dc_Hooks project),
     dc_Settings := store_all (dc_Settings override) (store_all (dc_Settings project) [])\<rparr>"

definition effective_config :: "config \<Rightarrow> remote_config \<Rightarrow> deploy_config" where
  "effective_config cfg rc =
     (case rc_Deploy rc of
        Some override \<Rightarrow> mergeDeployConfig (cf_Deploy cfg) override
      | None \<Rightarrow> cf_Deploy cfg)"

definition effectiveDeployPath :: "config \<Rightarrow> remote_config \<Rightarrow> string" where
  "effectiveDeployPath cfg rc = dc_DeployPath (effective_config cfg rc)"

definition ResolveBuildMode :: "string \<Rightarrow> string \<Rightarrow> go_error + string" where
  "ResolveBuildMode requested artifactDir =
     (let mode = to_lower (trim_space requested);
          mode = (if mode = [] then BuildAuto else mode)
      in if mode = BuildAuto then
           (if trim_space artifactDir \<noteq> [] then Inr BuildArtifact else Inr BuildServer)
         else if mode = BuildServer then Inr BuildServer
         else if mode = BuildArtifact then
           (if trim_space artifactDir = [] then
              Inl (Errorf ''--build=artifact needs an artifact to deploy: pass --artifact-dir <dir> or set deploy.artifact_dir'' [])
            else Inr BuildArtifact)
         else Inl (Errorf ''--build must be %s, %s or %s'' [BuildAuto, BuildServer, BuildArtifact]))"

definition ValidateSourceSelector :: "overrides \<Rightarrow> go_error option" where
  "ValidateSourceSelector over =
     (if 1 < length (filter (\<lambda>v. trim_space v \<noteq> []) [ov_Branch over, ov_Revision over, ov_Tag over])
      then Some (Errorf ''--branch, --revision and --tag are mutually exclusive'' [])
      else None)"

definition isKnownPublishStrategy :: "string \<Rightarrow> bool" where
  "isKnownPublishStrategy v \<longleftrightarrow> v \<in> set [PublishAuto, PublishSymlink, PublishInPlace]"

text \<open>One configured duration: the default when blank, a configuration error when malformed.\<close>

definition duration_or :: "(string \<Rightarrow> string + int) \<Rightarrow> string \<Rightarrow> string \<Rightarrow> int \<Rightarrow> go_error + int" where
  "duration_or parseDuration label raw def =
     (if trim_space raw = [] then Inr def
      else case parseDuration (trim_space raw) of
        Inl e \<Rightarrow> Inl (Wrapf (''%w: '' @ label @ '': %v'') [e] (Sentinel ErrInvalidConfiguration))
      | Inr d \<Rightarrow> Inr d)"

definition remote_for ::
  "(config \<Rightarrow> go_error + remote_config) \<Rightarrow> config \<Rightarrow> string \<Rightarrow> go_error + remote_config" where
  "remote_for sandboxRemote cfg remote =
     (let name = to_lower (trim_space remote) in
      if name = SandboxRemoteName then sandboxRemote cfg
      else case map_of (cf_Remotes cfg) name of
        Some rc \<Rightarrow> Inr rc
      | None \<Rightarrow> Inl (errUnknownRemote remote cfg))"

text \<open>The options of an effective block and the flags, once the durations and the mode are known.\<close>

definition build_options ::
  "deploy_config \<Rightarrow> overrides \<Rightarrow> int \<Rightarrow> int \<Rightarrow> int \<Rightarrow> int \<Rightarrow> string \<Rightarrow> string \<Rightarrow> options" where
  "build_options eff over verifyTimeout commandTimeout lockStaleAfter maintenanceTimeout artifactDir build =
     \<lparr>opt_Branch = (if ov_Branch over \<noteq> [] then ov_Branch over else dc_Branch eff),
      opt_Revision = ov_Revision over, opt_Tag = ov_Tag over,
      opt_Repository = dc_Repository eff,
      opt_Build = build, opt_ArtifactDir = artifactDir,
      opt_Publish = (let publish = (if ov_Publish over \<noteq> [] then ov_Publish over else dc_Publish eff)
        in if publish = [] then PublishAuto else publish),
      opt_KeepReleases = (if 0 < ov_KeepReleases over then ov_KeepReleases over else KeepReleasesOr eff),
      opt_Verify = (case ov_Verify over of Some b \<Rightarrow> b | None \<Rightarrow> True),
      opt_VerifyURL = dc_VerifyURL eff, opt_VerifyTimeout = verifyTimeout,
      opt_VerifyFollowRedirects = dc_VerifyFollowRedirects eff, opt_VerifyRejectPaths = [],
      opt_LockStaleAfter = lockStaleAfter, opt_MaintenanceTimeout = maintenanceTimeout,
      opt_DBBackup = (case ov_DBBackup over of Some b \<Rightarrow> b | None \<Rightarrow> dc_DBBackup eff),
      opt_DBBackupProbe = \<lparr>dump_Command = [], dump_Needs = []\<rparr>,
      opt_SkipLock = (case ov_Lock over of Some b \<Rightarrow> \<not> b | None \<Rightarrow> False),
      opt_IgnoreDeployerLock = ov_IgnoreDeployerLock over,
      opt_CommandTimeout = (if 0 < ov_CommandTimeout over then ov_CommandTimeout over else commandTimeout),
      opt_Resume = ov_Resume over, opt_From = trim_space (ov_From over), opt_Force = ov_Force over,
      opt_Yes = ov_Yes over, opt_JSON = ov_JSON over, opt_Verbose = ov_Verbose over,
      opt_Settings = mergedSettings (dc_Settings eff), opt_RawSettings = [],
      opt_Hooks = dc_Hooks eff\<rparr>"

definition resolveBaseOptions ::
  "(string \<Rightarrow> string + int) \<Rightarrow> (config \<Rightarrow> go_error + remote_config) \<Rightarrow> config \<Rightarrow> string \<Rightarrow> overrides \<Rightarrow>
   go_error + (options \<times> string)" where
  "resolveBaseOptions parseDuration sandboxRemote cfg remote over =
     (case remote_for sandboxRemote cfg remote of
        Inl e \<Rightarrow> Inl e
      | Inr rc \<Rightarrow>
          (let eff = effective_config cfg rc in
           case duration_or parseDuration ''deploy.verify.timeout'' (dc_VerifyTimeout eff) DefaultVerifyTimeout of
             Inl e \<Rightarrow> Inl e
           | Inr verifyTimeout \<Rightarrow>
          (case duration_or parseDuration ''deploy.command_timeout'' (dc_CommandTimeout eff) DefaultCommandTimeout of
             Inl e \<Rightarrow> Inl e
           | Inr commandTimeout \<Rightarrow>
          (case duration_or parseDuration ''deploy.lock_stale_after'' (dc_LockStaleAfter eff) DefaultLockStaleAfter of
             Inl e \<Rightarrow> Inl e
           | Inr lockStaleAfter \<Rightarrow>
          (case duration_or parseDuration ''deploy.maintenance_timeout'' (dc_MaintenanceTimeout eff)
               DefaultMaintenanceTimeout of
             Inl e \<Rightarrow> Inl e
           | Inr maintenanceTimeout \<Rightarrow>
          (let flagDir = trim_space (ov_ArtifactDir over);
               artifactDir = (if flagDir = [] then trim_space (dc_ArtifactDir eff) else flagDir)
           in case ResolveBuildMode (ov_Build over) artifactDir of
             Inl e \<Rightarrow> Inl e
           | Inr build \<Rightarrow>
               Inr (build_options eff over verifyTimeout commandTimeout lockStaleAfter
                      maintenanceTimeout artifactDir build,
                    to_lower (trim_space remote))))))))"

definition ResolveOptions ::
  "(string \<Rightarrow> string + int) \<Rightarrow> (config \<Rightarrow> go_error + remote_config) \<Rightarrow> config \<Rightarrow> string \<Rightarrow> overrides \<Rightarrow>
   go_error + options" where
  "ResolveOptions parseDuration sandboxRemote cfg remote over =
     (case resolveBaseOptions parseDuration sandboxRemote cfg remote over of
        Inl e \<Rightarrow> Inl e
      | Inr (opts, name) \<Rightarrow>
          (case ValidateSourceSelector over of
             Some e \<Rightarrow> Inl e
           | None \<Rightarrow>
               if opt_Branch opts = [] \<and> opt_Tag opts = [] \<and> opt_Revision opts = [] then
                 Inl (Wrapf ''%w: remote %q has no branch configured and no --branch, --revision or --tag was given''
                   [name] (Sentinel ErrInvalidConfiguration))
               else if \<not> isKnownPublishStrategy (opt_Publish opts) then
                 Inl (Wrapf ''%w: unsupported publish strategy %q on remote %q; use %s, %s or %s''
                   [opt_Publish opts, name, PublishAuto, PublishSymlink, PublishInPlace]
                   (Sentinel ErrInvalidConfiguration))
               else Inr opts))"

definition ResolveReadOptions ::
  "(string \<Rightarrow> string + int) \<Rightarrow> (config \<Rightarrow> go_error + remote_config) \<Rightarrow> config \<Rightarrow> string \<Rightarrow> overrides \<Rightarrow>
   go_error + options" where
  "ResolveReadOptions parseDuration sandboxRemote cfg remote over =
     map_sum id fst (resolveBaseOptions parseDuration sandboxRemote cfg remote over)"

section \<open>The recipe's defaults\<close>

text \<open>Reading an absent key of a map of \<open>any\<close> gives nil.\<close>

definition value_at :: "settings \<Rightarrow> string \<Rightarrow> sval" where
  "value_at m key = (case map_of m key of Some v \<Rightarrow> v | None \<Rightarrow> SNil)"

definition spec_of :: "sval \<Rightarrow> args_spec option" where
  "spec_of v =
     (case v of
        SArgs flag valueFlag words def from \<Rightarrow>
          Some \<lparr>Flag = flag, ValueFlag = valueFlag, Words = words, Default = def, DefaultFrom = from\<rparr>
      | _ \<Rightarrow> None)"

definition command_default :: "recipe \<Rightarrow> setting \<Rightarrow> settings \<Rightarrow> settings" where
  "command_default r s layered =
     (if set_kind s = SettingCommand \<and> map_of layered (set_key s) = None then
        (case map_of (rec_Defaults r) (set_key s) of
           Some v \<Rightarrow> AList.update (set_key s) v layered
         | None \<Rightarrow> layered)
      else layered)"

definition layer_default :: "string \<times> sval \<Rightarrow> settings \<Rightarrow> settings" where
  "layer_default entry layered =
     (case entry of (key, v) \<Rightarrow>
        (case spec_of v of
           None \<Rightarrow> if map_of layered key = None then AList.update key v layered else layered
         | Some spec \<Rightarrow>
             (let configured = value_at layered key;
                  configured = (if configured = SNil then
                      (if DefaultFrom spec \<noteq> [] then value_at layered (DefaultFrom spec)
                       else if Default spec \<noteq> SNil then Default spec
                       else configured)
                    else configured)
              in AList.update (key @ ''_args'') (SStr (RenderSettingArgs spec configured)) layered)))"

definition WithRecipeDefaults :: "recipe \<Rightarrow> options \<Rightarrow> options" where
  "WithRecipeDefaults r opts =
     (if rec_Defaults r = [] then opts
      else
        let layered = store_all (opt_Settings opts) [];
            raw = opt_RawSettings opts @
              map set_key (filter (\<lambda>s. set_kind s = SettingCommand) (rec_Settings r));
            layered = fold (command_default r) (rec_Settings r) layered;
            layered = fold layer_default (rec_Defaults r) layered
        in opts\<lparr>opt_Settings := layered, opt_RawSettings := raw\<rparr>)"

section \<open>Lemmas\<close>

lemma store_all_at:
  "map_of (store_all m base) k =
   (case map_of (rev m) k of Some v \<Rightarrow> Some v | None \<Rightarrow> map_of base k)"
  unfolding store_all_def
  by (induction m arbitrary: base) (auto simp: update_conv map_add_def split: option.splits)

lemma store_all_distinct:
  "distinct (map fst m) \<Longrightarrow>
   map_of (store_all m base) k = (case map_of m k of Some v \<Rightarrow> Some v | None \<Rightarrow> map_of base k)"
proof -
  assume "distinct (map fst m)"
  then have "map_of (rev m) = map_of m"
    by (intro map_of_inject_set [THEN iffD2]) (auto simp: rev_map [symmetric])
  then show ?thesis by (simp add: store_all_at)
qed

lemma mergeDeployConfig_settings:
  assumes "distinct (map fst (dc_Settings project))" and "distinct (map fst (dc_Settings override))"
  shows "map_of (dc_Settings (mergeDeployConfig project override)) k =
    (case map_of (dc_Settings override) k of Some v \<Rightarrow> Some v | None \<Rightarrow> map_of (dc_Settings project) k)"
  using assms
  by (simp add: mergeDeployConfig_def store_all_distinct split: option.split)

lemma ResolveBuildMode_cases:
  "case ResolveBuildMode requested dir of
     Inr mode \<Rightarrow> (mode = BuildServer \<or> mode = BuildArtifact) \<and>
       (mode = BuildArtifact \<longrightarrow> trim_space dir \<noteq> [])
   | Inl e \<Rightarrow> True"
  by (simp add: ResolveBuildMode_def Let_def BuildServer_def BuildArtifact_def BuildAuto_def)

lemma resolveBaseOptions_Inr:
  assumes "resolveBaseOptions pd sr cfg remote over = Inr (opts, name)"
  obtains rc vt ct ls mt dir build where
    "remote_for sr cfg remote = Inr rc"
    "ResolveBuildMode (ov_Build over) dir = Inr build"
    "dir = (if trim_space (ov_ArtifactDir over) = [] then trim_space (dc_ArtifactDir (effective_config cfg rc))
       else trim_space (ov_ArtifactDir over))"
    "duration_or pd ''deploy.lock_stale_after'' (dc_LockStaleAfter (effective_config cfg rc)) DefaultLockStaleAfter = Inr ls"
    "duration_or pd ''deploy.maintenance_timeout'' (dc_MaintenanceTimeout (effective_config cfg rc)) DefaultMaintenanceTimeout = Inr mt"
    "opts = build_options (effective_config cfg rc) over vt ct ls mt dir build"
    "name = to_lower (trim_space remote)"
  using assms that
  by (auto simp: resolveBaseOptions_def Let_def split: sum.splits)

lemma ResolveOptions_Inr:
  assumes "ResolveOptions pd sr cfg remote over = Inr opts"
  shows "\<exists>name. resolveBaseOptions pd sr cfg remote over = Inr (opts, name)"
    and "ValidateSourceSelector over = None"
    and "opt_Branch opts \<noteq> [] \<or> opt_Tag opts \<noteq> [] \<or> opt_Revision opts \<noteq> []"
    and "isKnownPublishStrategy (opt_Publish opts)"
  using assms by (auto simp: ResolveOptions_def split: sum.splits option.splits if_splits)

lemma command_default_keeps:
  "map_of L key = Some v \<Longrightarrow> map_of (command_default r s L) key = Some v"
  by (auto simp: command_default_def update_conv split: option.splits)

lemma layer_default_keeps:
  assumes "map_of L key = Some v" and "spec_of (snd e) \<noteq> None \<longrightarrow> key \<noteq> fst e @ ''_args''"
  shows "map_of (layer_default e L) key = Some v"
  using assms
  by (cases e) (auto simp: layer_default_def update_conv Let_def simp del: append_eq_append_conv2 split: option.splits)

lemma fold_keeps:
  assumes "\<And>e L. e \<in> set es \<Longrightarrow> P L \<Longrightarrow> P (f e L)" and "P L"
  shows "P (fold f es L)"
  using assms by (induction es arbitrary: L) auto

lemma layer_default_renders:
  assumes "map_of L key = Some v" and "v \<noteq> SNil" and "spec_of d = Some spec"
  shows "map_of (layer_default (key, d) L) (key @ ''_args'') = Some (SStr (RenderSettingArgs spec v))"
  using assms by (simp add: layer_default_def value_at_def Let_def update_conv)

lemma command_defaults_keep:
  assumes "distinct (map fst (opt_Settings opts))" and "map_of (opt_Settings opts) key = Some v"
  shows "map_of (fold (command_default r) ss (store_all (opt_Settings opts) [])) key = Some v"
proof (rule fold_keeps [where P = "\<lambda>L. map_of L key = Some v"])
  show "map_of (store_all (opt_Settings opts) []) key = Some v"
    using assms by (simp add: store_all_distinct)
qed (rule command_default_keeps)

lemma layer_defaults_keep:
  assumes "map_of L key = Some v"
    and "\<And>k d. (k, d) \<in> set ds \<Longrightarrow> spec_of d \<noteq> None \<Longrightarrow> key \<noteq> k @ ''_args''"
  shows "map_of (fold layer_default ds L) key = Some v"
proof (rule fold_keeps [where P = "\<lambda>L. map_of L key = Some v"])
  fix e L'
  assume "e \<in> set ds" "map_of L' key = Some v"
  then show "map_of (layer_default e L') key = Some v"
    using assms(2) [of "fst e" "snd e"] by (intro layer_default_keeps) auto
qed (rule assms(1))

section \<open>Properties\<close>

text \<open>
  C38. Options a deploy runs with are decided: the build mode is server or artifact and the
  second has an artifact directory, the publish strategy is a known one, a source to deploy is
  named, at most one source flag was given, and at least one release is kept.
\<close>

theorem ResolveOptions_decided:
  assumes "ResolveOptions parseDuration sandboxRemote cfg remote over = Inr opts"
  shows "(opt_Build opts = BuildServer \<or> opt_Build opts = BuildArtifact \<and> opt_ArtifactDir opts \<noteq> []) \<and>
    opt_Publish opts \<in> {PublishAuto, PublishSymlink, PublishInPlace} \<and>
    (opt_Branch opts \<noteq> [] \<or> opt_Tag opts \<noteq> [] \<or> opt_Revision opts \<noteq> []) \<and>
    length (filter (\<lambda>v. trim_space v \<noteq> []) [ov_Branch over, ov_Revision over, ov_Tag over]) \<le> 1 \<and>
    0 < opt_KeepReleases opts"
proof -
  note facts = ResolveOptions_Inr [OF assms]
  obtain name where "resolveBaseOptions parseDuration sandboxRemote cfg remote over = Inr (opts, name)"
    using facts(1) by blast
  then obtain rc vt ct ls mt dir build where
    mode: "ResolveBuildMode (ov_Build over) dir = Inr build"
    and opts: "opts = build_options (effective_config cfg rc) over vt ct ls mt dir build"
    by (rule resolveBaseOptions_Inr)
  have "(build = BuildServer \<or> build = BuildArtifact) \<and> (build = BuildArtifact \<longrightarrow> trim_space dir \<noteq> [])"
    using ResolveBuildMode_cases [of dir "ov_Build over"] mode by simp
  then have "opt_Build opts = BuildServer \<or> opt_Build opts = BuildArtifact \<and> opt_ArtifactDir opts \<noteq> []"
    using opts by (auto simp: build_options_def)
  moreover have "0 < opt_KeepReleases opts"
    using opts by (simp add: build_options_def KeepReleasesOr_def DefaultKeepReleases_def)
  moreover have "opt_Publish opts \<in> {PublishAuto, PublishSymlink, PublishInPlace}"
    using facts(4) by (simp add: isKnownPublishStrategy_def)
  moreover have "length (filter (\<lambda>v. trim_space v \<noteq> []) [ov_Branch over, ov_Revision over, ov_Tag over]) \<le> 1"
    using facts(2) by (simp add: ValidateSourceSelector_def split: if_splits)
  ultimately show ?thesis using facts(3) by blast
qed

definition demo_deploy :: deploy_config where
  "demo_deploy = \<lparr>dc_KeepReleases = 0, dc_CommandTimeout = [], dc_LockStaleAfter = [],
     dc_MaintenanceTimeout = [], dc_ArtifactDir = [], dc_DBBackup = False, dc_Repository = ''git@host:shop.git'',
     dc_Branch = ''main'', dc_Publish = [], dc_DeployPath = ''/srv/shop'', dc_VerifyURL = [],
     dc_VerifyTimeout = [], dc_VerifyFollowRedirects = False,
     dc_Settings = [(''php_bin'', SStr ''php8.2''), (''owner'', SStr ''www'')], dc_Hooks = []\<rparr>"

definition demo_override :: deploy_config where
  "demo_override = demo_deploy\<lparr>dc_Branch := ''staging'', dc_Repository := [],
     dc_LockStaleAfter := ''8h'', dc_Settings := [(''php_bin'', SStr ''php8.3'')]\<rparr>"

definition plain_remote :: "string \<Rightarrow> deploy_config option \<Rightarrow> remote_config" where
  "plain_remote path deploy =
     \<lparr>rc_Host = ''shop.example'', rc_User = ''deploy'', rc_Port = 22,
      rc_Auth = \<lparr>auth_Method = [], auth_KeyPath = [], auth_StrictHostKey = True, auth_KnownHostsFile = []\<rparr>,
      rc_Path = path, rc_Local = False, rc_Sandbox = False, rc_Protected = None, rc_Deploy = deploy\<rparr>"

definition demo_config :: config where
  "demo_config = \<lparr>cf_Deploy = demo_deploy,
     cf_Remotes = [(''staging'', plain_remote ''/var/www'' (Some demo_override))]\<rparr>"

definition demo_flags :: overrides where
  "demo_flags = \<lparr>ov_Branch = [], ov_Revision = ''abc123'', ov_Tag = [], ov_Build = [], ov_ArtifactDir = '' out '',
     ov_Publish = ''symlink'', ov_KeepReleases = 0, ov_Verify = None, ov_DBBackup = None, ov_Lock = None,
     ov_IgnoreDeployerLock = False, ov_CommandTimeout = 0, ov_Resume = False, ov_From = [],
     ov_Force = False, ov_Yes = False, ov_JSON = False, ov_Verbose = False\<rparr>"

text \<open>A parser that knows two durations, to run the definitions on.\<close>

definition demo_duration :: "string \<Rightarrow> string + int" where
  "demo_duration s = (if s = ''8h'' then Inr (480 * minute) else Inl ''invalid duration'')"

definition no_sandbox :: "config \<Rightarrow> go_error + remote_config" where
  "no_sandbox cfg = Inl (Sentinel ErrUnknownRemote)"

definition demo_options :: options where
  "demo_options = build_options (effective_config demo_config
     (plain_remote ''/var/www'' (Some demo_override)))
     demo_flags DefaultVerifyTimeout DefaultCommandTimeout DefaultLockStaleAfter DefaultMaintenanceTimeout
     ''out'' BuildArtifact"

lemma demo_resolved: "ResolveOptions demo_duration no_sandbox demo_config ''Staging'' demo_flags = Inr demo_options"
  by code_simp

theorem ResolveOptions_decided_witness:
  "opt_Build demo_options = BuildArtifact \<and> opt_ArtifactDir demo_options = ''out'' \<and>
   opt_Publish demo_options \<in> {PublishAuto, PublishSymlink, PublishInPlace} \<and>
   0 < opt_KeepReleases demo_options"
proof -
  have "opt_Build demo_options = BuildArtifact" "opt_ArtifactDir demo_options = ''out''" by code_simp+
  then show ?thesis using ResolveOptions_decided [OF demo_resolved] by blast
qed

fun first_set :: "string list \<Rightarrow> string" where
  "first_set [] = []"
| "first_set (v # vs) = (if v \<noteq> [] then v else first_set vs)"

text \<open>
  The layers of configuration: a flag beats the remote's override, which beats the
  project; settings merge key by key with the remote's value winning.
\<close>

theorem ResolveOptions_precedence:
  assumes "ResolveOptions parseDuration sandboxRemote cfg remote over = Inr opts"
    and "remote_for sandboxRemote cfg remote = Inr rc" and "rc_Deploy rc = Some ov"
    and "distinct (map fst (dc_Settings (cf_Deploy cfg)))" and "distinct (map fst (dc_Settings ov))"
  shows "opt_Branch opts = first_set [ov_Branch over, dc_Branch ov, dc_Branch (cf_Deploy cfg)] \<and>
    opt_Publish opts = first_set [ov_Publish over, dc_Publish ov, dc_Publish (cf_Deploy cfg), PublishAuto] \<and>
    opt_Repository opts = first_set [dc_Repository ov, dc_Repository (cf_Deploy cfg)] \<and>
    map_of (opt_Settings opts) key =
      (case map_of (dc_Settings ov) key of Some v \<Rightarrow> Some v | None \<Rightarrow> map_of (dc_Settings (cf_Deploy cfg)) key)"
proof -
  let ?eff = "mergeDeployConfig (cf_Deploy cfg) ov"
  obtain name where "resolveBaseOptions parseDuration sandboxRemote cfg remote over = Inr (opts, name)"
    using ResolveOptions_Inr(1) [OF assms(1)] by blast
  then obtain rc' vt ct ls mt dir build where rc': "remote_for sandboxRemote cfg remote = Inr rc'"
    and opts: "opts = build_options (effective_config cfg rc') over vt ct ls mt dir build"
    by (rule resolveBaseOptions_Inr)
  have "effective_config cfg rc' = ?eff" using rc' assms(2,3) by (simp add: effective_config_def)
  with opts have o: "opts = build_options ?eff over vt ct ls mt dir build" by simp
  have keys: "distinct (map fst (dc_Settings ?eff))"
  proof -
    have "distinct (map fst (fold (\<lambda>(k, v). AList.update k v) m base))"
      if "distinct (map fst base)" for m base :: settings
      using that by (induction m arbitrary: base) (auto simp: distinct_update)
    then show ?thesis by (simp add: mergeDeployConfig_def store_all_def)
  qed
  have "map_of (opt_Settings opts) key = map_of (dc_Settings ?eff) key"
    using store_all_distinct [OF keys, of "[]" key]
    by (simp add: o build_options_def mergedSettings_def split: option.splits)
  with mergeDeployConfig_settings [OF assms(4,5), of key] show ?thesis
    by (simp add: o build_options_def mergeDeployConfig_def Let_def PublishAuto_def)
qed

theorem ResolveOptions_precedence_witness:
  "opt_Branch demo_options = ''staging'' \<and> opt_Repository demo_options = ''git@host:shop.git'' \<and>
   map_of (opt_Settings demo_options) ''php_bin'' = Some (SStr ''php8.3'')"
proof -
  let ?rc = "plain_remote ''/var/www'' (Some demo_override)"
  have "remote_for no_sandbox demo_config ''Staging'' = Inr ?rc" by code_simp
  moreover have "distinct (map fst (dc_Settings (cf_Deploy demo_config)))"
    "distinct (map fst (dc_Settings demo_override))" by code_simp+
  moreover have "first_set [ov_Branch demo_flags, dc_Branch demo_override, dc_Branch (cf_Deploy demo_config)] = ''staging''"
    "first_set [dc_Repository demo_override, dc_Repository (cf_Deploy demo_config)] = ''git@host:shop.git''"
    "map_of (dc_Settings demo_override) ''php_bin'' = Some (SStr ''php8.3'')"
    by code_simp+
  ultimately show ?thesis
    using ResolveOptions_precedence [OF demo_resolved, of ?rc demo_override "''php_bin''"]
    by (simp add: plain_remote_def)
qed

text \<open>
  Layering a recipe under the configuration never changes a configured value, and a
  configured argument setting is what the key with the suffix \<open>_args\<close> renders, whatever the
  order the recipe's defaults are visited in.
\<close>

theorem WithRecipeDefaults_layers:
  assumes "distinct (map fst (opt_Settings opts))" and "map_of (opt_Settings opts) key = Some v"
    and "list_all (\<lambda>(k, d). spec_of d \<noteq> None \<longrightarrow> key \<noteq> k @ ''_args'') (rec_Defaults r)"
    and "distinct (map fst (rec_Defaults r))"
  shows "map_of (opt_Settings (WithRecipeDefaults r opts)) key = Some v \<and>
    (\<forall>d spec. map_of (rec_Defaults r) key = Some d \<and> spec_of d = Some spec \<and> v \<noteq> SNil \<longrightarrow>
       map_of (opt_Settings (WithRecipeDefaults r opts)) (key @ ''_args'') =
         Some (SStr (RenderSettingArgs spec v)))"
proof (intro conjI allI impI)
  have args: "key \<noteq> k @ ''_args''" if "(k, d) \<in> set (rec_Defaults r)" "spec_of d \<noteq> None" for k d
    using assms(3) that by (auto simp: list_all_iff)
  note start = command_defaults_keep [OF assms(1,2), of r "rec_Settings r"]
  show "map_of (opt_Settings (WithRecipeDefaults r opts)) key = Some v"
    using layer_defaults_keep [OF start args] assms(2)
    by (simp add: WithRecipeDefaults_def Let_def)
  fix d spec
  assume *: "map_of (rec_Defaults r) key = Some d \<and> spec_of d = Some spec \<and> v \<noteq> SNil"
  then obtain before after where split: "rec_Defaults r = before @ (key, d) # after"
    by (meson map_of_SomeD split_list)
  let ?L = "fold layer_default before
    (fold (command_default r) (rec_Settings r) (store_all (opt_Settings opts) []))"
  have "map_of ?L key = Some v"
    using args split by (intro layer_defaults_keep [OF start]) auto
  then have "map_of (layer_default (key, d) ?L) (key @ ''_args'') = Some (SStr (RenderSettingArgs spec v))"
    using * by (intro layer_default_renders) auto
  moreover have "key @ ''_args'' \<noteq> k @ ''_args''" if "(k, e) \<in> set after" for k e
  proof -
    have "key \<notin> fst ` set after" using assms(4) by (simp add: split)
    with that show ?thesis by (metis append_same_eq fst_conv image_eqI)
  qed
  ultimately have "map_of (fold layer_default after (layer_default (key, d) ?L)) (key @ ''_args'') =
      Some (SStr (RenderSettingArgs spec v))"
    by (rule layer_defaults_keep)
  then show "map_of (opt_Settings (WithRecipeDefaults r opts)) (key @ ''_args'') =
      Some (SStr (RenderSettingArgs spec v))"
    by (simp add: WithRecipeDefaults_def Let_def split)
qed

definition demo_recipe :: recipe where
  "demo_recipe = DefaultRecipe\<lparr>rec_Defaults :=
     [(''locales'', SArgs ''--language'' [] True SNil []), (''jobs'', SStr ''4'')]\<rparr>"

theorem WithRecipeDefaults_layers_witness:
  "map_of (opt_Settings (WithRecipeDefaults demo_recipe
     (demo_options\<lparr>opt_Settings := [(''locales'', SStr ''nl_NL'')]\<rparr>))) ''locales_args'' =
   Some (SStr (RenderSettingArgs
     \<lparr>Flag = ''--language'', ValueFlag = [], Words = True, Default = SNil, DefaultFrom = []\<rparr> (SStr ''nl_NL'')))"
proof -
  let ?o = "demo_options\<lparr>opt_Settings := [(''locales'', SStr ''nl_NL'')]\<rparr>"
  let ?spec = "\<lparr>Flag = ''--language'', ValueFlag = [], Words = True, Default = SNil, DefaultFrom = []\<rparr>"
  have args: "list_all (\<lambda>(k, d). spec_of d \<noteq> None \<longrightarrow> ''locales'' \<noteq> k @ ''_args'') (rec_Defaults demo_recipe)"
    by (simp add: demo_recipe_def spec_of_def)
  have keys: "distinct (map fst (opt_Settings ?o))" and found: "map_of (opt_Settings ?o) ''locales'' = Some (SStr ''nl_NL'')"
    by simp_all
  have defs: "distinct (map fst (rec_Defaults demo_recipe))" by (simp add: demo_recipe_def)
  have "map_of (rec_Defaults demo_recipe) ''locales'' = Some (SArgs ''--language'' [] True SNil []) \<and>
      spec_of (SArgs ''--language'' [] True SNil []) = Some ?spec \<and> SStr ''nl_NL'' \<noteq> SNil"
    by (simp add: demo_recipe_def spec_of_def)
  moreover have "map_of (opt_Settings (WithRecipeDefaults demo_recipe ?o)) (''locales'' @ ''_args'') =
      Some (SStr (RenderSettingArgs ?spec (SStr ''nl_NL'')))"
    using WithRecipeDefaults_layers [OF keys found args defs] calculation by blast
  ultimately show ?thesis by simp
qed

text \<open>
  The override block of a remote does not reach three of its fields: its lock age, maintenance
  timeout and redirect policy are normalised like the others but never merged.
\<close>

lemma override_fields_ignored:
  "dc_LockStaleAfter (mergeDeployConfig project override) = dc_LockStaleAfter project"
  "dc_MaintenanceTimeout (mergeDeployConfig project override) = dc_MaintenanceTimeout project"
  "dc_VerifyFollowRedirects (mergeDeployConfig project override) = dc_VerifyFollowRedirects project"
  by (simp_all add: mergeDeployConfig_def)

end
