(* ===== verification/Vars.thy ===== *)
theory Vars
  imports Shell
begin

text \<open>
  The variables of command templates and their expansion (\<open>internal/deploy/vars.go\<close>).
  A template is scanned once: the matches of \<open>{{name}}\<close> are replaced by the quoted value
  of the variable, and the substituted text is never scanned again.
\<close>

section \<open>The variable set\<close>

text \<open>The Go value holds three maps that all copies share; here they are passed as state.\<close>

record vars =
  var_values :: "string \<Rightarrow> string option"
  var_paths :: "string \<Rightarrow> bool"
  var_raw :: "string \<Rightarrow> bool"

definition NewVars :: vars where
  "NewVars = \<lparr>var_values = (\<lambda>_. None), var_paths = (\<lambda>_. False), var_raw = (\<lambda>_. False)\<rparr>"

definition Set :: "string \<Rightarrow> string \<Rightarrow> vars \<Rightarrow> vars" where
  "Set key v vs = vs\<lparr>var_values := (var_values vs)(key \<mapsto> v)\<rparr>"

definition SetPath :: "string \<Rightarrow> string \<Rightarrow> vars \<Rightarrow> vars" where
  "SetPath key v vs =
     vs\<lparr>var_values := (var_values vs)(key \<mapsto> v), var_paths := (var_paths vs)(key := True)\<rparr>"

definition SetRaw :: "string \<Rightarrow> string \<Rightarrow> vars \<Rightarrow> vars" where
  "SetRaw key v vs =
     vs\<lparr>var_values := (var_values vs)(key \<mapsto> v), var_raw := (var_raw vs)(key := True)\<rparr>"

definition Clone :: "vars \<Rightarrow> vars" where
  "Clone vs = \<lparr>var_values = var_values vs, var_paths = var_paths vs, var_raw = var_raw vs\<rparr>"

section \<open>Expansion\<close>

definition var_char :: "char \<Rightarrow> bool" where
  "var_char c \<longleftrightarrow>
     (CHR ''A'' \<le> c \<and> c \<le> CHR ''Z'') \<or> (CHR ''a'' \<le> c \<and> c \<le> CHR ''z'') \<or>
     (CHR ''0'' \<le> c \<and> c \<le> CHR ''9'') \<or> c = CHR ''_'' \<or> c = CHR ''.''"

text \<open>
  The match of \<open>varPattern\<close> at the start of the text: the name and what follows.
  The name's class holds no brace, so the greedy match is the only one.
\<close>

definition varPattern :: "string \<Rightarrow> (string \<times> string) option" where
  "varPattern s =
     (case cut_prefix s ''{{'' of
        None \<Rightarrow> None
      | Some t \<Rightarrow>
          (let n = takeWhile var_char t in
           if n = [] then None
           else map_option (\<lambda>r. (n, r)) (cut_prefix (dropWhile var_char t) ''}}'')))"

lemma varPattern_Some:
  assumes "varPattern s = Some (n, r)"
  shows "s = ''{{'' @ n @ ''}}'' @ r \<and> n \<noteq> [] \<and> list_all var_char n"
proof -
  from assms obtain t where t: "cut_prefix s ''{{'' = Some t"
    by (auto simp: varPattern_def split: option.splits)
  with assms have n: "n = takeWhile var_char t" and ne: "n \<noteq> []"
    and r: "cut_prefix (dropWhile var_char t) ''}}'' = Some r"
    by (auto simp: varPattern_def Let_def split: if_splits)
  from r have "dropWhile var_char t = ''}}'' @ r" by (simp only: cut_prefix_Some)
  then have "t = n @ ''}}'' @ r" using n by (metis takeWhile_dropWhile_id)
  moreover have "s = ''{{'' @ t" using t by (simp only: cut_prefix_Some)
  moreover have "list_all var_char n" using n by (auto simp: list_all_iff dest: set_takeWhileD)
  ultimately show ?thesis using ne by simp
qed

lemma varPattern_shorter [termination_simp]:
  "varPattern s = Some (n, r) \<Longrightarrow> length r < length s"
  by (drule varPattern_Some) simp

text \<open>The replacement of one match, and whether the variable was unknown.\<close>

definition substitute :: "vars \<Rightarrow> string \<Rightarrow> string" where
  "substitute vs name =
     (case var_values vs name of
        None \<Rightarrow> ''{{'' @ name @ ''}}''
      | Some v \<Rightarrow>
          if var_paths vs name then QuoteRemotePath v
          else if var_raw vs name then v
          else ShellQuote v)"

function expand_scan :: "vars \<Rightarrow> string \<Rightarrow> string \<times> bool" where
  "expand_scan vs s =
     (case varPattern s of
        Some (m, r) \<Rightarrow>
          (let name = trim_space m; (out, failed) = expand_scan vs r in
           (substitute vs name @ out, failed \<or> var_values vs name = None))
      | None \<Rightarrow>
          (case s of
             [] \<Rightarrow> ([], False)
           | c # cs \<Rightarrow> (let (out, failed) = expand_scan vs cs in (c # out, failed))))"
  by pat_completeness auto
termination
  by (relation "measure (\<lambda>(vs, s). length s)") (auto dest: varPattern_shorter)

declare expand_scan.simps [simp del]

definition Expand :: "vars \<Rightarrow> string \<Rightarrow> go_error + string" where
  "Expand vs raw =
     (let (expanded, failure) = expand_scan vs raw in
      if failure then Inl (Sentinel ErrUnknownVariable) else Inr expanded)"

section \<open>The reference: tokens first, then substitution\<close>

text \<open>The tokens of a template depend on its text alone, never on a variable's value.\<close>

datatype token = Text char | Ref string

function tokens :: "string \<Rightarrow> token list" where
  "tokens s =
     (case varPattern s of
        Some (m, r) \<Rightarrow> Ref m # tokens r
      | None \<Rightarrow> (case s of [] \<Rightarrow> [] | c # cs \<Rightarrow> Text c # tokens cs))"
  by pat_completeness auto
termination by (relation "measure length") (auto dest: varPattern_shorter)

declare tokens.simps [simp del]

fun token_text :: "vars \<Rightarrow> token \<Rightarrow> string" where
  "token_text vs (Text c) = [c]"
| "token_text vs (Ref n) = substitute vs n"

definition known :: "vars \<Rightarrow> token \<Rightarrow> bool" where
  "known vs t = (case t of Text c \<Rightarrow> True | Ref n \<Rightarrow> var_values vs n \<noteq> None)"

lemma tokens_Nil [simp]: "tokens [] = []"
  by (subst tokens.simps) (simp add: varPattern_def cut_prefix_def)

lemma known_simps [simp]:
  "known vs (Text c)"
  "known vs (Ref n) \<longleftrightarrow> var_values vs n \<noteq> None"
  by (simp_all add: known_def)

lemma name_no_space: "list_all var_char n \<Longrightarrow> trim_space n = n"
proof (rule trim_space_id)
  assume "list_all var_char n"
  moreover have "\<not> is_space c" if "var_char c" for c
    using that by (auto simp: var_char_def is_space_def less_eq_char_def)
  ultimately show "list_all (\<lambda>c. \<not> is_space c) n" by (auto simp: list_all_iff)
qed

lemma expand_scan_tokens:
  "expand_scan vs s =
   (concat (map (token_text vs) (tokens s)), \<not> list_all (known vs) (tokens s))"
proof (induction s rule: tokens.induct)
  case (1 s)
  show ?case
  proof (cases "varPattern s")
    case None
    show ?thesis
    proof (cases s)
      case Nil
      with None show ?thesis by (simp add: expand_scan.simps [of vs "[]"])
    next
      case (Cons c cs)
      then have "expand_scan vs cs =
          (concat (map (token_text vs) (tokens cs)), \<not> list_all (known vs) (tokens cs))"
        using "1.IH" None by simp
      with Cons None show ?thesis
        by (simp add: expand_scan.simps [of vs "c # cs"] tokens.simps [of "c # cs"])
    qed
  next
    case (Some p)
    obtain m r where p: "p = (m, r)" by (cases p)
    from Some p have "trim_space m = m"
      using varPattern_Some name_no_space by blast
    with Some p "1.IH" show ?thesis
      by (simp add: expand_scan.simps [of vs s] tokens.simps [of s]) blast
  qed
qed

lemma Expand_unfold:
  "Expand vs raw =
   (if list_all (known vs) (tokens raw)
    then Inr (concat (map (token_text vs) (tokens raw)))
    else Inl (Sentinel ErrUnknownVariable))"
  by (simp add: Expand_def expand_scan_tokens)

section \<open>Tokens of a template built from words\<close>

lemma varPattern_no_brace: "c \<noteq> CHR ''{'' \<Longrightarrow> varPattern (c # s) = None"
  by (simp add: varPattern_def cut_prefix_def)

lemma tokens_text:
  "CHR ''{'' \<notin> set lit \<Longrightarrow> tokens (lit @ rest) = map Text lit @ tokens rest"
proof (induction lit)
  case Nil
  then show ?case by simp
next
  case (Cons c lit)
  then have "varPattern (c # lit @ rest) = None"
    by (intro varPattern_no_brace) auto
  with Cons show ?case by (simp add: tokens.simps [of "c # lit @ rest"])
qed

lemma varPattern_ref:
  assumes "n \<noteq> []" and "list_all var_char n"
  shows "varPattern (''{{'' @ n @ ''}}'' @ rest) = Some (n, rest)"
proof -
  have brace: "\<not> var_char (CHR ''}'')" by (simp add: var_char_def less_eq_char_def)
  have all: "\<And>x. x \<in> set n \<Longrightarrow> var_char x" using assms(2) by (simp add: list_all_iff)
  have t: "takeWhile var_char (n @ ''}}'' @ rest) = n"
    and d: "dropWhile var_char (n @ ''}}'' @ rest) = ''}}'' @ rest"
    using all brace by (simp_all add: takeWhile_append2 dropWhile_append2)
  have c: "cut_prefix (''{{'' @ n @ ''}}'' @ rest) ''{{'' = Some (n @ ''}}'' @ rest)"
    and e: "cut_prefix (''}}'' @ rest) ''}}'' = Some rest"
    by (simp_all only: cut_prefix_Some)
  show ?thesis
    unfolding varPattern_def c option.case Let_def t d e using assms(1) by simp
qed

lemma tokens_ref:
  assumes "n \<noteq> []" and "list_all var_char n"
  shows "tokens (''{{'' @ n @ ''}}'' @ rest) = Ref n # tokens rest"
  by (subst tokens.simps) (simp only: varPattern_ref [OF assms] option.case prod.case)

text \<open>A template word: literal text the shell reads as it stands, or one reference.\<close>

datatype tword = Lit string | Slot string

fun tword_text :: "tword \<Rightarrow> string" where
  "tword_text (Lit l) = l"
| "tword_text (Slot n) = ''{{'' @ n @ ''}}''"

fun tword_ok :: "vars \<Rightarrow> tword \<Rightarrow> bool" where
  "tword_ok vs (Lit l) = (l \<noteq> [] \<and> isSafeArgument l)"
| "tword_ok vs (Slot n) =
     (n \<noteq> [] \<and> list_all var_char n \<and> var_values vs n \<noteq> None \<and>
      (var_raw vs n \<longrightarrow> var_paths vs n))"

fun tword_expansion :: "vars \<Rightarrow> tword \<Rightarrow> string" where
  "tword_expansion vs (Lit l) = l"
| "tword_expansion vs (Slot n) = substitute vs n"

fun tword_denotes :: "vars \<Rightarrow> tword \<Rightarrow> piece list" where
  "tword_denotes vs (Lit l) = map Ch l"
| "tword_denotes vs (Slot n) =
     (case var_values vs n of
        None \<Rightarrow> []
      | Some v \<Rightarrow> if var_paths vs n then home_denotes False v else map Ch v)"

interpretation template_word: quoting "tword_expansion vs \<circ> Slot" "\<lambda>n. tword_ok vs (Slot n)"
  "tword_denotes vs \<circ> Slot" for vs
  by unfold_locales
    (auto simp: substitute_def ShellQuote_reads QuoteRemotePath_reads split: option.splits)

lemma tword_reads:
  "tword_ok vs w \<Longrightarrow>
   sh_words Plain cur (tword_expansion vs w @ rest) =
   sh_words Plain (Some (word_of cur @ tword_denotes vs w)) rest"
proof (cases w)
  case (Lit l)
  moreover assume "tword_ok vs w"
  ultimately show ?thesis
    using quoteIfNeeded_reads [of l cur rest] by (simp add: quoteIfNeeded_def)
next
  case (Slot n)
  moreover assume "tword_ok vs w"
  ultimately show ?thesis using template_word.reads [of vs n cur rest] by simp
qed

lemma safe_no_brace: "isSafeArgument l \<Longrightarrow> CHR ''{'' \<notin> set l"
  by (auto simp: isSafeArgument_def list_all_iff less_eq_char_def)

lemma tword_tokens:
  "tword_ok vs w \<Longrightarrow>
   \<exists>ts. tokens (tword_text w @ rest) = ts @ tokens rest \<and>
        list_all (known vs) ts \<and> concat (map (token_text vs) ts) = tword_expansion vs w"
proof (cases w)
  case (Lit l)
  moreover assume "tword_ok vs w"
  ultimately show ?thesis
    by (intro exI [of _ "map Text l"])
      (simp add: tokens_text safe_no_brace list_all_iff comp_def)
next
  case (Slot n)
  moreover assume "tword_ok vs w"
  ultimately show ?thesis
    using tokens_ref [of n rest] by (intro exI [of _ "[Ref n]"]) simp
qed

lemma Expand_words:
  assumes "list_all (tword_ok vs) ws"
  shows "Expand vs (join '' '' (map tword_text ws)) = Inr (join '' '' (map (tword_expansion vs) ws))"
proof -
  have "list_all (known vs) (tokens (join '' '' (map tword_text ws))) \<and>
    concat (map (token_text vs) (tokens (join '' '' (map tword_text ws)))) =
    join '' '' (map (tword_expansion vs) ws)"
    using assms
  proof (induction ws)
    case Nil
    then show ?case by simp
  next
    case (Cons w ws)
    show ?case
    proof (cases ws)
      case Nil
      with Cons.prems tword_tokens [of vs w "[]"] show ?thesis by auto
    next
      case (Cons v vs')
      let ?rest = "join '' '' (map tword_text ws)"
      obtain ts where "tokens (tword_text w @ '' '' @ ?rest) = ts @ tokens ('' '' @ ?rest)"
        and "list_all (known vs) ts" and "concat (map (token_text vs) ts) = tword_expansion vs w"
        using Cons.prems tword_tokens [of vs w "'' '' @ ?rest"] by auto
      moreover have "tokens ('' '' @ ?rest) = Text (CHR '' '') # tokens ?rest"
        using tokens_text [of "'' ''" ?rest] by simp
      ultimately show ?thesis
        using Cons.IH Cons.prems \<open>ws = v # vs'\<close> by simp
    qed
  qed
  then show ?thesis by (simp add: Expand_unfold)
qed

lemma twords_read:
  "list_all (tword_ok vs) ws \<Longrightarrow>
   sh_words Plain None (join '' '' (map (tword_expansion vs) ws)) = Some (map (tword_denotes vs) ws)"
proof (induction ws)
  case Nil
  then show ?case by simp
next
  case (Cons w ws)
  then show ?case
    using tword_reads [of vs w None "[]"]
    by (cases ws) (simp_all add: tword_reads sh_blank_def)
qed

section \<open>Properties\<close>

text \<open>
  Expansion is a single pass.  Which parts of a template are references depends on the
  template alone: the result is the template with each reference replaced by its quoted
  value, never rescanned, and one unknown reference anywhere fails the whole expansion.
\<close>

theorem Expand_single_pass:
  "Expand vs raw =
   (if list_all (known vs) (tokens raw)
    then Inr (concat (map (token_text vs) (tokens raw)))
    else Inl (Sentinel ErrUnknownVariable))"
  by (rule Expand_unfold)

text \<open>
  No value breaks out of its argument: a command template made of plain words and
  references to quoted variables is read by the shell as one word per template word, literal
  but for the home directory a path may begin with.
\<close>

theorem Expand_words_intact:
  assumes "list_all (tword_ok vs) ws"
  shows "\<exists>line. Expand vs (join '' '' (map tword_text ws)) = Inr line \<and>
    sh_words Plain None line = Some (map (tword_denotes vs) ws)"
  using Expand_words [OF assms] twords_read [OF assms] by blast

theorem Expand_words_intact_witness:
  "\<exists>line. Expand (Set ''branch'' ''x; rm -rf $HOME'' (SetPath ''repo_path'' ''~/repo.git'' NewVars))
      ''git -C {{repo_path}} fetch {{branch}}'' = Inr line \<and>
    sh_words Plain None line =
      Some [map Ch ''git'', map Ch ''-C'', Var False ''HOME'' # map Ch ''/repo.git'', map Ch ''fetch'',
        map Ch ''x; rm -rf $HOME'']"
proof -
  let ?vs = "Set ''branch'' ''x; rm -rf $HOME'' (SetPath ''repo_path'' ''~/repo.git'' NewVars)"
  let ?ws = "[Lit ''git'', Lit ''-C'', Slot ''repo_path'', Lit ''fetch'', Slot ''branch'']"
  have "list_all (tword_ok ?vs) ?ws" by code_simp
  moreover have "join '' '' (map tword_text ?ws) = ''git -C {{repo_path}} fetch {{branch}}''" by code_simp
  moreover have "map (tword_denotes ?vs) ?ws =
      [map Ch ''git'', map Ch ''-C'', Var False ''HOME'' # map Ch ''/repo.git'', map Ch ''fetch'',
        map Ch ''x; rm -rf $HOME'']" by code_simp
  ultimately show ?thesis using Expand_words_intact [of ?vs ?ws] by metis
qed

end
