(* ===== verification/Machine.thy ===== *)
theory Machine
  imports Prelude
begin

text \<open>
  The machine govard runs on, as the preflight, the artifact step and the verification see it:
  its files, its HTTP client and the decoders of the JSON files the project carries.  These are
  library and operating-system calls of the source; each is an argument here, a field of
  \<open>machine\<close>.  Reading a file does not change the world, an HTTP request may.
\<close>

section \<open>Artifact manifests\<close>

text \<open>\<open>ArtifactFile\<close> and \<open>ArtifactManifest\<close> of \<open>internal/deploy/artifact.go\<close>.\<close>

record artifact_file =
  af_Path :: string
  af_SHA256 :: string
  af_Target :: string
  af_Size :: int

record artifact_manifest =
  am_SchemaVersion :: int
  am_Tool :: string
  am_BuildMode :: string
  am_Revision :: string
  am_CreatedAt :: string
  am_PHPVersion :: string
  am_FrontendRunner :: string
  am_ComposerLockSHA256 :: string
  am_FileCount :: int
  am_TotalBytes :: int
  am_Files :: "artifact_file list"

section \<open>Files and requests\<close>

text \<open>What \<open>Lstat\<close> tells of a file: a regular one has a size.\<close>

datatype file_info = RegularFile int | SymlinkFile | OtherFile

text \<open>
  One call \<open>WalkDir\<close> makes of its callback: an entry that is no directory, by its slash path
  below the root and what \<open>Lstat\<close> tells of it, or an error.  The calls for directories, which
  the source ignores, are left out.
\<close>

datatype walk_event = WalkFile string file_info | WalkError go_error

record http_response =
  resp_Status :: int
  resp_Location :: string
  resp_Path :: "string option"

text \<open>The answer of an HTTP client's \<open>CheckRedirect\<close> to one redirect.\<close>

datatype redirect = FollowRedirect | UseLastResponse | RefuseRedirect go_error

text \<open>The host and the URL of the next request, and how many requests were made before it.\<close>

type_synonym redirect_check = "string \<Rightarrow> string \<Rightarrow> nat \<Rightarrow> redirect"

text \<open>
  \<open>m_Stat\<close> says whether an existing path is a directory; the error of a path that does not
  exist is \<open>ErrNotExist\<close>.  \<open>m_Get\<close> is a request with its redirect check, timeout and URL.
  \<open>m_Walk\<close> lists the calls of \<open>WalkDir\<close> in order.  \<open>m_HomeDir\<close> is the home directory, where
  there is one, \<open>m_IsRegular\<close> says that \<open>os.Stat\<close> finds a regular file, and \<open>m_ExpandEnv\<close> is \<open>os.ExpandEnv\<close>.  \<open>m_Sprintf\<close> is \<open>fmt.Sprintf\<close> on strings, for the one
  format that is not a constant.  The decoder of the key store gives the
  entries of its map.  The decoders of \<open>composer.lock\<close> and \<open>composer.json\<close> give the values the source reads, the
  empty string where a key is absent, and nothing where the text is not such JSON.
\<close>

record 'w machine =
  m_Getwd :: "'w \<Rightarrow> go_error + string"
  m_Stat :: "string \<Rightarrow> 'w \<Rightarrow> go_error + bool"
  m_Lstat :: "string \<Rightarrow> 'w \<Rightarrow> go_error + file_info"
  m_Readlink :: "string \<Rightarrow> 'w \<Rightarrow> go_error + string"
  m_ReadFile :: "string \<Rightarrow> 'w \<Rightarrow> go_error + string"
  m_Walk :: "string \<Rightarrow> 'w \<Rightarrow> walk_event list"
  m_MkdirAll :: "string \<Rightarrow> 'w \<Rightarrow> go_error option \<times> 'w"
  m_ReadDir :: "string \<Rightarrow> 'w \<Rightarrow> go_error + string list"
  m_RemoveAll :: "string \<Rightarrow> 'w \<Rightarrow> go_error option \<times> 'w"
  m_WriteFile :: "string \<Rightarrow> string \<Rightarrow> 'w \<Rightarrow> go_error option \<times> 'w"
  m_IsRegular :: "string \<Rightarrow> 'w \<Rightarrow> bool"
  m_HomeDir :: "string option"
  m_ExpandEnv :: "string \<Rightarrow> string"
  m_UnmarshalStore :: "string \<Rightarrow> go_error + (string \<times> string) list"
  m_Sprintf :: "string \<Rightarrow> string list \<Rightarrow> string"
  m_URLHost :: "string \<Rightarrow> go_error + string"
  m_NewRequest :: "string \<Rightarrow> go_error option"
  m_Get :: "redirect_check \<Rightarrow> int \<Rightarrow> string \<Rightarrow> 'w \<Rightarrow> (go_error + http_response) \<times> 'w"
  m_UnmarshalManifest :: "string \<Rightarrow> go_error + artifact_manifest"
  m_MarshalManifest :: "artifact_manifest \<Rightarrow> go_error + string"
  m_LockPlatform :: "string \<Rightarrow> (string \<times> string) option"
  m_RequirePHP :: "string \<Rightarrow> string option"
  m_RepositoryURLs :: "string \<Rightarrow> string list option"

text \<open>A machine without files or network, for the examples that use neither.\<close>

definition bare_machine :: "'w machine" where
  "bare_machine =
     \<lparr>m_Getwd = (\<lambda>w. Inr []), m_Stat = (\<lambda>p w. Inl (Sentinel ErrNotExist)),
      m_Lstat = (\<lambda>p w. Inl (Sentinel ErrNotExist)), m_Readlink = (\<lambda>p w. Inl (Sentinel ErrNotExist)),
      m_ReadFile = (\<lambda>p w. Inl (Sentinel ErrNotExist)), m_Walk = (\<lambda>p w. []),
      m_MkdirAll = (\<lambda>p w. (Some (Sentinel ErrNotExist), w)),
      m_ReadDir = (\<lambda>p w. Inl (Sentinel ErrNotExist)), m_RemoveAll = (\<lambda>p w. (None, w)),
      m_WriteFile = (\<lambda>p s w. (Some (Sentinel ErrNotExist), w)), m_IsRegular = (\<lambda>p w. False), m_HomeDir = None, m_ExpandEnv = id,
      m_UnmarshalStore = (\<lambda>s. Inr []), m_Sprintf = (\<lambda>f xs. f),
      m_URLHost = Inr, m_NewRequest = (\<lambda>u. None),
      m_Get = (\<lambda>check t u w. (Inl (Sentinel ErrNotExist), w)),
      m_UnmarshalManifest = (\<lambda>s. Inl (Sentinel ErrNotExist)), m_MarshalManifest = (\<lambda>m. Inr []),
      m_LockPlatform = (\<lambda>s. None), m_RequirePHP = (\<lambda>s. None), m_RepositoryURLs = (\<lambda>s. None)\<rparr>"

text \<open>The same machine in a world with a second component, which nothing here touches.\<close>

definition beside :: "'w machine \<Rightarrow> ('w \<times> 'x) machine" where
  "beside m =
     \<lparr>m_Getwd = m_Getwd m \<circ> fst, m_Stat = (\<lambda>p. m_Stat m p \<circ> fst), m_Lstat = (\<lambda>p. m_Lstat m p \<circ> fst),
      m_Readlink = (\<lambda>p. m_Readlink m p \<circ> fst), m_ReadFile = (\<lambda>p. m_ReadFile m p \<circ> fst),
      m_Walk = (\<lambda>p. m_Walk m p \<circ> fst),
      m_MkdirAll = (\<lambda>p (w, x). case m_MkdirAll m p w of (r, w') \<Rightarrow> (r, (w', x))),
      m_ReadDir = (\<lambda>p. m_ReadDir m p \<circ> fst),
      m_RemoveAll = (\<lambda>p (w, x). case m_RemoveAll m p w of (r, w') \<Rightarrow> (r, (w', x))),
      m_WriteFile = (\<lambda>p s (w, x). case m_WriteFile m p s w of (r, w') \<Rightarrow> (r, (w', x))),
      m_IsRegular = (\<lambda>p. m_IsRegular m p \<circ> fst), m_HomeDir = m_HomeDir m, m_ExpandEnv = m_ExpandEnv m, m_UnmarshalStore = m_UnmarshalStore m,
      m_Sprintf = m_Sprintf m, m_URLHost = m_URLHost m, m_NewRequest = m_NewRequest m,
      m_Get = (\<lambda>check t u (w, x). case m_Get m check t u w of (r, w') \<Rightarrow> (r, (w', x))),
      m_UnmarshalManifest = m_UnmarshalManifest m, m_MarshalManifest = m_MarshalManifest m,
      m_LockPlatform = m_LockPlatform m, m_RequirePHP = m_RequirePHP m,
      m_RepositoryURLs = m_RepositoryURLs m\<rparr>"

end
