(* ===== verification/Target.thy ===== *)
theory Target
  imports Release Resolve Vars Machine
begin

text \<open>
  The deployment target as the engine sees it (\<open>internal/deploy/host.go\<close>, \<open>runner.go\<close>, the
  reading and writing half of \<open>release.go\<close>, \<open>writeTargetFile\<close> of \<open>artifact.go\<close>, \<open>VarsFor\<close>
  of \<open>vars.go\<close> and \<open>discover.go\<close>).

  Everything behind the \<open>Runner\<close> interface is the argument \<open>env\<close>: a shell command is run in a
  world \<open>'w\<close> and gives a result, an optional error and the next world.  The JSON codec, the
  SHA-256 digest, the clock, its text form and the process environment are arguments too, and
  so is the machine govard runs on.  A command cut short by a
  timeout or a cancelled context is an error of the runner; the deadline itself is not
  modelled.  Text printed for the operator is not modelled.
\<close>

section \<open>Running commands\<close>

record cmd_result =
  Stdout :: string
  Stderr :: string
  ExitCode :: int

record run_options =
  Timeout :: int
  Stdin :: string
  Streamed :: bool

definition shortCommandTimeout :: int where "shortCommandTimeout = 2 * minute"

definition short_opts :: "bool \<Rightarrow> run_options" where
  "short_opts live = \<lparr>Timeout = shortCommandTimeout, Stdin = [], Streamed = live\<rparr>"

record lock_owner =
  own_PID :: int
  own_Actor :: string
  own_Revision :: string
  own_Branch :: string
  own_Host :: string
  own_StartedAt :: string

type_synonym 'w runner =
  "run_options \<Rightarrow> string \<Rightarrow> 'w \<Rightarrow> (cmd_result \<times> go_error option) \<times> 'w"

record 'w env =
  e_Run :: "'w runner"
  e_RunLocal :: "'w runner"
  e_Marshal :: "release \<Rightarrow> go_error + string"
  e_Unmarshal :: "string \<Rightarrow> go_error + release"
  e_UnmarshalOwner :: "string \<Rightarrow> lock_owner option"
  e_Clock :: "'w \<Rightarrow> int"
  e_FormatTime :: "int \<Rightarrow> string"
  e_ParseTime :: "string \<Rightarrow> int option"
  e_Getenv :: environment
  e_Pid :: int
  e_Sha256 :: "string \<Rightarrow> string"
  e_MarshalAssets :: "string \<times> string \<Rightarrow> string"
  e_UnmarshalAssets :: "string \<Rightarrow> (string \<times> string) option"
  e_Machine :: "'w machine"

section \<open>The host\<close>

record host =
  h_Name :: string
  h_Local :: bool
  h_Remote :: remote_config
  h_DeployPath :: string
  h_CurrentPath :: string
  h_Repository :: string

definition DepPath :: "host \<Rightarrow> string" where
  "DepPath h = path_join [h_DeployPath h, ''.dep'']"

definition DeployerLockPath :: "host \<Rightarrow> string" where
  "DeployerLockPath h = path_join [DepPath h, ''deploy.lock'']"

definition ReleasesPath :: "host \<Rightarrow> string" where
  "ReleasesPath h = path_join [h_DeployPath h, ''releases'']"

definition SharedPath :: "host \<Rightarrow> string" where
  "SharedPath h = path_join [h_DeployPath h, ''shared'']"

definition RepoPath :: "host \<Rightarrow> string" where
  "RepoPath h = path_join [h_DeployPath h, ''repo.git'']"

definition LockPath :: "host \<Rightarrow> string" where
  "LockPath h = path_join [DepPath h, ''govard.lock'']"

definition LockOwnerPath :: "host \<Rightarrow> string" where
  "LockOwnerPath h = path_join [LockPath h, ''owner.json'']"

definition HistoryPath :: "host \<Rightarrow> string" where
  "HistoryPath h = path_join [DepPath h, ''history.jsonl'']"

definition ReleasePath :: "string \<Rightarrow> host \<Rightarrow> string" where
  "ReleasePath release h = path_join [ReleasesPath h, release]"

definition ReleaseRecordPath :: "string \<Rightarrow> host \<Rightarrow> string" where
  "ReleaseRecordPath release h = path_join [ReleasePath release h, ''.dep'', ''release.json'']"

definition BackupRootPath :: "host \<Rightarrow> string" where
  "BackupRootPath h = path_join [SharedPath h, ''backups'', ''deploy'']"

definition SharedBackupPath :: "string \<Rightarrow> host \<Rightarrow> string" where
  "SharedBackupPath release h = path_join [BackupRootPath h, release]"

definition Shell :: "string \<Rightarrow> string" where
  "Shell p = QuoteRemotePath p"

definition HostForConfig ::
  "(config \<Rightarrow> go_error + remote_config) \<Rightarrow> config \<Rightarrow> string \<Rightarrow> options \<Rightarrow> go_error + host" where
  "HostForConfig sandboxRemote cfg remoteName opts =
     (let name = to_lower (trim_space remoteName) in
      case (if name = SandboxRemoteName then sandboxRemote cfg
            else case map_of (cf_Remotes cfg) name of
              None \<Rightarrow> Inl (errUnknownRemote name cfg)
            | Some found \<Rightarrow> Inr found) of
        Inl e \<Rightarrow> Inl e
      | Inr remoteCfg \<Rightarrow>
          Inr \<lparr>h_Name = name, h_Local = rc_Local remoteCfg, h_Remote = remoteCfg,
            h_DeployPath = effectiveDeployPath cfg remoteCfg, h_CurrentPath = rc_Path remoteCfg,
            h_Repository = opt_Repository opts\<rparr>)"

section \<open>Variables of a deploy\<close>

definition ShortRevision :: "string \<Rightarrow> string" where
  "ShortRevision revision = (if 8 < length revision then take 8 revision else revision)"

text \<open>The name of a setting in a template.\<close>

definition setting_var :: "string \<Rightarrow> string" where
  "setting_var key = ''settings.'' @ key"

definition set_text :: "string \<times> sval \<Rightarrow> vars \<Rightarrow> vars" where
  "set_text entry vs =
     (case SettingText (snd entry) of
        Some text \<Rightarrow> Set (setting_var (fst entry)) text vs
      | None \<Rightarrow> vs)"

definition set_verbatim :: "string list \<Rightarrow> string \<times> sval \<Rightarrow> vars \<Rightarrow> vars" where
  "set_verbatim rawSettings entry vs =
     (case SettingText (snd entry) of
        None \<Rightarrow> vs
      | Some text \<Rightarrow>
          if has_suffix (fst entry) ''_args'' then SetRaw (setting_var (fst entry)) text vs
          else if fst entry \<in> set rawSettings then
            SetRaw (setting_var (fst entry)) (if trim_space text = [] then ''true'' else text) vs
          else vs)"

definition base_vars :: "host \<Rightarrow> options \<Rightarrow> vars" where
  "base_vars h opts =
     SetRaw ''composer_bin'' (CommandWords (opt_Settings opts) ''composer_bin'' ''composer'')
     (SetRaw ''php_bin'' (CommandWords (opt_Settings opts) ''php_bin'' ''php'')
     (Set ''verify_url'' (opt_VerifyURL opts)
     (Set ''tag'' (opt_Tag opts)
     (Set ''revision'' (opt_Revision opts)
     (Set ''branch'' (opt_Branch opts)
     (Set ''release'' []
     (SetPath ''repo_path'' (RepoPath h)
     (SetPath ''shared_path'' (SharedPath h)
     (SetPath ''current_path'' (h_CurrentPath h)
     (SetPath ''deploy_path'' (h_DeployPath h)
     (SetPath ''previous_release'' []
     (SetPath ''release_path'' [] NewVars))))))))))))"

definition VarsFor :: "host \<Rightarrow> options \<Rightarrow> vars" where
  "VarsFor h opts =
     (let vars = base_vars h opts;
          vars = fold set_text (opt_Settings opts) vars;
          vars = fold (set_verbatim (opt_RawSettings opts)) (opt_Settings opts) vars
      in case map_of (opt_Settings opts) ''content_version'' of
           Some (SStr text) \<Rightarrow>
             if trim_space text = [] then
               Set ''settings.content_version'' (ShortRevision (opt_Revision opts)) vars
             else vars
         | _ \<Rightarrow> vars)"

section \<open>Files and records on the target\<close>

definition write_command :: "string \<Rightarrow> string" where
  "write_command target =
     (let temporary = target @ ''.tmp'' in
      ''mkdir -p '' @ Shell (path_dir target) @ '' && cat > '' @ Shell temporary @
      '' && mv '' @ Shell temporary @ '' '' @ Shell target)"

definition writeTargetFile ::
  "'w env \<Rightarrow> host \<Rightarrow> string \<Rightarrow> string \<Rightarrow> 'w \<Rightarrow> go_error option \<times> 'w" where
  "writeTargetFile env h target payload w =
     (case e_Run env \<lparr>Timeout = shortCommandTimeout, Stdin = payload, Streamed = False\<rparr>
         (write_command target) w of
        ((_, Some err), w) \<Rightarrow> (Some (Wrapf ''write %s on %s: %w'' [target, h_Name h] err), w)
      | ((_, None), w) \<Rightarrow> (None, w))"

definition WriteRelease :: "'w env \<Rightarrow> host \<Rightarrow> release option \<Rightarrow> 'w \<Rightarrow> go_error option \<times> 'w" where
  "WriteRelease env h release w =
     (case release of
        None \<Rightarrow> (Some (Errorf ''write release: nil record'' []), w)
      | Some rel \<Rightarrow>
          (case e_Marshal env rel of
             Inl err \<Rightarrow> (Some (Wrapf ''encode release record: %w'' [] err), w)
           | Inr payload \<Rightarrow>
               (case writeTargetFile env h (ReleaseRecordPath (rel_Release rel) h) payload w of
                  (Some err, w) \<Rightarrow>
                    (Some (Wrapf ''write release record %s: %w'' [rel_Release rel] err), w)
                | (None, w) \<Rightarrow> (None, w))))"

definition ReadRelease :: "'w env \<Rightarrow> host \<Rightarrow> string \<Rightarrow> 'w \<Rightarrow> (go_error + release) \<times> 'w" where
  "ReadRelease env h release w =
     (case e_Run env (short_opts False) (''cat '' @ Shell (ReleaseRecordPath release h)) w of
        ((_, Some err), w) \<Rightarrow> (Inl (Wrapf ''read release record %s: %w'' [release] err), w)
      | ((result, None), w) \<Rightarrow>
          (case e_Unmarshal env (Stdout result) of
             Inl err \<Rightarrow> (Inl (Wrapf ''parse release record %s: %w'' [release] err), w)
           | Inr record \<Rightarrow>
               if ReleaseSchemaVersion < rel_SchemaVersion record then
                 (Inl (Errorf ''release record %s has schema version %d; this govard only reads up to %d -- upgrade govard to manage it''
                   [release, itoa (rel_SchemaVersion record), itoa ReleaseSchemaVersion]), w)
               else (Inr (record\<lparr>rel_Path := ReleasePath release h\<rparr>), w)))"

definition list_command :: "string \<Rightarrow> string" where
  "list_command directory = ''ls -1 '' @ Shell directory @ '' 2>/dev/null || true''"

text \<open>The names of a listing: its lines, trimmed, without the blank ones.\<close>

definition listed :: "string \<Rightarrow> string list" where
  "listed out = filter (\<lambda>n. n \<noteq> []) (map trim_space (split_on CHR 0x0A out))"

definition mustAtoi :: "string \<Rightarrow> int" where
  "mustAtoi v = (case atoi v of Some n \<Rightarrow> n | None \<Rightarrow> 0)"

fun newest_incomplete ::
  "'w env \<Rightarrow> host \<Rightarrow> release option \<Rightarrow> string list \<Rightarrow> 'w \<Rightarrow> release option \<times> 'w" where
  "newest_incomplete env h newest [] w = (newest, w)"
| "newest_incomplete env h newest (name # names) w =
     (case ReadRelease env h name w of
        (Inl _, w) \<Rightarrow> newest_incomplete env h newest names w
      | (Inr record, w) \<Rightarrow>
          if rel_Tool record \<noteq> ReleaseTool \<or> rel_Status record = StatusOK then
            newest_incomplete env h newest names w
          else (case atoi name of
            None \<Rightarrow> newest_incomplete env h newest names w
          | Some number \<Rightarrow>
              (case newest of
                 None \<Rightarrow> newest_incomplete env h (Some record) names w
               | Some best \<Rightarrow>
                   newest_incomplete env h
                     (if mustAtoi (rel_Release best) < number then Some record else newest) names w)))"

definition IncompleteRelease ::
  "'w env \<Rightarrow> host \<Rightarrow> 'w \<Rightarrow> (go_error + release option) \<times> 'w" where
  "IncompleteRelease env h w =
     (case e_Run env (short_opts False) (list_command (ReleasesPath h)) w of
        ((_, Some err), w) \<Rightarrow> (Inl (Wrapf ''list releases: %w'' [] err), w)
      | ((result, None), w) \<Rightarrow>
          (case newest_incomplete env h None (listed (Stdout result)) w of (r, w) \<Rightarrow> (Inr r, w)))"

definition ResumeTarget ::
  "'w env \<Rightarrow> host \<Rightarrow> 'w \<Rightarrow> (go_error + release option) \<times> 'w" where
  "ResumeTarget env h w = IncompleteRelease env h w"

definition AppendHistory :: "'w env \<Rightarrow> host \<Rightarrow> release \<Rightarrow> 'w \<Rightarrow> go_error option \<times> 'w" where
  "AppendHistory env h rel w =
     (case e_Marshal env rel of
        Inl err \<Rightarrow> (Some (Wrapf ''encode history entry: %w'' [] err), w)
      | Inr payload \<Rightarrow>
          (case e_Run env
              \<lparr>Timeout = shortCommandTimeout, Stdin = payload @ [CHR 0x0A], Streamed = False\<rparr>
              (''mkdir -p '' @ Shell (DepPath h) @ '' && cat >> '' @ Shell (HistoryPath h)) w of
             ((_, Some err), w) \<Rightarrow> (Some (Wrapf ''append deploy history: %w'' [] err), w)
           | ((_, None), w) \<Rightarrow> (None, w)))"

section \<open>Discovering the deploy path\<close>

definition layoutProbe :: "string \<Rightarrow> string" where
  "layoutProbe candidate =
     (let markers = [''releases'', ''shared'', ''.dep''];
          tests = map (\<lambda>marker. ''[ -d '' @ Shell (path_join [candidate, marker]) @ '' ]'') markers @
            [''[ -L '' @ Shell (path_join [candidate, ''current'']) @ '' ]'']
      in join '' || '' tests)"

fun probe_layouts :: "'w env \<Rightarrow> string list \<Rightarrow> 'w \<Rightarrow> string list \<times> 'w" where
  "probe_layouts env [] w = ([], w)"
| "probe_layouts env (candidate # rest) w =
     (case e_Run env (short_opts False) (layoutProbe candidate) w of
        ((_, err), w) \<Rightarrow>
          (case probe_layouts env rest w of
             (matches, w) \<Rightarrow> (if err = None then candidate # matches else matches, w)))"

definition discoverDeployPath ::
  "'w env \<Rightarrow> host \<Rightarrow> string list \<Rightarrow> 'w \<Rightarrow> (go_error + string) \<times> 'w" where
  "discoverDeployPath env h candidates w =
     (if trim_space (h_DeployPath h) \<noteq> [] then (Inr (h_DeployPath h), w)
      else if candidates = [] then (Inl (Sentinel ErrDeployPathMissing), w)
      else case probe_layouts env candidates w of
        (matches, w) \<Rightarrow>
          (case matches of
             [] \<Rightarrow>
               (Inl (Wrapf ''%w: none of %s holds a deploy layout; set remotes.<name>.deploy.deploy_path''
                 [join '', '' candidates] (Sentinel ErrDeployPathMissing)), w)
           | [one] \<Rightarrow> (Inr one, w)
           | _ \<Rightarrow>
               (Inl (Wrapf ''%w: %s all hold a deploy layout; set remotes.<name>.deploy.deploy_path to choose one''
                 [join '', '' matches] (Sentinel ErrDeployPathMissing)), w)))"

definition deployPathCandidates :: "string list" where
  "deployPathCandidates = [''~'', ''~/.deployer'']"

definition DiscoverDeployPath :: "'w env \<Rightarrow> host \<Rightarrow> 'w \<Rightarrow> (go_error + string) \<times> 'w" where
  "DiscoverDeployPath env h w = discoverDeployPath env h deployPathCandidates w"

section \<open>The context of a step\<close>

text \<open>
  \<open>StepContext\<close> of \<open>recipe.go\<close>.  \<open>sc_Live\<close> says whether the step's commands stream their
  output, \<open>sc_Terminal\<close> whether that output is a terminal; a \<open>TaskFunc\<close> changes the release record it points to, so it returns it.
\<close>

record step_ctx =
  sc_Host :: host
  sc_Vars :: vars
  sc_Release :: "release option"
  sc_Opts :: options
  sc_WorkDir :: string
  sc_Checks :: "check list"
  sc_Live :: bool
  sc_Terminal :: bool

type_synonym 'w task_func = "'w env \<Rightarrow> step_ctx \<Rightarrow> 'w \<Rightarrow> (go_error option \<times> release option) \<times> 'w"

text \<open>A \<open>TaskFunc\<close> in full: it may also set a variable in the maps it shares.\<close>

type_synonym 'w core_run =
  "'w env \<Rightarrow> step_ctx \<Rightarrow> 'w \<Rightarrow> (go_error option \<times> release option \<times> vars) \<times> 'w"

text \<open>A bookkeeping command of a step, of which only the error is read.\<close>

definition step_exec :: "'w env \<Rightarrow> step_ctx \<Rightarrow> string \<Rightarrow> 'w \<Rightarrow> go_error option \<times> 'w" where
  "step_exec env sc cmd w =
     (case e_Run env (short_opts (sc_Live sc)) cmd w of ((_, err), w) \<Rightarrow> (err, w))"

section \<open>Lemmas\<close>

lemma setting_var_eq [simp]: "setting_var k = setting_var l \<longleftrightarrow> k = l"
  by (simp add: setting_var_def)

lemma set_text_fields:
  "var_raw (fold set_text m vs) = var_raw vs" "var_paths (fold set_text m vs) = var_paths vs"
  by (induction m arbitrary: vs) (auto simp: set_text_def Set_def split: option.splits)

lemma set_text_values:
  "distinct (map fst m) \<Longrightarrow>
   var_values (fold set_text m vs) (setting_var k) =
   (case map_of m k of
      None \<Rightarrow> var_values vs (setting_var k)
    | Some v \<Rightarrow> (case SettingText v of
        None \<Rightarrow> var_values vs (setting_var k) | Some text \<Rightarrow> Some text))"
proof (induction m arbitrary: vs)
  case Nil
  then show ?case by simp
next
  case (Cons e m)
  show ?case
  proof (cases "fst e = k")
    case True
    with Cons.prems have "map_of m k = None" by (auto simp: map_of_eq_None_iff)
    with True Cons show ?thesis
      by (cases e) (auto simp: set_text_def Set_def split: option.splits)
  next
    case False
    with Cons show ?thesis
      by (cases e) (auto simp: set_text_def Set_def split: option.splits)
  qed
qed

lemma set_verbatim_paths: "var_paths (fold (set_verbatim raw) m vs) = var_paths vs"
  by (induction m arbitrary: vs) (auto simp: set_verbatim_def SetRaw_def split: option.splits)

text \<open>What the second pass makes of one setting: a verbatim text, or nothing.\<close>

definition verbatim_text :: "string list \<Rightarrow> string \<Rightarrow> sval \<Rightarrow> string option" where
  "verbatim_text raw key v =
     (case SettingText v of
        None \<Rightarrow> None
      | Some text \<Rightarrow>
          if has_suffix key ''_args'' then Some text
          else if key \<in> set raw then Some (if trim_space text = [] then ''true'' else text)
          else None)"

lemma set_verbatim_step:
  "set_verbatim raw (key, v) vs =
   (case verbatim_text raw key v of None \<Rightarrow> vs | Some text \<Rightarrow> SetRaw (setting_var key) text vs)"
  by (simp add: set_verbatim_def verbatim_text_def split: option.split)

lemma set_verbatim_fields:
  "distinct (map fst m) \<Longrightarrow>
   var_values (fold (set_verbatim raw) m vs) (setting_var k) =
     (case map_of m k of
        None \<Rightarrow> var_values vs (setting_var k)
      | Some v \<Rightarrow> (case verbatim_text raw k v of
          None \<Rightarrow> var_values vs (setting_var k) | Some text \<Rightarrow> Some text)) \<and>
   var_raw (fold (set_verbatim raw) m vs) (setting_var k) =
     (case map_of m k of
        None \<Rightarrow> var_raw vs (setting_var k)
      | Some v \<Rightarrow> verbatim_text raw k v \<noteq> None \<or> var_raw vs (setting_var k))"
proof (induction m arbitrary: vs)
  case Nil
  then show ?case by simp
next
  case (Cons e m)
  obtain key v where e: "e = (key, v)" by (cases e)
  show ?case
  proof (cases "key = k")
    case True
    with Cons.prems e have "map_of m k = None" by (auto simp: map_of_eq_None_iff)
    with True Cons e show ?thesis
      by (auto simp: set_verbatim_step SetRaw_def split: option.splits)
  next
    case False
    with Cons e show ?thesis
      by (auto simp: set_verbatim_step SetRaw_def split: option.splits)
  qed
qed

lemma base_vars_settings:
  "var_values (base_vars h opts) (setting_var k) = None"
  "var_raw (base_vars h opts) (setting_var k) = False"
  "var_paths (base_vars h opts) (setting_var k) = False"
  by (simp_all add: setting_var_def base_vars_def NewVars_def Set_def SetPath_def SetRaw_def)

lemma VarsFor_at:
  assumes "key \<noteq> ''content_version''"
  shows "substitute (VarsFor h opts) (setting_var key) =
    substitute (fold (set_verbatim (opt_RawSettings opts)) (opt_Settings opts)
      (fold set_text (opt_Settings opts) (base_vars h opts))) (setting_var key)"
proof -
  have "''settings.content_version'' \<noteq> setting_var key"
    using assms by (simp add: setting_var_def)
  then show ?thesis
    by (simp add: VarsFor_def Let_def substitute_def Set_def split: option.split sval.split)
qed

section \<open>Properties\<close>

text \<open>
  How a setting reaches a command: an argument list verbatim, a shell fragment verbatim
  with an empty one replaced by the command that does nothing, and every other setting as one
  quoted word; no setting can rebind a variable of the engine.
\<close>

theorem VarsFor_settings:
  assumes "distinct (map fst (opt_Settings opts))"
    and "map_of (opt_Settings opts) key = Some v" and "SettingText v = Some text"
    and "key \<noteq> ''content_version''"
  shows "substitute (VarsFor h opts) (setting_var key) =
      (if has_suffix key ''_args'' then text
       else if key \<in> set (opt_RawSettings opts) then (if trim_space text = [] then ''true'' else text)
       else ShellQuote text)"
  unfolding VarsFor_at [OF assms(4)]
  using assms(2,3) set_text_values [OF assms(1), of "base_vars h opts" key]
    set_verbatim_fields [OF assms(1), of "opt_RawSettings opts" "fold set_text (opt_Settings opts) (base_vars h opts)" key]
  by (simp add: substitute_def set_verbatim_paths set_text_fields base_vars_settings verbatim_text_def)

definition demo_host :: host where
  "demo_host = \<lparr>h_Name = ''staging'', h_Local = False,
     h_Remote = plain_remote ''/var/www'' None,
     h_DeployPath = ''/srv/shop'', h_CurrentPath = ''/srv/shop/current'', h_Repository = []\<rparr>"

theorem VarsFor_settings_witness:
  "substitute (VarsFor demo_host demo_options) (setting_var ''owner'') = ShellQuote ''www''"
proof -
  have "distinct (map fst (opt_Settings demo_options))"
    "map_of (opt_Settings demo_options) ''owner'' = Some (SStr ''www'')"
    "SettingText (SStr ''www'') = Some ''www''" "''owner'' \<noteq> ''content_version''"
    "\<not> has_suffix ''owner'' ''_args''" "''owner'' \<notin> set (opt_RawSettings demo_options)"
    by code_simp+
  then show ?thesis
    using VarsFor_settings [of demo_options "''owner''" "SStr ''www''" "''www''" demo_host] by simp
qed

text \<open>
  What the engine relies on when it stores a record: a file written and renamed into place is
  read back as written, and the codec gives back the record without its path.
\<close>

definition keeps_file :: "'w env \<Rightarrow> string \<Rightarrow> bool" where
  "keeps_file env target \<longleftrightarrow>
     (\<forall>payload w res w'.
        e_Run env \<lparr>Timeout = shortCommandTimeout, Stdin = payload, Streamed = False\<rparr>
          (write_command target) w = ((res, None), w') \<longrightarrow>
        (\<exists>res'. fst (e_Run env (short_opts False) (''cat '' @ Shell target) w') = (res', None) \<and>
           Stdout res' = payload))"

definition codec_keeps :: "'w env \<Rightarrow> release \<Rightarrow> bool" where
  "codec_keeps env rel \<longleftrightarrow>
     (\<forall>payload. e_Marshal env rel = Inr payload \<longrightarrow>
        e_Unmarshal env payload = Inr (rel\<lparr>rel_Path := []\<rparr>))"

lemma WriteRelease_None:
  assumes "WriteRelease env h (Some rel) w = (None, w')"
  obtains payload res where "e_Marshal env rel = Inr payload"
    "e_Run env \<lparr>Timeout = shortCommandTimeout, Stdin = payload, Streamed = False\<rparr>
       (write_command (ReleaseRecordPath (rel_Release rel) h)) w = ((res, None), w')"
  using assms that
  by (auto simp: WriteRelease_def writeTargetFile_def split: sum.splits prod.splits option.splits)

text \<open>
  A record that was written is the record a later command reads, with the release's own
  directory as its path, unless it carries a schema newer than this program's.
\<close>

theorem WriteRelease_ReadRelease:
  assumes "keeps_file env (ReleaseRecordPath (rel_Release rel) h)" and "codec_keeps env rel"
    and "WriteRelease env h (Some rel) w = (None, w')"
  shows "(case fst (ReadRelease env h (rel_Release rel) w') of
      Inr record \<Rightarrow> rel_SchemaVersion rel \<le> ReleaseSchemaVersion \<and>
        record = rel\<lparr>rel_Path := ReleasePath (rel_Release rel) h\<rparr>
    | Inl err \<Rightarrow> ReleaseSchemaVersion < rel_SchemaVersion rel)"
proof -
  obtain payload res where m: "e_Marshal env rel = Inr payload"
    and run: "e_Run env \<lparr>Timeout = shortCommandTimeout, Stdin = payload, Streamed = False\<rparr>
       (write_command (ReleaseRecordPath (rel_Release rel) h)) w = ((res, None), w')"
    using assms(3) by (rule WriteRelease_None)
  obtain res' w'' where r:
    "e_Run env (short_opts False) (''cat '' @ Shell (ReleaseRecordPath (rel_Release rel) h)) w' = ((res', None), w'')"
    and out: "Stdout res' = payload"
    using assms(1) run unfolding keeps_file_def by (metis prod.collapse)
  have "e_Unmarshal env payload = Inr (rel\<lparr>rel_Path := []\<rparr>)"
    using assms(2) m by (simp add: codec_keeps_def)
  with r out show ?thesis by (simp add: ReadRelease_def not_le)
qed

text \<open>A target with one file and a codec for one record, to run the definitions on.\<close>

definition demo_release :: release where
  "demo_release = (NewRelease (\<lambda>_. []) ''2024-05-01T10:00:00Z'' ''7'' ''abc'' ''main'')"

definition one_file_env :: "string option env" where
  "one_file_env =
     \<lparr>e_Run = (\<lambda>opts cmd w.
        if cmd = write_command (ReleaseRecordPath ''7'' demo_host) then
          ((\<lparr>Stdout = [], Stderr = [], ExitCode = 0\<rparr>, None), Some (Stdin opts))
        else case w of
          Some file \<Rightarrow> ((\<lparr>Stdout = file, Stderr = [], ExitCode = 0\<rparr>, None), w)
        | None \<Rightarrow> ((\<lparr>Stdout = [], Stderr = [], ExitCode = 0\<rparr>, Some (CommandError cmd 1 [])), w)),
      e_RunLocal = (\<lambda>opts cmd w. ((\<lparr>Stdout = [], Stderr = [], ExitCode = 0\<rparr>, None), w)),
      e_Marshal = (\<lambda>r. Inr ''record''), e_Unmarshal = (\<lambda>s. Inr demo_release),
      e_UnmarshalOwner = (\<lambda>s. None), e_Clock = (\<lambda>w. 0), e_FormatTime = (\<lambda>t. ''now''),
      e_ParseTime = (\<lambda>s. None), e_Getenv = (\<lambda>s. []), e_Pid = 42,
      e_Sha256 = (\<lambda>s. s), e_MarshalAssets = fst, e_UnmarshalAssets = (\<lambda>s. None), e_Machine = bare_machine\<rparr>"

theorem WriteRelease_ReadRelease_witness:
  "fst (ReadRelease one_file_env demo_host ''7'' (Some ''record'')) =
   Inr (demo_release\<lparr>rel_Path := ReleasePath ''7'' demo_host\<rparr>)"
proof -
  have different: "''cat '' @ Shell p \<noteq> write_command q" for p q
    by (simp add: write_command_def Let_def)
  have "keeps_file one_file_env (ReleaseRecordPath (rel_Release demo_release) demo_host)"
    unfolding keeps_file_def
    by (auto simp: one_file_env_def demo_release_def NewRelease_def different [simplified] split: if_splits)
  moreover have "codec_keeps one_file_env demo_release"
    by (simp add: codec_keeps_def one_file_env_def demo_release_def NewRelease_def)
  moreover have "WriteRelease one_file_env demo_host (Some demo_release) None = (None, Some ''record'')"
    by (simp add: WriteRelease_def writeTargetFile_def one_file_env_def demo_release_def NewRelease_def)
  moreover have "rel_Release demo_release = ''7''" "rel_SchemaVersion demo_release = ReleaseSchemaVersion"
    by (simp_all add: demo_release_def NewRelease_def)
  ultimately show ?thesis
    using WriteRelease_ReadRelease [of one_file_env demo_release demo_host None "Some ''record''"]
    by (simp split: sum.splits)
qed

text \<open>
  A view of the target: reading the record of any release answers from the view and changes
  nothing.  The release a resume continues is then a function of the listing and the view.
\<close>

definition reads_view :: "'w env \<Rightarrow> host \<Rightarrow> (string \<Rightarrow> go_error + release) \<Rightarrow> bool" where
  "reads_view env h view \<longleftrightarrow> (\<forall>name w. ReadRelease env h name w = (view name, w))"

definition unfinished :: "(string \<Rightarrow> go_error + release) \<Rightarrow> string \<Rightarrow> bool" where
  "unfinished view name \<longleftrightarrow>
     (case view name of
        Inl _ \<Rightarrow> False
      | Inr r \<Rightarrow> rel_Tool r = ReleaseTool \<and> rel_Status r \<noteq> StatusOK \<and> atoi name \<noteq> None)"

text \<open>The record stored for a release names that release.\<close>

definition named_in :: "(string \<Rightarrow> go_error + release) \<Rightarrow> string \<Rightarrow> bool" where
  "named_in view name = (case view name of Inr r \<Rightarrow> rel_Release r = name | Inl e \<Rightarrow> True)"

text \<open>A newer candidate of the search, and the search's invariant.\<close>

definition best_of :: "(string \<Rightarrow> go_error + release) \<Rightarrow> string set \<Rightarrow> release option \<Rightarrow> bool" where
  "best_of view seen newest \<longleftrightarrow>
     (case newest of
        None \<Rightarrow> (\<forall>n \<in> seen. \<not> unfinished view n)
      | Some r \<Rightarrow> (\<exists>n \<in> seen. unfinished view n \<and> view n = Inr r) \<and>
          (\<forall>n \<in> seen. unfinished view n \<longrightarrow> mustAtoi n \<le> mustAtoi (rel_Release r)))"

lemma newest_incomplete_best:
  assumes "reads_view env h view"
  shows "best_of view seen newest \<Longrightarrow> list_all (named_in view) names \<Longrightarrow>
    best_of view (seen \<union> set names) (fst (newest_incomplete env h newest names w))"
proof (induction names arbitrary: seen newest)
  case Nil
  then show ?case by simp
next
  case (Cons name names)
  let ?next = "if unfinished view name \<and>
      (case newest of None \<Rightarrow> True | Some b \<Rightarrow> mustAtoi (rel_Release b) < mustAtoi name)
    then (case view name of Inr r \<Rightarrow> Some r | Inl _ \<Rightarrow> newest) else newest"
  have step: "newest_incomplete env h newest (name # names) w = newest_incomplete env h ?next names w"
    using assms
    by (auto simp: reads_view_def unfinished_def mustAtoi_def split: sum.splits option.splits)
  have "best_of view (insert name seen) ?next"
    using Cons.prems
    by (auto simp: best_of_def unfinished_def named_in_def split: sum.splits option.splits if_splits)
  from Cons.IH [OF this] Cons.prems(2) show ?case unfolding step by simp
qed

text \<open>
  A resume continues the newest release that this tool started and did not finish, by
  release number, and finds none exactly when every release of this tool is finished.
\<close>

theorem IncompleteRelease_newest:
  assumes "reads_view env h view" and "list_all (named_in view) (listed (Stdout result))"
    and "e_Run env (short_opts False) (list_command (ReleasesPath h)) w = ((result, None), w')"
  shows "case fst (IncompleteRelease env h w) of
      Inl e \<Rightarrow> False
    | Inr None \<Rightarrow> \<forall>n \<in> set (listed (Stdout result)). \<not> unfinished view n
    | Inr (Some r) \<Rightarrow> rel_Release r \<in> set (listed (Stdout result)) \<and> unfinished view (rel_Release r) \<and>
        (\<forall>n \<in> set (listed (Stdout result)). unfinished view n \<longrightarrow> mustAtoi n \<le> mustAtoi (rel_Release r))"
proof -
  have "best_of view {} None" by (simp add: best_of_def)
  from newest_incomplete_best [OF assms(1) this assms(2), of w']
  have "best_of view (set (listed (Stdout result)))
      (fst (newest_incomplete env h None (listed (Stdout result)) w'))" by simp
  then show ?thesis
    using assms(2,3)
    by (auto simp: IncompleteRelease_def best_of_def list_all_iff named_in_def
        split: prod.splits option.splits)
qed

text \<open>A target with a finished and two unfinished releases, which no command changes.\<close>

definition three_releases :: "string list" where
  "three_releases = [''9'', ''10'', ''11'']"

definition listing_env :: "unit env" where
  "listing_env = \<lparr>e_Run = (\<lambda>opts cmd w.
      if cmd = list_command (ReleasesPath demo_host) then
        ((\<lparr>Stdout = join [CHR 0x0A] three_releases, Stderr = [], ExitCode = 0\<rparr>, None), w)
      else case List.find (\<lambda>n. cmd = ''cat '' @ Shell (ReleaseRecordPath n demo_host)) three_releases of
        Some n \<Rightarrow> ((\<lparr>Stdout = n, Stderr = [], ExitCode = 0\<rparr>, None), w)
      | None \<Rightarrow> ((\<lparr>Stdout = [], Stderr = [], ExitCode = 0\<rparr>, Some (CommandError cmd 1 [])), w)),
    e_RunLocal = (\<lambda>opts cmd w. ((\<lparr>Stdout = [], Stderr = [], ExitCode = 0\<rparr>, None), w)),
    e_Marshal = (\<lambda>r. Inr ''record''),
    e_Unmarshal = (\<lambda>s. Inr (demo_release\<lparr>rel_Release := s,
      rel_Status := (if s = ''11'' then StatusOK else StatusFailed)\<rparr>)),
    e_UnmarshalOwner = (\<lambda>s. None), e_Clock = (\<lambda>w. 0), e_FormatTime = (\<lambda>t. ''now''),
    e_ParseTime = (\<lambda>s. None), e_Getenv = (\<lambda>s. []), e_Pid = 42,
      e_Sha256 = (\<lambda>s. s), e_MarshalAssets = fst, e_UnmarshalAssets = (\<lambda>s. None), e_Machine = bare_machine\<rparr>"

theorem IncompleteRelease_newest_witness:
  "case fst (IncompleteRelease listing_env demo_host ()) of
     Inr (Some r) \<Rightarrow> rel_Release r = ''10'' | _ \<Rightarrow> False"
proof -
  let ?view = "\<lambda>n. fst (ReadRelease listing_env demo_host n ())"
  let ?result = "fst (fst (e_Run listing_env (short_opts False) (list_command (ReleasesPath demo_host)) ()))"
  have view: "reads_view listing_env demo_host ?view" by (simp add: reads_view_def prod_eq_iff)
  have names: "list_all (named_in ?view) (listed (Stdout ?result))" by code_simp
  have run: "e_Run listing_env (short_opts False) (list_command (ReleasesPath demo_host)) () =
      ((?result, None), ())"
    by (simp add: listing_env_def)
  have listing: "listed (Stdout ?result) = three_releases" by code_simp
  have unf: "unfinished ?view ''9''" "unfinished ?view ''10''" "\<not> unfinished ?view ''11''" by code_simp+
  have num: "mustAtoi ''9'' = 9" "mustAtoi ''10'' = 10" by code_simp+
  have names_cases: "n = ''9'' \<or> n = ''10'' \<or> n = ''11''" if "n \<in> set three_releases" for n
    using that by (simp add: three_releases_def)
  have mem: "''9'' \<in> set three_releases" "''10'' \<in> set three_releases"
    by (simp_all add: three_releases_def)
  obtain r where r: "fst (IncompleteRelease listing_env demo_host ()) = Inr (Some r)"
      and in_list: "rel_Release r \<in> set three_releases" and open_r: "unfinished ?view (rel_Release r)"
      and best: "\<forall>n \<in> set three_releases. unfinished ?view n \<longrightarrow> mustAtoi n \<le> mustAtoi (rel_Release r)"
    using IncompleteRelease_newest [OF view names run] unf mem listing
    by (auto split: sum.splits option.splits)
  have "rel_Release r \<noteq> ''11''" using open_r unf(3) by metis
  moreover have "rel_Release r \<noteq> ''9''" using best mem(2) unf(2) num by fastforce
  ultimately have "rel_Release r = ''10''" using names_cases [OF in_list] by blast
  with r show ?thesis by simp
qed

definition probes_layout :: "'w env \<Rightarrow> (string \<Rightarrow> bool) \<Rightarrow> bool" where
  "probes_layout env holds \<longleftrightarrow>
     (\<forall>c w. snd (e_Run env (short_opts False) (layoutProbe c) w) = w \<and>
        (snd (fst (e_Run env (short_opts False) (layoutProbe c) w)) = None \<longleftrightarrow> holds c))"

lemma probe_layouts_filter:
  "probes_layout env holds \<Longrightarrow> probe_layouts env cs w = (filter holds cs, w)"
proof (induction cs arbitrary: w)
  case Nil
  then show ?case by simp
next
  case (Cons c cs)
  obtain res err w' where run: "e_Run env (short_opts False) (layoutProbe c) w = ((res, err), w')"
    by (metis prod.collapse)
  with Cons.prems have "w' = w" "err = None \<longleftrightarrow> holds c"
    unfolding probes_layout_def by (metis fst_conv snd_conv)+
  with run Cons show ?case by (simp split: prod.split)
qed

text \<open>
  A deploy path that is not configured is adopted from the target only when exactly one of
  the candidates holds a layout; none and several are both refused as a missing deploy path.
\<close>

theorem discoverDeployPath_unambiguous:
  assumes "trim_space (h_DeployPath h) = []" and "probes_layout env holds"
  shows "case fst (discoverDeployPath env h candidates w) of
      Inr p \<Rightarrow> filter holds candidates = [p]
    | Inl e \<Rightarrow> length (filter holds candidates) \<noteq> 1 \<and> errors_is e ErrDeployPathMissing"
  using assms(1) probe_layouts_filter [OF assms(2), of candidates w]
  by (cases "filter holds candidates" rule: remdups_adj.cases)
    (auto simp: discoverDeployPath_def split: list.split)

theorem discoverDeployPath_unambiguous_witness:
  "fst (DiscoverDeployPath (listing_env\<lparr>e_Run := (\<lambda>opts cmd w.
       ((\<lparr>Stdout = [], Stderr = [], ExitCode = 0\<rparr>,
         if cmd = layoutProbe ''~/.deployer'' then None else Some (CommandError cmd 1 [])), w))\<rparr>)
     (demo_host\<lparr>h_DeployPath := '' ''\<rparr>) ()) = Inr ''~/.deployer''"
proof -
  let ?env = "listing_env\<lparr>e_Run := (\<lambda>opts cmd w.
       ((\<lparr>Stdout = [], Stderr = [], ExitCode = 0\<rparr>,
         if cmd = layoutProbe ''~/.deployer'' then None else Some (CommandError cmd 1 [])), w))\<rparr>"
  let ?holds = "\<lambda>c. layoutProbe c = layoutProbe ''~/.deployer''"
  have "probes_layout ?env ?holds" by (simp add: probes_layout_def)
  moreover have "trim_space (h_DeployPath (demo_host\<lparr>h_DeployPath := '' ''\<rparr>)) = []" by code_simp
  moreover have "filter ?holds deployPathCandidates = [''~/.deployer'']" by code_simp
  ultimately show ?thesis
    using discoverDeployPath_unambiguous [of "demo_host\<lparr>h_DeployPath := '' ''\<rparr>" ?env ?holds deployPathCandidates "()"]
    unfolding DiscoverDeployPath_def by (auto split: sum.splits)
qed

end
