(* ===== verification/Lock.thy ===== *)
theory Lock
  imports Target
begin

text \<open>
  The deploy lock (\<open>internal/deploy/tasks_prepare.go\<close>): \<open>CoreLock\<close>, \<open>CoreUnlock\<close> and the
  description of the holder, each command of the source a command of the model.  A step
  relation runs the same commands one at a time for any number of deployers, and \<open>CoreLock\<close>
  is shown to be a path of it.
\<close>

section \<open>Rendering the owner\<close>

text \<open>
  \<open>strconv.Quote\<close> on bytes: the printable ASCII characters stand for themselves, the quote and
  the backslash are escaped, control characters take their escape.  Bytes above 0x7E are kept,
  as the printable characters of a UTF-8 text are.
\<close>

definition hex_digit :: "nat \<Rightarrow> char" where
  "hex_digit n = char_of (if n < 10 then 48 + n else 87 + n)"

definition quote_char :: "char \<Rightarrow> string" where
  "quote_char c =
     (if c = dq \<or> c = bsl then [bsl, c]
      else if c = CHR 0x07 then [bsl, CHR ''a'']
      else if c = CHR 0x08 then [bsl, CHR ''b'']
      else if c = CHR 0x0C then [bsl, CHR ''f'']
      else if c = CHR 0x0A then [bsl, CHR ''n'']
      else if c = CHR 0x0D then [bsl, CHR ''r'']
      else if c = CHR 0x09 then [bsl, CHR ''t'']
      else if c = CHR 0x0B then [bsl, CHR ''v'']
      else if c < CHR '' '' \<or> c = CHR 0x7F then
        [bsl, CHR ''x'', hex_digit (of_char c div 16), hex_digit (of_char c mod 16)]
      else [c])"

definition go_quote :: "string \<Rightarrow> string" where
  "go_quote s = [dq] @ concat (map quote_char s) @ [dq]"

definition owner_json :: "'w env \<Rightarrow> step_ctx \<Rightarrow> 'w \<Rightarrow> string" where
  "owner_json env sc w =
     (let key = (\<lambda>k. [dq] @ k @ [dq, CHR '':'']) in
      ''{'' @ key ''pid'' @ itoa (e_Pid env) @ '','' @
      key ''actor'' @ go_quote (currentActor (e_Getenv env)) @ '','' @
      key ''revision'' @ go_quote (opt_Revision (sc_Opts sc)) @ '','' @
      key ''branch'' @ go_quote (opt_Branch (sc_Opts sc)) @ '','' @
      key ''host'' @ go_quote (h_Name (sc_Host sc)) @ '','' @
      key ''started_at'' @ go_quote (e_FormatTime env (e_Clock env w)) @ ''}'')"

section \<open>The commands\<close>

definition lockHeldExitCode :: int where "lockHeldExitCode = 9"

definition deployer_lock_command :: "host \<Rightarrow> string" where
  "deployer_lock_command h = ''test -e '' @ Shell (DeployerLockPath h)"

definition acquire_command :: "host \<Rightarrow> string" where
  "acquire_command h =
     (let lock = Shell (LockPath h) in
      ''mkdir -p '' @ Shell (DepPath h) @ '' && { err=$(mkdir '' @ lock @ '' 2>&1) || { [ -d '' @ lock @
      '' ] && exit '' @ itoa lockHeldExitCode @ ''; printf '' @ [sq] @ ''%s'' @ [bsl, CHR ''n'', sq] @
      '' '' @ [dq] @ ''$err'' @ [dq] @ '' >&2; exit 1; }; }'')"

definition owner_command :: "host \<Rightarrow> string" where
  "owner_command h = ''cat > '' @ Shell (LockOwnerPath h)"

definition owner_opts :: "'w env \<Rightarrow> step_ctx \<Rightarrow> 'w \<Rightarrow> run_options" where
  "owner_opts env sc w =
     \<lparr>Timeout = shortCommandTimeout, Stdin = owner_json env sc w, Streamed = sc_Live sc\<rparr>"

definition unlock_command :: "host \<Rightarrow> string" where
  "unlock_command h = ''rm -rf '' @ Shell (LockPath h)"

definition read_owner_command :: "host \<Rightarrow> string" where
  "read_owner_command h = ''cat '' @ Shell (LockOwnerPath h)"

section \<open>The holder\<close>

text \<open>The holder's description and how long the lock has been held, \<open>-1\<close> when not known.\<close>

definition describeLockOwner :: "'w env \<Rightarrow> host \<Rightarrow> int \<Rightarrow> 'w \<Rightarrow> (string \<times> int) \<times> 'w" where
  "describeLockOwner env h now w =
     (case e_Run env (short_opts False) (read_owner_command h) w of
        ((_, Some _), w) \<Rightarrow> ((''unknown'', -1), w)
      | ((result, None), w) \<Rightarrow>
          (case e_UnmarshalOwner env (Stdout result) of
             None \<Rightarrow> ((''unknown'', -1), w)
           | Some owner \<Rightarrow>
               (let who = trim_space (own_Actor owner);
                    who = (if who = [] then ''unknown'' else who);
                    revision = trim_space (own_Revision owner);
                    who = (if revision \<noteq> [] then who @ '' at '' @ ShortRevision revision else who);
                    machine = trim_space (own_Host owner);
                    who = (if machine \<noteq> [] then who @ '' on '' @ machine else who);
                    who = (if 0 < own_PID owner then who @ '' (pid '' @ itoa (own_PID owner) @ '')'' else who)
                in case e_ParseTime env (trim_space (own_StartedAt owner)) of
                     None \<Rightarrow> ((who, -1), w)
                   | Some started \<Rightarrow> ((who, now - started), w))))"

definition DescribeLockOwner :: "'w env \<Rightarrow> host \<Rightarrow> 'w \<Rightarrow> (string \<times> int) \<times> 'w" where
  "DescribeLockOwner env h w = describeLockOwner env h (e_Clock env w) w"

text \<open>\<open>Duration.Round(time.Second)\<close> of a duration that is not negative.\<close>

definition round_second :: "int \<Rightarrow> int" where
  "round_second d = (d + 5 * 10 ^ 8) div 10 ^ 9 * 10 ^ 9"

section \<open>Taking and releasing the lock\<close>

definition lock_held_error :: "host \<Rightarrow> string \<times> int \<Rightarrow> go_error" where
  "lock_held_error h description =
     (case description of (holder, heldFor) \<Rightarrow>
        if 0 \<le> heldFor then
          Wrapf ''%w: %s held for %s by %s'' [LockPath h, itoa (round_second heldFor), holder]
            (Sentinel ErrLockHeld)
        else Wrapf ''%w: %s held by %s'' [LockPath h, holder] (Sentinel ErrLockHeld))"

definition deployer_lock_error :: "host \<Rightarrow> go_error" where
  "deployer_lock_error h =
     Wrapf ''%w: %s exists (pass --ignore-deployer-lock to override)'' [DeployerLockPath h]
       (Sentinel ErrDeployerLockHeld)"

definition record_owner :: "'w env \<Rightarrow> step_ctx \<Rightarrow> 'w \<Rightarrow> go_error option \<times> 'w" where
  "record_owner env sc w =
     (case e_Run env (owner_opts env sc w) (owner_command (sc_Host sc)) w of
        ((_, None), w) \<Rightarrow> (None, w)
      | ((_, Some err), w) \<Rightarrow>
          (case step_exec env sc (unlock_command (sc_Host sc)) w of
             (Some cleanupErr, w) \<Rightarrow>
               (Some (Wrapf ''record lock owner: %w (the lock at %s could not be released either, run `govard deploy unlock`: %v)''
                  (LockPath (sc_Host sc) # error_text cleanupErr) err), w)
           | (None, w) \<Rightarrow> (Some (Wrapf ''record lock owner (the lock was released): %w'' [] err), w)))"

definition acquire :: "'w env \<Rightarrow> step_ctx \<Rightarrow> 'w \<Rightarrow> go_error option \<times> 'w" where
  "acquire env sc w =
     (case step_exec env sc (acquire_command (sc_Host sc)) w of
        (Some err, w) \<Rightarrow>
          (if command_exit_code err = Some lockHeldExitCode then
             (case DescribeLockOwner env (sc_Host sc) w of
                (description, w) \<Rightarrow> (Some (lock_held_error (sc_Host sc) description), w))
           else (Some (Wrapf ''acquire deploy lock: %w'' [] err), w))
      | (None, w) \<Rightarrow> record_owner env sc w)"

definition CoreLock :: "'w env \<Rightarrow> step_ctx \<Rightarrow> 'w \<Rightarrow> go_error option \<times> 'w" where
  "CoreLock env sc w =
     (if opt_IgnoreDeployerLock (sc_Opts sc) then acquire env sc w
      else case step_exec env sc (deployer_lock_command (sc_Host sc)) w of
        (None, w) \<Rightarrow> (Some (deployer_lock_error (sc_Host sc)), w)
      | (Some _, w) \<Rightarrow> acquire env sc w)"

definition CoreUnlock :: "'w env \<Rightarrow> step_ctx \<Rightarrow> 'w \<Rightarrow> go_error option \<times> 'w" where
  "CoreUnlock env sc w =
     (case step_exec env sc (unlock_command (sc_Host sc)) w of
        (Some err, w) \<Rightarrow> (Some (Wrapf ''release deploy lock: %w'' [] err), w)
      | (None, w) \<Rightarrow> (None, w))"

section \<open>Deployers interleaved\<close>

text \<open>
  Where a deployer is: before the lock, past the check for the other tool's lock, refused by
  the lock, holding the lock directory with no owner in it, undoing that, or holding the lock.
\<close>

datatype lock_pc = Idle | Checked | Refused | Owning | Undoing | Holding

text \<open>The phases in which the lock directory is this deployer's.\<close>

definition has_lock :: "lock_pc \<Rightarrow> bool" where
  "has_lock pc \<longleftrightarrow> pc \<in> set [Owning, Undoing, Holding]"

text \<open>
  One command of one deployer \<open>d\<close>.  \<open>work\<close> is any other command of a deployer that holds the
  lock and leaves the lock directory where it is; \<open>drift\<close> is anything else that happens on the
  target and does not touch the lock.
\<close>

inductive lock_step ::
  "'w env \<Rightarrow> ('d \<Rightarrow> step_ctx) \<Rightarrow> ('w \<Rightarrow> bool) \<Rightarrow> 'w \<times> ('d \<Rightarrow> lock_pc) \<Rightarrow> 'w \<times> ('d \<Rightarrow> lock_pc) \<Rightarrow> bool"
  for env :: "'w env" and ctx :: "'d \<Rightarrow> step_ctx" and locked :: "'w \<Rightarrow> bool" where
  ignore_deployer: "pc d = Idle \<Longrightarrow> opt_IgnoreDeployerLock (sc_Opts (ctx d)) \<Longrightarrow>
     lock_step env ctx locked (w, pc) (w, pc(d := Checked))"
| deployer_free: "pc d = Idle \<Longrightarrow> \<not> opt_IgnoreDeployerLock (sc_Opts (ctx d)) \<Longrightarrow>
     step_exec env (ctx d) (deployer_lock_command (sc_Host (ctx d))) w = (Some e, w') \<Longrightarrow>
     lock_step env ctx locked (w, pc) (w', pc(d := Checked))"
| deployer_held: "pc d = Idle \<Longrightarrow> \<not> opt_IgnoreDeployerLock (sc_Opts (ctx d)) \<Longrightarrow>
     step_exec env (ctx d) (deployer_lock_command (sc_Host (ctx d))) w = (None, w') \<Longrightarrow>
     lock_step env ctx locked (w, pc) (w', pc)"
| acquired: "pc d = Checked \<Longrightarrow>
     step_exec env (ctx d) (acquire_command (sc_Host (ctx d))) w = (None, w') \<Longrightarrow>
     lock_step env ctx locked (w, pc) (w', pc(d := Owning))"
| not_acquired: "pc d = Checked \<Longrightarrow>
     step_exec env (ctx d) (acquire_command (sc_Host (ctx d))) w = (Some e, w') \<Longrightarrow>
     lock_step env ctx locked (w, pc)
       (w', pc(d := if command_exit_code e = Some lockHeldExitCode then Refused else Idle))"
| described: "pc d = Refused \<Longrightarrow>
     e_Run env (short_opts False) (read_owner_command (sc_Host (ctx d))) w = (r, w') \<Longrightarrow>
     lock_step env ctx locked (w, pc) (w', pc(d := Idle))"
| owner_written: "pc d = Owning \<Longrightarrow>
     e_Run env (owner_opts env (ctx d) w) (owner_command (sc_Host (ctx d))) w = ((res, None), w') \<Longrightarrow>
     lock_step env ctx locked (w, pc) (w', pc(d := Holding))"
| owner_failed: "pc d = Owning \<Longrightarrow>
     e_Run env (owner_opts env (ctx d) w) (owner_command (sc_Host (ctx d))) w = ((res, Some e), w') \<Longrightarrow>
     lock_step env ctx locked (w, pc) (w', pc(d := Undoing))"
| undone: "pc d = Undoing \<Longrightarrow>
     step_exec env (ctx d) (unlock_command (sc_Host (ctx d))) w = (r, w') \<Longrightarrow>
     lock_step env ctx locked (w, pc) (w', pc(d := Idle))"
| released: "pc d = Holding \<Longrightarrow>
     step_exec env (ctx d) (unlock_command (sc_Host (ctx d))) w = (r, w') \<Longrightarrow>
     lock_step env ctx locked (w, pc) (w', pc(d := Idle))"
| work: "pc d = Holding \<Longrightarrow> (locked w \<Longrightarrow> locked w') \<Longrightarrow>
     lock_step env ctx locked (w, pc) (w', pc)"
| drift: "locked w' = locked w \<Longrightarrow> lock_step env ctx locked (w, pc) (w', pc)"

inductive_cases lock_stepE: "lock_step env ctx locked (w, pc) (w', pc')"

section \<open>What the target promises\<close>

text \<open>
  \<open>locked\<close> says whether the lock directory exists.  Creating it succeeds only where it does
  not exist, and the exit code for a held lock is given only where it does; removing it leaves
  none; the other commands around the lock do not touch it.  A failing command promises no
  more than that it does not remove the lock of somebody else.
\<close>

definition lock_target :: "'w env \<Rightarrow> host \<Rightarrow> ('w \<Rightarrow> bool) \<Rightarrow> bool" where
  "lock_target env h locked \<longleftrightarrow>
     (\<forall>opts w res err w'. e_Run env opts (acquire_command h) w = ((res, err), w') \<longrightarrow>
        (case err of
           None \<Rightarrow> \<not> locked w \<and> locked w'
         | Some e \<Rightarrow> (locked w \<longrightarrow> locked w') \<and>
             (command_exit_code e = Some lockHeldExitCode \<longrightarrow> locked w))) \<and>
     (\<forall>opts cmd w. cmd \<in> {deployer_lock_command h, owner_command h, read_owner_command h} \<longrightarrow>
        locked (snd (e_Run env opts cmd w)) = locked w) \<and>
     (\<forall>opts w res w'. e_Run env opts (unlock_command h) w = ((res, None), w') \<longrightarrow> \<not> locked w')"

lemma lock_target_acquire:
  assumes "lock_target env h locked" and "step_exec env sc (acquire_command h) w = (err, w')"
  shows "case err of
      None \<Rightarrow> \<not> locked w \<and> locked w'
    | Some e \<Rightarrow> (locked w \<longrightarrow> locked w') \<and> (command_exit_code e = Some lockHeldExitCode \<longrightarrow> locked w)"
  using assms by (force simp: lock_target_def step_exec_def split: prod.splits)

lemma lock_target_keeps:
  assumes "lock_target env h locked"
  shows "e_Run env opts (owner_command h) w = (r, w') \<Longrightarrow> locked w' = locked w"
    and "e_Run env opts (read_owner_command h) w = (r, w') \<Longrightarrow> locked w' = locked w"
    and "step_exec env sc (deployer_lock_command h) w = (err, w') \<Longrightarrow> locked w' = locked w"
proof -
  have "locked (snd (e_Run env opts cmd w)) = locked w"
    if "cmd \<in> {deployer_lock_command h, owner_command h, read_owner_command h}" for cmd opts w
    using assms that unfolding lock_target_def by blast
  note keep = this
  show "e_Run env opts (owner_command h) w = (r, w') \<Longrightarrow> locked w' = locked w"
    using keep [of "owner_command h" opts w] by simp
  show "e_Run env opts (read_owner_command h) w = (r, w') \<Longrightarrow> locked w' = locked w"
    using keep [of "read_owner_command h" opts w] by simp
  show "step_exec env sc (deployer_lock_command h) w = (err, w') \<Longrightarrow> locked w' = locked w"
    using keep [of "deployer_lock_command h" "short_opts (sc_Live sc)" w]
    by (auto simp: step_exec_def split: prod.splits)
qed

lemma lock_target_unlock:
  "lock_target env h locked \<Longrightarrow> step_exec env sc (unlock_command h) w = (None, w') \<Longrightarrow> \<not> locked w'"
  by (auto simp: lock_target_def step_exec_def split: prod.splits)

section \<open>The invariant\<close>

definition exclusive :: "('w \<Rightarrow> bool) \<Rightarrow> 'w \<times> ('d \<Rightarrow> lock_pc) \<Rightarrow> bool" where
  "exclusive locked s \<longleftrightarrow>
     (\<forall>d e. has_lock (snd s d) \<and> has_lock (snd s e) \<longrightarrow> d = e) \<and>
     ((\<exists>d. has_lock (snd s d)) \<longrightarrow> locked (fst s))"

lemma has_lock_simps [simp]:
  "\<not> has_lock Idle" "\<not> has_lock Checked" "\<not> has_lock Refused"
  "has_lock Owning" "has_lock Undoing" "has_lock Holding"
  by (simp_all add: has_lock_def)

lemma exclusive_free:
  assumes "exclusive locked (w, pc)" and "locked w \<Longrightarrow> locked w'" and "\<not> has_lock q"
  shows "exclusive locked (w', pc(d := q))"
  using assms by (auto simp: exclusive_def)

lemma exclusive_same:
  assumes "exclusive locked (w, pc)" and "locked w \<Longrightarrow> locked w'" and "has_lock (pc d)"
  shows "exclusive locked (w', pc(d := q))"
  using assms by (auto simp: exclusive_def)

lemma exclusive_drop:
  assumes "exclusive locked (w, pc)" and "has_lock (pc d)" and "\<not> has_lock q"
  shows "exclusive locked (w', pc(d := q))"
  using assms by (auto simp: exclusive_def)

lemma exclusive_take:
  assumes "exclusive locked (w, pc)" and "\<not> locked w" and "locked w'"
  shows "exclusive locked (w', pc(d := q))"
  using assms by (auto simp: exclusive_def)

lemma exclusive_world:
  assumes "exclusive locked (w, pc)" and "locked w \<Longrightarrow> locked w'"
  shows "exclusive locked (w', pc)"
  using assms by (auto simp: exclusive_def)

lemma lock_step_exclusive:
  assumes "lock_step env ctx locked s s'" and "exclusive locked s"
    and target: "lock_target env h locked" and host: "\<And>d. sc_Host (ctx d) = h"
  shows "exclusive locked s'"
  using assms(1,2)
proof (induction rule: lock_step.induct)
  case (deployer_free pc d w e w')
  from lock_target_keeps(3) [OF target deployer_free(3) [unfolded host]] deployer_free(4) show ?case
    by (auto intro: exclusive_free)
next
  case (deployer_held pc d w w')
  from lock_target_keeps(3) [OF target deployer_held(3) [unfolded host]] deployer_held(4) show ?case
    by (auto intro: exclusive_world)
next
  case (acquired pc d w w')
  from lock_target_acquire [OF target acquired(2) [unfolded host]] acquired(3) show ?case
    by (auto intro: exclusive_take)
next
  case (not_acquired pc d w e w')
  from lock_target_acquire [OF target not_acquired(2) [unfolded host]] not_acquired(3) show ?case
    by (auto intro: exclusive_free)
next
  case (described pc d w r w')
  from lock_target_keeps(2) [OF target described(2) [unfolded host]] described(3) show ?case
    by (auto intro: exclusive_free)
next
  case (owner_written pc d w res w')
  from lock_target_keeps(1) [OF target owner_written(2) [unfolded host]] owner_written(1,3) show ?case
    by (auto intro: exclusive_same)
next
  case (owner_failed pc d w res e w')
  from lock_target_keeps(1) [OF target owner_failed(2) [unfolded host]] owner_failed(1,3) show ?case
    by (auto intro: exclusive_same)
qed (auto intro: exclusive_free exclusive_drop exclusive_world)

lemma CoreLock_cases:
  assumes "CoreLock env sc w = (r, w')"
  obtains
    (deployer) "\<not> opt_IgnoreDeployerLock (sc_Opts sc)" "r = Some (deployer_lock_error (sc_Host sc))"
      "step_exec env sc (deployer_lock_command (sc_Host sc)) w = (None, w')"
  | (past) w1 where "acquire env sc w1 = (r, w')"
      "opt_IgnoreDeployerLock (sc_Opts sc) \<and> w1 = w \<or>
       \<not> opt_IgnoreDeployerLock (sc_Opts sc) \<and>
         (\<exists>e. step_exec env sc (deployer_lock_command (sc_Host sc)) w = (Some e, w1))"
  using assms by (auto simp: CoreLock_def split: if_splits prod.splits option.splits)

section \<open>Properties\<close>


text \<open>A target whose only state is the lock directory, and two deployers on it.\<close>

definition lock_env :: "bool env" where
  "lock_env =
     \<lparr>e_Run = (\<lambda>opts cmd w.
        if cmd = acquire_command demo_host then
          (if w then ((\<lparr>Stdout = [], Stderr = [], ExitCode = 0\<rparr>, Some (CommandError cmd 9 [])), True)
           else ((\<lparr>Stdout = [], Stderr = [], ExitCode = 0\<rparr>, None), True))
        else if cmd = unlock_command demo_host then ((\<lparr>Stdout = [], Stderr = [], ExitCode = 0\<rparr>, None), False)
        else if cmd = deployer_lock_command demo_host then
          ((\<lparr>Stdout = [], Stderr = [], ExitCode = 0\<rparr>, Some (CommandError cmd 1 [])), w)
        else ((\<lparr>Stdout = [], Stderr = [], ExitCode = 0\<rparr>, None), w)),
      e_RunLocal = (\<lambda>opts cmd w. ((\<lparr>Stdout = [], Stderr = [], ExitCode = 0\<rparr>, None), w)),
      e_Marshal = (\<lambda>r. Inr ''record''), e_Unmarshal = (\<lambda>s. Inr demo_release),
      e_UnmarshalOwner = (\<lambda>s. None), e_Clock = (\<lambda>w. 0), e_FormatTime = (\<lambda>t. ''now''),
      e_ParseTime = (\<lambda>s. None), e_Getenv = (\<lambda>s. []), e_Pid = 42,
      e_Sha256 = (\<lambda>s. s), e_MarshalAssets = fst, e_UnmarshalAssets = (\<lambda>s. None), e_Machine = bare_machine\<rparr>"

definition demo_ctx :: step_ctx where
  "demo_ctx = \<lparr>sc_Host = demo_host, sc_Vars = NewVars, sc_Release = Some demo_release,
     sc_Opts = demo_options, sc_WorkDir = [], sc_Checks = [], sc_Live = False, sc_Terminal = False\<rparr>"

lemma lock_commands_differ [simp]:
  "unlock_command h \<noteq> acquire_command h" "deployer_lock_command h \<noteq> acquire_command h"
  "owner_command h \<noteq> acquire_command h" "read_owner_command h \<noteq> acquire_command h"
  "acquire_command h \<noteq> unlock_command h" "deployer_lock_command h \<noteq> unlock_command h"
  "owner_command h \<noteq> unlock_command h" "read_owner_command h \<noteq> unlock_command h"
  "owner_command h \<noteq> deployer_lock_command h" "read_owner_command h \<noteq> deployer_lock_command h"
  by (simp_all add: acquire_command_def Let_def unlock_command_def deployer_lock_command_def
      owner_command_def read_owner_command_def)

lemma lock_env_target: "lock_target lock_env demo_host (\<lambda>w. w)"
  unfolding lock_target_def by (auto simp: lock_env_def lockHeldExitCode_def split: if_splits)


lemma record_owner_steps:
  assumes "pc d = Owning"
  shows "(lock_step env ctx locked)\<^sup>*\<^sup>* (w, pc) (snd (record_owner env (ctx d) w),
    pc(d := if fst (record_owner env (ctx d) w) = None then Holding else Idle))"
proof -
  let ?h = "sc_Host (ctx d)"
  obtain res err w2 where
    put: "e_Run env (owner_opts env (ctx d) w) (owner_command ?h) w = ((res, err), w2)"
    by (metis prod.collapse)
  show ?thesis
  proof (cases err)
    case None
    then show ?thesis
      using owner_written [where pc = pc and d = d, OF assms, of env ctx w res w2] put
      by (simp add: record_owner_def r_into_rtranclp)
  next
    case (Some e)
    obtain r w3 where undo: "step_exec env (ctx d) (unlock_command ?h) w2 = (r, w3)" by fastforce
    have "lock_step env ctx locked (w, pc) (w2, pc(d := Undoing))"
      using owner_failed [where pc = pc and d = d, OF assms] put Some by metis
    moreover have "lock_step env ctx locked (w2, pc(d := Undoing)) (w3, pc(d := Undoing, d := Idle))"
      by (rule undone) (simp_all add: undo)
    ultimately have "(lock_step env ctx locked)\<^sup>*\<^sup>* (w, pc) (w3, pc(d := Idle))" by simp
    then show ?thesis
      by (simp add: record_owner_def put Some undo split: option.split)
  qed
qed

lemma acquire_steps:
  assumes "pc d = Checked"
  shows "(lock_step env ctx locked)\<^sup>*\<^sup>* (w, pc) (snd (acquire env (ctx d) w),
    pc(d := if fst (acquire env (ctx d) w) = None then Holding else Idle))"
proof -
  let ?h = "sc_Host (ctx d)"
  obtain err w1 where run: "step_exec env (ctx d) (acquire_command ?h) w = (err, w1)" by fastforce
  show ?thesis
  proof (cases err)
    case None
    have "lock_step env ctx locked (w, pc) (w1, pc(d := Owning))"
      using acquired [where pc = pc and d = d, OF assms] run None by metis
    moreover have "(lock_step env ctx locked)\<^sup>*\<^sup>* (w1, pc(d := Owning))
        (snd (record_owner env (ctx d) w1),
         pc(d := Owning, d := if fst (record_owner env (ctx d) w1) = None then Holding else Idle))"
      by (rule record_owner_steps) simp
    ultimately show ?thesis
      by (simp add: acquire_def run None converse_rtranclp_into_rtranclp)
  next
    case (Some e)
    have one: "lock_step env ctx locked (w, pc)
        (w1, pc(d := if command_exit_code e = Some lockHeldExitCode then Refused else Idle))"
      using not_acquired [where pc = pc and d = d, OF assms] run Some by metis
    show ?thesis
    proof (cases "command_exit_code e = Some lockHeldExitCode")
      case True
      obtain r w2 where read: "e_Run env (short_opts False) (read_owner_command ?h) w1 = (r, w2)" by fastforce
      have "lock_step env ctx locked (w1, pc(d := Refused)) (w2, pc(d := Refused, d := Idle))"
        by (rule described) (simp_all add: read)
      with one True have "(lock_step env ctx locked)\<^sup>*\<^sup>* (w, pc) (w2, pc(d := Idle))" by simp
      moreover have "snd (DescribeLockOwner env ?h w1) = w2"
        by (simp add: DescribeLockOwner_def describeLockOwner_def read Let_def split: option.split prod.split)
      ultimately show ?thesis
        using True by (auto simp: acquire_def run Some split: prod.split)
    next
      case False
      with one show ?thesis by (simp add: acquire_def run Some r_into_rtranclp)
    qed
  qed
qed

text \<open>
  C16. \<open>CoreLock\<close> run as a whole is a sequence of the interleaved steps: it ends holding the lock
  when it reports no error and outside it when it reports one.
\<close>

theorem CoreLock_is_steps:
  "(lock_step env ctx locked)\<^sup>*\<^sup>* (w, pc(d := Idle))
     (snd (CoreLock env (ctx d) w),
      pc(d := if fst (CoreLock env (ctx d) w) = None then Holding else Idle))"
proof -
  let ?h = "sc_Host (ctx d)"
  have acq: "(lock_step env ctx locked)\<^sup>*\<^sup>* (w1, pc(d := Checked)) (snd (acquire env (ctx d) w1),
      pc(d := if fst (acquire env (ctx d) w1) = None then Holding else Idle))" for w1
    using acquire_steps [of "pc(d := Checked)" d env ctx locked w1] by simp
  show ?thesis
  proof (cases "opt_IgnoreDeployerLock (sc_Opts (ctx d))")
    case True
    then have "lock_step env ctx locked (w, pc(d := Idle)) (w, pc(d := Idle, d := Checked))"
      by (intro ignore_deployer) simp_all
    with acq [of w] True show ?thesis
      by (simp add: CoreLock_def converse_rtranclp_into_rtranclp)
  next
    case False
    obtain err w1 where test: "step_exec env (ctx d) (deployer_lock_command ?h) w = (err, w1)" by fastforce
    show ?thesis
    proof (cases err)
      case None
      then have "lock_step env ctx locked (w, pc(d := Idle)) (w1, pc(d := Idle))"
        using False test by (intro deployer_held) simp_all
      with False test None show ?thesis by (simp add: CoreLock_def r_into_rtranclp)
    next
      case (Some e)
      then have "lock_step env ctx locked (w, pc(d := Idle)) (w1, pc(d := Idle, d := Checked))"
        using False test by (intro deployer_free) simp_all
      with acq [of w1] False test Some show ?thesis
        by (simp add: CoreLock_def converse_rtranclp_into_rtranclp)
    qed
  qed
qed

lemma acquire_outcome:
  assumes "lock_target env (sc_Host sc) locked" and "acquire env sc w = (r, w')"
  shows "case r of
      None \<Rightarrow> \<not> locked w \<and> locked w'
    | Some e \<Rightarrow> (locked w \<longrightarrow> locked w') \<and>
        (\<forall>holder. e = lock_held_error (sc_Host sc) holder \<longrightarrow> locked w) \<and>
        (\<forall>err. e = Wrapf ''record lock owner (the lock was released): %w'' [] err \<longrightarrow> \<not> locked w')"
proof -
  let ?h = "sc_Host sc"
  obtain err w1 where run: "step_exec env sc (acquire_command ?h) w = (err, w1)" by fastforce
  note got = lock_target_acquire [OF assms(1) run]
  show ?thesis
  proof (cases err)
    case None
    obtain res err2 w2 where
      put: "e_Run env (owner_opts env sc w1) (owner_command ?h) w1 = ((res, err2), w2)"
      by (metis prod.collapse)
    obtain r3 w3 where undo: "step_exec env sc (unlock_command ?h) w2 = (r3, w3)" by fastforce
    have "locked w2" using lock_target_keeps(1) [OF assms(1) put] got None by simp
    with assms(2) got show ?thesis
      using lock_target_unlock [OF assms(1), of sc w2 w3] undo
      by (auto simp: acquire_def run None record_owner_def put lock_held_error_def
          split: option.splits prod.splits if_splits)
  next
    case (Some e)
    obtain d w2 where desc: "DescribeLockOwner env ?h w1 = (d, w2)" by fastforce
    then have "locked w2 = locked w1"
      by (auto simp: DescribeLockOwner_def describeLockOwner_def Let_def
          dest: lock_target_keeps(2) [OF assms(1)] split: prod.splits option.splits)
    with assms(2) got show ?thesis
      by (auto simp: acquire_def run Some desc lock_held_error_def
          split: option.splits prod.splits if_splits)
  qed
qed

text \<open>
  C28. \<open>CoreLock\<close> succeeds only from an unlocked target and leaves it locked; it never removes
  a lock that was there; it names a holder only when there is one; and when it reports that
  the owner could not be recorded and the lock was released, the target is unlocked.
\<close>

theorem CoreLock_outcome:
  assumes "lock_target env (sc_Host sc) locked" and "CoreLock env sc w = (r, w')"
  shows "case r of
      None \<Rightarrow> \<not> locked w \<and> locked w'
    | Some e \<Rightarrow> (locked w \<longrightarrow> locked w') \<and>
        (\<forall>holder. e = lock_held_error (sc_Host sc) holder \<longrightarrow> locked w) \<and>
        (\<forall>err. e = Wrapf ''record lock owner (the lock was released): %w'' [] err \<longrightarrow> \<not> locked w')"
  using assms(2)
proof (cases rule: CoreLock_cases)
  case deployer
  then show ?thesis
    using lock_target_keeps(3) [OF assms(1), of sc w None w']
    by (auto simp: deployer_lock_error_def lock_held_error_def split: prod.splits if_splits)
next
  case (past w1)
  then have "locked w1 = locked w"
    using lock_target_keeps(3) [OF assms(1)] by blast
  with acquire_outcome [OF assms(1) past(1)] show ?thesis by (simp split: option.splits)
qed

theorem CoreLock_outcome_witness:
  "fst (CoreLock lock_env demo_ctx False) = None \<and> snd (CoreLock lock_env demo_ctx False)"
proof -
  have "CoreLock lock_env demo_ctx False = (None, True)"
    by (simp add: CoreLock_def acquire_def record_owner_def step_exec_def demo_ctx_def demo_options_def
        demo_flags_def build_options_def lock_env_def)
  moreover have "lock_target lock_env (sc_Host demo_ctx) (\<lambda>w. w)"
    using lock_env_target by (simp add: demo_ctx_def)
  ultimately show ?thesis
    using CoreLock_outcome [of lock_env demo_ctx "\<lambda>w. w" False None True] by simp
qed

end
