(* ===== verification/ReleaseDirs.thy ===== *)
theory ReleaseDirs
  imports Lock
begin

text \<open>
  The release directories (\<open>tasks_prepare.go\<close>, \<open>tasks_publish.go\<close>, \<open>tasks_verify.go\<close>):
  numbering and creating a release, writing its record, and pruning old releases and the
  database dumps that belong to them.

  A Go \<open>int\<close> is a 64-bit integer; the only arithmetic on one here is the successor of the
  highest release number, which wraps.
\<close>

section \<open>Numbering\<close>

definition wrap64 :: "int \<Rightarrow> int" where
  "wrap64 n = (n + 2 ^ 63) mod 2 ^ 64 - 2 ^ 63"

definition highest_step :: "string \<Rightarrow> int \<Rightarrow> int" where
  "highest_step name highest =
     (case atoi name of None \<Rightarrow> highest | Some number \<Rightarrow> if highest < number then number else highest)"

definition next_number :: "string list \<Rightarrow> string" where
  "next_number names = itoa (wrap64 (fold highest_step names 0 + 1))"

definition NextReleaseNumber :: "'w env \<Rightarrow> host \<Rightarrow> 'w \<Rightarrow> (go_error + string) \<times> 'w" where
  "NextReleaseNumber env h w =
     (case e_Run env (short_opts False) (list_command (ReleasesPath h)) w of
        ((_, Some err), w) \<Rightarrow> (Inl (Wrapf ''list releases: %w'' [] err), w)
      | ((result, None), w) \<Rightarrow> (Inr (next_number (listed (Stdout result))), w))"

section \<open>Creating a release\<close>

definition releaseIsGovards :: "'w env \<Rightarrow> host \<Rightarrow> string \<Rightarrow> 'w \<Rightarrow> bool \<times> 'w" where
  "releaseIsGovards env h release w =
     (case ReadRelease env h release w of
        (Inl _, w) \<Rightarrow> (False, w)
      | (Inr record, w) \<Rightarrow> (rel_Tool record = ReleaseTool \<and> rel_Release record = release, w))"

text \<open>The number a run was given, or none: the trimmed number of its record.\<close>

definition fixed_number :: "step_ctx \<Rightarrow> string" where
  "fixed_number sc = (case sc_Release sc of None \<Rightarrow> [] | Some rel \<Rightarrow> trim_space (rel_Release rel))"

definition set_release :: "string \<Rightarrow> string \<Rightarrow> release option \<Rightarrow> release option" where
  "set_release number path release =
     map_option (\<lambda>rel. rel\<lparr>rel_Release := number, rel_Path := path\<rparr>) release"

definition create_release :: "string \<Rightarrow> 'w task_func" where
  "create_release number env sc w =
     (let h = sc_Host sc; releasePath = ReleasePath number h in
      case step_exec env sc (''test -e '' @ Shell releasePath) w of
        (None, w) \<Rightarrow>
          (case releaseIsGovards env h number w of
             (True, w) \<Rightarrow> ((None, set_release number releasePath (sc_Release sc)), w)
           | (False, w) \<Rightarrow>
               ((Some (Wrapf ''%w: %s'' [releasePath] (Sentinel ErrReleaseExists)), sc_Release sc), w))
      | (Some _, w) \<Rightarrow>
          (case step_exec env sc (''mkdir -p '' @ Shell releasePath) w of
             (Some err, w) \<Rightarrow> ((Some (Wrapf ''create release %s: %w'' [number] err), sc_Release sc), w)
           | (None, w) \<Rightarrow> ((None, set_release number releasePath (sc_Release sc)), w)))"

definition CoreRelease :: "'w task_func" where
  "CoreRelease env sc w =
     (if fixed_number sc \<noteq> [] then create_release (fixed_number sc) env sc w
      else case NextReleaseNumber env (sc_Host sc) w of
        (Inl err, w) \<Rightarrow> ((Some err, sc_Release sc), w)
      | (Inr number, w) \<Rightarrow> create_release number env sc w)"

definition CoreRecord :: "'w env \<Rightarrow> step_ctx \<Rightarrow> 'w \<Rightarrow> go_error option \<times> 'w" where
  "CoreRecord env sc w =
     (case sc_Release sc of
        None \<Rightarrow> (Some (Errorf ''no release record to write'' []), w)
      | Some rel \<Rightarrow>
          (case WriteRelease env (sc_Host sc) (Some rel) w of
             (Some err, w) \<Rightarrow> (Some err, w)
           | (None, w) \<Rightarrow> AppendHistory env (sc_Host sc) rel w))"

section \<open>The window of releases kept\<close>

definition entryNumber :: "string \<Rightarrow> int" where
  "entryNumber name = (case atoi name of None \<Rightarrow> 2 ^ 30 | Some number \<Rightarrow> number)"

text \<open>The inner loop: the entry at index \<open>j\<close> moves left past every smaller one.\<close>

fun sink :: "nat \<Rightarrow> string list \<Rightarrow> string list" where
  "sink 0 names = names"
| "sink (Suc j) names =
     (if entryNumber (names ! j) < entryNumber (names ! Suc j)
      then sink j (names[Suc j := names ! j, j := names ! Suc j])
      else names)"

definition sort_entries :: "string list \<Rightarrow> string list" where
  "sort_entries entries = fold sink [1..<length entries] entries"

text \<open>Both callers pass a positive \<open>keep\<close>.\<close>

definition pruneWindow :: "string list \<Rightarrow> int \<Rightarrow> string list" where
  "pruneWindow entries keep =
     (let names = sort_entries entries in
      if int (length names) \<le> keep then [] else drop (nat keep) names)"

section \<open>Cleaning up\<close>

definition numberedEntries ::
  "'w env \<Rightarrow> step_ctx \<Rightarrow> string \<Rightarrow> 'w \<Rightarrow> (go_error + string list) \<times> 'w" where
  "numberedEntries env sc directory w =
     (case e_Run env (short_opts (sc_Live sc)) (list_command directory) w of
        ((_, Some err), w) \<Rightarrow> (Inl err, w)
      | ((result, None), w) \<Rightarrow> (Inr (listed (Stdout result)), w))"

definition is_current :: "step_ctx \<Rightarrow> string \<Rightarrow> bool" where
  "is_current sc name = (case sc_Release sc of None \<Rightarrow> False | Some rel \<Rightarrow> name = rel_Release rel)"

text \<open>The releases this tool may remove, and the directories it reports and leaves alone.\<close>

fun classify ::
  "'w env \<Rightarrow> step_ctx \<Rightarrow> string list \<Rightarrow> 'w \<Rightarrow> (string list \<times> string list) \<times> 'w" where
  "classify env sc [] w = (([], []), w)"
| "classify env sc (name # names) w =
     (if is_current sc name then classify env sc names w
      else case ReadRelease env (sc_Host sc) name w of
        (Inr record, w) \<Rightarrow>
          (if rel_Tool record = ReleaseTool then
             (case classify env sc names w of ((cs, fs), w) \<Rightarrow> ((name # cs, fs), w))
           else (case classify env sc names w of ((cs, fs), w) \<Rightarrow> ((cs, name # fs), w)))
      | (Inl _, w) \<Rightarrow> (case classify env sc names w of ((cs, fs), w) \<Rightarrow> ((cs, name # fs), w)))"

text \<open>Removing directories one after the other, up to the first failure.\<close>

fun remove_all ::
  "'w env \<Rightarrow> step_ctx \<Rightarrow> (string \<Rightarrow> string) \<Rightarrow> string \<Rightarrow> string list \<Rightarrow> 'w \<Rightarrow> go_error option \<times> 'w" where
  "remove_all env sc directory message [] w = (None, w)"
| "remove_all env sc directory message (name # names) w =
     (case e_Run env \<lparr>Timeout = opt_CommandTimeout (sc_Opts sc), Stdin = [], Streamed = sc_Live sc\<rparr>
         (''rm -rf '' @ Shell (directory name)) w of
        ((_, Some err), w) \<Rightarrow> (Some (Wrapf message [name] err), w)
      | ((_, None), w) \<Rightarrow> remove_all env sc directory message names w)"

definition backup_entry :: "host \<Rightarrow> string \<Rightarrow> string" where
  "backup_entry h name = path_join [BackupRootPath h, name]"

definition pruneBackups :: "'w env \<Rightarrow> step_ctx \<Rightarrow> int \<Rightarrow> 'w \<Rightarrow> go_error option \<times> 'w" where
  "pruneBackups env sc keep w =
     (case numberedEntries env sc (BackupRootPath (sc_Host sc)) w of
        (Inl err, w) \<Rightarrow> (Some (Wrapf ''list backups: %w'' [] err), w)
      | (Inr entries, w) \<Rightarrow>
          remove_all env sc (backup_entry (sc_Host sc)) ''prune backup %s: %w''
            (pruneWindow (filter (\<lambda>name. atoi name \<noteq> None) entries) keep) w)"

definition CoreCleanup :: "'w env \<Rightarrow> step_ctx \<Rightarrow> 'w \<Rightarrow> go_error option \<times> 'w" where
  "CoreCleanup env sc w =
     (let h = sc_Host sc;
          keep = (if opt_KeepReleases (sc_Opts sc) \<le> 0 then DefaultKeepReleases
                  else opt_KeepReleases (sc_Opts sc))
      in case numberedEntries env sc (ReleasesPath h) w of
           (Inl err, w) \<Rightarrow> (Some (Wrapf ''list releases: %w'' [] err), w)
         | (Inr stale, w) \<Rightarrow>
             (case classify env sc stale w of
                ((candidates, foreign), w) \<Rightarrow>
                  (case remove_all env sc (\<lambda>name. ReleasePath name h) ''prune release %s: %w''
                      (pruneWindow candidates keep) w of
                     (Some err, w) \<Rightarrow> (Some err, w)
                   | (None, w) \<Rightarrow> pruneBackups env sc keep w)))"

section \<open>Lemmas: the window\<close>

definition newest_key :: "string \<Rightarrow> int" where
  "newest_key name = - entryNumber name"

definition put_entry :: "string \<Rightarrow> string list \<Rightarrow> string list" where
  "put_entry x ys =
     takeWhile (\<lambda>y. newest_key y \<le> newest_key x) ys @ x # dropWhile (\<lambda>y. newest_key y \<le> newest_key x) ys"

lemma sink_put:
  "sorted (map newest_key ys) \<Longrightarrow> sink (length ys) (ys @ x # zs) = put_entry x ys @ zs"
proof (induction ys arbitrary: zs rule: rev_induct)
  case Nil
  then show ?case by (simp add: put_entry_def)
next
  case (snoc y ys)
  have sorted: "sorted (map newest_key ys)" and le: "\<forall>y' \<in> set ys. newest_key y' \<le> newest_key y"
    using snoc.prems by (auto simp: sorted_append)
  let ?l = "ys @ y # x # zs"
  have at: "?l ! length ys = y" "?l ! Suc (length ys) = x" by (simp_all add: nth_append)
  show ?case
  proof (cases "entryNumber y < entryNumber x")
    case True
    have swap: "?l[Suc (length ys) := y, length ys := x] = ys @ x # y # zs"
      by (simp add: list_update_append)
    have "sink (length (ys @ [y])) ((ys @ [y]) @ x # zs) = sink (length ys) (ys @ x # y # zs)"
      using True at swap by simp
    also have "\<dots> = put_entry x ys @ y # zs" by (rule snoc.IH [OF sorted])
    also have "\<dots> = put_entry x (ys @ [y]) @ zs"
      using True by (auto simp: put_entry_def newest_key_def takeWhile_append dropWhile_append)
    finally show ?thesis .
  next
    case False
    then have "newest_key y \<le> newest_key x" by (simp add: newest_key_def)
    with le have "\<forall>y' \<in> set (ys @ [y]). newest_key y' \<le> newest_key x" by fastforce
    then have "put_entry x (ys @ [y]) = ys @ [y, x]"
      by (simp add: put_entry_def takeWhile_append2 dropWhile_append2)
    moreover have "sink (length (ys @ [y])) ((ys @ [y]) @ x # zs) = ?l" using False at by simp
    ultimately show ?thesis by simp
  qed
qed

lemma put_entry_mset: "mset (put_entry x ys) = add_mset x (mset ys)"
proof -
  let ?P = "\<lambda>y. newest_key y \<le> newest_key x"
  have "mset ys = mset (takeWhile ?P ys @ dropWhile ?P ys)" by simp
  then show ?thesis unfolding put_entry_def mset_append by simp
qed

lemma dropWhile_sorted_gt:
  "sorted (map newest_key ys) \<Longrightarrow> y \<in> set (dropWhile (\<lambda>y. newest_key y \<le> k) ys) \<Longrightarrow> k < newest_key y"
  by (induction ys) (auto split: if_splits)

lemma sorted_drop_While: "sorted (map f ys) \<Longrightarrow> sorted (map f (dropWhile P ys))"
  by (induction ys) auto

lemma sorted_take_While: "sorted (map f ys) \<Longrightarrow> sorted (map f (takeWhile P ys))"
  by (induction ys) (auto dest: set_takeWhileD)

lemma put_entry_sorted:
  assumes "sorted (map newest_key ys)"
  shows "sorted (map newest_key (put_entry x ys))"
  unfolding put_entry_def
  using assms dropWhile_sorted_gt [OF assms, of _ "newest_key x"] sorted_drop_While [OF assms] sorted_take_While [OF assms]
  by (fastforce simp: sorted_append dest: set_takeWhileD)

lemma put_entry_filter:
  assumes "sorted (map newest_key ys)"
  shows "filter (\<lambda>z. k = newest_key z) (put_entry x ys) = filter (\<lambda>z. k = newest_key z) (ys @ [x])"
proof -
  let ?P = "\<lambda>y. newest_key y \<le> newest_key x"
  have split: "filter Q ys = filter Q (takeWhile ?P ys) @ filter Q (dropWhile ?P ys)" for Q
    by (metis filter_append takeWhile_dropWhile_id)
  have "filter (\<lambda>z. newest_key x = newest_key z) (dropWhile ?P ys) = []"
    using dropWhile_sorted_gt [OF assms, of _ "newest_key x"] by (fastforce simp: filter_empty_conv)
  then show ?thesis by (auto simp: put_entry_def split)
qed

lemma sort_entries_prefix:
  "i \<le> length xs \<Longrightarrow>
   \<exists>ys. fold sink [1..<i] xs = ys @ drop i xs \<and> mset ys = mset (take i xs) \<and>
     sorted (map newest_key ys) \<and>
     (\<forall>k. filter (\<lambda>z. k = newest_key z) ys = filter (\<lambda>z. k = newest_key z) (take i xs))" if "1 \<le> i" for i
  using that
proof (induction i)
  case 0
  then show ?case by simp
next
  case (Suc i)
  show ?case
  proof (cases "i = 0")
    case True
    with Suc.prems obtain x rest where "xs = x # rest" by (cases xs) auto
    with True show ?thesis by (intro exI [of _ "[x]"]) auto
  next
    case False
    with Suc obtain ys where ys: "fold sink [1..<i] xs = ys @ drop i xs" "mset ys = mset (take i xs)"
      "sorted (map newest_key ys)"
      "\<forall>k. filter (\<lambda>z. k = newest_key z) ys = filter (\<lambda>z. k = newest_key z) (take i xs)"
      by auto
    have len: "length ys = i" using ys(2) Suc.prems by (metis length_take min.absorb2 mset_eq_length Suc_leD)
    have drop: "drop i xs = xs ! i # drop (Suc i) xs" using Suc.prems by (simp add: Cons_nth_drop_Suc)
    have take: "take (Suc i) xs = take i xs @ [xs ! i]" using Suc.prems by (simp add: take_Suc_conv_app_nth)
    have "fold sink [1..<Suc i] xs = sink i (ys @ xs ! i # drop (Suc i) xs)"
      using False ys(1) drop by simp
    also have "\<dots> = put_entry (xs ! i) ys @ drop (Suc i) xs"
      using sink_put [OF ys(3)] len by metis
    finally show ?thesis
      using put_entry_mset put_entry_sorted [OF ys(3)] put_entry_filter [OF ys(3)] ys(2,4) take
      by (intro exI [of _ "put_entry (xs ! i) ys"]) simp
  qed
qed

lemma sort_entries_sort_key: "sort_entries xs = sort_key newest_key xs"
proof (cases "xs = []")
  case True
  then show ?thesis by (simp add: sort_entries_def)
next
  case False
  then have "1 \<le> length xs" by (cases xs) auto
  from sort_entries_prefix [OF this order.refl] obtain ys where ys: "sort_entries xs = ys" "mset ys = mset xs"
    "sorted (map newest_key ys)"
    "\<forall>k. filter (\<lambda>z. k = newest_key z) ys = filter (\<lambda>z. k = newest_key z) xs"
    by (auto simp: sort_entries_def)
  then have "sort_key newest_key xs = ys" by (intro properties_for_sort_key) auto
  with ys(1) show ?thesis by simp
qed

lemma pruneWindow_drop: "pruneWindow entries keep = drop (nat keep) (sort_key newest_key entries)"
  by (simp add: pruneWindow_def Let_def sort_entries_sort_key)

lemma pruneWindow_subset: "set (pruneWindow entries keep) \<subseteq> set entries"
  by (simp add: pruneWindow_drop) (metis set_drop_subset set_sort)

section \<open>Lemmas: the commands that run\<close>

text \<open>The same target, with every command that runs appended to a log.\<close>

definition logging :: "'w env \<Rightarrow> ('w \<times> string list) env" where
  "logging env =
     \<lparr>e_Run = (\<lambda>opts cmd (w, log). case e_Run env opts cmd w of (r, w') \<Rightarrow> (r, (w', log @ [cmd]))),
      e_RunLocal = (\<lambda>opts cmd (w, log). case e_RunLocal env opts cmd w of (r, w') \<Rightarrow> (r, (w', log))),
      e_Marshal = e_Marshal env, e_Unmarshal = e_Unmarshal env,
      e_UnmarshalOwner = e_UnmarshalOwner env, e_Clock = e_Clock env \<circ> fst,
      e_FormatTime = e_FormatTime env, e_ParseTime = e_ParseTime env,
      e_Getenv = e_Getenv env, e_Pid = e_Pid env,
      e_Sha256 = e_Sha256 env, e_MarshalAssets = e_MarshalAssets env,
      e_UnmarshalAssets = e_UnmarshalAssets env, e_Machine = beside (e_Machine env)\<rparr>"

lemma logging_run:
  "e_Run (logging env) opts cmd (w, log) =
   (fst (e_Run env opts cmd w), (snd (e_Run env opts cmd w), log @ [cmd]))"
  by (simp add: logging_def split: prod.split)

lemma ReadRelease_logging:
  "ReadRelease (logging env) h n (w, log) =
   (fst (ReadRelease env h n w),
    (snd (ReadRelease env h n w), log @ [''cat '' @ Shell (ReleaseRecordPath n h)]))"
  by (simp add: ReadRelease_def logging_run logging_def split: prod.split option.split sum.split)

lemma numberedEntries_logging:
  "numberedEntries (logging env) sc d (w, log) =
   (fst (numberedEntries env sc d w), (snd (numberedEntries env sc d w), log @ [list_command d]))"
  by (simp add: numberedEntries_def logging_run split: prod.split option.split)

text \<open>A release this tool recorded, as some reading of its record said.\<close>

definition ours :: "'w env \<Rightarrow> host \<Rightarrow> string \<Rightarrow> bool" where
  "ours env h name \<longleftrightarrow> (\<exists>w rec. fst (ReadRelease env h name w) = Inr rec \<and> rel_Tool rec = ReleaseTool)"

lemma classify_logging:
  "classify (logging env) sc names (w, log) = ((cs, fs), (w', log')) \<Longrightarrow>
   (\<exists>cmds. log' = log @ cmds \<and> (\<forall>c \<in> set cmds. has_prefix c ''cat '')) \<and>
   (\<forall>n \<in> set cs. n \<in> set names \<and> \<not> is_current sc n \<and> ours env (sc_Host sc) n)"
proof (induction names arbitrary: w log cs fs)
  case Nil
  then show ?case by auto
next
  case (Cons name names)
  show ?case
  proof (cases "is_current sc name")
    case True
    with Cons show ?thesis by fastforce
  next
    case False
    let ?h = "sc_Host sc"
    obtain r w1 where read: "ReadRelease env ?h name w = (r, w1)" by fastforce
    let ?log = "log @ [''cat '' @ Shell (ReleaseRecordPath name ?h)]"
    obtain cs1 fs1 s1 where rest: "classify (logging env) sc names (w1, ?log) = ((cs1, fs1), s1)"
      by (metis prod.collapse)
    have s1: "s1 = (w', log')"
      and cs: "cs = cs1 \<or> cs = name # cs1 \<and> (\<exists>rec. r = Inr rec \<and> rel_Tool rec = ReleaseTool)"
      using Cons.prems False read rest
      by (auto simp: ReadRelease_logging split: sum.splits if_splits)
    from Cons.IH [of w1 ?log cs1 fs1] rest s1
    obtain cmds where cmds: "log' = ?log @ cmds" "\<forall>c \<in> set cmds. has_prefix c ''cat ''"
      and rest_ok: "\<forall>n \<in> set cs1. n \<in> set names \<and> \<not> is_current sc n \<and> ours env ?h n"
      by blast
    have "ours env ?h name" if "r = Inr rec" "rel_Tool rec = ReleaseTool" for rec
      using read that unfolding ours_def by (metis fst_conv)
    with cs rest_ok False have "\<forall>n \<in> set cs. n \<in> set (name # names) \<and> \<not> is_current sc n \<and> ours env ?h n"
      by auto
    moreover have "\<exists>cmds. log' = log @ cmds \<and> (\<forall>c \<in> set cmds. has_prefix c ''cat '')"
      using cmds by (intro exI [of _ "(''cat '' @ Shell (ReleaseRecordPath name ?h)) # cmds"]) simp
    ultimately show ?thesis by blast
  qed
qed

lemma remove_all_logging:
  "remove_all (logging env) sc directory message names (w, log) = (r, (w', log')) \<Longrightarrow>
   \<exists>cmds. log' = log @ cmds \<and> (\<forall>c \<in> set cmds. \<exists>n \<in> set names. c = ''rm -rf '' @ Shell (directory n))"
proof (induction names arbitrary: w log)
  case Nil
  then show ?case by simp
next
  case (Cons name names)
  let ?cmd = "''rm -rf '' @ Shell (directory name)"
  obtain res err w1 where
    run: "e_Run env \<lparr>Timeout = opt_CommandTimeout (sc_Opts sc), Stdin = [], Streamed = sc_Live sc\<rparr> ?cmd w =
      ((res, err), w1)"
    by (metis prod.collapse)
  show ?case
  proof (cases err)
    case None
    then have "remove_all (logging env) sc directory message names (w1, log @ [?cmd]) = (r, (w', log'))"
      using Cons.prems run by (simp add: logging_run)
    from Cons.IH [OF this] obtain cmds where "log' = (log @ [?cmd]) @ cmds"
      "\<forall>c \<in> set cmds. \<exists>n \<in> set names. c = ''rm -rf '' @ Shell (directory n)" by blast
    then show ?thesis by (intro exI [of _ "?cmd # cmds"]) auto
  next
    case (Some e)
    then show ?thesis using Cons.prems run by (intro exI [of _ "[?cmd]"]) (auto simp: logging_run)
  qed
qed

text \<open>What cleanup may remove.\<close>

definition removable :: "'w env \<Rightarrow> step_ctx \<Rightarrow> string \<Rightarrow> bool" where
  "removable env sc cmd \<longleftrightarrow>
     (\<exists>name. cmd = ''rm -rf '' @ Shell (ReleasePath name (sc_Host sc)) \<and>
        \<not> is_current sc name \<and> ours env (sc_Host sc) name) \<or>
     (\<exists>name. cmd = ''rm -rf '' @ Shell (backup_entry (sc_Host sc) name) \<and> atoi name \<noteq> None)"

lemma pruneBackups_logging:
  assumes "pruneBackups (logging env) sc keep (w, log) = (r, (w', log'))"
    and "c \<in> set log'" and "c \<notin> set log"
  shows "\<not> has_prefix c ''rm -rf '' \<or> removable env sc c"
proof -
  let ?h = "sc_Host sc"
  obtain e w1 where list: "numberedEntries env sc (BackupRootPath ?h) w = (e, w1)" by fastforce
  let ?log = "log @ [list_command (BackupRootPath ?h)]"
  have ls: "\<not> has_prefix (list_command d) ''rm -rf ''" for d by (simp add: list_command_def)
  show ?thesis
  proof (cases e)
    case (Inl err)
    with assms list ls show ?thesis by (auto simp: pruneBackups_def numberedEntries_logging)
  next
    case (Inr entries)
    let ?names = "pruneWindow (filter (\<lambda>name. atoi name \<noteq> None) entries) keep"
    from assms(1) list Inr have
      "remove_all (logging env) sc (backup_entry ?h) ''prune backup %s: %w'' ?names (w1, ?log) = (r, (w', log'))"
      by (simp add: pruneBackups_def numberedEntries_logging)
    from remove_all_logging [OF this] obtain cmds where log': "log' = ?log @ cmds"
      and cmds: "\<forall>c \<in> set cmds. \<exists>n \<in> set ?names. c = ''rm -rf '' @ Shell (backup_entry ?h n)" by blast
    have numeric: "atoi n \<noteq> None" if "n \<in> set ?names" for n
      using that pruneWindow_subset [of "filter (\<lambda>name. atoi name \<noteq> None) entries" keep] by auto
    from assms(2,3) log' consider "c = list_command (BackupRootPath ?h)" | "c \<in> set cmds" by auto
    then show ?thesis
    proof cases
      case 1
      with ls show ?thesis by simp
    next
      case 2
      with cmds numeric show ?thesis unfolding removable_def by blast
    qed
  qed
qed

lemma fold_highest:
  "h \<le> fold highest_step names h \<and>
   (\<forall>name \<in> set names. \<forall>n. atoi name = Some n \<longrightarrow> n \<le> fold highest_step names h) \<and>
   (fold highest_step names h = h \<or> (\<exists>name \<in> set names. atoi name = Some (fold highest_step names h)))"
proof (induction names arbitrary: h)
  case Nil
  then show ?case by simp
next
  case (Cons name names)
  have step: "h \<le> highest_step name h" "\<And>n. atoi name = Some n \<Longrightarrow> n \<le> highest_step name h"
    "highest_step name h = h \<or> atoi name = Some (highest_step name h)"
    by (auto simp: highest_step_def split: option.split)
  show ?case
    using Cons.IH [of "highest_step name h"] step by fastforce
qed

lemma wrap64_id: "in_int64 n \<Longrightarrow> wrap64 n = n"
  by (simp add: wrap64_def in_int64_def)

section \<open>Properties\<close>

text \<open>
  A new release gets a number above every number in use, so its directory is not one that
  exists; the bound excludes only a directory named after the largest 64-bit integer.
\<close>

theorem NextReleaseNumber_fresh:
  assumes "e_Run env (short_opts False) (list_command (ReleasesPath h)) w = ((result, None), w')"
    and "\<forall>name \<in> set (listed (Stdout result)). atoi name \<noteq> Some (2 ^ 63 - 1)"
  shows "\<exists>k. fst (NextReleaseNumber env h w) = Inr (itoa k) \<and> 0 < k \<and>
    (\<forall>name \<in> set (listed (Stdout result)). \<forall>n. atoi name = Some n \<longrightarrow> n < k) \<and>
    itoa k \<notin> set (listed (Stdout result))"
proof -
  let ?names = "listed (Stdout result)"
  let ?top = "fold highest_step ?names 0"
  note facts = fold_highest [of 0 ?names]
  have "?top < 2 ^ 63 - 1"
  proof (cases "?top = 0")
    case False
    with facts obtain name where name: "name \<in> set ?names" "atoi name = Some ?top" by blast
    with atoi_range [of name ?top] assms(2) show ?thesis by (auto simp: in_int64_def)
  qed simp
  then have range: "in_int64 (?top + 1)" using facts by (simp add: in_int64_def)
  let ?k = "?top + 1"
  have above: "n < ?k" if "name \<in> set ?names" "atoi name = Some n" for name n
    using facts that by force
  have "itoa ?k \<notin> set ?names" using above [OF _ atoi_itoa [OF range]] by blast
  moreover have "fst (NextReleaseNumber env h w) = Inr (itoa ?k)"
    using assms(1) by (simp add: NextReleaseNumber_def next_number_def wrap64_id [OF range])
  moreover have "0 < ?k" using facts by simp
  ultimately show ?thesis using above by blast
qed

theorem NextReleaseNumber_fresh_witness:
  "\<exists>k. fst (NextReleaseNumber listing_env demo_host ()) = Inr (itoa k) \<and> 11 < k"
proof -
  let ?result = "fst (fst (e_Run listing_env (short_opts False) (list_command (ReleasesPath demo_host)) ()))"
  have run: "e_Run listing_env (short_opts False) (list_command (ReleasesPath demo_host)) () =
      ((?result, None), ())"
    by (simp add: listing_env_def)
  have listing: "listed (Stdout ?result) = three_releases" by code_simp
  have "list_all (\<lambda>name. atoi name \<noteq> Some (2 ^ 63 - 1)) three_releases" by code_simp
  then have small: "\<forall>name \<in> set (listed (Stdout ?result)). atoi name \<noteq> Some (2 ^ 63 - 1)"
    by (simp add: listing list_all_iff)
  have "atoi ''11'' = Some 11" by code_simp
  moreover have "''11'' \<in> set (listed (Stdout ?result))" by (simp add: listing three_releases_def)
  ultimately show ?thesis using NextReleaseNumber_fresh [OF run small] by blast
qed

text \<open>
  Creating a release succeeds only on a directory that was not there or that holds this
  tool's record of that very release; the record then names the number and its directory.
\<close>

theorem CoreRelease_never_reuses:
  assumes "CoreRelease env sc w = ((None, release), w')"
  shows "\<exists>number w1. release = set_release number (ReleasePath number (sc_Host sc)) (sc_Release sc) \<and>
    (fixed_number sc = [] \<or> number = fixed_number sc) \<and>
    (fst (step_exec env sc (''test -e '' @ Shell (ReleasePath number (sc_Host sc))) w1) \<noteq> None \<or>
     fst (releaseIsGovards env (sc_Host sc) number w1))"
proof -
  obtain number w0 where create: "create_release number env sc w0 = ((None, release), w')"
    and number: "fixed_number sc = [] \<or> number = fixed_number sc"
    using assms by (auto simp: CoreRelease_def split: if_splits prod.splits sum.splits)
  let ?test = "step_exec env sc (''test -e '' @ Shell (ReleasePath number (sc_Host sc)))"
  obtain err w1 where test: "?test w0 = (err, w1)" by fastforce
  have "release = set_release number (ReleasePath number (sc_Host sc)) (sc_Release sc)"
    using create test
    by (auto simp: create_release_def Let_def split: option.splits prod.splits bool.splits)
  moreover have "\<exists>w1. fst (?test w1) \<noteq> None \<or> fst (releaseIsGovards env (sc_Host sc) number w1)"
  proof (cases err)
    case None
    then have "fst (releaseIsGovards env (sc_Host sc) number w1)"
      using create test by (auto simp: create_release_def Let_def split: prod.splits bool.splits)
    then show ?thesis by blast
  next
    case (Some e)
    with test show ?thesis by (intro exI [of _ w0]) simp
  qed
  ultimately show ?thesis using number by blast
qed

theorem CoreRelease_never_reuses_witness:
  "\<exists>number. set_release ''7'' (ReleasePath ''7'' demo_host) (sc_Release demo_ctx) =
     set_release number (ReleasePath number demo_host) (sc_Release demo_ctx) \<and> number = ''7''"
proof -
  let ?env = "listing_env\<lparr>e_Run := (\<lambda>opts cmd w.
     ((\<lparr>Stdout = [], Stderr = [], ExitCode = 0\<rparr>,
       if has_prefix cmd ''test'' then Some (CommandError cmd 1 []) else None), w))\<rparr>"
  have fixed: "fixed_number demo_ctx = ''7''" by code_simp
  have "CoreRelease ?env demo_ctx () =
      ((None, set_release ''7'' (ReleasePath ''7'' (sc_Host demo_ctx)) (sc_Release demo_ctx)), ())"
    using fixed by (simp add: CoreRelease_def create_release_def step_exec_def Let_def)
  from CoreRelease_never_reuses [OF this] fixed show ?thesis by (auto simp: demo_ctx_def)
qed

text \<open>
  The insertion loop of \<open>pruneWindow\<close> is a stable sort by descending number: what is pruned
  is exactly the sorted list past the window.
\<close>

theorem pruneWindow_sorts:
  "pruneWindow entries keep = drop (nat keep) (sort_key (\<lambda>name. - entryNumber name) entries)"
  using pruneWindow_drop [of entries keep] by (simp add: newest_key_def [abs_def])

text \<open>
  No entry is pruned while an older one is kept, exactly the window is kept, and nothing
  is pruned that was not listed.
\<close>

theorem pruneWindow_keeps_newest:
  assumes "0 < keep"
  shows "\<exists>kept. mset entries = mset kept + mset (pruneWindow entries keep) \<and>
    int (length kept) = min keep (int (length entries)) \<and>
    (\<forall>k \<in> set kept. \<forall>p \<in> set (pruneWindow entries keep). entryNumber p \<le> entryNumber k)"
proof -
  let ?s = "sort_key newest_key entries"
  let ?kept = "take (nat keep) ?s"
  have "mset entries = mset (?kept @ drop (nat keep) ?s)" by simp
  then have "mset entries = mset ?kept + mset (pruneWindow entries keep)"
    unfolding mset_append pruneWindow_drop .
  moreover have "int (length ?kept) = min keep (int (length entries))" using assms by simp
  moreover have "entryNumber p \<le> entryNumber k"
    if "k \<in> set ?kept" "p \<in> set (pruneWindow entries keep)" for k p
  proof -
    have "sorted (map newest_key (?kept @ drop (nat keep) ?s))"
      unfolding append_take_drop_id by (rule sorted_sort_key)
    then have "\<forall>x \<in> set (map newest_key ?kept). \<forall>y \<in> set (map newest_key (drop (nat keep) ?s)). x \<le> y"
      unfolding map_append sorted_append by blast
    with that have "newest_key k \<le> newest_key p"
      unfolding pruneWindow_drop set_map by blast
    then show ?thesis by (simp add: newest_key_def)
  qed
  ultimately show ?thesis by blast
qed

theorem pruneWindow_keeps_newest_witness:
  "\<exists>kept. mset [''9'', ''11'', ''10''] = mset kept + mset (pruneWindow [''9'', ''11'', ''10''] 2) \<and>
     length kept = 2"
  using pruneWindow_keeps_newest [of 2 "[''9'', ''11'', ''10'']"] by (auto simp: min_def)

text \<open>
  A name that is not a number counts against the window and can itself be pruned: the callers
  have to filter, and the one for releases does not.
\<close>

lemma stranger_fills_the_window:
  "pruneWindow [''backup-old'', ''12''] 1 = [''12'']"
  "pruneWindow [''backup-old'', ''before-upgrade''] 1 = [''before-upgrade'']"
  by code_simp+

text \<open>
  C32. Cleanup removes nothing but a release directory whose record says it is this tool's and
  which is not the release being deployed, or a dump directory named by a number.
\<close>

theorem CoreCleanup_only_prunes:
  assumes "CoreCleanup (logging env) sc (w, []) = (r, (w', log))" and "c \<in> set log"
  shows "\<not> has_prefix c ''rm -rf '' \<or> removable env sc c"
proof -
  let ?h = "sc_Host sc"
  let ?keep = "if opt_KeepReleases (sc_Opts sc) \<le> 0 then DefaultKeepReleases else opt_KeepReleases (sc_Opts sc)"
  obtain e w1 where list: "numberedEntries env sc (ReleasesPath ?h) w = (e, w1)" by fastforce
  let ?log = "[list_command (ReleasesPath ?h)]"
  have ls: "\<not> has_prefix (list_command d) ''rm -rf ''" for d by (simp add: list_command_def)
  have cat: "\<not> has_prefix c ''rm -rf ''" if "has_prefix c ''cat ''" for c
    using that by (auto simp: has_prefix_iff)
  show ?thesis
  proof (cases e)
    case (Inl err)
    with assms list ls show ?thesis by (auto simp: CoreCleanup_def numberedEntries_logging Let_def)
  next
    case (Inr stale)
    obtain cs fs w2 log2 where cls: "classify (logging env) sc stale (w1, ?log) = ((cs, fs), (w2, log2))"
      by (metis prod.collapse)
    from classify_logging [OF this] obtain cmds where log2: "log2 = ?log @ cmds"
      and cats: "\<forall>c \<in> set cmds. has_prefix c ''cat ''"
      and cs: "\<forall>n \<in> set cs. \<not> is_current sc n \<and> ours env ?h n" by blast
    obtain e3 w3 log3 where rm: "remove_all (logging env) sc (\<lambda>name. ReleasePath name ?h)
        ''prune release %s: %w'' (pruneWindow cs ?keep) (w2, log2) = (e3, (w3, log3))"
      by (metis prod.collapse)
    from remove_all_logging [OF this] obtain rms where log3: "log3 = log2 @ rms"
      and rms: "\<forall>c \<in> set rms. \<exists>n \<in> set (pruneWindow cs ?keep). c = ''rm -rf '' @ Shell (ReleasePath n ?h)"
      by blast
    have removable: "removable env sc c" if "c \<in> set rms" for c
      using that rms cs pruneWindow_subset [of cs ?keep] unfolding removable_def by blast
    have good: "\<not> has_prefix c ''rm -rf '' \<or> removable env sc c" if "c \<in> set log3"
      using that removable cat cats ls log2 log3 by auto
    show ?thesis
    proof (cases e3)
      case (Some err)
      with assms list Inr cls rm good show ?thesis
        by (simp add: CoreCleanup_def numberedEntries_logging Let_def)
    next
      case None
      then have "pruneBackups (logging env) sc ?keep (w3, log3) = (r, (w', log))"
        using assms(1) list Inr cls rm by (simp add: CoreCleanup_def numberedEntries_logging Let_def)
      from pruneBackups_logging [OF this assms(2)] good show ?thesis by blast
    qed
  qed
qed

theorem CoreCleanup_only_prunes_witness:
  "\<exists>c. has_prefix c ''rm -rf '' \<and> removable listing_env (demo_ctx\<lparr>sc_Opts := demo_options\<lparr>opt_KeepReleases := 1\<rparr>\<rparr>) c"
proof -
  let ?sc = "demo_ctx\<lparr>sc_Opts := demo_options\<lparr>opt_KeepReleases := 1\<rparr>\<rparr>"
  let ?run = "CoreCleanup (logging listing_env) ?sc ((), [])"
  let ?c = "''rm -rf '' @ Shell (ReleasePath ''10'' demo_host)"
  have run: "?run = (fst ?run, (fst (snd ?run), snd (snd ?run)))" by (simp add: prod_eq_iff)
  have "list_ex (\<lambda>c. c = ?c) (snd (snd ?run))" by code_simp
  then have mem: "?c \<in> set (snd (snd ?run))" by (auto simp: list_ex_iff)
  have "has_prefix ?c ''rm -rf ''" by (rule has_prefix_append)
  with CoreCleanup_only_prunes [OF run mem] show ?thesis by blast
qed

end
