(* ===== verification/Query.thy ===== *)
theory Query
  imports ReleaseDirs
begin

text \<open>
  Reading the target back (\<open>query.go\<close>, \<open>dbbackup.go\<close>): the list of releases, the one that is
  live, the release a rollback returns to and the dump it restores.
\<close>

section \<open>The list of releases\<close>

record release_entry =
  ent_Release :: string
  ent_Revision :: string
  ent_Branch :: string
  ent_Status :: string
  ent_CreatedAt :: string
  ent_CreatedBy :: string
  ent_Live :: bool
  ent_Foreign :: bool
  ent_Number :: int

text \<open>One entry: foreign without a readable record of this tool.\<close>

definition entry_of :: "string \<Rightarrow> go_error + release \<Rightarrow> release_entry" where
  "entry_of name record =
     (let foreign = \<lparr>ent_Release = name, ent_Revision = [], ent_Branch = [], ent_Status = [],
            ent_CreatedAt = [], ent_CreatedBy = [], ent_Live = False, ent_Foreign = True,
            ent_Number = mustAtoi name\<rparr>
      in case record of
           Inl _ \<Rightarrow> foreign
         | Inr rel \<Rightarrow>
             if rel_Tool rel \<noteq> ReleaseTool then foreign
             else \<lparr>ent_Release = name, ent_Revision = rel_Revision rel, ent_Branch = rel_Branch rel,
               ent_Status = rel_Status rel, ent_CreatedAt = rel_CreatedAt rel,
               ent_CreatedBy = rel_CreatedBy rel, ent_Live = False, ent_Foreign = False,
               ent_Number = mustAtoi name\<rparr>)"

fun read_entries :: "'w env \<Rightarrow> host \<Rightarrow> string list \<Rightarrow> 'w \<Rightarrow> release_entry list \<times> 'w" where
  "read_entries env h [] w = ([], w)"
| "read_entries env h (name # names) w =
     (case ReadRelease env h name w of
        (record, w) \<Rightarrow>
          (case read_entries env h names w of (es, w) \<Rightarrow> (entry_of name record # es, w)))"

definition newest_first :: "release_entry list \<Rightarrow> release_entry list" where
  "newest_first entries = sort_key (\<lambda>e. - ent_Number e) entries"

definition releaseEntries ::
  "'w env \<Rightarrow> host \<Rightarrow> 'w \<Rightarrow> (go_error + release_entry list) \<times> 'w" where
  "releaseEntries env h w =
     (case e_Run env (short_opts False) (list_command (ReleasesPath h)) w of
        ((_, Some err), w) \<Rightarrow> (Inl (Wrapf ''list releases: %w'' [] err), w)
      | ((result, None), w) \<Rightarrow>
          (case read_entries env h (listed (Stdout result)) w of
             (entries, w) \<Rightarrow> (Inr (newest_first entries), w)))"

text \<open>The name of the live release, empty when it cannot be told.\<close>

definition live_by_head :: "'w env \<Rightarrow> host \<Rightarrow> 'w \<Rightarrow> string \<times> 'w" where
  "live_by_head env h w =
     (case e_Run env (short_opts False) (''git -C '' @ Shell (h_CurrentPath h) @ '' rev-parse HEAD'') w of
        ((_, Some _), w) \<Rightarrow> ([], w)
      | ((head, None), w) \<Rightarrow>
          (let revision = trim_space (Stdout head) in
           if revision = [] then ([], w)
           else case releaseEntries env h w of
             (Inl _, w) \<Rightarrow> ([], w)
           | (Inr entries, w) \<Rightarrow>
               (case find (\<lambda>e. \<not> ent_Foreign e \<and> ent_Revision e = revision) entries of
                  Some e \<Rightarrow> (ent_Release e, w)
                | None \<Rightarrow> ([], w))))"

definition liveReleaseName :: "'w env \<Rightarrow> host \<Rightarrow> 'w \<Rightarrow> string \<times> 'w" where
  "liveReleaseName env h w =
     (case e_Run env (short_opts False) (''readlink -f '' @ Shell (h_CurrentPath h)) w of
        ((_, Some _), w) \<Rightarrow> live_by_head env h w
      | ((result, None), w) \<Rightarrow>
          (let resolved = trim_space (Stdout result) in
           if resolved \<noteq> [] \<and> resolved \<noteq> h_CurrentPath h then (path_base resolved, w)
           else live_by_head env h w))"

definition ListReleases ::
  "'w env \<Rightarrow> host \<Rightarrow> 'w \<Rightarrow> (go_error + release_entry list) \<times> 'w" where
  "ListReleases env h w =
     (case releaseEntries env h w of
        (Inl err, w) \<Rightarrow> (Inl err, w)
      | (Inr entries, w) \<Rightarrow>
          (case liveReleaseName env h w of
             (live, w) \<Rightarrow> (Inr (map (\<lambda>e. e\<lparr>ent_Live := (ent_Release e = live)\<rparr>) entries), w)))"

definition LiveRelease :: "'w env \<Rightarrow> host \<Rightarrow> 'w \<Rightarrow> (go_error + release option) \<times> 'w" where
  "LiveRelease env h w =
     (case liveReleaseName env h w of
        (name, w) \<Rightarrow>
          if name = [] then (Inr None, w)
          else (case ReadRelease env h name w of
            (Inl _, w) \<Rightarrow> (Inr None, w)
          | (Inr record, w) \<Rightarrow> (Inr (Some record), w)))"

section \<open>The rollback target\<close>

definition numberFor :: "release_entry list \<Rightarrow> string \<Rightarrow> int" where
  "numberFor entries release =
     (case find (\<lambda>e. ent_Release e = release) entries of
        Some e \<Rightarrow> ent_Number e
      | None \<Rightarrow> 2 ^ 30)"

definition usable :: "release_entry \<Rightarrow> bool" where
  "usable e \<longleftrightarrow> \<not> ent_Foreign e \<and> ent_Status e = StatusOK"

text \<open>The choice among the usable entries: by default, by number, by revision prefix.\<close>

definition rollback_choice ::
  "string \<Rightarrow> release_entry list \<Rightarrow> string \<Rightarrow> string \<Rightarrow> go_error + release_entry" where
  "rollback_choice name entries live goal =
     (let us = filter usable entries in
      if goal = [] then
        (case find (\<lambda>e. ent_Number e < numberFor entries live) us of
           Some e \<Rightarrow> Inr e
         | None \<Rightarrow> Inl (Errorf ''no release older than %s to roll back to'' [live]))
      else case atoi goal of
        Some number \<Rightarrow>
          (case find (\<lambda>e. ent_Number e = number) us of
             Some e \<Rightarrow> Inr e
           | None \<Rightarrow> Inl (Errorf ''no release %d on %s'' [itoa number, name]))
      | None \<Rightarrow>
          (case find (\<lambda>e. has_prefix (ent_Revision e) goal) us of
             Some e \<Rightarrow> Inr e
           | None \<Rightarrow> Inl (Errorf ''no release of %s matches %q'' [name, goal])))"

definition SelectRollbackTarget ::
  "'w env \<Rightarrow> host \<Rightarrow> string \<Rightarrow> 'w \<Rightarrow> (go_error + release) \<times> 'w" where
  "SelectRollbackTarget env h goal w =
     (case ListReleases env h w of
        (Inl err, w) \<Rightarrow> (Inl err, w)
      | (Inr entries, w) \<Rightarrow>
          if filter usable entries = [] then
            (Inl (Errorf ''no successfully deployed govard release was found under %s'' [ReleasesPath h]), w)
          else
            (case (if trim_space goal = [] then liveReleaseName env h w else ([], w)) of
               (live, w) \<Rightarrow>
                 if trim_space goal = [] \<and> live = [] then
                   (Inl (Errorf ''cannot tell which release %s is serving; pass --to <release>'' [h_Name h]), w)
                 else (case rollback_choice (h_Name h) entries live (trim_space goal) of
                   Inl err \<Rightarrow> (Inl err, w)
                 | Inr e \<Rightarrow> ReadRelease env h (ent_Release e) w)))"

section \<open>The dump a rollback restores\<close>

text \<open>The lowest number above the target's among this tool's releases, 0 for none.\<close>

fun next_above :: "int \<Rightarrow> int \<Rightarrow> release_entry list \<Rightarrow> int" where
  "next_above goal found [] = found"
| "next_above goal found (e # es) =
     (if ent_Foreign e \<or> ent_Number e \<le> goal then next_above goal found es
      else if found = 0 \<or> ent_Number e < found then next_above goal (ent_Number e) es
      else next_above goal found es)"

definition RollbackBackup ::
  "'w env \<Rightarrow> host \<Rightarrow> release option \<Rightarrow> 'w \<Rightarrow> (go_error + release) \<times> 'w" where
  "RollbackBackup env h goal w =
     (case goal of
        None \<Rightarrow> (Inl (Errorf ''rollback: no target release'' []), w)
      | Some rel \<Rightarrow>
          (case atoi (trim_space (rel_Release rel)) of
             None \<Rightarrow> (Inl (Errorf ''rollback: the target release %q is not a release number'' [rel_Release rel]), w)
           | Some number \<Rightarrow>
               (case ListReleases env h w of
                  (Inl err, w) \<Rightarrow> (Inl err, w)
                | (Inr entries, w) \<Rightarrow>
                    (let above = next_above number 0 entries in
                     if above = 0 then
                       (Inl (Wrapf ''%w: release %s is the newest release on %s, so no later release has a dump to restore''
                          [rel_Release rel, h_Name h] (Sentinel ErrNoRollbackBackup)), w)
                     else case ReadRelease env h (itoa above) w of
                       (Inl err, w) \<Rightarrow> (Inl (Wrapf ''read release %d: %w'' [itoa above] err), w)
                     | (Inr record, w) \<Rightarrow>
                         if trim_space (rel_DatabaseBackup record) = [] then
                           (Inl (Wrapf ''%w: release %d ran after release %s and recorded none; deploy it again with --db-backup, or roll back without --with-db''
                              [itoa above, rel_Release rel] (Sentinel ErrNoRollbackBackup)), w)
                         else (Inr record, w)))))"

section \<open>Dumping and restoring\<close>

definition backupFileName :: string where "backupFileName = ''dump.sql''"

definition checkDBBackup :: "'w env \<Rightarrow> step_ctx \<Rightarrow> 'w \<Rightarrow> go_error option \<times> 'w" where
  "checkDBBackup env sc w =
     (let probe = opt_DBBackupProbe (sc_Opts sc) in
      if \<not> opt_DBBackup (sc_Opts sc) \<or> trim_space (dump_Command probe) = [] then (None, w)
      else case step_exec env sc (dump_Command probe) w of
        (None, w) \<Rightarrow> (None, w)
      | (Some err, w) \<Rightarrow>
          if command_exit_code err \<noteq> None \<and> \<not> errors_is err ErrConnectionMayHaveDropped then
            (Some (Wrapf ''%v: --db-backup needs %s on the target, and it was not found; install it, or deploy without --db-backup (nothing was changed)''
               [if dump_Needs probe = [] then ''a database dump tool'' else dump_Needs probe]
               (Sentinel ErrDBBackupUnavailable)), w)
          else (Some (Wrapf ''check the database dump tool: %w'' [] err), w))"

text \<open>The command's error and the variables, whose shared maps now hold the dump's path.\<close>

definition runDBCommand ::
  "'w env \<Rightarrow> step_ctx \<Rightarrow> string \<Rightarrow> string \<Rightarrow> string \<Rightarrow> 'w \<Rightarrow> (go_error option \<times> vars) \<times> 'w" where
  "runDBCommand env sc command backupPath label w =
     (if command = [] then
        ((Some (Errorf ''%s: this framework's recipe provides no dump command'' [label]), sc_Vars sc), w)
      else
        let vs = SetPath ''backup_path'' backupPath (sc_Vars sc) in
        case Expand vs command of
          Inl err \<Rightarrow> ((Some (Wrapf ''expand %s: %w'' [label] err), vs), w)
        | Inr expanded \<Rightarrow>
            (case e_Run env \<lparr>Timeout = opt_CommandTimeout (sc_Opts sc), Stdin = [], Streamed = sc_Live sc\<rparr>
                expanded w of
               ((_, Some err), w) \<Rightarrow> ((Some (Wrapf ''%s: %w'' [label] err), vs), w)
             | ((_, None), w) \<Rightarrow> ((None, vs), w)))"

definition dump_path :: "host \<Rightarrow> release \<Rightarrow> string" where
  "dump_path h rel = path_join [SharedBackupPath (rel_Release rel) h, backupFileName]"

definition private_directory :: "host \<Rightarrow> string \<Rightarrow> string" where
  "private_directory h directory =
     ''umask 077 && mkdir -p '' @ Shell directory @ '' && chmod 700 '' @
       Shell (BackupRootPath h) @ '' '' @ Shell directory"

definition private_file :: "string \<Rightarrow> string" where
  "private_file goal = ''chmod 600 '' @ Shell goal"

definition CoreDBBackup :: "string \<Rightarrow> 'w core_run" where
  "CoreDBBackup command env sc w =
     (if \<not> opt_DBBackup (sc_Opts sc) then ((None, sc_Release sc, sc_Vars sc), w)
      else case sc_Release sc of
        None \<Rightarrow> ((Some (Errorf ''db:backup: no release record'' []), None, sc_Vars sc), w)
      | Some rel \<Rightarrow>
          (let h = sc_Host sc;
               directory = SharedBackupPath (rel_Release rel) h;
               goal = dump_path h rel
           in case e_Run env (short_opts False) (private_directory h directory) w of
             ((_, Some err), w) \<Rightarrow>
               ((Some (Wrapf ''create the backup directory %s: %w'' [directory] err), Some rel, sc_Vars sc), w)
           | ((_, None), w) \<Rightarrow>
               (case runDBCommand env sc command goal ''db:backup'' w of
                  ((Some err, vs), w) \<Rightarrow> ((Some err, Some rel, vs), w)
                | ((None, vs), w) \<Rightarrow>
                    (case e_Run env (short_opts False) (private_file goal) w of
                       ((_, Some err), w) \<Rightarrow>
                         ((Some (Wrapf ''make the backup %s private: %w'' [goal] err), Some rel, vs), w)
                     | ((_, None), w) \<Rightarrow>
                         ((None, Some (rel\<lparr>rel_DatabaseBackup := goal\<rparr>), vs), w)))))"

definition CoreDBRestore :: "string \<Rightarrow> 'w core_run" where
  "CoreDBRestore command env sc w =
     (case sc_Release sc of
        None \<Rightarrow> ((Some (Errorf ''db:restore: no release record'' []), None, sc_Vars sc), w)
      | Some rel \<Rightarrow>
          (let backup = rel_DatabaseBackup rel in
           if backup = [] then
             ((Some (Wrapf ''%w: %s'' [rel_Release rel] (Sentinel ErrNoDatabaseBackup)), Some rel, sc_Vars sc), w)
           else case e_Run env (short_opts False) (''test -r '' @ Shell backup) w of
             ((_, Some err), w) \<Rightarrow>
               ((Some (Wrapf ''the recorded backup %s is not readable on the target: %w'' [backup] err),
                 Some rel, sc_Vars sc), w)
           | ((_, None), w) \<Rightarrow>
               (case runDBCommand env sc command backup ''db:restore'' w of
                  ((err, vs), w) \<Rightarrow> ((err, Some rel, vs), w))))"

section \<open>Lemmas\<close>

lemma read_entries_view:
  "reads_view env h view \<Longrightarrow> read_entries env h names w = (map (\<lambda>n. entry_of n (view n)) names, w)"
  by (induction names arbitrary: w) (auto simp: reads_view_def)

text \<open>The entries of a view: what the source's list holds, newest first.\<close>

definition listing_of :: "(string \<Rightarrow> go_error + release) \<Rightarrow> string list \<Rightarrow> release_entry list" where
  "listing_of view names = newest_first (map (\<lambda>n. entry_of n (view n)) names)"

lemma entry_of_fields [simp]:
  "ent_Release (entry_of n r) = n" "ent_Number (entry_of n r) = mustAtoi n"
  by (auto simp: entry_of_def Let_def split: sum.split)

lemma usable_entry:
  "usable (entry_of n r) \<longleftrightarrow> (\<exists>rel. r = Inr rel \<and> rel_Tool rel = ReleaseTool \<and> rel_Status rel = StatusOK)"
  by (auto simp: usable_def entry_of_def Let_def split: sum.split)

lemma foreign_entry:
  "ent_Foreign (entry_of n r) \<longleftrightarrow> \<not> (\<exists>rel. r = Inr rel \<and> rel_Tool rel = ReleaseTool)"
  by (auto simp: entry_of_def Let_def split: sum.split)

lemma listing_of_set: "set (listing_of view names) = (\<lambda>n. entry_of n (view n)) ` set names"
  by (simp add: listing_of_def newest_first_def)

lemma listing_of_sorted: "sorted (map (\<lambda>e. - ent_Number e) (listing_of view names))"
  unfolding listing_of_def newest_first_def by (rule sorted_sort_key)

definition mark_live :: "string \<Rightarrow> release_entry \<Rightarrow> release_entry" where
  "mark_live live e = e\<lparr>ent_Live := (ent_Release e = live)\<rparr>"

lemma mark_live_fields [simp]:
  "ent_Release (mark_live live e) = ent_Release e" "ent_Number (mark_live live e) = ent_Number e"
  "ent_Foreign (mark_live live e) = ent_Foreign e" "usable (mark_live live e) = usable e"
  by (simp_all add: mark_live_def usable_def)

lemma ListReleases_view:
  assumes "reads_view env h view" and "ListReleases env h w = (Inr entries, w')"
  obtains names live where "entries = map (mark_live live) (listing_of view names)"
proof -
  obtain res err w1 where ls: "e_Run env (short_opts False) (list_command (ReleasesPath h)) w = ((res, err), w1)"
    by (metis prod.collapse)
  with assms that show ?thesis
    by (auto simp: ListReleases_def releaseEntries_def read_entries_view listing_of_def mark_live_def [abs_def]
        split: option.splits prod.splits)
qed

lemma find_sorted:
  assumes "find P es = Some e" and "sorted (map (\<lambda>e. - ent_Number e) es)"
  shows "e \<in> set es \<and> P e \<and> (\<forall>x \<in> set es. P x \<longrightarrow> ent_Number x \<le> ent_Number e)"
  using assms by (induction es) (auto split: if_splits)

lemma next_above_spec:
  assumes "\<forall>e \<in> set seen. \<not> ent_Foreign e \<and> t < ent_Number e \<longrightarrow> found \<noteq> 0 \<and> found \<le> ent_Number e"
    and "found \<noteq> 0 \<longrightarrow> (\<exists>e \<in> set seen. \<not> ent_Foreign e \<and> t < ent_Number e \<and> ent_Number e = found)"
    and "0 \<le> t"
  shows "(\<forall>e \<in> set (seen @ es). \<not> ent_Foreign e \<and> t < ent_Number e \<longrightarrow>
            next_above t found es \<noteq> 0 \<and> next_above t found es \<le> ent_Number e) \<and>
    (next_above t found es \<noteq> 0 \<longrightarrow>
       (\<exists>e \<in> set (seen @ es). \<not> ent_Foreign e \<and> t < ent_Number e \<and> ent_Number e = next_above t found es))"
  using assms(1,2)
proof (induction es arbitrary: seen found)
  case Nil
  then show ?case by simp
next
  case (Cons e es)
  let ?found = "if ent_Foreign e \<or> ent_Number e \<le> t then found
    else if found = 0 \<or> ent_Number e < found then ent_Number e else found"
  have step: "next_above t found (e # es) = next_above t ?found es" by simp
  have "\<forall>x \<in> set (seen @ [e]). \<not> ent_Foreign x \<and> t < ent_Number x \<longrightarrow> ?found \<noteq> 0 \<and> ?found \<le> ent_Number x"
    using Cons.prems assms(3) by auto
  moreover have "?found \<noteq> 0 \<longrightarrow>
      (\<exists>x \<in> set (seen @ [e]). \<not> ent_Foreign x \<and> t < ent_Number x \<and> ent_Number x = ?found)"
    using Cons.prems by auto
  ultimately show ?case using Cons.IH [of "seen @ [e]" ?found] unfolding step by simp
qed

section \<open>Properties\<close>

text \<open>
  Rolling back without naming a release returns to the newest release this tool deployed
  successfully that is older than the live one, as its record on the target says.
\<close>

theorem SelectRollbackTarget_previous:
  assumes "reads_view env h view" and "ListReleases env h w = (Inr entries, w1)"
    and "liveReleaseName env h w1 = (live, w2)" and "trim_space goal = []"
    and "fst (SelectRollbackTarget env h goal w) = Inr r"
  shows "rel_Tool r = ReleaseTool \<and> rel_Status r = StatusOK \<and> live \<noteq> [] \<and>
    (\<exists>e \<in> set entries. view (ent_Release e) = Inr r \<and> ent_Number e < numberFor entries live \<and>
       (\<forall>x \<in> set entries. usable x \<and> ent_Number x < numberFor entries live \<longrightarrow> ent_Number x \<le> ent_Number e))"
proof -
  obtain names l where entries: "entries = map (mark_live l) (listing_of view names)"
    using assms(1,2) by (rule ListReleases_view)
  let ?P = "\<lambda>e. ent_Number e < numberFor entries live"
  have some: "filter usable entries \<noteq> []" and live: "live \<noteq> []"
    using assms(2-5) by (auto simp: SelectRollbackTarget_def split: if_splits)
  from assms some live obtain e where find: "find ?P (filter usable entries) = Some e"
    and read: "fst (ReadRelease env h (ent_Release e) w2) = Inr r"
    by (auto simp: SelectRollbackTarget_def rollback_choice_def Let_def split: option.splits sum.splits)
  have "sorted (map (\<lambda>e. - ent_Number e) entries)"
    using listing_of_sorted [of view names] by (simp add: entries comp_def)
  then have "sorted (map (\<lambda>e. - ent_Number e) (filter usable entries))"
    by (rule sorted_filter)
  from find_sorted [OF find this] have e: "e \<in> set entries" "usable e" "?P e"
    and best: "\<forall>x \<in> set entries. usable x \<and> ?P x \<longrightarrow> ent_Number x \<le> ent_Number e"
    by auto
  have view: "view (ent_Release e) = Inr r" using read assms(1) by (simp add: reads_view_def)
  obtain n where "n \<in> set names" "e = mark_live l (entry_of n (view n))"
    using e(1) by (auto simp: entries listing_of_set)
  with e(2) view have "rel_Tool r = ReleaseTool \<and> rel_Status r = StatusOK" by (auto simp: usable_entry)
  with live e best view show ?thesis by blast
qed

text \<open>The three releases of the demonstration target, with a failed one between two that finished.\<close>

definition rollback_env :: "unit env" where
  "rollback_env = listing_env\<lparr>
     e_Run := (\<lambda>opts cmd w.
       if cmd = ''readlink -f '' @ Shell (h_CurrentPath demo_host) then
         ((\<lparr>Stdout = ''/srv/shop/releases/11'', Stderr = [], ExitCode = 0\<rparr>, None), w)
       else e_Run listing_env opts cmd w),
     e_Unmarshal := (\<lambda>s. Inr (demo_release\<lparr>rel_Release := s, rel_DatabaseBackup := ''/srv/dump.sql'',
       rel_Status := (if s = ''10'' then StatusFailed else StatusOK)\<rparr>))\<rparr>"

definition rollback_view :: "string \<Rightarrow> go_error + release" where
  "rollback_view n = fst (ReadRelease rollback_env demo_host n ())"

lemma rollback_env_view: "reads_view rollback_env demo_host rollback_view"
  by (simp add: reads_view_def rollback_view_def prod_eq_iff)

definition rollback_entries :: "release_entry list" where
  "rollback_entries = (case fst (ListReleases rollback_env demo_host ()) of Inr es \<Rightarrow> es | Inl _ \<Rightarrow> [])"

lemma rollback_env_list: "ListReleases rollback_env demo_host () = (Inr rollback_entries, ())"
proof -
  have "\<not> isl (fst (ListReleases rollback_env demo_host ()))" by code_simp
  then show ?thesis by (auto simp: rollback_entries_def isl_def prod_eq_iff split: sum.split)
qed

theorem SelectRollbackTarget_previous_witness:
  "\<exists>r. fst (SelectRollbackTarget rollback_env demo_host [] ()) = Inr r \<and> rel_Tool r = ReleaseTool \<and>
     rel_Status r = StatusOK"
proof -
  have "\<not> isl (fst (SelectRollbackTarget rollback_env demo_host [] ()))" by code_simp
  then obtain r where r: "fst (SelectRollbackTarget rollback_env demo_host [] ()) = Inr r"
    by (auto simp: isl_def split: sum.splits) (metis old.sum.exhaust)
  have live: "liveReleaseName rollback_env demo_host () = (''11'', ())" by code_simp
  from SelectRollbackTarget_previous [OF rollback_env_view rollback_env_list live _ r] r
  show ?thesis by auto
qed

text \<open>
  The dump a rollback restores is the one of the release that came right after the target:
  the lowest number above the target's among the releases of this tool.
\<close>

theorem RollbackBackup_next:
  assumes "reads_view env h view" and "ListReleases env h w = (Inr entries, w1)"
    and "atoi (trim_space (rel_Release rel)) = Some t" and "0 \<le> t"
    and "fst (RollbackBackup env h (Some rel) w) = Inr record"
  shows "\<exists>e \<in> set entries. \<not> ent_Foreign e \<and> t < ent_Number e \<and>
    (\<forall>x \<in> set entries. \<not> ent_Foreign x \<and> t < ent_Number x \<longrightarrow> ent_Number e \<le> ent_Number x) \<and>
    view (itoa (ent_Number e)) = Inr record \<and> trim_space (rel_DatabaseBackup record) \<noteq> []"
proof -
  let ?k = "next_above t 0 entries"
  have spec: "\<forall>e \<in> set entries. \<not> ent_Foreign e \<and> t < ent_Number e \<longrightarrow> ?k \<noteq> 0 \<and> ?k \<le> ent_Number e"
    "?k \<noteq> 0 \<longrightarrow> (\<exists>e \<in> set entries. \<not> ent_Foreign e \<and> t < ent_Number e \<and> ent_Number e = ?k)"
    using next_above_spec [of "[]" t 0 entries] assms(4) by simp_all
  have "?k \<noteq> 0" "fst (ReadRelease env h (itoa ?k) w1) = Inr record"
    "trim_space (rel_DatabaseBackup record) \<noteq> []"
    using assms(2,3,5) by (auto simp: RollbackBackup_def Let_def split: if_splits sum.splits prod.splits)
  moreover from this have "view (itoa ?k) = Inr record" using assms(1) by (simp add: reads_view_def)
  ultimately show ?thesis using spec by metis
qed

theorem RollbackBackup_next_witness:
  "\<exists>record. fst (RollbackBackup rollback_env demo_host (Some (demo_release\<lparr>rel_Release := ''9''\<rparr>)) ()) = Inr record \<and>
     trim_space (rel_DatabaseBackup record) \<noteq> []"
proof -
  let ?rel = "demo_release\<lparr>rel_Release := ''9''\<rparr>"
  have "\<not> isl (fst (RollbackBackup rollback_env demo_host (Some ?rel) ()))" by code_simp
  then obtain r where r: "fst (RollbackBackup rollback_env demo_host (Some ?rel) ()) = Inr r"
    by (auto simp: isl_def split: sum.splits) (metis old.sum.exhaust)
  have nine: "atoi (trim_space (rel_Release ?rel)) = Some 9" by code_simp
  from RollbackBackup_next [OF rollback_env_view rollback_env_list nine _ r] r
  show ?thesis by auto
qed

text \<open>
  A release names a dump only after the dump command ran and the file was made private, and
  the dump lies in the release's own directory; a failure leaves the record as it was.
\<close>

theorem CoreDBBackup_records:
  "case CoreDBBackup command env sc w of
     ((err, release, vs), w') \<Rightarrow>
       release = sc_Release sc \<or>
       err = None \<and> opt_DBBackup (sc_Opts sc) \<and>
       (\<exists>rel w1 w2. sc_Release sc = Some rel \<and>
          release = Some (rel\<lparr>rel_DatabaseBackup := dump_path (sc_Host sc) rel\<rparr>) \<and>
          runDBCommand env sc command (dump_path (sc_Host sc) rel) ''db:backup'' w1 = ((None, vs), w2) \<and>
          snd (fst (e_Run env (short_opts False) (private_file (dump_path (sc_Host sc) rel)) w2)) = None)"
proof (cases "sc_Release sc")
  case None
  then show ?thesis by (simp add: CoreDBBackup_def)
next
  case (Some rel)
  let ?goal = "dump_path (sc_Host sc) rel"
  obtain r1 e1 w1 where mk: "e_Run env (short_opts False)
      (private_directory (sc_Host sc) (SharedBackupPath (rel_Release rel) (sc_Host sc))) w = ((r1, e1), w1)"
    by (metis prod.collapse)
  obtain e2 vs w2 where db: "runDBCommand env sc command ?goal ''db:backup'' w1 = ((e2, vs), w2)"
    by (metis prod.collapse)
  obtain r3 e3 w3 where ch: "e_Run env (short_opts False) (private_file ?goal) w2 = ((r3, e3), w3)"
    by (metis prod.collapse)
  have "snd (fst (e_Run env (short_opts False) (private_file ?goal) w2)) = e3" by (simp add: ch)
  then have "e3 = None \<Longrightarrow> e2 = None \<Longrightarrow>
      \<exists>w1 w2. runDBCommand env sc command ?goal ''db:backup'' w1 = ((None, vs), w2) \<and>
        snd (fst (e_Run env (short_opts False) (private_file ?goal) w2)) = None"
    using db by blast
  with Some mk db ch show ?thesis
    by (cases e1; cases e2; cases e3) (simp_all add: CoreDBBackup_def Let_def)
qed

text \<open>
  A prefix of a revision made of digits alone is read as a release number, so the release of
  that revision is not found.
\<close>

lemma digits_read_as_number:
  "rollback_choice ''staging''
     [(entry_of ''7'' (Inr (demo_release\<lparr>rel_Revision := ''12345678abcdef'', rel_Status := StatusOK\<rparr>)))]
     [] ''12345678'' = Inl (Errorf ''no release %d on %s'' [itoa 12345678, ''staging''])"
  "rollback_choice ''staging''
     [(entry_of ''7'' (Inr (demo_release\<lparr>rel_Revision := ''12345678abcdef'', rel_Status := StatusOK\<rparr>)))]
     [] ''12345678a'' =
   Inr (entry_of ''7'' (Inr (demo_release\<lparr>rel_Revision := ''12345678abcdef'', rel_Status := StatusOK\<rparr>)))"
  by (simp_all add: rollback_choice_def entry_of_def usable_def demo_release_def NewRelease_def atoi_def
      signed_value_def parse_unsigned_def is_digit_def less_eq_char_def in_int64_def mustAtoi_def
      StatusOK_def ReleaseTool_def Let_def)

end
