(* ===== verification/Assets.thy ===== *)
theory Assets
  imports ReleaseDirs
begin

text \<open>
  Reusing static content on the sandbox target (\<open>assets_reuse.go\<close>): when the step may be
  skipped because an earlier release of the same artifact produced the same directories.
\<close>

definition ArtifactRecordName :: string where "ArtifactRecordName = ''artifact-manifest.json''"
definition sandboxAssetsRecordName :: string where "sandboxAssetsRecordName = ''sandbox-assets.json''"
definition sandboxReuseSetting :: string where "sandboxReuseSetting = ''sandbox_reuse_assets''"

definition AssetsFingerprint :: "'w env \<Rightarrow> string \<Rightarrow> string \<Rightarrow> string" where
  "AssetsFingerprint env manifestDigest command =
     e_Sha256 env (concat (map (\<lambda>v. itoa (int (length v)) @ '':'' @ v @ '';'') [manifestDigest, command]))"

definition sandboxAssetsEligible :: "host \<Rightarrow> options \<Rightarrow> step \<Rightarrow> bool" where
  "sandboxAssetsEligible h opts st \<longleftrightarrow>
     ID st = TaskAssets \<and> ReusableOutputs st \<noteq> [] \<and> rc_Sandbox (h_Remote h) \<and>
     map_of (opt_Settings opts) sandboxReuseSetting \<noteq> Some (SBool False)"

definition manifest_path :: "host \<Rightarrow> release \<Rightarrow> string" where
  "manifest_path h rel = path_join [ReleasePath (rel_Release rel) h, ''.dep'', ArtifactRecordName]"

definition digest_command :: "string \<Rightarrow> string" where
  "digest_command manifest =
     ''test -f '' @ Shell manifest @ '' && sed '' @ [sq] @ ''s/'' @ [dq] @ ''created_at'' @ [dq] @ '':'' @
     [dq] @ ''[^'' @ [dq] @ '']*'' @ [dq] @ '',//'' @ [sq] @ '' '' @ Shell manifest @
     '' | sha256sum | cut -d'' @ [sq] @ '' '' @ [sq] @ '' -f1''"

text \<open>The fingerprint of what the step would produce, empty when there is no basis for reuse.\<close>

definition sandboxAssetsFingerprint ::
  "'w env \<Rightarrow> host \<Rightarrow> step \<Rightarrow> vars \<Rightarrow> release \<Rightarrow> 'w \<Rightarrow> string \<times> 'w" where
  "sandboxAssetsFingerprint env h st vars rel w =
     (case Expand (SetPath ''release_path'' ''<release>'' (Set ''release'' ''<release>'' (Clone vars))) (Command st) of
        Inl _ \<Rightarrow> ([], w)
      | Inr command \<Rightarrow>
          (case e_Run env (short_opts False) (digest_command (manifest_path h rel)) w of
             ((result, err), w) \<Rightarrow>
               (let digest = trim_space (Stdout result) in
                if err \<noteq> None \<or> length digest \<noteq> 64 then ([], w)
                else (AssetsFingerprint env digest command, w))))"

definition noAbsoluteLinks :: "string \<Rightarrow> string" where
  "noAbsoluteLinks dir =
     ''test -z '' @ [dq] @ ''$(find '' @ Shell dir @ '' -type l -lname '' @ [sq] @ ''/*'' @ [sq] @
     '' -print -quit)'' @ [dq]"

definition reuse_command :: "string \<Rightarrow> string \<Rightarrow> string list \<Rightarrow> string" where
  "reuse_command previous current outputs =
     trim_suffix
       (concat (map (\<lambda>output. ''test -d '' @ Shell (path_join [previous, output]) @ '' || exit 3; '' @
          noAbsoluteLinks (path_join [previous, output]) @ '' || exit 5; '') outputs) @
        concat (map (\<lambda>output.
          (let goal = path_join [current, output] in
           ''mkdir -p '' @ Shell (path_dir goal) @ '' && rm -rf '' @ Shell goal @ '' && cp -al '' @
           Shell (path_join [previous, output]) @ '' '' @ Shell goal @ '' || exit 4; '')) outputs)) '' ''"

definition reuseSandboxAssets ::
  "'w env \<Rightarrow> host \<Rightarrow> options \<Rightarrow> step \<Rightarrow> vars \<Rightarrow> release \<Rightarrow> 'w \<Rightarrow> string option \<times> 'w" where
  "reuseSandboxAssets env h opts st vars rel w =
     (if \<not> sandboxAssetsEligible h opts st then (None, w)
      else case sandboxAssetsFingerprint env h st vars rel w of
        (fingerprint, w) \<Rightarrow>
          if fingerprint = [] then (None, w)
          else (case e_Run env (short_opts False)
              (''cat '' @ Shell (path_join [DepPath h, sandboxAssetsRecordName])) w of
            ((_, Some _), w) \<Rightarrow> (None, w)
          | ((raw, None), w) \<Rightarrow>
              (case e_UnmarshalAssets env (Stdout raw) of
                 None \<Rightarrow> (None, w)
               | Some (recorded, name) \<Rightarrow>
                   if recorded \<noteq> fingerprint \<or> name = [] \<or> name = rel_Release rel then (None, w)
                   else (case e_Run env (short_opts False)
                       (reuse_command (ReleasePath name h) (ReleasePath (rel_Release rel) h) (ReusableOutputs st)) w of
                     ((_, Some _), w) \<Rightarrow> (None, w)
                   | ((_, None), w) \<Rightarrow>
                       (Some (''sandbox: static content reused from release '' @ name @
                          '' (same artifact fingerprint)''), w)))))"

definition check_command :: "string \<Rightarrow> string list \<Rightarrow> string" where
  "check_command current outputs =
     trim_suffix (concat (map (\<lambda>output.
       ''test -d '' @ Shell (path_join [current, output]) @ '' && '' @
       noAbsoluteLinks (path_join [current, output]) @ '' || exit 1; '') outputs)) '' ''"

definition recordSandboxAssets ::
  "'w env \<Rightarrow> host \<Rightarrow> options \<Rightarrow> step \<Rightarrow> vars \<Rightarrow> release \<Rightarrow> 'w \<Rightarrow> 'w" where
  "recordSandboxAssets env h opts st vars rel w =
     (if \<not> sandboxAssetsEligible h opts st then w
      else case sandboxAssetsFingerprint env h st vars rel w of
        (fingerprint, w) \<Rightarrow>
          if fingerprint = [] then w
          else (case e_Run env (short_opts False)
              (check_command (ReleasePath (rel_Release rel) h) (ReusableOutputs st)) w of
            ((_, Some _), w) \<Rightarrow> w
          | ((_, None), w) \<Rightarrow>
              snd (writeTargetFile env h (path_join [DepPath h, sandboxAssetsRecordName])
                (e_MarshalAssets env (fingerprint, rel_Release rel)) w)))"

section \<open>Lemmas: the encoding under the fingerprint\<close>

text \<open>A field is its length, a colon, its text and a semicolon, as in a netstring.\<close>

definition netstring :: "string \<Rightarrow> string" where
  "netstring v = itoa (int (length v)) @ '':'' @ v @ '';''"

lemma AssetsFingerprint_netstring:
  "AssetsFingerprint env manifest command = e_Sha256 env (netstring manifest @ netstring command)"
  by (simp add: AssetsFingerprint_def netstring_def)

lemma itoa_no_colon: "CHR '':'' \<notin> set (itoa n)"
proof -
  have "\<not> is_digit CHR '':''" by (simp add: is_digit_def less_eq_char_def)
  then have "CHR '':'' \<notin> set (nat_digits k)" for k
    using list_all_nat_digits [of k] by (auto simp: list_all_iff)
  then show ?thesis by (simp add: itoa_def)
qed

lemma netstring_append: "netstring v @ s = netstring v' @ s' \<Longrightarrow> v = v' \<and> s = s'"
proof -
  assume "netstring v @ s = netstring v' @ s'"
  then have "itoa (int (length v)) @ CHR '':'' # v @ CHR '';'' # s =
      itoa (int (length v')) @ CHR '':'' # v' @ CHR '';'' # s'"
    by (simp add: netstring_def)
  from split_at_first [OF this itoa_no_colon itoa_no_colon]
  have len: "itoa (int (length v)) = itoa (int (length v'))" and rest: "v @ CHR '';'' # s = v' @ CHR '';'' # s'"
    by simp_all
  have "length v = length v'" using len by (metis of_nat_eq_iff option.inject signed_value_itoa)
  with rest show ?thesis by simp
qed

section \<open>Properties\<close>

text \<open>
  The fingerprint is unambiguous: where the hash is free of collisions, two equal
  fingerprints were made of the same manifest digest and the same build command.
\<close>

theorem AssetsFingerprint_unambiguous:
  assumes "inj (e_Sha256 env)"
    and "AssetsFingerprint env manifest command = AssetsFingerprint env manifest' command'"
  shows "manifest = manifest' \<and> command = command'"
proof -
  have "netstring manifest @ netstring command = netstring manifest' @ netstring command'"
    using injD [OF assms(1)] assms(2) by (simp add: AssetsFingerprint_netstring)
  then have "manifest = manifest'" "netstring command @ [] = netstring command' @ []"
    by (auto dest: netstring_append)
  then show ?thesis using netstring_append by blast
qed

theorem AssetsFingerprint_unambiguous_witness:
  "AssetsFingerprint listing_env ''1'' ''23'' \<noteq> AssetsFingerprint listing_env ''12'' ''3''"
proof
  assume same: "AssetsFingerprint listing_env ''1'' ''23'' = AssetsFingerprint listing_env ''12'' ''3''"
  have "inj (e_Sha256 listing_env)" by (simp add: listing_env_def)
  from AssetsFingerprint_unambiguous [OF this same] show False by simp
qed

end
