(* ===== verification/SharedPaths.thy ===== *)
theory SharedPaths
  imports ReleaseDirs
begin

text \<open>
  The paths a release shares with its neighbours (\<open>tasks_publish.go\<close>, \<open>tasks_prepare.go\<close>):
  configured paths are cleaned, compared as text, and shown here to be compared component by
  component.
\<close>

section \<open>The code\<close>

definition cleanRelPath :: "string \<Rightarrow> string" where
  "cleanRelPath entry =
     (let cleaned = path_clean (''/'' @ trim_space entry) in
      if cleaned = ''/'' \<or> cleaned = [] then [] else trim_prefix cleaned ''/'')"

fun first_covering :: "string \<Rightarrow> string list \<Rightarrow> string option" where
  "first_covering cleaned [] = None"
| "first_covering cleaned (candidate # shared) =
     (let sharedClean = cleanRelPath candidate in
      if sharedClean = [] then first_covering cleaned shared
      else if cleaned = sharedClean \<or> has_prefix cleaned (sharedClean @ ''/'') then Some candidate
      else first_covering cleaned shared)"

definition sharedCovering :: "string \<Rightarrow> string list \<Rightarrow> string option" where
  "sharedCovering entry shared =
     (let cleaned = cleanRelPath entry in if cleaned = [] then None else first_covering cleaned shared)"

fun all_inside :: "string \<Rightarrow> string list \<Rightarrow> string list" where
  "all_inside cleaned [] = []"
| "all_inside cleaned (candidate # shared) =
     (let sharedClean = cleanRelPath candidate in
      if sharedClean \<noteq> [] \<and> has_prefix sharedClean (cleaned @ ''/'')
      then trim_prefix sharedClean (cleaned @ ''/'') # all_inside cleaned shared
      else all_inside cleaned shared)"

definition sharedInside :: "string \<Rightarrow> string list \<Rightarrow> string list" where
  "sharedInside entry shared =
     (let cleaned = cleanRelPath entry in if cleaned = [] then [] else all_inside cleaned shared)"

fun first_parent :: "string \<Rightarrow> string list \<Rightarrow> string option" where
  "first_parent cleaned [] = None"
| "first_parent cleaned (dir # dirs) =
     (let parent = cleanRelPath dir in
      if parent \<noteq> [] \<and> has_prefix cleaned (parent @ ''/'') then Some dir else first_parent cleaned dirs)"

definition nestedInSharedDir :: "string \<Rightarrow> string list \<Rightarrow> string option" where
  "nestedInSharedDir entry dirs =
     (let cleaned = cleanRelPath entry in if cleaned = [] then None else first_parent cleaned dirs)"

section \<open>Components of a cleaned path\<close>

definition rel_segments :: "string \<Rightarrow> string list" where
  "rel_segments entry = clean_segments True [] (split_on CHR ''/'' (trim_space entry))"

text \<open>A component that means itself: not empty, not a dot, with no slash in it.\<close>

definition plain_segment :: "string \<Rightarrow> bool" where
  "plain_segment s \<longleftrightarrow> s \<noteq> [] \<and> s \<noteq> ''.'' \<and> s \<noteq> ''..'' \<and> CHR ''/'' \<notin> set s"

lemma clean_segments_plain:
  "list_all plain_segment out \<Longrightarrow> list_all (\<lambda>s. CHR ''/'' \<notin> set s) segs \<Longrightarrow>
   list_all plain_segment (clean_segments True out segs)"
proof (induction "True" out segs rule: clean_segments.induct)
  case (1 out)
  then show ?case by (simp add: list_all_iff)
next
  case (2 out seg segs)
  then show ?case by (cases out) (auto simp: plain_segment_def)
qed

lemma rel_segments_plain: "list_all plain_segment (rel_segments entry)"
  unfolding rel_segments_def by (rule clean_segments_plain) (auto simp: list_all_iff split_on_no_sep)

lemma path_clean_rooted:
  "path_clean (CHR ''/'' # s) = CHR ''/'' # join ''/'' (clean_segments True [] (split_on CHR ''/'' s))"
  by (simp add: path_clean_def)

lemma join_empty: "list_all plain_segment ss \<Longrightarrow> join sep ss = [] \<longleftrightarrow> ss = []"
  by (cases ss rule: list.exhaust; cases "tl ss") (auto simp: plain_segment_def)

lemma cleanRelPath_segments: "cleanRelPath entry = join ''/'' (rel_segments entry)"
  using path_clean_rooted [of "trim_space entry"] join_empty [OF rel_segments_plain]
  by (simp add: cleanRelPath_def Let_def rel_segments_def trim_prefix_def)

section \<open>Comparing as text is comparing components\<close>

lemma join_slash_Cons: "ss \<noteq> [] \<Longrightarrow> join ''/'' (s # ss) = s @ CHR ''/'' # join ''/'' ss"
  by (cases ss) auto

lemma join_prefix:
  "list_all plain_segment ss \<Longrightarrow> list_all plain_segment ts \<Longrightarrow> ts \<noteq> [] \<Longrightarrow>
   has_prefix (join ''/'' ss) (join ''/'' ts @ ''/'') \<longleftrightarrow> strict_prefix ts ss"
proof (induction ts arbitrary: ss)
  case Nil
  then show ?case by simp
next
  case (Cons t ts)
  have t: "CHR ''/'' \<notin> set t" using Cons.prems(2) by (simp add: plain_segment_def)
  show ?case
  proof (cases ss)
    case Nil
    then show ?thesis by (simp add: has_prefix_iff)
  next
    case (Cons s rest)
    have s: "CHR ''/'' \<notin> set s" using Cons.prems(1) Cons by (simp add: plain_segment_def)
    show ?thesis
    proof (cases "rest = []")
      case True
      then show ?thesis using s t Cons join_slash_Cons [of ts t]
        by (cases "ts = []") (auto simp: has_prefix_iff strict_prefix_simps)
    next
      case False
      have head: "s @ CHR ''/'' # u = t @ CHR ''/'' # v \<longleftrightarrow> s = t \<and> u = v" for u v
        using split_at_first [of s "CHR ''/''" u t v] s t by auto
      show ?thesis
      proof (cases "ts = []")
        case True
        with False Cons head show ?thesis
          by (cases rest) (auto simp: has_prefix_iff join_slash_Cons)
      next
        case ts: False
        have "has_prefix (join ''/'' ss) (join ''/'' (t # ts) @ ''/'') \<longleftrightarrow>
            s = t \<and> has_prefix (join ''/'' rest) (join ''/'' ts @ ''/'')"
          using False ts Cons head by (auto simp: has_prefix_iff join_slash_Cons)
        also have "\<dots> \<longleftrightarrow> s = t \<and> strict_prefix ts rest"
          using Cons.IH [of rest] Cons.prems ts Cons by simp
        finally show ?thesis using Cons by auto
      qed
    qed
  qed
qed

lemma join_inj:
  "list_all plain_segment ss \<Longrightarrow> list_all plain_segment ts \<Longrightarrow> join ''/'' ss = join ''/'' ts \<Longrightarrow> ss = ts"
proof (induction ss arbitrary: ts)
  case Nil
  then show ?case using join_empty [of ts "''/''"] by auto
next
  case (Cons s ss)
  have "ts \<noteq> []" using Cons.prems by (auto simp: join_empty simp del: join.simps(3))
  then obtain t us where ts: "ts = t # us" by (cases ts) auto
  have slash: "CHR ''/'' \<notin> set s" "CHR ''/'' \<notin> set t" using Cons.prems ts by (auto simp: plain_segment_def)
  show ?case
  proof (cases "ss = [] \<or> us = []")
    case True
    then show ?thesis using Cons.prems(3) ts slash join_slash_Cons [of ss s] join_slash_Cons [of us t]
      by (cases "ss = []"; cases "us = []") auto
  next
    case False
    then have "s @ CHR ''/'' # join ''/'' ss = t @ CHR ''/'' # join ''/'' us"
      using Cons.prems(3) ts by (simp add: join_slash_Cons)
    from split_at_first [OF this slash] Cons.IH [of us] Cons.prems ts show ?thesis by simp
  qed
qed

lemma cleanRelPath_eq: "cleanRelPath e = cleanRelPath c \<longleftrightarrow> rel_segments e = rel_segments c"
  unfolding cleanRelPath_segments using join_inj [OF rel_segments_plain rel_segments_plain, of e c] by metis

lemma inside_iff:
  assumes "rel_segments e \<noteq> []"
  shows "has_prefix (cleanRelPath c) (cleanRelPath e @ ''/'') \<longleftrightarrow> strict_prefix (rel_segments e) (rel_segments c)"
  unfolding cleanRelPath_segments using join_prefix [OF rel_segments_plain rel_segments_plain assms] .

lemma covers_iff:
  assumes "rel_segments c \<noteq> []"
  shows "cleanRelPath e = cleanRelPath c \<or> has_prefix (cleanRelPath e) (cleanRelPath c @ ''/'') \<longleftrightarrow>
    prefix (rel_segments c) (rel_segments e)"
  unfolding cleanRelPath_eq inside_iff [OF assms] by (auto simp: strict_prefix_def)

lemma cleanRelPath_empty: "cleanRelPath e = [] \<longleftrightarrow> rel_segments e = []"
  unfolding cleanRelPath_segments using join_empty [OF rel_segments_plain] .

lemma first_covering_find:
  "first_covering (cleanRelPath e) shared =
   find (\<lambda>c. rel_segments c \<noteq> [] \<and> prefix (rel_segments c) (rel_segments e)) shared"
  by (induction shared) (auto simp: Let_def cleanRelPath_empty covers_iff)

lemma join_drop:
  assumes "strict_prefix ts ss" and "ts \<noteq> []"
  shows "trim_prefix (join ''/'' ss) (join ''/'' ts @ ''/'') = join ''/'' (drop (length ts) ss)"
proof -
  obtain us where us: "ss = ts @ us" "us \<noteq> []" using assms(1) by (auto simp: strict_prefix_def prefix_def)
  have "join ''/'' (ts @ us) = join ''/'' ts @ CHR ''/'' # join ''/'' us"
    using assms(2)
  proof (induction ts)
    case (Cons t ts)
    then show ?case using us(2) by (cases "ts = []") (simp_all add: join_slash_Cons)
  qed simp
  then show ?thesis using us trim_prefix_append [of "join ''/'' ts @ ''/''"] by simp
qed

lemma all_inside_filter:
  assumes "rel_segments e \<noteq> []"
  shows "all_inside (cleanRelPath e) shared =
    map (\<lambda>c. join ''/'' (drop (length (rel_segments e)) (rel_segments c)))
      (filter (\<lambda>c. strict_prefix (rel_segments e) (rel_segments c)) shared)"
proof (induction shared)
  case (Cons c shared)
  have "strict_prefix (rel_segments e) (rel_segments c) \<Longrightarrow> cleanRelPath c \<noteq> []"
    using assms by (auto simp: cleanRelPath_empty)
  moreover have "strict_prefix (rel_segments e) (rel_segments c) \<Longrightarrow>
      trim_prefix (cleanRelPath c) (cleanRelPath e @ ''/'') = join ''/'' (drop (length (rel_segments e)) (rel_segments c))"
    unfolding cleanRelPath_segments using join_drop assms by blast
  ultimately show ?case using Cons inside_iff [OF assms, of c] by (simp add: Let_def)
qed simp

lemma first_parent_find:
  "first_parent (cleanRelPath e) dirs =
   find (\<lambda>d. rel_segments d \<noteq> [] \<and> strict_prefix (rel_segments d) (rel_segments e)) dirs"
  by (induction dirs) (auto simp: Let_def cleanRelPath_empty inside_iff)

section \<open>Property\<close>

text \<open>
  The text comparisons of shared paths are comparisons of their components: an entry is
  covered by the first shared path whose components start it, the paths excluded from its copy
  are the rest of those that properly continue it, and it is nested in the first shared
  directory that properly starts it.
\<close>

theorem shared_paths_componentwise:
  "sharedCovering entry shared =
     find (\<lambda>c. rel_segments c \<noteq> [] \<and> prefix (rel_segments c) (rel_segments entry)) shared \<and>
   sharedInside entry shared =
     (if rel_segments entry = [] then []
      else map (\<lambda>c. join ''/'' (drop (length (rel_segments entry)) (rel_segments c)))
        (filter (\<lambda>c. strict_prefix (rel_segments entry) (rel_segments c)) shared)) \<and>
   nestedInSharedDir entry dirs =
     find (\<lambda>d. rel_segments d \<noteq> [] \<and> strict_prefix (rel_segments d) (rel_segments entry)) dirs"
proof -
  have none: "find (\<lambda>c. rel_segments c \<noteq> [] \<and> prefix (rel_segments c) (rel_segments entry)) shared = None"
    "find (\<lambda>d. rel_segments d \<noteq> [] \<and> strict_prefix (rel_segments d) (rel_segments entry)) dirs = None"
    if "rel_segments entry = []"
    using that by (auto simp: find_None_iff)
  then show ?thesis
    by (cases "rel_segments entry = []")
      (simp_all add: sharedCovering_def sharedInside_def nestedInSharedDir_def Let_def cleanRelPath_empty
        first_covering_find all_inside_filter first_parent_find)
qed

text \<open>A path that cleans to nothing, as the whole tree does, is covered by nothing and excludes nothing.\<close>

lemma whole_tree_excludes_nothing: "sharedCovering ''.'' shared = None \<and> sharedInside ''.'' shared = []"
proof -
  have "cleanRelPath ''.'' = []" by code_simp
  then show ?thesis by (simp add: sharedCovering_def sharedInside_def)
qed

end
