(* ===== verification/Publish.thy ===== *)
theory Publish
  imports SharedPaths Lock
begin

text \<open>
  Making a release live (\<open>tasks_publish.go\<close>): the choice of the strategy, the symlink swap, and
  the publication into a real directory with the shared state it keeps.  Lines printed for the
  operator are not modelled.
\<close>

section \<open>Commands of a step\<close>

text \<open>A command bounded by the run's command timeout, of which only the error is read.\<close>

definition long_exec :: "'w env \<Rightarrow> step_ctx \<Rightarrow> string \<Rightarrow> 'w \<Rightarrow> go_error option \<times> 'w" where
  "long_exec env sc cmd w =
     (case e_Run env \<lparr>Timeout = opt_CommandTimeout (sc_Opts sc), Stdin = [], Streamed = sc_Live sc\<rparr> cmd w of
        ((_, err), w) \<Rightarrow> (err, w))"

text \<open>A test on the target: whether the command succeeds.\<close>

definition succeeds :: "'w env \<Rightarrow> bool \<Rightarrow> string \<Rightarrow> 'w \<Rightarrow> bool \<times> 'w" where
  "succeeds env live cmd w = (case e_Run env (short_opts live) cmd w of ((_, err), w) \<Rightarrow> (err = None, w))"

definition releasePathOf :: "step_ctx \<Rightarrow> string" where
  "releasePathOf sc = (case sc_Release sc of Some rel \<Rightarrow> rel_Path rel | None \<Rightarrow> [])"

text \<open>The commit a deploy names: its revision, or its tag.\<close>

definition deployed_revision :: "options \<Rightarrow> string" where
  "deployed_revision opts =
     (let revision = trim_space (opt_Revision opts) in
      if revision = [] then trim_space (opt_Tag opts) else revision)"

definition rsyncProgressArgs :: "bool \<Rightarrow> bool \<Rightarrow> string list" where
  "rsyncProgressArgs streaming terminal = (if streaming \<and> terminal then [''--info=progress2''] else [])"

definition progressArgs :: "step_ctx \<Rightarrow> string list" where
  "progressArgs sc =
     rsyncProgressArgs (opt_Verbose (sc_Opts sc) \<and> \<not> opt_JSON (sc_Opts sc)) (sc_Terminal sc)"

section \<open>The strategy\<close>

definition ResolvePublishStrategy :: "'w env \<Rightarrow> host \<Rightarrow> options \<Rightarrow> 'w \<Rightarrow> (go_error + string) \<times> 'w" where
  "ResolvePublishStrategy env h opts w =
     (if opt_Publish opts = PublishSymlink \<or> opt_Publish opts = PublishInPlace then (Inr (opt_Publish opts), w)
      else if opt_Publish opts \<noteq> [] \<and> opt_Publish opts \<noteq> PublishAuto then
        (Inl (Errorf ''unsupported publish strategy %q'' [opt_Publish opts]), w)
      else case succeeds env False (''test -L '' @ Shell (h_CurrentPath h)) w of
        (True, w) \<Rightarrow> (Inr PublishSymlink, w)
      | (False, w) \<Rightarrow>
          (case succeeds env False (''test -e '' @ Shell (h_CurrentPath h)) w of
             (True, w) \<Rightarrow> (Inr PublishInPlace, w)
           | (False, w) \<Rightarrow> (Inr PublishSymlink, w)))"

section \<open>The symlink swap\<close>

definition swap_command :: "host \<Rightarrow> string \<Rightarrow> string" where
  "swap_command h releasePath =
     (let temporary = h_CurrentPath h @ ''.govard-tmp'' in
      ''mkdir -p '' @ Shell (path_dir (h_CurrentPath h)) @ '' && ln -sfn '' @ Shell releasePath @ '' '' @
      Shell temporary @ '' && mv -T '' @ Shell temporary @ '' '' @ Shell (h_CurrentPath h))"

definition activateSymlink :: "'w env \<Rightarrow> step_ctx \<Rightarrow> string \<Rightarrow> 'w \<Rightarrow> go_error option \<times> 'w" where
  "activateSymlink env sc releasePath w =
     (case step_exec env sc (swap_command (sc_Host sc) releasePath) w of
        (Some err, w) \<Rightarrow>
          (Some (Wrapf ''swap %s -> %s: %w'' [h_CurrentPath (sc_Host sc), releasePath] err), w)
      | (None, w) \<Rightarrow> (None, w))"

section \<open>Shared state of an in-place docroot\<close>

text \<open>The shared entries of a run, files before directories.\<close>

definition shared_entries :: "step_ctx \<Rightarrow> string list" where
  "shared_entries sc = settingsStringList (opt_Settings (sc_Opts sc)) [''shared_files'', ''shared_dirs'']"

definition link_docroot_command :: "host \<Rightarrow> string \<Rightarrow> string" where
  "link_docroot_command h entry =
     (let source = Shell (path_join [SharedPath h, entry]);
          goal = Shell (path_join [h_CurrentPath h, entry]) in
      ''mkdir -p '' @ Shell (path_dir (path_join [SharedPath h, entry])) @
      '' && if [ ! -e '' @ source @ '' ] && [ -e '' @ goal @ '' ] && [ ! -L '' @ goal @ '' ]; then mv '' @
      goal @ '' '' @ source @ ''; fi'' @
      '' && if [ -e '' @ source @ '' ]; then '' @
      ''if [ ! -e '' @ goal @ '' ] || [ -L '' @ goal @ '' ] || [ ! -d '' @ source @ '' ]; then '' @
      ''rm -rf '' @ goal @ '' && mkdir -p '' @ Shell (path_dir (path_join [h_CurrentPath h, entry])) @
      '' && ln -sfn '' @ source @ '' '' @ goal @ ''; '' @
      ''else echo '' @ Shell (''kept the docroot'' @ [sq] @ ''s own '' @ entry) @ ''; fi; '' @ ''fi'')"

fun link_docroot :: "'w env \<Rightarrow> step_ctx \<Rightarrow> string list \<Rightarrow> 'w \<Rightarrow> go_error option \<times> 'w" where
  "link_docroot env sc [] w = (None, w)"
| "link_docroot env sc (entry # entries) w =
     (case long_exec env sc (link_docroot_command (sc_Host sc) entry) w of
        (Some err, w) \<Rightarrow> (Some (Wrapf ''link the shared entry %s into the docroot: %w'' [entry] err), w)
      | (None, w) \<Rightarrow> link_docroot env sc entries w)"

definition ensureInPlaceShared :: "'w env \<Rightarrow> step_ctx \<Rightarrow> 'w \<Rightarrow> go_error option \<times> 'w" where
  "ensureInPlaceShared env sc w = link_docroot env sc (shared_entries sc) w"

section \<open>Publishing in place\<close>

definition sync_command :: "step_ctx \<Rightarrow> string \<Rightarrow> string list \<Rightarrow> string \<Rightarrow> string" where
  "sync_command sc releasePath shared entry =
     (let goal = path_join [h_CurrentPath (sc_Host sc), entry] in
      ''mkdir -p '' @ Shell goal @ '' && rsync -a --delete'' @
      concat (map (\<lambda>flag. '' '' @ flag) (progressArgs sc)) @
      concat (map (\<lambda>inside. '' --exclude='' @ Shell (''/'' @ inside)) (sharedInside entry shared)) @
      '' '' @ Shell (path_join [releasePath, entry] @ ''/'') @ '' '' @ Shell (goal @ ''/''))"

text \<open>An entry the release did not build, or one that is shared, is left to the docroot.\<close>

fun sync_entries ::
  "'w env \<Rightarrow> step_ctx \<Rightarrow> string \<Rightarrow> string list \<Rightarrow> string list \<Rightarrow> 'w \<Rightarrow> go_error option \<times> 'w" where
  "sync_entries env sc releasePath shared [] w = (None, w)"
| "sync_entries env sc releasePath shared (entry # entries) w =
     (case step_exec env sc (''test -e '' @ Shell (path_join [releasePath, entry])) w of
        (Some _, w) \<Rightarrow> sync_entries env sc releasePath shared entries w
      | (None, w) \<Rightarrow>
          if sharedCovering entry shared \<noteq> None then sync_entries env sc releasePath shared entries w
          else (case long_exec env sc (sync_command sc releasePath shared entry) w of
             (Some err, w) \<Rightarrow> (Some (Wrapf ''sync %s into the docroot: %w'' [entry] err), w)
           | (None, w) \<Rightarrow> sync_entries env sc releasePath shared entries w))"

definition version_command :: "host \<Rightarrow> string \<Rightarrow> string" where
  "version_command h releasePath =
     (let versionFile = ''deployed_version.txt'';
          versionSource = path_join [releasePath, ''pub/static'', versionFile] in
      ''if [ -e '' @ Shell versionSource @ '' ]; then mkdir -p '' @
      Shell (path_join [h_CurrentPath h, ''pub/static'']) @ '' && rsync -a '' @ Shell versionSource @ '' '' @
      Shell (path_join [h_CurrentPath h, ''pub/static'', versionFile]) @ ''; fi'')"

definition git_dir_command :: "host \<Rightarrow> string" where
  "git_dir_command h = ''git -C '' @ Shell (h_CurrentPath h) @ '' rev-parse --git-dir''"

definition reset_command :: "host \<Rightarrow> string \<Rightarrow> string" where
  "reset_command h revision = ''git -C '' @ Shell (h_CurrentPath h) @ '' reset --hard '' @ Shell revision"

text \<open>From the reset on: the copies, the shared links and, last, the version file.\<close>

definition publish_docroot :: "'w env \<Rightarrow> step_ctx \<Rightarrow> string \<Rightarrow> 'w \<Rightarrow> go_error option \<times> 'w" where
  "publish_docroot env sc releasePath w =
     (case sync_entries env sc releasePath (shared_entries sc)
         (settingsStringList (opt_Settings (sc_Opts sc)) [''sync_paths'']) w of
        (Some err, w) \<Rightarrow> (Some err, w)
      | (None, w) \<Rightarrow>
          (case ensureInPlaceShared env sc w of
             (Some err, w) \<Rightarrow> (Some err, w)
           | (None, w) \<Rightarrow>
               (case long_exec env sc (version_command (sc_Host sc) releasePath) w of
                  (Some err, w) \<Rightarrow> (Some (Wrapf ''publish the static content version: %w'' [] err), w)
                | (None, w) \<Rightarrow> (None, w))))"

definition reset_docroot :: "'w env \<Rightarrow> step_ctx \<Rightarrow> string \<Rightarrow> string \<Rightarrow> 'w \<Rightarrow> go_error option \<times> 'w" where
  "reset_docroot env sc releasePath revision w =
     (let h = sc_Host sc in
      case step_exec env sc (git_dir_command h) w of
        (Some _, w) \<Rightarrow> (Some (Wrapf ''%w: %s'' [h_CurrentPath h] (Sentinel ErrDocrootNotAGitCheckout)), w)
      | (None, w) \<Rightarrow>
          (case long_exec env sc (reset_command h revision) w of
             (Some err, w) \<Rightarrow> (Some (Wrapf ''reset the docroot to %s: %w'' [revision] err), w)
           | (None, w) \<Rightarrow> publish_docroot env sc releasePath w))"

definition activateInPlace :: "string \<Rightarrow> 'w task_func" where
  "activateInPlace releasePath env sc w =
     (let revision = deployed_revision (sc_Opts sc) in
      if revision = [] then ((Some (Sentinel ErrNoRevisionForActivation), sc_Release sc), w)
      else case reset_docroot env sc releasePath revision w of
        (err, w) \<Rightarrow> ((err, map_option (\<lambda>rel. rel\<lparr>rel_Revision := revision\<rparr>) (sc_Release sc)), w))"

section \<open>Activation\<close>

definition note_strategy :: "string \<Rightarrow> host \<Rightarrow> release \<Rightarrow> release" where
  "note_strategy strategy h rel =
     rel\<lparr>rel_Publish := (rel_Publish rel)\<lparr>pub_Strategy := strategy, pub_Docroot := h_CurrentPath h\<rparr>\<rparr>"

definition CoreActivate :: "'w task_func" where
  "CoreActivate env sc w =
     (case ResolvePublishStrategy env (sc_Host sc) (sc_Opts sc) w of
        (Inl err, w) \<Rightarrow> ((Some err, sc_Release sc), w)
      | (Inr strategy, w) \<Rightarrow>
          (let releasePath = releasePathOf sc in
           if releasePath = [] then
             ((Some (Errorf ''release path is unknown; deploy:release must run first'' []), sc_Release sc), w)
           else
             let sc = sc\<lparr>sc_Release := map_option (note_strategy strategy (sc_Host sc)) (sc_Release sc)\<rparr> in
             if strategy = PublishSymlink then
               (case activateSymlink env sc releasePath w of (err, w) \<Rightarrow> ((err, sc_Release sc), w))
             else if strategy = PublishInPlace then activateInPlace releasePath env sc w
             else ((Some (Errorf ''unsupported publish strategy %q'' [strategy]), sc_Release sc), w)))"

section \<open>Lemmas: what runs, in which order\<close>

lemma step_exec_logging:
  "step_exec (logging env) sc cmd (w, log) =
   (fst (step_exec env sc cmd w), (snd (step_exec env sc cmd w), log @ [cmd]))"
  by (simp add: step_exec_def logging_run split: prod.split)

lemma long_exec_logging:
  "long_exec (logging env) sc cmd (w, log) =
   (fst (long_exec env sc cmd w), (snd (long_exec env sc cmd w), log @ [cmd]))"
  by (simp add: long_exec_def logging_run split: prod.split)

text \<open>
  What the copies consist of: a test that the release has the entry, or the copy of an entry
  no shared path covers.
\<close>

definition sync_part :: "step_ctx \<Rightarrow> string \<Rightarrow> string list \<Rightarrow> string list \<Rightarrow> string \<Rightarrow> bool" where
  "sync_part sc releasePath shared entries cmd \<longleftrightarrow>
     (\<exists>entry \<in> set entries. cmd = ''test -e '' @ Shell (path_join [releasePath, entry]) \<or>
        sharedCovering entry shared = None \<and> cmd = sync_command sc releasePath shared entry)"

lemma sync_entries_log:
  "sync_entries (logging env) sc releasePath shared entries (w, log) = (None, (w', log')) \<Longrightarrow>
   \<exists>part. log' = log @ part \<and> list_all (sync_part sc releasePath shared entries) part"
proof (induction entries arbitrary: w log)
  case Nil
  then show ?case by simp
next
  case (Cons entry entries)
  let ?test = "''test -e '' @ Shell (path_join [releasePath, entry])"
  let ?sync = "sync_command sc releasePath shared entry"
  obtain e w1 where test: "step_exec (logging env) sc ?test (w, log) = (e, (w1, log @ [?test]))"
    using step_exec_logging [of env sc ?test w log] by blast
  have weaken: "list_all (sync_part sc releasePath shared (entry # entries)) part"
    if "list_all (sync_part sc releasePath shared entries) part" for part
    using that by (auto simp: list_all_iff sync_part_def)
  have first: "sync_part sc releasePath shared (entry # entries) ?test"
    by (simp add: sync_part_def)
  have rest: ?case if "sync_entries (logging env) sc releasePath shared entries (w2, log @ [?test]) = (None, (w', log'))" for w2
    using Cons.IH [OF that] weaken first by fastforce
  show ?case
  proof (cases "e = None \<and> sharedCovering entry shared = None")
    case False
    with Cons.prems test have
      "sync_entries (logging env) sc releasePath shared entries (w1, log @ [?test]) = (None, (w', log'))"
      by (auto split: option.splits if_splits)
    then show ?thesis by (rule rest)
  next
    case True
    obtain e2 w2 where sync: "long_exec (logging env) sc ?sync (w1, log @ [?test]) = (e2, (w2, log @ [?test, ?sync]))"
      using long_exec_logging [of env sc ?sync w1 "log @ [?test]"] by (metis append.assoc append_Cons append_Nil)
    with Cons.prems test True have
      "sync_entries (logging env) sc releasePath shared entries (w2, log @ [?test, ?sync]) = (None, (w', log'))"
      by (auto split: option.splits if_splits)
    from Cons.IH [OF this] obtain part where "log' = (log @ [?test, ?sync]) @ part"
      "list_all (sync_part sc releasePath shared entries) part" by blast
    moreover have "sync_part sc releasePath shared (entry # entries) ?sync"
      using True by (simp add: sync_part_def)
    ultimately show ?thesis using weaken first by (intro exI [of _ "?test # ?sync # part"]) simp
  qed
qed

lemma link_docroot_log:
  "link_docroot (logging env) sc entries (w, log) = (None, (w', log')) \<Longrightarrow>
   log' = log @ map (link_docroot_command (sc_Host sc)) entries"
proof (induction entries arbitrary: w log)
  case (Cons entry entries)
  then obtain w1 where
    "link_docroot (logging env) sc entries (w1, log @ [link_docroot_command (sc_Host sc) entry]) = (None, (w', log'))"
    by (auto simp: long_exec_logging split: prod.splits option.splits)
  from Cons.IH [OF this] show ?case by simp
qed simp

lemma publish_docroot_log:
  assumes "publish_docroot (logging env) sc releasePath (w, log) = (None, (w', log'))"
  shows "\<exists>part. log' = log @ part @ map (link_docroot_command (sc_Host sc)) (shared_entries sc) @
      [version_command (sc_Host sc) releasePath] \<and>
    list_all (sync_part sc releasePath (shared_entries sc)
      (settingsStringList (opt_Settings (sc_Opts sc)) [''sync_paths''])) part"
proof -
  let ?paths = "settingsStringList (opt_Settings (sc_Opts sc)) [''sync_paths'']"
  obtain w1 log1 where sync:
    "sync_entries (logging env) sc releasePath (shared_entries sc) ?paths (w, log) = (None, (w1, log1))"
    using assms by (auto simp: publish_docroot_def split: prod.splits option.splits)
  obtain w2 log2 where link: "ensureInPlaceShared (logging env) sc (w1, log1) = (None, (w2, log2))"
    using assms sync by (auto simp: publish_docroot_def split: prod.splits option.splits)
  have "log' = log2 @ [version_command (sc_Host sc) releasePath]"
    using assms sync link
    by (auto simp: publish_docroot_def long_exec_logging split: prod.splits option.splits)
  moreover have "log2 = log1 @ map (link_docroot_command (sc_Host sc)) (shared_entries sc)"
    using link by (auto simp: ensureInPlaceShared_def dest: link_docroot_log)
  ultimately show ?thesis using sync_entries_log [OF sync] by auto
qed

section \<open>Property\<close>


text \<open>A docroot that shares one directory and copies another, on a target where every command succeeds.\<close>

definition in_place_ctx :: step_ctx where
  "in_place_ctx = demo_ctx\<lparr>sc_Release := Some (demo_release\<lparr>rel_Path := ''/srv/r/7''\<rparr>),
     sc_Opts := demo_options\<lparr>opt_Publish := PublishInPlace, opt_Revision := ''abc'',
       opt_Settings := [(''sync_paths'', SStrs [''vendor'', ''media/cache'']), (''shared_dirs'', SStrs [''media''])]\<rparr>\<rparr>"

definition willing_env :: "unit env" where
  "willing_env = listing_env\<lparr>e_Run := (\<lambda>opts cmd w. ((\<lparr>Stdout = [], Stderr = [], ExitCode = 0\<rparr>, None), w))\<rparr>"


end
