(* ===== verification/RemoteSSH.thy ===== *)
theory RemoteSSH
  imports Target
begin

text \<open>
  Connecting to a remote (\<open>internal/engine/remote\<close>: \<open>ssh.go\<close>, \<open>multiplex.go\<close>, \<open>auth_resolver.go\<close>,
  \<open>file_store.go\<close>, \<open>runner.go\<close>; \<open>NormalizeRemoteAuthMethod\<close> of \<open>remote_config.go\<close>): the identity
  file, the arguments of \<open>ssh\<close>, and their text as the value of \<open>rsync -e\<close>.
\<close>

section \<open>The identity file\<close>

definition RemoteAuthMethodSSHAgent :: string where "RemoteAuthMethodSSHAgent = ''ssh-agent''"
definition RemoteAuthMethodKeychain :: string where "RemoteAuthMethodKeychain = ''keychain''"
definition RemoteAuthMethodKeyfile :: string where "RemoteAuthMethodKeyfile = ''keyfile''"

definition NormalizeRemoteAuthMethod :: "string \<Rightarrow> string" where
  "NormalizeRemoteAuthMethod m =
     (let normalized = to_lower (trim_space m) in
      if normalized = [] then RemoteAuthMethodKeychain
      else if normalized \<in> set [''ssh-agent'', ''ssh_agent'', ''sshagent''] then RemoteAuthMethodSSHAgent
      else if normalized = ''keychain'' then RemoteAuthMethodKeychain
      else if normalized \<in> set [''keyfile'', ''key-file''] then RemoteAuthMethodKeyfile
      else normalized)"

definition IsSupportedRemoteAuthMethod :: "string \<Rightarrow> bool" where
  "IsSupportedRemoteAuthMethod m \<longleftrightarrow>
     NormalizeRemoteAuthMethod m \<in> set [RemoteAuthMethodSSHAgent, RemoteAuthMethodKeychain, RemoteAuthMethodKeyfile]"

text \<open>The home directory, where \<open>UserHomeDir\<close> gives one that is not empty.\<close>

definition known_home :: "'w machine \<Rightarrow> string option" where
  "known_home m = (case m_HomeDir m of Some home \<Rightarrow> if home = [] then None else Some home | None \<Rightarrow> None)"

definition NormalizePath :: "'w machine \<Rightarrow> string \<Rightarrow> string" where
  "NormalizePath m text =
     (let trimmed = trim_space text in
      if trimmed = [] then []
      else
        let expanded = m_ExpandEnv m trimmed in
        if expanded = ''~'' then (case known_home m of Some home \<Rightarrow> path_clean home | None \<Rightarrow> expanded)
        else if has_prefix expanded ''~/'' then
          (case known_home m of
             Some home \<Rightarrow> path_clean (path_join [home, trim_prefix expanded ''~/''])
           | None \<Rightarrow> path_clean expanded)
        else path_clean expanded)"

definition remoteKeyPathEnvVar :: string where "remoteKeyPathEnvVar = ''GOVARD_REMOTE_KEY_PATH''"

definition to_upper_char :: "char \<Rightarrow> char" where
  "to_upper_char c = (if CHR ''a'' \<le> c \<and> c \<le> CHR ''z'' then char_of (of_char c - 32 :: nat) else c)"

definition env_char :: "char \<Rightarrow> char" where
  "env_char c = (if CHR ''A'' \<le> c \<and> c \<le> CHR ''Z'' \<or> is_digit c then c else CHR ''_'')"

definition RemoteKeyPathEnvVar :: "string \<Rightarrow> string" where
  "RemoteKeyPathEnvVar remoteName =
     (if trim_space remoteName = [] then remoteKeyPathEnvVar
      else remoteKeyPathEnvVar @ ''_'' @ map (env_char \<circ> to_upper_char) (trim_space remoteName))"

definition authStoreKey :: "string \<Rightarrow> string" where
  "authStoreKey remoteName =
     (let normalized = to_lower (trim_space remoteName);
          normalized = (if normalized = [] then ''default'' else normalized)
      in ''remote.'' @ normalized @ ''.key_path'')"

definition store_path :: "'w env \<Rightarrow> string" where
  "store_path env =
     (let override = e_Getenv env ''GOVARD_AUTH_STORE_PATH'' in
      if override \<noteq> [] then override
      else path_join [case known_home (e_Machine env) of Some home \<Rightarrow> home | None \<Rightarrow> ''.'', ''.govard'', ''auth.json''])"

definition load_store :: "'w env \<Rightarrow> 'w \<Rightarrow> go_error + (string \<times> string) list" where
  "load_store env w =
     (case m_ReadFile (e_Machine env) (store_path env) w of
        Inl err \<Rightarrow>
          if errors_is err ErrNotExist then Inr [] else Inl (Wrapf ''read auth store: %w'' [] err)
      | Inr payload \<Rightarrow>
          (case m_UnmarshalStore (e_Machine env) payload of
             Inl err \<Rightarrow> Inl (Wrapf ''parse auth store: %w'' [] err)
           | Inr entries \<Rightarrow> Inr entries))"

definition stored_key :: "'w env \<Rightarrow> string \<Rightarrow> 'w \<Rightarrow> go_error + string" where
  "stored_key env key w =
     (case load_store env w of
        Inl err \<Rightarrow> Inl err
      | Inr entries \<Rightarrow> Inr (case map_of entries key of Some v \<Rightarrow> v | None \<Rightarrow> []))"

fun first_existing :: "'w machine \<Rightarrow> string list \<Rightarrow> 'w \<Rightarrow> string" where
  "first_existing m [] w = []"
| "first_existing m (candidate # candidates) w =
     (let path = NormalizePath m candidate in
      if path \<noteq> [] \<and> m_Stat m path w = Inr False then path else first_existing m candidates w)"

definition firstExistingSSHKeyfile :: "'w machine \<Rightarrow> 'w \<Rightarrow> string" where
  "firstExistingSSHKeyfile m w = first_existing m [''~/.ssh/id_ed25519'', ''~/.ssh/id_ecdsa'', ''~/.ssh/id_rsa''] w"

text \<open>The path and where it came from; both are empty when there is none.\<close>

definition ResolveSSHKeyPath :: "'w env \<Rightarrow> string \<Rightarrow> remote_config \<Rightarrow> 'w \<Rightarrow> string \<times> string" where
  "ResolveSSHKeyPath env remoteName rc w =
     (let m = e_Machine env;
          fromConfig = NormalizePath m (auth_KeyPath (rc_Auth rc));
          fromRemoteEnv = NormalizePath m (e_Getenv env (RemoteKeyPathEnvVar remoteName));
          fromGlobalEnv = NormalizePath m (e_Getenv env remoteKeyPathEnvVar);
          authMethod = NormalizeRemoteAuthMethod (auth_Method (rc_Auth rc));
          fromStore = (if authMethod = RemoteAuthMethodKeychain
            then (case stored_key env (authStoreKey remoteName) w of Inr v \<Rightarrow> NormalizePath m v | Inl err \<Rightarrow> [])
            else []);
          defaultKey = (if authMethod = RemoteAuthMethodKeyfile then firstExistingSSHKeyfile m w else [])
      in if fromConfig \<noteq> [] then (fromConfig, ''config'')
         else if fromRemoteEnv \<noteq> [] then (fromRemoteEnv, ''env:'' @ RemoteKeyPathEnvVar remoteName)
         else if fromGlobalEnv \<noteq> [] then (fromGlobalEnv, ''env:'' @ remoteKeyPathEnvVar)
         else if fromStore \<noteq> [] then (fromStore, ''store:keychain'')
         else if defaultKey \<noteq> [] then (defaultKey, ''default:keyfile'')
         else ([], []))"

section \<open>The arguments of ssh\<close>

definition multiplexPersist :: string where "multiplexPersist = ''60s''"

definition sshControlDir :: "'w machine \<Rightarrow> string" where
  "sshControlDir m =
     (case known_home m of None \<Rightarrow> [] | Some home \<Rightarrow> path_join [home, ''.govard'', ''ssh''])"

definition multiplexArgs :: "'w machine \<Rightarrow> 'w \<Rightarrow> string list \<times> 'w" where
  "multiplexArgs m w =
     (let directory = sshControlDir m in
      if directory = [] then ([], w)
      else case m_MkdirAll m directory w of
        (Some _, w) \<Rightarrow> ([], w)
      | (None, w) \<Rightarrow>
          ([''-o'', ''ControlMaster=auto'', ''-o'', ''ControlPath='' @ path_join [directory, ''%C''],
            ''-o'', ''ControlPersist='' @ multiplexPersist], w))"

definition BuildSSHArgs :: "'w env \<Rightarrow> string \<Rightarrow> remote_config \<Rightarrow> bool \<Rightarrow> bool \<Rightarrow> 'w \<Rightarrow> string list \<times> 'w" where
  "BuildSSHArgs env remoteName rc forwardAgent interactive w =
     (case multiplexArgs (e_Machine env) w of
        (multiplexed, w) \<Rightarrow>
          (let keyPath = fst (ResolveSSHKeyPath env remoteName rc w) in
           ([''-o'', ''LogLevel=ERROR'', ''-o'', ''ConnectTimeout=10'', ''-o'', ''ServerAliveInterval=60'',
             ''-o'', ''ServerAliveCountMax=10''] @ multiplexed @
            (if interactive then [''-t''] else [''-o'', ''BatchMode=yes'']) @
            (if auth_StrictHostKey (rc_Auth rc) then
               [''-o'', ''StrictHostKeyChecking=yes''] @
               (if auth_KnownHostsFile (rc_Auth rc) \<noteq> []
                then [''-o'', ''UserKnownHostsFile='' @ auth_KnownHostsFile (rc_Auth rc)] else [])
             else [''-o'', ''StrictHostKeyChecking=no'', ''-o'', ''UserKnownHostsFile=/dev/null'']) @
            (if 0 < rc_Port rc then [''-p'', itoa (rc_Port rc)] else []) @
            (if forwardAgent then [''-A''] else []) @
            (if keyPath \<noteq> [] then [''-i'', keyPath] else []), w)))"

definition RemoteTarget :: "remote_config \<Rightarrow> string" where
  "RemoteTarget rc = rc_User rc @ ''@'' @ rc_Host rc"

section \<open>The value of rsync -e\<close>

text \<open>\<open>ReplaceAll\<close> of a double quote by two.\<close>

definition double_quotes :: "string \<Rightarrow> string" where
  "double_quotes s = concat (map (\<lambda>c. if c = dq then [dq, dq] else [c]) s)"

definition quoteRsyncArg :: "string \<Rightarrow> string" where
  "quoteRsyncArg arg =
     (if arg \<noteq> [] \<and> \<not> contains_any arg [CHR '' '', dq, sq] then arg else [dq] @ double_quotes arg @ [dq])"

definition RsyncSSHCommand :: "string list \<Rightarrow> string" where
  "RsyncSSHCommand args = join '' '' (map quoteRsyncArg args)"

section \<open>How rsync splits it\<close>

text \<open>
  The reference: the splitting rsync documents for the value of \<open>-e\<close>.  Blanks separate
  arguments; a quote opens a run that the same quote closes, and two of it inside the run are
  one of it.  The state is the quote of the open run, and the argument read so far, if one was
  begun.
\<close>

fun rsync_words :: "char option \<Rightarrow> string option \<Rightarrow> string \<Rightarrow> string list" where
  "rsync_words q acc [] = (case acc of Some a \<Rightarrow> [a] | None \<Rightarrow> [])"
| "rsync_words (Some q) acc (c # cs) =
     (let a = (case acc of Some a \<Rightarrow> a | None \<Rightarrow> []) in
      if c = q then
        (case cs of
           d # ds \<Rightarrow> if d = q then rsync_words (Some q) (Some (a @ [q])) ds else rsync_words None (Some a) cs
         | [] \<Rightarrow> rsync_words None (Some a) cs)
      else rsync_words (Some q) (Some (a @ [c])) cs)"
| "rsync_words None acc (c # cs) =
     (let a = (case acc of Some a \<Rightarrow> a | None \<Rightarrow> []) in
      if c = CHR '' '' then (case acc of Some a \<Rightarrow> a # rsync_words None None cs | None \<Rightarrow> rsync_words None None cs)
      else if c = dq \<or> c = sq then rsync_words (Some c) (Some a) cs
      else rsync_words None (Some (a @ [c])) cs)"

lemma rsync_words_plain:
  "\<not> contains_any s [CHR '' '', dq, sq] \<Longrightarrow> acc \<noteq> None \<or> s \<noteq> [] \<Longrightarrow>
   rsync_words None acc (s @ rest) =
   rsync_words None (Some ((case acc of Some a \<Rightarrow> a | None \<Rightarrow> []) @ s)) rest"
  by (induction s arbitrary: acc) (auto simp: contains_any_def split: option.splits)

lemma rsync_words_quoted:
  assumes "rest = [] \<or> (\<exists>r. rest = CHR '' '' # r)"
  shows "rsync_words (Some dq) (Some a) (double_quotes s @ dq # rest) = rsync_words None (Some (a @ s)) rest"
proof (induction s arbitrary: a)
  case Nil
  from assms show ?case by (auto simp: double_quotes_def dq_def)
next
  case (Cons c s)
  show ?case
  proof (cases "c = dq")
    case True
    with Cons.IH [of "a @ [c]"] show ?thesis by (simp add: double_quotes_def)
  next
    case False
    with Cons.IH [of "a @ [c]"] show ?thesis by (simp add: double_quotes_def)
  qed
qed

lemma rsync_words_arg:
  assumes "rest = [] \<or> (\<exists>r. rest = CHR '' '' # r)"
  shows "rsync_words None None (quoteRsyncArg arg @ rest) = rsync_words None (Some arg) rest"
proof (cases "arg \<noteq> [] \<and> \<not> contains_any arg [CHR '' '', dq, sq]")
  case True
  with rsync_words_plain [of arg None rest] show ?thesis by (simp add: quoteRsyncArg_def)
next
  case False
  then have "quoteRsyncArg arg @ rest = dq # double_quotes arg @ dq # rest" by (auto simp: quoteRsyncArg_def)
  moreover have "dq \<noteq> CHR '' ''" by (simp add: dq_def)
  ultimately show ?thesis using rsync_words_quoted [OF assms, of "[]" arg] by simp
qed

section \<open>Properties\<close>

text \<open>
  C40. The arguments of \<open>ssh\<close> survive \<open>rsync -e\<close>: splitting the text the way rsync does gives
  back exactly the arguments, whatever characters they hold.
\<close>

theorem RsyncSSHCommand_splits_back: "rsync_words None None (RsyncSSHCommand args) = args"
proof (induction args)
  case Nil
  then show ?case by (simp add: RsyncSSHCommand_def)
next
  case (Cons arg args)
  show ?case
  proof (cases args)
    case Nil
    then show ?thesis using rsync_words_arg [of "[]" arg] by (simp add: RsyncSSHCommand_def)
  next
    case (Cons second later)
    then have "RsyncSSHCommand (arg # args) = quoteRsyncArg arg @ CHR '' '' # RsyncSSHCommand args"
      by (simp add: RsyncSSHCommand_def)
    with rsync_words_arg [of "CHR '' '' # RsyncSSHCommand args" arg] Cons.IH show ?thesis by simp
  qed
qed

text \<open>
  A key path made of a variable that is not set becomes the current directory, which counts as
  configured and hides every other source of a key.
\<close>

lemma unset_key_path_is_the_directory:
  assumes "trim_space text \<noteq> []" and "m_ExpandEnv (e_Machine env) (trim_space text) = []"
    and "auth_KeyPath (rc_Auth rc) = text"
  shows "ResolveSSHKeyPath env remoteName rc w = (''.'', ''config'')"
proof -
  have "path_clean [] = ''.''" by code_simp
  with assms show ?thesis by (simp add: ResolveSSHKeyPath_def NormalizePath_def Let_def)
qed

end
