(* ===== verification/Artifact.thy ===== *)
theory Artifact
  imports Publish RemoteSSH Assets
begin

text \<open>
  Artifacts built elsewhere (\<open>artifact.go\<close>): the manifest of a built directory, the check of a
  directory against it, and the step that ships one into a release.
\<close>

section \<open>The manifest\<close>

definition ArtifactManifestName :: string where "ArtifactManifestName = ''manifest.json''"
definition ArtifactManifestSchema :: int where "ArtifactManifestSchema = 1"

definition ManifestPath :: "string \<Rightarrow> string" where
  "ManifestPath root = path_join [root, ArtifactManifestName]"

definition hashFile :: "'w env \<Rightarrow> string \<Rightarrow> 'w \<Rightarrow> go_error + (string \<times> int)" where
  "hashFile env path w =
     (case m_ReadFile (e_Machine env) path w of
        Inl err \<Rightarrow> Inl err
      | Inr content \<Rightarrow> Inr (e_Sha256 env content, int (length content)))"

text \<open>The entry for one file of the walk.\<close>

definition scan_file :: "'w env \<Rightarrow> string \<Rightarrow> string \<Rightarrow> file_info \<Rightarrow> 'w \<Rightarrow> go_error + artifact_file" where
  "scan_file env root relative info w =
     (let path = path_join [root, relative];
          entry = \<lparr>af_Path = relative, af_SHA256 = [], af_Target = [], af_Size = 0\<rparr> in
      case info of
        SymlinkFile \<Rightarrow>
          (case m_Readlink (e_Machine env) path w of
             Inl err \<Rightarrow> Inl (Wrapf ''read link %s: %w'' [relative] err)
           | Inr goal \<Rightarrow> Inr (entry\<lparr>af_Target := goal\<rparr>))
      | RegularFile _ \<Rightarrow>
          (case hashFile env path w of
             Inl err \<Rightarrow> Inl (Wrapf ''hash %s: %w'' [relative] err)
           | Inr (digest, bytes) \<Rightarrow> Inr (entry\<lparr>af_SHA256 := digest, af_Size := bytes\<rparr>))
      | OtherFile \<Rightarrow> Inr entry)"

fun scan :: "'w env \<Rightarrow> string \<Rightarrow> walk_event list \<Rightarrow> 'w \<Rightarrow> go_error + artifact_file list" where
  "scan env root [] w = Inr []"
| "scan env root (WalkError err # events) w = Inl err"
| "scan env root (WalkFile relative info # events) w =
     (if relative = ArtifactManifestName then scan env root events w
      else case scan_file env root relative info w of
        Inl err \<Rightarrow> Inl err
      | Inr entry \<Rightarrow> map_sum id ((#) entry) (scan env root events w))"

definition BuildManifest :: "'w env \<Rightarrow> string \<Rightarrow> string \<Rightarrow> string \<Rightarrow> 'w \<Rightarrow> go_error + artifact_manifest" where
  "BuildManifest env root revision phpVersion w =
     (let root = path_clean root in
      case m_Stat (e_Machine env) root w of
        Inl err \<Rightarrow> Inl (Wrapf ''inspect artifact directory %s: %w'' [root] err)
      | Inr isDir \<Rightarrow>
          if \<not> isDir then Inl (Errorf ''artifact path %s is not a directory'' [root])
          else case scan env root (m_Walk (e_Machine env) root w) w of
            Inl err \<Rightarrow> Inl (Wrapf ''scan artifact %s: %w'' [root] err)
          | Inr files \<Rightarrow>
              Inr \<lparr>am_SchemaVersion = ArtifactManifestSchema, am_Tool = ReleaseTool, am_BuildMode = BuildArtifact,
                am_Revision = trim_space revision, am_CreatedAt = e_FormatTime env (e_Clock env w),
                am_PHPVersion = trim_space phpVersion, am_FrontendRunner = [],
                am_ComposerLockSHA256 = (case hashFile env (path_join [root, ''composer.lock'']) w of
                  Inr (lock, _) \<Rightarrow> lock | Inl _ \<Rightarrow> []),
                am_FileCount = int (length files), am_TotalBytes = sum_list (map af_Size files),
                am_Files = sort_key af_Path files\<rparr>)"

definition ReadManifest :: "'w env \<Rightarrow> string \<Rightarrow> 'w \<Rightarrow> go_error + artifact_manifest" where
  "ReadManifest env root w =
     (case m_ReadFile (e_Machine env) (ManifestPath root) w of
        Inl err \<Rightarrow> Inl (Wrapf ''read artifact manifest %s: %w'' [ManifestPath root] err)
      | Inr payload \<Rightarrow>
          (case m_UnmarshalManifest (e_Machine env) payload of
             Inl err \<Rightarrow> Inl (Wrapf ''parse artifact manifest %s: %w'' [ManifestPath root] err)
           | Inr manifest \<Rightarrow>
               if am_SchemaVersion manifest \<noteq> ArtifactManifestSchema then
                 Inl (Errorf ''artifact manifest %s has schema version %d; this govard understands %d''
                   [ManifestPath root, itoa (am_SchemaVersion manifest), itoa ArtifactManifestSchema])
               else Inr manifest))"

section \<open>A directory against its manifest\<close>

definition verify_link :: "'w env \<Rightarrow> string \<Rightarrow> artifact_file \<Rightarrow> file_info \<Rightarrow> 'w \<Rightarrow> go_error option" where
  "verify_link env absolute file info w =
     (if info \<noteq> SymlinkFile then Some (Errorf ''artifact entry %s is no longer a symlink'' [af_Path file])
      else case m_Readlink (e_Machine env) absolute w of
        Inl err \<Rightarrow> Some (Wrapf ''artifact link %s is unreadable: %w'' [af_Path file] err)
      | Inr goal \<Rightarrow>
          if goal \<noteq> af_Target file then
            Some (Errorf ''artifact link %s points at %q, want %q'' [af_Path file, goal, af_Target file])
          else None)"

definition verify_regular :: "'w env \<Rightarrow> string \<Rightarrow> artifact_file \<Rightarrow> file_info \<Rightarrow> 'w \<Rightarrow> go_error option" where
  "verify_regular env absolute file info w =
     (case info of
        RegularFile bytes \<Rightarrow>
          if bytes \<noteq> af_Size file then
            Some (Errorf ''artifact file %s is %d bytes, want %d'' [af_Path file, itoa bytes, itoa (af_Size file)])
          else (case hashFile env absolute w of
            Inl err \<Rightarrow> Some (Wrapf ''hash artifact file %s: %w'' [af_Path file] err)
          | Inr (digest, _) \<Rightarrow>
              if digest \<noteq> af_SHA256 file then
                Some (Errorf ''artifact file %s was modified after the build (sha256 %s, want %s)''
                  [af_Path file, digest, af_SHA256 file])
              else None)
      | _ \<Rightarrow> Some (Errorf ''artifact entry %s is no longer a regular file'' [af_Path file]))"

definition verify_file :: "'w env \<Rightarrow> string \<Rightarrow> artifact_file \<Rightarrow> 'w \<Rightarrow> go_error option" where
  "verify_file env root file w =
     (let absolute = path_join [root, af_Path file] in
      case m_Lstat (e_Machine env) absolute w of
        Inl err \<Rightarrow> Some (Wrapf ''artifact is missing %s: %w'' [af_Path file] err)
      | Inr info \<Rightarrow>
          if af_Target file \<noteq> [] then verify_link env absolute file info w
          else verify_regular env absolute file info w)"

fun verify_files :: "'w env \<Rightarrow> string \<Rightarrow> artifact_file list \<Rightarrow> 'w \<Rightarrow> go_error option" where
  "verify_files env root [] w = None"
| "verify_files env root (file # files) w =
     (case verify_file env root file w of Some err \<Rightarrow> Some err | None \<Rightarrow> verify_files env root files w)"

definition VerifyManifest :: "'w env \<Rightarrow> artifact_manifest \<Rightarrow> string \<Rightarrow> 'w \<Rightarrow> go_error option" where
  "VerifyManifest env manifest root w = verify_files env root (am_Files manifest) w"

section \<open>Shipping\<close>

definition sharedPaths :: "settings \<Rightarrow> string list" where
  "sharedPaths m = settingsStringList m [''shared_files''] @ settingsStringList m [''shared_dirs'']"

definition buildStepTimeout :: "options \<Rightarrow> int" where
  "buildStepTimeout opts = (if 0 < opt_CommandTimeout opts then opt_CommandTimeout opts else DefaultCommandTimeout)"

definition trim_slashes :: "string \<Rightarrow> string" where
  "trim_slashes s = rev (dropWhile (\<lambda>c. c = CHR ''/'') (rev s))"

definition copy_command :: "string \<Rightarrow> string \<Rightarrow> string" where
  "copy_command root destination =
     ''cp -a '' @ ShellQuote (root @ ''/.'') @ '' '' @ ShellQuote destination @ '' && rm -f '' @
     ShellQuote (path_join [destination, ArtifactManifestName])"

text \<open>The flags are part of the format itself, so a percent sign in a path is read as a verb.\<close>

definition rsync_command ::
  "'w machine \<Rightarrow> string list \<Rightarrow> string \<Rightarrow> string \<Rightarrow> bool \<Rightarrow> string list \<Rightarrow> string" where
  "rsync_command m sshArgs root goal progress exclude =
     m_Sprintf m
       (''rsync -az --numeric-ids '' @ (if progress then ''--info=progress2 '' else []) @
        concat (map (\<lambda>path. ''--exclude='' @ ShellQuote path @ '' '') (filter (\<lambda>path. trim_space path \<noteq> []) exclude)) @
        ''--exclude=%s -e %s %s %s'')
       [ShellQuote ArtifactManifestName, ShellQuote (RsyncSSHCommand sshArgs), ShellQuote (root @ ''/''), ShellQuote goal]"

definition ArtifactUploadCommand ::
  "'w env \<Rightarrow> host \<Rightarrow> string \<Rightarrow> string \<Rightarrow> bool \<Rightarrow> string list \<Rightarrow> 'w \<Rightarrow> string \<times> 'w" where
  "ArtifactUploadCommand env h source destination progress exclude w =
     (let root = trim_slashes source in
      if h_Local h \<or> trim_space (rc_Host (h_Remote h)) = [] then (copy_command root destination, w)
      else case BuildSSHArgs env (h_Name h) (h_Remote h) False False w of
        (args, w) \<Rightarrow>
          (rsync_command (e_Machine env) (''ssh'' # args) root (RemoteTarget (h_Remote h) @ '':'' @ destination @ ''/'') progress exclude, w))"

definition artifactUploadCommand :: "'w env \<Rightarrow> step_ctx \<Rightarrow> string \<Rightarrow> string \<Rightarrow> 'w \<Rightarrow> string \<times> 'w" where
  "artifactUploadCommand env sc artifactDir releasePath w =
     ArtifactUploadCommand env (sc_Host sc) artifactDir releasePath (progressArgs sc \<noteq> [])
       (sharedPaths (opt_Settings (sc_Opts sc))) w"

definition no_artifact_dir :: go_error where
  "no_artifact_dir =
     Errorf ''artifact mode needs an artifact directory: pass --artifact-dir <dir> or set deploy.artifact_dir'' []"

text \<open>The checks before anything is transferred, and the manifest that passed them.\<close>

definition check_artifact :: "'w env \<Rightarrow> step_ctx \<Rightarrow> string \<Rightarrow> 'w \<Rightarrow> go_error + artifact_manifest" where
  "check_artifact env sc artifactDir w =
     (case ReadManifest env artifactDir w of
        Inl err \<Rightarrow> Inl err
      | Inr manifest \<Rightarrow>
          if am_FileCount manifest = 0 \<and> am_Files manifest = [] then
            Inl (Errorf ''the artifact at %s holds no files; run `govard deploy build` first'' [artifactDir])
          else (case VerifyManifest env manifest artifactDir w of
            Some err \<Rightarrow> Inl (Wrapf ''the artifact at %s does not match its own manifest: %w'' [artifactDir] err)
          | None \<Rightarrow>
              (let revision = deployed_revision (sc_Opts sc) in
               if am_Revision manifest \<noteq> [] \<and> revision \<noteq> [] \<and> am_Revision manifest \<noteq> revision then
                 Inl (Errorf ''the artifact at %s was built for revision %s but %s is being deployed; rebuild it with `govard deploy build --revision %s` or deploy the revision it was built for''
                   [artifactDir, am_Revision manifest, revision, am_Revision manifest])
               else if releasePathOf sc = [] then
                 Inl (Errorf ''release path is unknown; deploy:release must run first'' [])
               else Inr manifest)))"

definition note_artifact :: "artifact_manifest \<Rightarrow> release \<Rightarrow> release" where
  "note_artifact manifest rel =
     rel\<lparr>rel_Build := \<lparr>bld_Mode = BuildArtifact, bld_DurationMS = 0, bld_ArtifactRevision = am_Revision manifest,
       bld_ArtifactFiles = am_FileCount manifest, bld_ArtifactBytes = am_TotalBytes manifest\<rparr>\<rparr>"

definition ship_artifact :: "'w env \<Rightarrow> step_ctx \<Rightarrow> string \<Rightarrow> artifact_manifest \<Rightarrow> 'w \<Rightarrow> go_error option \<times> 'w" where
  "ship_artifact env sc artifactDir manifest w =
     (let releasePath = releasePathOf sc in
      case step_exec env sc (''mkdir -p '' @ Shell releasePath) w of
        (Some err, w) \<Rightarrow> (Some (Wrapf ''prepare the release directory for the artifact: %w'' [] err), w)
      | (None, w) \<Rightarrow>
          (case artifactUploadCommand env sc artifactDir releasePath w of
             (command, w) \<Rightarrow>
               (case e_RunLocal env \<lparr>Timeout = buildStepTimeout (sc_Opts sc), Stdin = [], Streamed = sc_Live sc\<rparr> command w of
                  ((_, Some err), w) \<Rightarrow> (Some (Wrapf ''upload the artifact to %s: %w'' [releasePath] err), w)
                | ((_, None), w) \<Rightarrow>
                    (case m_MarshalManifest (e_Machine env) manifest of
                       Inl err \<Rightarrow> (Some (Wrapf ''encode the artifact manifest: %w'' [] err), w)
                     | Inr payload \<Rightarrow>
                         writeTargetFile env (sc_Host sc) (path_join [releasePath, ''.dep'', ArtifactRecordName]) payload w))))"

definition CoreArtifact :: "'w task_func" where
  "CoreArtifact env sc w =
     (if opt_Build (sc_Opts sc) \<noteq> BuildArtifact then ((None, sc_Release sc), w)
      else
        let artifactDir = trim_space (opt_ArtifactDir (sc_Opts sc)) in
        if artifactDir = [] then ((Some no_artifact_dir, sc_Release sc), w)
        else case check_artifact env sc artifactDir w of
          Inl err \<Rightarrow> ((Some err, sc_Release sc), w)
        | Inr manifest \<Rightarrow>
            (case ship_artifact env sc artifactDir manifest w of
               (Some err, w) \<Rightarrow> ((Some err, sc_Release sc), w)
             | (None, w) \<Rightarrow> ((None, map_option (note_artifact manifest) (sc_Release sc)), w)))"

section \<open>Lemmas: what a manifest says\<close>

text \<open>A file is as its entry records it: a link by its target, any other by size and digest.\<close>

definition as_recorded :: "'w env \<Rightarrow> string \<Rightarrow> artifact_file \<Rightarrow> 'w \<Rightarrow> bool" where
  "as_recorded env root file w \<longleftrightarrow>
     (let m = e_Machine env; path = path_join [root, af_Path file] in
      if af_Target file \<noteq> [] then m_Lstat m path w = Inr SymlinkFile \<and> m_Readlink m path w = Inr (af_Target file)
      else m_Lstat m path w = Inr (RegularFile (af_Size file)) \<and>
        (case m_ReadFile m path w of Inr content \<Rightarrow> e_Sha256 env content = af_SHA256 file | Inl _ \<Rightarrow> False))"

lemma verify_file_iff: "verify_file env root file w = None \<longleftrightarrow> as_recorded env root file w"
  by (auto simp: verify_file_def as_recorded_def verify_link_def verify_regular_def hashFile_def Let_def
      split: sum.splits file_info.splits)

lemma verify_files_iff: "verify_files env root files w = None \<longleftrightarrow> (\<forall>file \<in> set files. as_recorded env root file w)"
  by (induction files) (auto simp flip: verify_file_iff split: option.split)

text \<open>
  What a walk promises: \<open>Lstat\<close> gives each entry the kind the walk gave it, a regular file holds
  as many bytes as its size says, a link has a target, and there is no other kind of file.
\<close>

definition walk_entry :: "'w env \<Rightarrow> string \<Rightarrow> 'w \<Rightarrow> walk_event \<Rightarrow> bool" where
  "walk_entry env root w event =
     (case event of
        WalkError _ \<Rightarrow> True
      | WalkFile relative info \<Rightarrow>
          (let m = e_Machine env; path = path_join [root, relative] in
           m_Lstat m path w = Inr info \<and>
           (case info of
              RegularFile bytes \<Rightarrow>
                (case m_ReadFile m path w of Inr content \<Rightarrow> int (length content) = bytes | Inl _ \<Rightarrow> True)
            | SymlinkFile \<Rightarrow> m_Readlink m path w \<noteq> Inr []
            | OtherFile \<Rightarrow> False)))"

lemma scan_file_recorded:
  assumes "walk_entry env root w (WalkFile relative info)" and "scan_file env root relative info w = Inr entry"
  shows "as_recorded env root entry w \<and> af_Path entry = relative"
  using assms
  by (auto simp: walk_entry_def scan_file_def as_recorded_def hashFile_def Let_def
      split: sum.splits file_info.splits)

text \<open>The paths of a walk, without the manifest itself.\<close>

fun listed_paths :: "walk_event list \<Rightarrow> string list" where
  "listed_paths [] = []"
| "listed_paths (WalkError err # events) = listed_paths events"
| "listed_paths (WalkFile relative info # events) =
     (if relative = ArtifactManifestName then listed_paths events else relative # listed_paths events)"

lemma scan_recorded:
  "scan env root events w = Inr files \<Longrightarrow> list_all (walk_entry env root w) events \<Longrightarrow>
   (\<forall>file \<in> set files. as_recorded env root file w) \<and>
   map af_Path files = listed_paths events"
proof (induction events arbitrary: files)
  case Nil
  then show ?case by simp
next
  case (Cons event events)
  show ?case
  proof (cases event)
    case (WalkError err)
    with Cons.prems show ?thesis by simp
  next
    case (WalkFile relative info)
    show ?thesis
    proof (cases "relative = ArtifactManifestName")
      case True
      with Cons WalkFile show ?thesis by simp
    next
      case False
      with Cons.prems WalkFile obtain entry rest where
        entry: "scan_file env root relative info w = Inr entry"
        and rest: "scan env root events w = Inr rest" and files: "files = entry # rest"
        by (cases "scan_file env root relative info w"; cases "scan env root events w") auto
      from scan_file_recorded [OF _ entry] Cons.prems(2) WalkFile Cons.IH [OF rest] False show ?thesis
        by (simp add: files)
    qed
  qed
qed

section \<open>Properties\<close>

text \<open>
  What a build records, the check accepts: a manifest built from a directory verifies
  against that directory, lists every file of the walk but itself exactly once, in the order of
  the paths, and counts what it lists.
\<close>

theorem BuildManifest_verifies:
  assumes "BuildManifest env root revision php w = Inr manifest"
    and "list_all (walk_entry env (path_clean root) w) (m_Walk (e_Machine env) (path_clean root) w)"
  shows "VerifyManifest env manifest (path_clean root) w = None \<and>
    sorted (map af_Path (am_Files manifest)) \<and>
    mset (map af_Path (am_Files manifest)) = mset (listed_paths (m_Walk (e_Machine env) (path_clean root) w)) \<and>
    am_FileCount manifest = int (length (am_Files manifest)) \<and>
    am_TotalBytes manifest = sum_list (map af_Size (am_Files manifest))"
proof -
  let ?root = "path_clean root"
  from assms(1) obtain files where scan: "scan env ?root (m_Walk (e_Machine env) ?root w) w = Inr files"
    and files: "am_Files manifest = sort_key af_Path files" "am_FileCount manifest = int (length files)"
      "am_TotalBytes manifest = sum_list (map af_Size files)"
    by (auto simp: BuildManifest_def Let_def split: sum.splits if_splits)
  note recorded = scan_recorded [OF scan assms(2)]
  have "sum_list (map af_Size (sort_key af_Path files)) = sum_list (map af_Size files)"
    using sum_mset_sum_list [of "map af_Size (sort_key af_Path files)"] sum_mset_sum_list [of "map af_Size files"]
    by simp
  moreover have "image_mset af_Path (mset files) = mset (listed_paths (m_Walk (e_Machine env) ?root w))"
    using recorded by (metis mset_map)
  ultimately show ?thesis using recorded files
    by (simp add: VerifyManifest_def verify_files_iff sorted_sort_key)
qed

text \<open>
  C27. Nothing of an artifact leaves the machine before it is checked: when the step changes
  anything, in the world or in the release record, its manifest was read, is not empty, matches
  every file of the directory, and was not built for another revision; a success records
  exactly that manifest.
\<close>

theorem CoreArtifact_ships_verified:
  assumes "CoreArtifact env sc w = ((err, rel), w')" and "w' \<noteq> w \<or> rel \<noteq> sc_Release sc"
    and "dir = trim_space (opt_ArtifactDir (sc_Opts sc))" and "revision = deployed_revision (sc_Opts sc)"
  shows "\<exists>manifest. ReadManifest env dir w = Inr manifest \<and>
    (\<forall>file \<in> set (am_Files manifest). as_recorded env dir file w) \<and>
    (am_FileCount manifest \<noteq> 0 \<or> am_Files manifest \<noteq> []) \<and>
    (am_Revision manifest = [] \<or> revision = [] \<or> am_Revision manifest = revision) \<and> releasePathOf sc \<noteq> [] \<and>
    rel = (if err = None then map_option (note_artifact manifest) (sc_Release sc) else sc_Release sc)"
proof -
  from assms obtain manifest where checked: "check_artifact env sc dir w = Inr manifest"
    and rel: "rel = (if err = None then map_option (note_artifact manifest) (sc_Release sc) else sc_Release sc)"
    by (auto simp: CoreArtifact_def Let_def split: if_splits sum.splits prod.splits option.splits)
  have "ReadManifest env dir w = Inr manifest" "VerifyManifest env manifest dir w = None"
    "am_FileCount manifest \<noteq> 0 \<or> am_Files manifest \<noteq> []"
    "am_Revision manifest = [] \<or> revision = [] \<or> am_Revision manifest = revision" "releasePathOf sc \<noteq> []"
    using checked assms(4) by (auto simp: check_artifact_def Let_def split: sum.splits if_splits option.splits)
  with rel show ?thesis by (auto simp: VerifyManifest_def verify_files_iff)
qed

section \<open>A directory of two files\<close>

text \<open>A regular file and a link, on a target that notes whether a command ran.\<close>

definition small_machine :: "bool machine" where
  "small_machine = bare_machine\<lparr>m_Stat := (\<lambda>p w. Inr True),
     m_Lstat := (\<lambda>p w. if p = ''/out/a'' then Inr (RegularFile 2) else if p = ''/out/l'' then Inr SymlinkFile
       else Inl (Sentinel ErrNotExist)),
     m_Readlink := (\<lambda>p w. Inr ''a''), m_ReadFile := (\<lambda>p w. Inr ''hi''),
     m_Walk := (\<lambda>p w. [WalkFile ''l'' SymlinkFile, WalkFile ''a'' (RegularFile 2)]),
     m_UnmarshalManifest := (\<lambda>s. Inr \<lparr>am_SchemaVersion = 1, am_Tool = [], am_BuildMode = [], am_Revision = ''abc'',
       am_CreatedAt = [], am_PHPVersion = ''8.1.2'', am_FrontendRunner = [], am_ComposerLockSHA256 = [], am_FileCount = 1,
       am_TotalBytes = 2, am_Files = [\<lparr>af_Path = ''a'', af_SHA256 = ''hi'', af_Target = [], af_Size = 2\<rparr>]\<rparr>)\<rparr>"

definition noting_env :: "bool env" where
  "noting_env = \<lparr>e_Run = (\<lambda>opts cmd w. ((\<lparr>Stdout = ''8.10.0'', Stderr = [], ExitCode = 0\<rparr>, None), True)),
     e_RunLocal = (\<lambda>opts cmd w. ((\<lparr>Stdout = [], Stderr = [], ExitCode = 0\<rparr>, None), w)),
     e_Marshal = (\<lambda>r. Inr []), e_Unmarshal = (\<lambda>s. Inl (Sentinel ErrNotExist)), e_UnmarshalOwner = (\<lambda>s. None),
     e_Clock = (\<lambda>w. 0), e_FormatTime = (\<lambda>t. ''now''), e_ParseTime = (\<lambda>s. None), e_Getenv = (\<lambda>s. []), e_Pid = 42,
     e_Sha256 = (\<lambda>s. s), e_MarshalAssets = fst, e_UnmarshalAssets = (\<lambda>s. None), e_Machine = small_machine\<rparr>"

definition artifact_ctx :: step_ctx where
  "artifact_ctx = demo_ctx\<lparr>sc_Release := Some (demo_release\<lparr>rel_Path := ''/srv/r/7''\<rparr>),
     sc_Opts := demo_options\<lparr>opt_Build := BuildArtifact, opt_ArtifactDir := ''/out'', opt_Revision := ''abc''\<rparr>\<rparr>"

theorem BuildManifest_verifies_witness:
  "\<exists>manifest. BuildManifest noting_env ''/out/'' ''abc'' [] False = Inr manifest \<and>
     VerifyManifest noting_env manifest ''/out'' False = None \<and> am_FileCount manifest = 2"
proof -
  let ?build = "BuildManifest noting_env ''/out/'' ''abc'' [] False"
  have "case ?build of Inr manifest \<Rightarrow> am_FileCount manifest = 2 | Inl _ \<Rightarrow> False" by code_simp
  then obtain manifest where build: "?build = Inr manifest" and two: "am_FileCount manifest = 2"
    by (cases ?build) auto
  have root: "path_clean ''/out/'' = ''/out''" by code_simp
  have "list_all (walk_entry noting_env (path_clean ''/out/'') False)
      (m_Walk (e_Machine noting_env) (path_clean ''/out/'') False)" by code_simp
  from BuildManifest_verifies [OF build this] build two show ?thesis unfolding root by auto
qed

theorem CoreArtifact_ships_verified_witness:
  "\<exists>manifest. ReadManifest noting_env ''/out'' False = Inr manifest \<and>
     (\<forall>file \<in> set (am_Files manifest). as_recorded noting_env ''/out'' file False)"
proof -
  let ?run = "CoreArtifact noting_env artifact_ctx False"
  have run: "?run = ((fst (fst ?run), snd (fst ?run)), snd ?run)" by simp
  have ran: "snd ?run" by code_simp
  have dir: "''/out'' = trim_space (opt_ArtifactDir (sc_Opts artifact_ctx))" by code_simp
  from ran CoreArtifact_ships_verified [OF run _ dir refl] show ?thesis by blast
qed

section \<open>Where the artifact step says more than it does\<close>

text \<open>On a local target the shared paths are not excluded: the command does not depend on them.\<close>

lemma local_upload_ignores_exclusions:
  "h_Local h \<Longrightarrow> ArtifactUploadCommand env h source goal progress exclude w =
   ArtifactUploadCommand env h source goal progress [] w"
  by (simp add: ArtifactUploadCommand_def Let_def)

text \<open>A device or pipe is recorded as an entry the check never accepts.\<close>

lemma special_file_never_verifies:
  assumes "scan_file env root relative OtherFile w = Inr entry"
    and "m_Lstat (e_Machine env) (path_join [root, relative]) w = Inr OtherFile"
  shows "verify_file env root entry w \<noteq> None"
  using assms by (auto simp: scan_file_def verify_file_def verify_regular_def)

end
