(* ===== verification/WorkingCopy.thy ===== *)
theory WorkingCopy
  imports Publish
begin

text \<open>
  Filling the release directory (\<open>tasks_prepare.go\<close>): the revision from the mirror, the shared
  links, the write permissions.
\<close>

section \<open>The code of a revision\<close>

text \<open>The repository a deploy names, or the one of its host.\<close>

definition deploy_repository :: "step_ctx \<Rightarrow> string" where
  "deploy_repository sc =
     (let repository = trim_space (opt_Repository (sc_Opts sc)) in
      if repository = [] then trim_space (h_Repository (sc_Host sc)) else repository)"

definition with_branch :: "step_ctx \<Rightarrow> string \<Rightarrow> string" where
  "with_branch sc fetch =
     (let branch = trim_space (opt_Branch (sc_Opts sc)) in
      if branch \<noteq> [] then fetch @ '' '' @ Shell branch else fetch)"

definition fetch_docroot_command :: "step_ctx \<Rightarrow> string \<Rightarrow> string" where
  "fetch_docroot_command sc repository =
     with_branch sc (''git -C '' @ Shell (h_CurrentPath (sc_Host sc)) @ '' fetch -q '' @ Shell repository)"

definition prepareInPlaceDocroot :: "'w env \<Rightarrow> step_ctx \<Rightarrow> string \<Rightarrow> 'w \<Rightarrow> go_error option \<times> 'w" where
  "prepareInPlaceDocroot env sc repository w =
     (case ResolvePublishStrategy env (sc_Host sc) (sc_Opts sc) w of
        (Inl err, w) \<Rightarrow> (Some err, w)
      | (Inr strategy, w) \<Rightarrow>
          if strategy \<noteq> PublishInPlace then (None, w)
          else (case ensureInPlaceShared env sc w of
             (Some err, w) \<Rightarrow> (Some err, w)
           | (None, w) \<Rightarrow>
               if repository = [] then (None, w)
               else (case step_exec env sc (git_dir_command (sc_Host sc)) w of
                  (Some _, w) \<Rightarrow>
                    (Some (Wrapf ''%w: %s'' [h_CurrentPath (sc_Host sc)] (Sentinel ErrDocrootNotAGitCheckout)), w)
                | (None, w) \<Rightarrow>
                    (case long_exec env sc (fetch_docroot_command sc repository) w of
                       (Some err, w) \<Rightarrow> (Some (Wrapf ''fetch %s into the docroot: %w'' [repository] err), w)
                     | (None, w) \<Rightarrow> (None, w)))))"

definition mirror_command :: "host \<Rightarrow> string" where
  "mirror_command h = ''test -d '' @ Shell (RepoPath h) @ '' || git init --bare -q '' @ Shell (RepoPath h)"

definition fetch_mirror_command :: "step_ctx \<Rightarrow> string \<Rightarrow> string" where
  "fetch_mirror_command sc repository =
     with_branch sc (''git --git-dir='' @ Shell (RepoPath (sc_Host sc)) @ '' fetch -q '' @ Shell repository)"

definition has_commit_command :: "host \<Rightarrow> string \<Rightarrow> string" where
  "has_commit_command h revision =
     ''git --git-dir='' @ Shell (RepoPath h) @ '' cat-file -e '' @ Shell revision @ ''^{commit}''"

definition extract_command :: "host \<Rightarrow> string \<Rightarrow> string \<Rightarrow> string" where
  "extract_command h revision releasePath =
     ''git --git-dir='' @ Shell (RepoPath h) @ '' archive '' @ Shell revision @ '' | tar -x -C '' @ Shell releasePath"

definition fill_release :: "'w env \<Rightarrow> step_ctx \<Rightarrow> string \<Rightarrow> string \<Rightarrow> string \<Rightarrow> 'w \<Rightarrow> go_error option \<times> 'w" where
  "fill_release env sc repository revision releasePath w =
     (let h = sc_Host sc in
      case step_exec env sc (mirror_command h) w of
        (Some err, w) \<Rightarrow> (Some (Wrapf ''prepare mirror: %w'' [] err), w)
      | (None, w) \<Rightarrow>
          (case long_exec env sc (fetch_mirror_command sc repository) w of
             (Some err, w) \<Rightarrow> (Some (Wrapf ''fetch %s into the mirror: %w'' [repository] err), w)
           | (None, w) \<Rightarrow>
               (case step_exec env sc (has_commit_command h revision) w of
                  (Some _, w) \<Rightarrow>
                    (Some (Wrapf ''%w: %s (branch %q)'' [revision, trim_space (opt_Branch (sc_Opts sc))]
                       (Sentinel ErrRevisionMissing)), w)
                | (None, w) \<Rightarrow>
                    (case long_exec env sc (extract_command h revision releasePath) w of
                       (Some err, w) \<Rightarrow> (Some (Wrapf ''extract %s: %w'' [revision] err), w)
                     | (None, w) \<Rightarrow> (None, w)))))"

definition CoreCode :: "'w env \<Rightarrow> step_ctx \<Rightarrow> 'w \<Rightarrow> go_error option \<times> 'w" where
  "CoreCode env sc w =
     (let releasePath = releasePathOf sc; repository = deploy_repository sc;
          revision = deployed_revision (sc_Opts sc)
      in if releasePath = [] then (Some (Errorf ''release path is unknown; deploy:release must run first'' []), w)
         else if repository = [] then
           (Some (Errorf ''no repository configured for remote %q'' [h_Name (sc_Host sc)]), w)
         else if revision = [] then
           (Some (Errorf ''no revision resolved for remote %q'' [h_Name (sc_Host sc)]), w)
         else case prepareInPlaceDocroot env sc repository w of
           (Some err, w) \<Rightarrow> (Some err, w)
         | (None, w) \<Rightarrow> fill_release env sc repository revision releasePath w)"

section \<open>Shared links\<close>

definition link_release_command :: "host \<Rightarrow> string \<Rightarrow> string \<Rightarrow> string" where
  "link_release_command h releasePath entry =
     (let source = Shell (path_join [SharedPath h, entry]);
          goalPath = path_join [releasePath, entry]; goal = Shell goalPath in
      ''mkdir -p '' @ Shell (SharedPath h) @ '' && if [ -e '' @ source @ '' ]; then '' @
      ''if [ -d '' @ goal @ '' ] && [ ! -L '' @ goal @ '' ]; then '' @
      ''case '' @ [dq] @ ''$(cd '' @ goal @ '' && pwd -P)/'' @ [dq] @ '' in '' @
      [dq] @ ''$(cd '' @ Shell releasePath @ '' && pwd -P)'' @ [dq] @ ''/*) rm -rf '' @ goal @ '' ;; '' @
      ''*) echo '' @ Shell (goalPath @ '' resolves outside the release; refusing to replace it'') @
      '' >&2; exit 1 ;; esac; fi && '' @
      ''mkdir -p '' @ Shell (path_dir goalPath) @ '' && ln -sfn '' @ source @ '' '' @ goal @ ''; fi'')"

text \<open>An entry inside a shared directory is reached through the link of that directory.\<close>

fun link_entries ::
  "'w env \<Rightarrow> step_ctx \<Rightarrow> string \<Rightarrow> string list \<Rightarrow> string list \<Rightarrow> 'w \<Rightarrow> go_error option \<times> 'w" where
  "link_entries env sc releasePath dirs [] w = (None, w)"
| "link_entries env sc releasePath dirs (entry # entries) w =
     (if nestedInSharedDir entry dirs \<noteq> None then link_entries env sc releasePath dirs entries w
      else case step_exec env sc (link_release_command (sc_Host sc) releasePath entry) w of
        (Some err, w) \<Rightarrow> (Some (Wrapf ''link shared entry %s: %w'' [entry] err), w)
      | (None, w) \<Rightarrow> link_entries env sc releasePath dirs entries w)"

definition shared_dirs :: "step_ctx \<Rightarrow> string list" where
  "shared_dirs sc = settingsStringList (opt_Settings (sc_Opts sc)) [''shared_dirs'']"

definition CoreShared :: "'w env \<Rightarrow> step_ctx \<Rightarrow> 'w \<Rightarrow> go_error option \<times> 'w" where
  "CoreShared env sc w =
     (let releasePath = releasePathOf sc in
      if releasePath = [] then (Some (Errorf ''release path is unknown; deploy:release must run first'' []), w)
      else link_entries env sc releasePath (shared_dirs sc) (shared_entries sc) w)"

section \<open>Write permissions\<close>

definition writableModeChmod :: string where "writableModeChmod = ''chmod''"
definition writableModeChown :: string where "writableModeChown = ''chown''"
definition writableModeChmodChown :: string where "writableModeChmodChown = ''chmod+chown''"
definition writableModeACL :: string where "writableModeACL = ''acl''"
definition writableModeSkip :: string where "writableModeSkip = ''skip''"
definition defaultWritablePermissions :: string where "defaultWritablePermissions = ''0775''"

lemmas writable_modes = writableModeChmod_def writableModeChown_def writableModeChmodChown_def
  writableModeACL_def writableModeSkip_def

text \<open>The part of an owner before its first colon and the part behind it.\<close>

definition owner_parts :: "string \<Rightarrow> string \<times> string" where
  "owner_parts owner =
     (case dropWhile (\<lambda>c. c \<noteq> CHR '':'') owner of
        [] \<Rightarrow> (trim_space owner, [])
      | _ # after \<Rightarrow> (trim_space (takeWhile (\<lambda>c. c \<noteq> CHR '':'') owner), trim_space after))"

definition aclEntriesFor :: "string \<Rightarrow> string" where
  "aclEntriesFor owner =
     (case owner_parts owner of (user, grp) \<Rightarrow>
        join '' -m ''
          ((if user \<noteq> [] then [ShellQuote (''u:'' @ user @ '':rwX'')] else []) @
           (if grp \<noteq> [] then [ShellQuote (''g:'' @ grp @ '':rwX'')] else [])))"

text \<open>What a mode does to a path, with the owner and the permissions it was given.\<close>

definition writable_command :: "string \<Rightarrow> string \<Rightarrow> string \<Rightarrow> string \<Rightarrow> string" where
  "writable_command mode owner modeBits goal =
     ''mkdir -p '' @ Shell goal @
     (if mode = writableModeChmod \<or> mode = writableModeChmodChown
      then '' && chmod -R '' @ Shell modeBits @ '' '' @ Shell goal else []) @
     (if mode = writableModeChown \<or> mode = writableModeChmodChown
      then '' && chown -R '' @ ShellQuote owner @ '' '' @ Shell goal else []) @
     (if mode = writableModeACL
      then '' && setfacl -R -L -m '' @ aclEntriesFor owner @ '' '' @ Shell goal @
        '' && setfacl -R -d -m '' @ aclEntriesFor owner @ '' '' @ Shell goal else [])"

fun apply_mode ::
  "'w env \<Rightarrow> step_ctx \<Rightarrow> (string \<Rightarrow> string) \<Rightarrow> string list \<Rightarrow> 'w \<Rightarrow> go_error option \<times> 'w" where
  "apply_mode env sc command [] w = (None, w)"
| "apply_mode env sc command (entry # entries) w =
     (case long_exec env sc (command entry) w of
        (Some err, w) \<Rightarrow> (Some (Wrapf ''apply writable mode to %s: %w'' [entry] err), w)
      | (None, w) \<Rightarrow> apply_mode env sc command entries w)"

definition or_default :: "string \<Rightarrow> string \<Rightarrow> string" where
  "or_default s d = (if s = [] then d else s)"

definition CoreWritable :: "'w env \<Rightarrow> step_ctx \<Rightarrow> 'w \<Rightarrow> go_error option \<times> 'w" where
  "CoreWritable env sc w =
     (let settings = opt_Settings (sc_Opts sc); releasePath = releasePathOf sc;
          mode = or_default (settingsString settings ''writable_mode'') writableModeChmod;
          owner = settingsString settings ''owner'';
          modeBits = or_default (settingsString settings ''writable_permissions'') defaultWritablePermissions;
          paths = settingsStringList settings [''writable_dirs'']
      in if releasePath = [] then (Some (Errorf ''release path is unknown; deploy:release must run first'' []), w)
         else if mode = writableModeSkip then (None, w)
         else if mode \<notin> set [writableModeChmod, writableModeChown, writableModeChmodChown, writableModeACL] then
           (Some (Errorf ''unsupported writable_mode %q; use %s, %s, %s, %s or %s''
              [mode, writableModeChmod, writableModeChown, writableModeChmodChown, writableModeACL, writableModeSkip]), w)
         else if mode \<noteq> writableModeChmod \<and> owner = [] then
           (Some (Errorf ''writable_mode %q needs deploy.settings.owner (user:group) to be set'' [mode]), w)
         else apply_mode env sc (\<lambda>entry. writable_command mode owner modeBits (releasePath @ ''/'' @ entry))
           (if paths = [] then [''.''] else paths) w)"

definition checkWritableMode :: "'w env \<Rightarrow> step_ctx \<Rightarrow> 'w \<Rightarrow> go_error option \<times> 'w" where
  "checkWritableMode env sc w =
     (if settingsString (opt_Settings (sc_Opts sc)) ''writable_mode'' \<noteq> writableModeACL then (None, w)
      else case step_exec env sc ''command -v setfacl >/dev/null 2>&1'' w of
        (Some _, w) \<Rightarrow>
          (Some (Errorf ''writable_mode %q needs setfacl on the target; install the acl package or use %s''
             [writableModeACL, writableModeChmod]), w)
      | (None, w) \<Rightarrow> (None, w))"

section \<open>Lemmas: what is linked\<close>

definition linked_entries :: "step_ctx \<Rightarrow> string list" where
  "linked_entries sc = filter (\<lambda>entry. nestedInSharedDir entry (shared_dirs sc) = None) (shared_entries sc)"

lemma link_entries_log:
  "link_entries (logging env) sc releasePath dirs entries (w, log) = (None, (w', log')) \<Longrightarrow>
   log' = log @ map (link_release_command (sc_Host sc) releasePath)
     (filter (\<lambda>entry. nestedInSharedDir entry dirs = None) entries)"
proof (induction entries arbitrary: w log)
  case (Cons entry entries)
  show ?case
  proof (cases "nestedInSharedDir entry dirs = None")
    case True
    with Cons.prems obtain w1 where
      "link_entries (logging env) sc releasePath dirs entries
         (w1, log @ [link_release_command (sc_Host sc) releasePath entry]) = (None, (w', log'))"
      by (auto simp: step_exec_logging split: prod.splits option.splits)
    from Cons.IH [OF this] True show ?thesis by simp
  next
    case False
    with Cons.prems have "link_entries (logging env) sc releasePath dirs entries (w, log) = (None, (w', log'))"
      by simp
    from Cons.IH [OF this] False show ?thesis by simp
  qed
qed simp

lemma shared_dirs_entries: "set (shared_dirs sc) \<subseteq> set (shared_entries sc)"
  by (auto simp: shared_dirs_def shared_entries_def settingsStringList_def)

lemma not_nested_iff:
  "nestedInSharedDir entry dirs = None \<longleftrightarrow>
   (\<forall>d \<in> set dirs. rel_segments d \<noteq> [] \<longrightarrow> \<not> strict_prefix (rel_segments d) (rel_segments entry))"
proof (cases "rel_segments entry = []")
  case True
  then show ?thesis by (simp add: nestedInSharedDir_def cleanRelPath_empty)
next
  case False
  then have "nestedInSharedDir entry dirs =
      find (\<lambda>d. rel_segments d \<noteq> [] \<and> strict_prefix (rel_segments d) (rel_segments entry)) dirs"
    by (simp add: nestedInSharedDir_def Let_def cleanRelPath_empty first_parent_find)
  then show ?thesis by (auto simp: find_None_iff)
qed

text \<open>Above every entry stands one that is linked: the shortest of the shared directories it lies in.\<close>

lemma linked_above:
  assumes "entry \<in> set (shared_entries sc)" and "rel_segments entry \<noteq> []"
  shows "\<exists>link \<in> set (linked_entries sc). prefix (rel_segments link) (rel_segments entry)"
  using assms
proof (induction "length (rel_segments entry)" arbitrary: entry rule: less_induct)
  case less
  show ?case
  proof (cases "nestedInSharedDir entry (shared_dirs sc) = None")
    case True
    with less.prems show ?thesis by (auto simp: linked_entries_def)
  next
    case False
    then obtain d where d: "d \<in> set (shared_dirs sc)" "rel_segments d \<noteq> []"
      "strict_prefix (rel_segments d) (rel_segments entry)" unfolding not_nested_iff by blast
    then have shorter: "length (rel_segments d) < length (rel_segments entry)" by (simp add: prefix_length_less)
    have "d \<in> set (shared_entries sc)" using d(1) shared_dirs_entries by blast
    from less.hyps [OF shorter this d(2)] d(3) show ?thesis
      by (meson prefix_order.trans strict_prefixE prefix_order.less_imp_le)
  qed
qed

lemma apply_mode_log:
  "apply_mode (logging env) sc command entries (w, log) = (err, (w', log')) \<Longrightarrow>
   \<exists>k. log' = log @ map command (take k entries)"
proof (induction entries arbitrary: w log)
  case (Cons entry entries)
  obtain e w1 where run: "long_exec (logging env) sc (command entry) (w, log) = (e, (w1, log @ [command entry]))"
    using long_exec_logging [of env sc "command entry" w log] by (metis prod.collapse)
  show ?case
  proof (cases e)
    case None
    with Cons.prems run have
      "apply_mode (logging env) sc command entries (w1, log @ [command entry]) = (err, (w', log'))" by simp
    from Cons.IH [OF this] obtain k where "log' = (log @ [command entry]) @ map command (take k entries)" ..
    then have "log' = log @ map command (take (Suc k) (entry # entries))" by simp
    then show ?thesis by blast
  next
    case (Some e')
    with Cons.prems run have "log' = log @ map command (take 1 (entry # entries))" by simp
    then show ?thesis by blast
  qed
qed simp

section \<open>Properties\<close>

text \<open>
  Every shared entry reaches the release through exactly one link.  A linking step that
  succeeds runs one command per entry outside the other shared directories and nothing else;
  every entry lies at or below one of those, and none of those lies below a shared directory,
  so no link is made inside a directory that is itself a link.
\<close>

theorem CoreShared_links_each_once:
  assumes "CoreShared (logging env) sc (w, []) = (None, (w', log))"
  shows "log = map (link_release_command (sc_Host sc) (releasePathOf sc)) (linked_entries sc) \<and>
    (\<forall>entry \<in> set (shared_entries sc). rel_segments entry \<noteq> [] \<longrightarrow>
       (\<exists>link \<in> set (linked_entries sc). prefix (rel_segments link) (rel_segments entry))) \<and>
    (\<forall>link \<in> set (linked_entries sc). \<forall>d \<in> set (shared_dirs sc).
       rel_segments d \<noteq> [] \<longrightarrow> \<not> strict_prefix (rel_segments d) (rel_segments link))"
proof -
  have "link_entries (logging env) sc (releasePathOf sc) (shared_dirs sc) (shared_entries sc) (w, [])
      = (None, (w', log))"
    using assms by (auto simp: CoreShared_def Let_def split: if_splits)
  from link_entries_log [OF this]
  have "log = map (link_release_command (sc_Host sc) (releasePathOf sc)) (linked_entries sc)"
    by (simp add: linked_entries_def)
  moreover have "\<not> strict_prefix (rel_segments d) (rel_segments link)"
    if "link \<in> set (linked_entries sc)" "d \<in> set (shared_dirs sc)" "rel_segments d \<noteq> []" for link d
    using that not_nested_iff [of link "shared_dirs sc"] by (auto simp: linked_entries_def)
  ultimately show ?thesis using linked_above by blast
qed

definition shared_ctx :: step_ctx where
  "shared_ctx = demo_ctx\<lparr>sc_Release := Some (demo_release\<lparr>rel_Path := ''/srv/r/7''\<rparr>),
     sc_Opts := demo_options\<lparr>opt_Settings :=
       [(''shared_files'', SStrs [''media/logo.png'', ''env'']), (''shared_dirs'', SStrs [''media/'', ''log''])]\<rparr>\<rparr>"

theorem CoreShared_links_each_once_witness:
  "snd (snd (CoreShared (logging willing_env) shared_ctx ((), []))) =
     map (link_release_command demo_host ''/srv/r/7'') [''env'', ''media/'', ''log'']"
proof -
  let ?run = "CoreShared (logging willing_env) shared_ctx ((), [])"
  have "fst ?run = None" by code_simp
  then have run: "?run = (None, (fst (snd ?run), snd (snd ?run)))" by (metis prod.collapse)
  have linked: "linked_entries shared_ctx = [''env'', ''media/'', ''log'']" by code_simp
  from CoreShared_links_each_once [OF run] show ?thesis
    unfolding linked by (auto simp: shared_ctx_def demo_ctx_def releasePathOf_def)
qed

text \<open>
  Permissions are never guessed.  The step that makes a release writable runs a command only
  when the release has a path and the mode is one it knows; a mode that names an owner runs
  nothing until the owner is configured.  Every command it does run is that of the mode, on a
  path below the release.
\<close>

theorem CoreWritable_never_guesses:
  assumes "CoreWritable (logging env) sc (w, []) = (err, (w', log))" and "log \<noteq> []"
    and "mode = or_default (settingsString (opt_Settings (sc_Opts sc)) ''writable_mode'') writableModeChmod"
  shows "releasePathOf sc \<noteq> [] \<and>
    mode \<in> set [writableModeChmod, writableModeChown, writableModeChmodChown, writableModeACL] \<and>
    (mode = writableModeChmod \<or> settingsString (opt_Settings (sc_Opts sc)) ''owner'' \<noteq> []) \<and>
    (\<forall>cmd \<in> set log. \<exists>entry bits. bits \<noteq> [] \<and>
       cmd = writable_command mode (settingsString (opt_Settings (sc_Opts sc)) ''owner'') bits
         (releasePathOf sc @ ''/'' @ entry))"
proof -
  let ?settings = "opt_Settings (sc_Opts sc)"
  let ?bits = "or_default (settingsString ?settings ''writable_permissions'') defaultWritablePermissions"
  let ?entries = "if settingsStringList ?settings [''writable_dirs''] = [] then [''.'']
    else settingsStringList ?settings [''writable_dirs'']"
  let ?command = "\<lambda>entry. writable_command mode (settingsString ?settings ''owner'') ?bits (releasePathOf sc @ ''/'' @ entry)"
  have guards: "releasePathOf sc \<noteq> []"
    "mode \<in> set [writableModeChmod, writableModeChown, writableModeChmodChown, writableModeACL]"
    "mode = writableModeChmod \<or> settingsString ?settings ''owner'' \<noteq> []"
    and run: "apply_mode (logging env) sc ?command ?entries (w, []) = (err, (w', log))"
    using assms by (simp_all add: CoreWritable_def Let_def split: if_split_asm)
  have "?bits \<noteq> []" by (simp add: or_default_def defaultWritablePermissions_def)
  moreover from apply_mode_log [OF run] obtain k where "log = map ?command (take k ?entries)" by auto
  ultimately show ?thesis using guards by fastforce
qed

definition owned_ctx :: step_ctx where
  "owned_ctx = demo_ctx\<lparr>sc_Release := Some (demo_release\<lparr>rel_Path := ''/srv/r/7''\<rparr>),
     sc_Opts := demo_options\<lparr>opt_Settings :=
       [(''writable_mode'', SStr ''chown''), (''owner'', SStr ''www''), (''writable_dirs'', SStrs [''var'', ''media''])]\<rparr>\<rparr>"

theorem CoreWritable_never_guesses_witness:
  "\<exists>cmd. cmd \<in> set (snd (snd (CoreWritable (logging willing_env) owned_ctx ((), [])))) \<and>
     (\<exists>entry bits. cmd = writable_command writableModeChown ''www'' bits (''/srv/r/7/'' @ entry))"
proof -
  let ?run = "CoreWritable (logging willing_env) owned_ctx ((), [])"
  have run: "?run = (fst ?run, (fst (snd ?run), snd (snd ?run)))" by (metis prod.collapse)
  have some: "snd (snd ?run) \<noteq> []" by code_simp
  have mode: "writableModeChown =
      or_default (settingsString (opt_Settings (sc_Opts owned_ctx)) ''writable_mode'') writableModeChmod"
    by code_simp
  have owner: "settingsString (opt_Settings (sc_Opts owned_ctx)) ''owner'' = ''www''" by code_simp
  have path: "releasePathOf owned_ctx = ''/srv/r/7''" by (simp add: owned_ctx_def releasePathOf_def)
  from CoreWritable_never_guesses [OF run some mode] show ?thesis
    unfolding owner path using hd_in_set [OF some] by fastforce
qed

end
