(* ===== verification/Verify.thy ===== *)
theory Verify
  imports Publish
begin

text \<open>
  The checks after the activation (\<open>tasks_verify.go\<close>): the live revision, the copies of an
  in-place target, the shared links, the recipe's own checks and the HTTP answer, and the
  verification record they leave.
\<close>

section \<open>Text of a report\<close>

definition contains :: "string \<Rightarrow> string \<Rightarrow> bool" where
  "contains s sub = list_ex (\<lambda>t. has_prefix t sub) (suffixes s)"

definition newline :: string where "newline = [CHR 0x0A]"

definition trim_newlines :: "string \<Rightarrow> string" where
  "trim_newlines s = rev (dropWhile (\<lambda>c. c = CHR 0x0A) (rev s))"

definition hex_digit :: "nat \<Rightarrow> char" where
  "hex_digit n = ''0123456789abcdef'' ! n"

text \<open>
  A byte inside the quotes of \<open>%q\<close>.  A byte outside ASCII is kept, as it is when it belongs to a
  printable character.
\<close>

definition quote_char :: "char \<Rightarrow> string" where
  "quote_char c =
     (let n = of_char c :: nat in
      if c = dq \<or> c = CHR 0x5C then [CHR 0x5C, c]
      else if n = 7 then [CHR 0x5C, CHR ''a''] else if n = 8 then [CHR 0x5C, CHR ''b'']
      else if n = 9 then [CHR 0x5C, CHR ''t''] else if n = 10 then [CHR 0x5C, CHR ''n'']
      else if n = 11 then [CHR 0x5C, CHR ''v''] else if n = 12 then [CHR 0x5C, CHR ''f'']
      else if n = 13 then [CHR 0x5C, CHR ''r'']
      else if n < 32 \<or> n = 127 then [CHR 0x5C, CHR ''x'', hex_digit (n div 16), hex_digit (n mod 16)]
      else [c])"

definition go_quote :: "string \<Rightarrow> string" where
  "go_quote s = [dq] @ concat (map quote_char s) @ [dq]"

definition cappedLines :: "string list \<Rightarrow> string list" where
  "cappedLines lines = (if 5 < length lines then take 5 lines @ [''...''] else lines)"

section \<open>The HTTP check\<close>

record verify_policy =
  FollowRedirects :: bool
  RejectPaths :: "string list"

definition same_host :: "string \<Rightarrow> redirect_check" where
  "same_host parsedHost requestHost requestURL via =
     (if requestHost \<noteq> parsedHost then
        RefuseRedirect (Errorf ''refusing to follow a redirect off %s to %s'' [parsedHost, requestURL])
      else if 10 \<le> via then RefuseRedirect (Errorf ''stopped after 10 redirects'' [])
      else FollowRedirect)"

definition first_answer :: redirect_check where
  "first_answer requestHost requestURL via = UseLastResponse"

definition redirect_hint :: string where
  "redirect_hint = '': the verify URL must name the page that serves the site, or set deploy.verify.follow_redirects: true to follow same-host redirects''"

fun rejected :: "string \<Rightarrow> string option \<Rightarrow> string list \<Rightarrow> go_error option" where
  "rejected url landed [] = None"
| "rejected url landed (reject # rejects) =
     (case landed of
        None \<Rightarrow> rejected url landed rejects
      | Some p \<Rightarrow>
          if reject \<noteq> [] \<and> has_prefix p reject then
            Some (Errorf ''%s landed on %s, which never means the site is serving the release'' [url, p])
          else rejected url landed rejects)"

definition judge_response :: "string \<Rightarrow> string list \<Rightarrow> http_response \<Rightarrow> go_error option" where
  "judge_response url rejects response =
     (let status = resp_Status response in
      if 300 \<le> status \<and> status < 400 then
        (if resp_Location response \<noteq> [] then
           Some (Wrapf (''%w: %s answered HTTP %d to %s'' @ redirect_hint)
             [url, itoa status, resp_Location response] (Sentinel ErrVerifyRedirect))
         else Some (Wrapf (''%w: %s answered HTTP %d'' @ redirect_hint) [url, itoa status] (Sentinel ErrVerifyRedirect)))
      else if status < 200 \<or> 300 \<le> status then Some (Errorf ''%s returned HTTP %d'' [url, itoa status])
      else rejected url (resp_Path response) rejects)"

definition VerifyURL :: "'w machine \<Rightarrow> string \<Rightarrow> int \<Rightarrow> verify_policy \<Rightarrow> 'w \<Rightarrow> go_error option \<times> 'w" where
  "VerifyURL m url timeout policy w =
     (let timeout = (if timeout \<le> 0 then DefaultVerifyTimeout else timeout) in
      case (if FollowRedirects policy then map_sum id same_host (m_URLHost m url) else Inr first_answer) of
        Inl err \<Rightarrow> (Some (Wrapf ''parse %s: %w'' [url] err), w)
      | Inr check \<Rightarrow>
          (case m_NewRequest m url of
             Some err \<Rightarrow> (Some (Wrapf ''build request for %s: %w'' [url] err), w)
           | None \<Rightarrow>
               (case m_Get m check timeout url w of
                  (Inl err, w) \<Rightarrow> (Some (Wrapf ''request %s: %w'' [url] err), w)
                | (Inr response, w) \<Rightarrow> (judge_response url (RejectPaths policy) response, w))))"

section \<open>The verification of a release\<close>

text \<open>A check of the verification: its error, and the results so far with its own.\<close>

type_synonym verdict = "go_error option \<times> check_result list"

definition verify_error :: "string \<Rightarrow> string \<Rightarrow> go_error option \<Rightarrow> go_error" where
  "verify_error cid detail cause =
     (case cause of
        None \<Rightarrow> Errorf ''verify %s: %s'' [cid, detail]
      | Some err \<Rightarrow> Wrapf ''verify %s: %s: %w'' [cid, detail] err)"

definition failed :: "string \<Rightarrow> string \<Rightarrow> go_error option \<Rightarrow> check_result list \<Rightarrow> verdict" where
  "failed cid detail cause checks =
     (Some (verify_error cid detail cause),
      checks @ [\<lparr>chk_ID = cid, chk_Status = ''failed'', chk_Detail = detail\<rparr>])"

definition passed :: "string \<Rightarrow> string \<Rightarrow> check_result list \<Rightarrow> check_result list" where
  "passed cid detail checks = checks @ [\<lparr>chk_ID = cid, chk_Status = ''ok'', chk_Detail = detail\<rparr>]"

definition resolve_command :: "string \<Rightarrow> string \<Rightarrow> string" where
  "resolve_command current releasePath =
     ''printf '' @ [sq] @ ''%s'' @ newline @ ''%s'' @ newline @ [sq] @ '' '' @
     [dq] @ ''$(readlink -f '' @ Shell current @ '')'' @ [dq] @ '' '' @
     [dq] @ ''$(readlink -f '' @ Shell releasePath @ '')'' @ [dq]"

definition verify_symlink :: "'w env \<Rightarrow> step_ctx \<Rightarrow> release \<Rightarrow> check_result list \<Rightarrow> 'w \<Rightarrow> verdict \<times> 'w" where
  "verify_symlink env sc rel checks w =
     (case e_Run env (short_opts (sc_Live sc)) (resolve_command (h_CurrentPath (sc_Host sc)) (rel_Path rel)) w of
        ((_, Some err), w) \<Rightarrow> (failed ''revision'' ''current symlink is unreadable'' (Some err) checks, w)
      | ((result, None), w) \<Rightarrow>
          (let unresolved = failed ''revision''
             (''the release path cannot be resolved on the target: '' @ trim_space (Stdout result)) None checks
           in case split_on CHR 0x0A (trim_newlines (Stdout result)) of
             [live, want] \<Rightarrow>
               if trim_space want = [] then (unresolved, w)
               else if trim_space live \<noteq> trim_space want then
                 (failed ''revision'' (''current resolves to '' @ go_quote (trim_space live) @ '', want '' @
                    go_quote (trim_space want)) None checks, w)
               else ((None, passed ''revision'' ''current resolves to the release'' checks), w)
           | _ \<Rightarrow> (unresolved, w)))"

text \<open>The lines of a dry run: differences and deletions.\<close>

definition report_lines :: "string \<Rightarrow> string list" where
  "report_lines out =
     filter (\<lambda>line. line \<noteq> [] \<and> \<not> has_prefix line ''.'')
       (map trim_space (split_on CHR 0x0A (trim_space out)))"

definition is_deletion :: "string \<Rightarrow> bool" where
  "is_deletion line = contains line ''*deleting''"

definition compare_command :: "step_ctx \<Rightarrow> release \<Rightarrow> string list \<Rightarrow> string \<Rightarrow> string" where
  "compare_command sc rel shared entry =
     ''rsync -a --delete --dry-run --itemize-changes --checksum'' @
     concat (map (\<lambda>inside. '' --exclude='' @ Shell (''/'' @ inside)) (sharedInside entry shared)) @
     '' '' @ Shell (path_join [rel_Path rel, entry] @ ''/'') @ '' '' @
     Shell (path_join [h_CurrentPath (sc_Host sc), entry] @ ''/'')"

definition judge_report :: "string \<Rightarrow> string \<Rightarrow> check_result list \<Rightarrow> verdict" where
  "judge_report entry out checks =
     (let differences = filter (\<lambda>line. \<not> is_deletion line) (report_lines out);
          deletions = filter is_deletion (report_lines out) in
      if differences \<noteq> [] then
        failed (''sync:'' @ entry) (''the docroot'' @ [sq] @ ''s '' @ entry @ '' differs from the release:'' @ newline @
          join newline (cappedLines differences)) None checks
      else if deletions \<noteq> [] then
        (None, passed (''sync:'' @ entry) (''the docroot matches the release; it also holds '' @
          itoa (int (length deletions)) @ '' path(s) the release does not, which the next activation removes:'' @
          newline @ join newline (cappedLines deletions)) checks)
      else (None, passed (''sync:'' @ entry) ''the docroot matches the release'' checks))"

fun verify_sync ::
  "'w env \<Rightarrow> step_ctx \<Rightarrow> release \<Rightarrow> string list \<Rightarrow> string list \<Rightarrow> check_result list \<Rightarrow> 'w \<Rightarrow> verdict \<times> 'w" where
  "verify_sync env sc rel shared [] checks w = ((None, checks), w)"
| "verify_sync env sc rel shared (entry # entries) checks w =
     (case step_exec env sc (''test -e '' @ Shell (path_join [rel_Path rel, entry])) w of
        (Some _, w) \<Rightarrow> verify_sync env sc rel shared entries checks w
      | (None, w) \<Rightarrow>
          if sharedCovering entry shared \<noteq> None then verify_sync env sc rel shared entries checks w
          else (case e_Run env \<lparr>Timeout = opt_CommandTimeout (sc_Opts sc), Stdin = [], Streamed = sc_Live sc\<rparr>
              (compare_command sc rel shared entry) w of
            ((_, Some err), w) \<Rightarrow>
              (failed (''sync:'' @ entry) ''the docroot cannot be compared with the release'' (Some err) checks, w)
          | ((result, None), w) \<Rightarrow>
              (case judge_report entry (Stdout result) checks of
                 (Some err, checks) \<Rightarrow> ((Some err, checks), w)
               | (None, checks) \<Rightarrow> verify_sync env sc rel shared entries checks w)))"

definition verifyInPlaceSync :: "'w env \<Rightarrow> step_ctx \<Rightarrow> release \<Rightarrow> check_result list \<Rightarrow> 'w \<Rightarrow> verdict \<times> 'w" where
  "verifyInPlaceSync env sc rel checks w =
     verify_sync env sc rel (shared_entries sc)
       (settingsStringList (opt_Settings (sc_Opts sc)) [''sync_paths'']) checks w"

definition verify_in_place :: "'w env \<Rightarrow> step_ctx \<Rightarrow> release \<Rightarrow> check_result list \<Rightarrow> 'w \<Rightarrow> verdict \<times> 'w" where
  "verify_in_place env sc rel checks w =
     (case e_Run env (short_opts (sc_Live sc)) (''git -C '' @ Shell (h_CurrentPath (sc_Host sc)) @ '' rev-parse HEAD'') w of
        ((_, Some err), w) \<Rightarrow> (failed ''revision'' ''docroot HEAD is unreadable'' (Some err) checks, w)
      | ((result, None), w) \<Rightarrow>
          if trim_space (Stdout result) \<noteq> rel_Revision rel then
            (failed ''revision'' (''docroot HEAD is '' @ go_quote (trim_space (Stdout result)) @ '', want '' @
               go_quote (rel_Revision rel)) None checks, w)
          else verifyInPlaceSync env sc rel (passed ''revision'' ''docroot HEAD matches the deployed revision'' checks) w)"

definition verify_revision :: "'w env \<Rightarrow> step_ctx \<Rightarrow> release \<Rightarrow> check_result list \<Rightarrow> 'w \<Rightarrow> verdict \<times> 'w" where
  "verify_revision env sc rel checks w =
     (let strategy = pub_Strategy (rel_Publish rel) in
      if strategy = PublishSymlink then verify_symlink env sc rel checks w
      else if strategy = PublishInPlace then verify_in_place env sc rel checks w
      else (failed ''revision'' (''the release record names publish strategy '' @ go_quote strategy @
        '', so the live revision cannot be checked'') None checks, w))"

fun verify_shared_files ::
  "'w env \<Rightarrow> step_ctx \<Rightarrow> string list \<Rightarrow> check_result list \<Rightarrow> 'w \<Rightarrow> verdict \<times> 'w" where
  "verify_shared_files env sc [] checks w = ((None, checks), w)"
| "verify_shared_files env sc (entry # entries) checks w =
     (let h = sc_Host sc in
      case step_exec env sc (''if [ -e '' @ Shell (path_join [SharedPath h, entry]) @ '' ]; then test -r '' @
        Shell (path_join [h_CurrentPath h, entry]) @ ''; fi'') w of
        (Some _, w) \<Rightarrow>
          (failed (''shared:'' @ entry)
             ''the shared file exists on the target but is missing or unreadable where the site reads it'' None checks, w)
      | (None, w) \<Rightarrow>
          verify_shared_files env sc entries (passed (''shared:'' @ entry) ''linked and readable'' checks) w)"

fun verify_shared_dirs ::
  "'w env \<Rightarrow> step_ctx \<Rightarrow> release \<Rightarrow> string list \<Rightarrow> string list \<Rightarrow> check_result list \<Rightarrow> 'w \<Rightarrow> verdict \<times> 'w" where
  "verify_shared_dirs env sc rel dirs [] checks w = ((None, checks), w)"
| "verify_shared_dirs env sc rel dirs (entry # entries) checks w =
     (case nestedInSharedDir entry dirs of
        Some parent \<Rightarrow>
          verify_shared_dirs env sc rel dirs entries
            (passed (''shared:'' @ entry) (''reached through shared '' @ parent) checks) w
      | None \<Rightarrow>
          (let inRelease = Shell (path_join [rel_Path rel, entry]) in
           case step_exec env sc (''if [ -e '' @ Shell (path_join [SharedPath (sc_Host sc), entry]) @ '' ]; then test -L '' @
             inRelease @ '' && test -e '' @ inRelease @ ''; fi'') w of
             (Some _, w) \<Rightarrow>
               (failed (''shared:'' @ entry)
                  ''the shared directory exists on the target but the release does not read it through a link'' None checks, w)
           | (None, w) \<Rightarrow>
               verify_shared_dirs env sc rel dirs entries
                 (passed (''shared:'' @ entry) ''linked from shared/'' checks) w))"

text \<open>A recipe's check applies to this release.\<close>

definition applies :: "release \<Rightarrow> check \<Rightarrow> bool" where
  "applies rel c \<longleftrightarrow> trim_space (check_Command c) \<noteq> [] \<and>
     (check_OnlyForPublishStrategy c = [] \<or> check_OnlyForPublishStrategy c = pub_Strategy (rel_Publish rel))"

fun verify_checks ::
  "'w env \<Rightarrow> step_ctx \<Rightarrow> release \<Rightarrow> check list \<Rightarrow> check_result list \<Rightarrow> 'w \<Rightarrow> verdict \<times> 'w" where
  "verify_checks env sc rel [] checks w = ((None, checks), w)"
| "verify_checks env sc rel (c # cs) checks w =
     (if \<not> applies rel c then verify_checks env sc rel cs checks w
      else case Expand (sc_Vars sc) (check_Command c) of
        Inl err \<Rightarrow> (failed (check_ID c) ''expand the check command'' (Some err) checks, w)
      | Inr command \<Rightarrow>
          (let configured = opt_CommandTimeout (sc_Opts sc);
               timeout = (if configured \<le> 0 then DefaultCommandTimeout else configured) in
           case e_Run env \<lparr>Timeout = timeout, Stdin = [], Streamed = sc_Live sc\<rparr> command w of
             ((_, Some err), w) \<Rightarrow> (failed (check_ID c) (check_Title c) (Some err) checks, w)
           | ((_, None), w) \<Rightarrow> verify_checks env sc rel cs (passed (check_ID c) (check_Title c) checks) w))"

definition verify_policy_of :: "options \<Rightarrow> verify_policy" where
  "verify_policy_of opts =
     \<lparr>FollowRedirects = opt_VerifyFollowRedirects opts, RejectPaths = opt_VerifyRejectPaths opts\<rparr>"

definition verify_http :: "'w env \<Rightarrow> step_ctx \<Rightarrow> check_result list \<Rightarrow> 'w \<Rightarrow> verdict \<times> 'w" where
  "verify_http env sc checks w =
     (let url = trim_space (opt_VerifyURL (sc_Opts sc)) in
      if url = [] then ((None, checks), w)
      else case VerifyURL (e_Machine env) url (opt_VerifyTimeout (sc_Opts sc)) (verify_policy_of (sc_Opts sc)) w of
        (Some err, w) \<Rightarrow> (failed ''http'' ''the verify URL did not answer 2xx'' (Some err) checks, w)
      | (None, w) \<Rightarrow> ((None, passed ''http'' (url @ '' is serving'') checks), w))"

text \<open>One part of the verification after another, until one fails.\<close>

fun verify_parts :: "(check_result list \<Rightarrow> 'w \<Rightarrow> verdict \<times> 'w) list \<Rightarrow> check_result list \<Rightarrow> 'w \<Rightarrow> verdict \<times> 'w" where
  "verify_parts [] checks w = ((None, checks), w)"
| "verify_parts (part # parts) checks w =
     (case part checks w of
        ((Some err, checks), w) \<Rightarrow> ((Some err, checks), w)
      | ((None, checks), w) \<Rightarrow> verify_parts parts checks w)"

definition verify_release :: "'w env \<Rightarrow> step_ctx \<Rightarrow> release \<Rightarrow> 'w \<Rightarrow> verdict \<times> 'w" where
  "verify_release env sc rel w =
     (let files = settingsStringList (opt_Settings (sc_Opts sc)) [''shared_files''];
          dirs = settingsStringList (opt_Settings (sc_Opts sc)) [''shared_dirs'']
      in verify_parts
           [verify_revision env sc rel, verify_shared_files env sc files, verify_shared_dirs env sc rel dirs dirs,
            verify_checks env sc rel (sc_Checks sc), verify_http env sc] [] w)"

definition CoreVerify :: "'w task_func" where
  "CoreVerify env sc w =
     (if \<not> opt_Verify (sc_Opts sc) then ((None, sc_Release sc), w)
      else case sc_Release sc of
        None \<Rightarrow> ((Some (Errorf ''no release record to verify'' []), None), w)
      | Some rel \<Rightarrow>
          (case verify_release env sc rel w of
             ((err, checks), w) \<Rightarrow>
               ((err, Some (rel\<lparr>rel_Verify :=
                  \<lparr>ver_Status = (if err = None then ''ok'' else ''failed''), ver_Checks = checks\<rparr>\<rparr>)), w)))"

section \<open>The contract of a part\<close>

definition succeeded :: "check_result \<Rightarrow> bool" where
  "succeeded c \<longleftrightarrow> chk_Status c = ''ok''"

text \<open>
  What a part leaves: the results it was given, then results that succeeded and, when it failed,
  one that did not, which is the last and which the error names.
\<close>

definition reported :: "check_result list \<Rightarrow> verdict \<Rightarrow> bool" where
  "reported checks v \<longleftrightarrow>
     (\<exists>oks. list_all succeeded oks \<and>
        (case fst v of None \<Rightarrow> snd v = checks @ oks
         | Some err \<Rightarrow> \<exists>bad cause. chk_Status bad = ''failed'' \<and> snd v = checks @ oks @ [bad] \<and>
             err = verify_error (chk_ID bad) (chk_Detail bad) cause))"

named_theorems report_intros

lemma reported_same [report_intros]: "reported checks (None, checks)"
  by (simp add: reported_def)

lemma reported_failed [report_intros]: "reported checks (failed cid detail cause checks)"
  unfolding reported_def failed_def by (intro exI [of _ "[]"]) auto

lemma reported_trans:
  assumes "reported checks (None, later)" and "reported later v"
  shows "reported checks v"
proof -
  obtain oks where "list_all succeeded oks" "later = checks @ oks" using assms(1) by (auto simp: reported_def)
  moreover obtain oks' where "list_all succeeded oks'"
    "case fst v of None \<Rightarrow> snd v = later @ oks'
     | Some err \<Rightarrow> \<exists>bad cause. chk_Status bad = ''failed'' \<and> snd v = later @ oks' @ [bad] \<and>
         err = verify_error (chk_ID bad) (chk_Detail bad) cause"
    using assms(2) by (auto simp: reported_def)
  ultimately show ?thesis unfolding reported_def
    by (intro exI [of _ "oks @ oks'"]) (auto split: option.splits)
qed

lemma reported_passed [report_intros]: "reported checks (None, passed cid detail checks)"
  unfolding reported_def passed_def
  by (intro exI [of _ "[\<lparr>chk_ID = cid, chk_Status = ''ok'', chk_Detail = detail\<rparr>]"]) (simp add: succeeded_def)

lemma reported_after_pass:
  "reported (passed cid detail checks) v \<Longrightarrow> reported checks v"
  by (rule reported_trans [OF reported_passed])

locale check_part =
  fixes part :: "check_result list \<Rightarrow> 'w \<Rightarrow> verdict \<times> 'w"
  assumes reports: "reported checks (fst (part checks w))"
begin

lemma success_extends:
  "part checks w = ((None, checks'), w') \<Longrightarrow> \<exists>oks. checks' = checks @ oks \<and> list_all succeeded oks"
  using reports [of checks w] by (auto simp: reported_def)

lemma failure_is_last:
  "part checks w = ((Some err, checks'), w') \<Longrightarrow>
   \<exists>oks bad cause. checks' = checks @ oks @ [bad] \<and> list_all succeeded oks \<and>
     chk_Status bad = ''failed'' \<and> err = verify_error (chk_ID bad) (chk_Detail bad) cause"
  using reports [of checks w] by (auto simp: reported_def)

end

lemma check_part_parts:
  assumes "\<forall>part \<in> set parts. check_part part"
  shows "check_part (verify_parts parts)"
proof
  fix checks w
  show "reported checks (fst (verify_parts parts checks w))"
    using assms
  proof (induction parts arbitrary: checks w)
    case Nil
    then show ?case by (simp add: reported_same)
  next
    case (Cons part parts)
    obtain err later w1 where part: "part checks w = ((err, later), w1)" by (metis prod.collapse)
    with Cons.prems have "reported checks (err, later)"
      using check_part.reports [of part checks w] by simp
    with part Cons.IH [of later w1] Cons.prems reported_trans show ?case
      by (cases err) auto
  qed
qed

interpretation http: check_part "verify_http env sc" for env :: "'w env" and sc
proof
  fix checks w
  show "reported checks (fst (verify_http env sc checks w))"
    by (simp add: verify_http_def Let_def report_intros split: prod.split option.split)
qed

lemma reported_checks: "reported checks (fst (verify_checks env sc rel cs checks w))"
proof (induction cs arbitrary: checks w)
  case (Cons c cs)
  show ?case
    using reported_after_pass [OF Cons.IH]
    by (simp add: Cons.IH report_intros Let_def split: prod.split option.split sum.split)
qed (simp add: reported_same)

interpretation checks: check_part "verify_checks env sc rel cs" for env :: "'w env" and sc rel cs
  by unfold_locales (rule reported_checks)

lemma reported_shared_dirs: "reported checks (fst (verify_shared_dirs env sc rel dirs entries checks w))"
proof (induction entries arbitrary: checks w)
  case (Cons entry entries)
  show ?case
    using reported_after_pass [OF Cons.IH]
    by (simp add: report_intros Let_def split: prod.split option.split)
qed (simp add: reported_same)

interpretation dirs: check_part "verify_shared_dirs env sc rel dirs entries" for env :: "'w env" and sc rel dirs entries
  by unfold_locales (rule reported_shared_dirs)

lemma reported_shared_files: "reported checks (fst (verify_shared_files env sc entries checks w))"
proof (induction entries arbitrary: checks w)
  case (Cons entry entries)
  show ?case
    using reported_after_pass [OF Cons.IH]
    by (simp add: report_intros Let_def split: prod.split option.split)
qed (simp add: reported_same)

interpretation files: check_part "verify_shared_files env sc entries" for env :: "'w env" and sc entries
  by unfold_locales (rule reported_shared_files)

lemma reported_report: "reported checks (judge_report entry out checks)"
  by (simp add: judge_report_def Let_def report_intros)

lemma reported_sync: "reported checks (fst (verify_sync env sc rel shared entries checks w))"
proof (induction entries arbitrary: checks w)
  case (Cons entry entries)
  have "reported checks (fst (verify_sync env sc rel shared entries later w1))"
    if "judge_report entry out checks = (None, later)" for out later w1
    using reported_trans [OF _ Cons.IH] reported_report [of checks entry out] that by simp
  moreover have "reported checks (Some err, later)"
    if "judge_report entry out checks = (Some err, later)" for out err later
    using reported_report [of checks entry out] that by simp
  ultimately show ?case
    by (simp add: Cons.IH report_intros split: prod.split option.split)
qed (simp add: reported_same)

lemma reported_revision: "reported checks (fst (verify_revision env sc rel checks w))"
  by (simp add: verify_revision_def verify_symlink_def verify_in_place_def verifyInPlaceSync_def Let_def
      report_intros reported_after_pass [OF reported_sync] split: prod.split option.split list.split)

interpretation revision: check_part "verify_revision env sc rel" for env :: "'w env" and sc rel
  by unfold_locales (rule reported_revision)

interpretation whole: check_part "\<lambda>checks. verify_parts
    [verify_revision env sc rel, verify_shared_files env sc files, verify_shared_dirs env sc rel dirs dirs,
     verify_checks env sc rel (sc_Checks sc), verify_http env sc] checks"
  for env :: "'w env" and sc rel files dirs
  by (rule check_part_parts)
    (simp add: revision.check_part_axioms files.check_part_axioms dirs.check_part_axioms
      checks.check_part_axioms http.check_part_axioms)

section \<open>What a success covered\<close>

lemma passed_ids: "map chk_ID (passed cid detail checks) = map chk_ID checks @ [cid]"
  by (simp add: passed_def)

lemma files_ids:
  "verify_shared_files env sc entries checks w = ((None, checks'), w') \<Longrightarrow>
   map chk_ID checks' = map chk_ID checks @ map ((@) ''shared:'') entries"
proof (induction entries arbitrary: checks w)
  case (Cons entry entries)
  obtain w1 where "verify_shared_files env sc entries (passed (''shared:'' @ entry) ''linked and readable'' checks) w1
      = ((None, checks'), w')"
    using Cons.prems by (auto simp: Let_def failed_def split: prod.splits option.splits)
  from Cons.IH [OF this] show ?case by (simp add: passed_ids)
qed simp

lemma dirs_ids:
  "verify_shared_dirs env sc rel dirs entries checks w = ((None, checks'), w') \<Longrightarrow>
   map chk_ID checks' = map chk_ID checks @ map ((@) ''shared:'') entries"
proof (induction entries arbitrary: checks w)
  case (Cons entry entries)
  obtain detail w1 where
    "verify_shared_dirs env sc rel dirs entries (passed (''shared:'' @ entry) detail checks) w1 = ((None, checks'), w')"
    using Cons.prems by (auto simp: Let_def failed_def split: prod.splits option.splits)
  from Cons.IH [OF this] show ?case by (simp add: passed_ids)
qed simp

lemma checks_ids:
  "verify_checks env sc rel cs checks w = ((None, checks'), w') \<Longrightarrow>
   map chk_ID checks' = map chk_ID checks @ map check_ID (filter (applies rel) cs)"
proof (induction cs arbitrary: checks w)
  case (Cons c cs)
  show ?case
  proof (cases "applies rel c")
    case True
    with Cons.prems obtain w1 where
      "verify_checks env sc rel cs (passed (check_ID c) (check_Title c) checks) w1 = ((None, checks'), w')"
      by (auto simp: Let_def failed_def split: prod.splits option.splits sum.splits)
    from Cons.IH [OF this] True show ?thesis by (simp add: passed_ids)
  next
    case False
    with Cons.prems have "verify_checks env sc rel cs checks w = ((None, checks'), w')" by simp
    from Cons.IH [OF this] False show ?thesis by simp
  qed
qed simp

lemma http_ids:
  "verify_http env sc checks w = ((None, checks'), w') \<Longrightarrow>
   map chk_ID checks' = map chk_ID checks @ (if trim_space (opt_VerifyURL (sc_Opts sc)) = [] then [] else [''http''])"
  by (auto simp: verify_http_def Let_def failed_def passed_ids split: if_splits prod.splits option.splits)

text \<open>The copies that are compared: entries the release may have, that no shared path covers.\<close>

definition compared :: "step_ctx \<Rightarrow> string list" where
  "compared sc = filter (\<lambda>entry. sharedCovering entry (shared_entries sc) = None)
     (settingsStringList (opt_Settings (sc_Opts sc)) [''sync_paths''])"

lemma report_ids:
  "judge_report entry out checks = (None, checks') \<Longrightarrow> map chk_ID checks' = map chk_ID checks @ [''sync:'' @ entry]"
  by (auto simp: judge_report_def Let_def failed_def passed_ids split: if_splits)

lemma sync_ids:
  "verify_sync env sc rel shared entries checks w = ((None, checks'), w') \<Longrightarrow>
   \<exists>made. subseq made (filter (\<lambda>entry. sharedCovering entry shared = None) entries) \<and>
     map chk_ID checks' = map chk_ID checks @ map ((@) ''sync:'') made"
proof (induction entries arbitrary: checks w)
  case Nil
  then show ?case by simp
next
  case (Cons entry entries)
  let ?later = "filter (\<lambda>entry. sharedCovering entry shared = None)"
  show ?case
  proof (cases "\<exists>w1. verify_sync env sc rel shared entries checks w1 = ((None, checks'), w')")
    case True
    with Cons.IH obtain made where "subseq made (?later entries)"
      "map chk_ID checks' = map chk_ID checks @ map ((@) ''sync:'') made" by blast
    then show ?thesis by (intro exI [of _ made]) auto
  next
    case False
    with Cons.prems obtain out later w1 where
      clear: "sharedCovering entry shared = None" and judged: "judge_report entry out checks = (None, later)"
      and rest: "verify_sync env sc rel shared entries later w1 = ((None, checks'), w')"
      by (auto simp: failed_def split: prod.splits option.splits if_splits)
    from Cons.IH [OF rest] obtain made where "subseq made (?later entries)"
      "map chk_ID checks' = map chk_ID later @ map ((@) ''sync:'') made" by blast
    with clear report_ids [OF judged] show ?thesis by (intro exI [of _ "entry # made"]) simp
  qed
qed

lemma revision_ids:
  assumes "verify_revision env sc rel [] w = ((None, checks'), w')"
  shows "\<exists>made. map chk_ID checks' = ''revision'' # map ((@) ''sync:'') made \<and> subseq made (compared sc) \<and>
    (pub_Strategy (rel_Publish rel) = PublishSymlink \<and> made = [] \<or> pub_Strategy (rel_Publish rel) = PublishInPlace)"
proof (cases "pub_Strategy (rel_Publish rel) = PublishSymlink")
  case True
  with assms show ?thesis
    by (auto simp: verify_revision_def verify_symlink_def Let_def failed_def passed_ids
        split: prod.splits option.splits list.splits if_splits)
next
  case False
  with assms have strategy: "pub_Strategy (rel_Publish rel) = PublishInPlace"
    by (auto simp: verify_revision_def Let_def failed_def split: if_splits)
  with False assms obtain detail w1 where
    "verifyInPlaceSync env sc rel (passed ''revision'' detail []) w1 = ((None, checks'), w')"
    by (auto simp: verify_revision_def verify_in_place_def Let_def failed_def
        split: prod.splits option.splits if_splits)
  from sync_ids [OF this [unfolded verifyInPlaceSync_def]] strategy show ?thesis
    by (auto simp: passed_ids compared_def)
qed

lemma verify_parts_success:
  "verify_parts (part # parts) checks w = ((None, checks'), w') \<longleftrightarrow>
   (\<exists>later w1. part checks w = ((None, later), w1) \<and> verify_parts parts later w1 = ((None, checks'), w'))"
  by (auto split: prod.splits option.splits)

section \<open>Properties\<close>

text \<open>
  C17. A release that is reported verified passed everything its settings ask for: the live
  revision first, then copies of an in-place target, every shared file and directory, every
  check of the recipe that applies to the strategy and, with a verify URL, the HTTP answer;
  each left its result in the record, in this order, and each result is a success.
\<close>

theorem CoreVerify_covers_everything:
  assumes "opt_Verify (sc_Opts sc)" and "sc_Release sc = Some rel"
    and "CoreVerify env sc w = ((None, Some rel'), w')"
  shows "ver_Status (rel_Verify rel') = ''ok'' \<and> list_all succeeded (ver_Checks (rel_Verify rel')) \<and>
    (\<exists>copies. map chk_ID (ver_Checks (rel_Verify rel')) =
        ''revision'' # map ((@) ''sync:'') copies @
        map ((@) ''shared:'') (settingsStringList (opt_Settings (sc_Opts sc)) [''shared_files'']) @
        map ((@) ''shared:'') (settingsStringList (opt_Settings (sc_Opts sc)) [''shared_dirs'']) @
        map check_ID (filter (applies rel) (sc_Checks sc)) @
        (if trim_space (opt_VerifyURL (sc_Opts sc)) = [] then [] else [''http'']) \<and>
      subseq copies (compared sc) \<and>
      (pub_Strategy (rel_Publish rel) = PublishSymlink \<and> copies = [] \<or> pub_Strategy (rel_Publish rel) = PublishInPlace))"
proof -
  from assms obtain checks where rel': "rel_Verify rel' = \<lparr>ver_Status = ''ok'', ver_Checks = checks\<rparr>"
    and run: "verify_release env sc rel w = ((None, checks), w')"
    by (auto simp: CoreVerify_def split: prod.splits)
  have oks: "list_all succeeded checks"
    using whole.success_extends [OF run [unfolded verify_release_def Let_def]] by simp
  let ?files = "settingsStringList (opt_Settings (sc_Opts sc)) [''shared_files'']"
    and ?dirs = "settingsStringList (opt_Settings (sc_Opts sc)) [''shared_dirs'']"
  obtain c1 c2 c3 c4 w1 w2 w3 w4 where
    revision: "verify_revision env sc rel [] w = ((None, c1), w1)"
    and files: "verify_shared_files env sc ?files c1 w1 = ((None, c2), w2)"
    and dirs: "verify_shared_dirs env sc rel ?dirs ?dirs c2 w2 = ((None, c3), w3)"
    and own: "verify_checks env sc rel (sc_Checks sc) c3 w3 = ((None, c4), w4)"
    and http: "verify_http env sc c4 w4 = ((None, checks), w')"
    using run by (auto simp: verify_release_def Let_def verify_parts_success simp del: verify_parts.simps(2))
  from revision_ids [OF revision] obtain copies where
    copies: "map chk_ID c1 = ''revision'' # map ((@) ''sync:'') copies" "subseq copies (compared sc)"
      "pub_Strategy (rel_Publish rel) = PublishSymlink \<and> copies = [] \<or> pub_Strategy (rel_Publish rel) = PublishInPlace"
    by metis
  have "map chk_ID checks = (''revision'' # map ((@) ''sync:'') copies) @ map ((@) ''shared:'') ?files @
      map ((@) ''shared:'') ?dirs @ map check_ID (filter (applies rel) (sc_Checks sc)) @
      (if trim_space (opt_VerifyURL (sc_Opts sc)) = [] then [] else [''http''])"
    unfolding http_ids [OF http] checks_ids [OF own] dirs_ids [OF dirs] files_ids [OF files] copies(1)
    by (simp only: append_assoc)
  then have "map chk_ID checks = ''revision'' # map ((@) ''sync:'') copies @ map ((@) ''shared:'') ?files @
      map ((@) ''shared:'') ?dirs @ map check_ID (filter (applies rel) (sc_Checks sc)) @
      (if trim_space (opt_VerifyURL (sc_Opts sc)) = [] then [] else [''http''])"
    by (simp only: append_Cons)
  with copies(2,3) oks show ?thesis unfolding rel' by (intro conjI exI [of _ copies]) simp_all
qed

text \<open>A release behind a symlink with two shared entries and one check of its recipe.\<close>

definition verify_rel :: release where
  "verify_rel = demo_release\<lparr>rel_Path := ''/srv/r/7'', rel_Publish := (rel_Publish demo_release)\<lparr>pub_Strategy := PublishSymlink\<rparr>\<rparr>"

definition verify_ctx :: step_ctx where
  "verify_ctx = demo_ctx\<lparr>sc_Release := Some verify_rel,
     sc_Checks := [\<lparr>check_ID = ''app'', check_Title = ''the application answers'', check_Command = ''bin/app'',
       check_OnlyForPublishStrategy = []\<rparr>],
     sc_Opts := demo_options\<lparr>opt_Verify := True, opt_VerifyURL := [],
       opt_Settings := [(''shared_files'', SStrs [''env'']), (''shared_dirs'', SStrs [''media''])]\<rparr>\<rparr>"

definition resolving_env :: "unit env" where
  "resolving_env = listing_env\<lparr>e_Run :=
     (\<lambda>opts cmd w. ((\<lparr>Stdout = ''/r/7'' @ newline @ ''/r/7'' @ newline, Stderr = [], ExitCode = 0\<rparr>, None), w))\<rparr>"

theorem CoreVerify_covers_everything_witness:
  "\<exists>rel. snd (fst (CoreVerify resolving_env verify_ctx ())) = Some rel \<and>
     map chk_ID (ver_Checks (rel_Verify rel)) = [''revision'', ''shared:env'', ''shared:media'', ''app'']"
proof -
  let ?run = "CoreVerify resolving_env verify_ctx ()"
  have verify: "opt_Verify (sc_Opts verify_ctx)" and rel: "sc_Release verify_ctx = Some verify_rel"
    by (simp_all add: verify_ctx_def)
  have "fst (fst ?run) = None" by code_simp
  moreover have "snd (fst ?run) \<noteq> None" by code_simp
  ultimately obtain rel' where run: "?run = ((None, Some rel'), snd ?run)" by (metis option.exhaust_sel prod.collapse)
  have settings: "settingsStringList (opt_Settings (sc_Opts verify_ctx)) [''shared_files''] = [''env'']"
    "settingsStringList (opt_Settings (sc_Opts verify_ctx)) [''shared_dirs''] = [''media'']"
    "map check_ID (filter (applies verify_rel) (sc_Checks verify_ctx)) = [''app'']"
    "trim_space (opt_VerifyURL (sc_Opts verify_ctx)) = []"
    by code_simp+
  have strategy: "pub_Strategy (rel_Publish verify_rel) \<noteq> PublishInPlace"
    by (simp add: verify_rel_def PublishSymlink_def PublishInPlace_def)
  from CoreVerify_covers_everything [OF verify rel run] run show ?thesis
    unfolding settings using strategy by auto
qed

text \<open>
  A verification that fails says so in the record: the release is marked as failed, its
  results are successes followed by the one failure, and the error names that result and keeps
  what caused it.
\<close>

theorem CoreVerify_records_failure:
  assumes "opt_Verify (sc_Opts sc)" and "sc_Release sc = Some rel"
    and "CoreVerify env sc w = ((Some err, rel'), w')"
  shows "\<exists>oks bad cause.
    rel' = Some (rel\<lparr>rel_Verify := \<lparr>ver_Status = ''failed'', ver_Checks = oks @ [bad]\<rparr>\<rparr>) \<and>
    list_all succeeded oks \<and> chk_Status bad = ''failed'' \<and>
    err = verify_error (chk_ID bad) (chk_Detail bad) cause \<and>
    (\<forall>k. errors_is err k \<longleftrightarrow> (\<exists>e. cause = Some e \<and> errors_is e k))"
proof -
  from assms obtain checks where
    rel': "rel' = Some (rel\<lparr>rel_Verify := \<lparr>ver_Status = ''failed'', ver_Checks = checks\<rparr>\<rparr>)"
    and run: "verify_release env sc rel w = ((Some err, checks), w')"
    by (auto simp: CoreVerify_def split: prod.splits)
  from whole.failure_is_last [OF run [unfolded verify_release_def Let_def]] obtain oks bad cause where
    "checks = oks @ [bad]" "list_all succeeded oks" "chk_Status bad = ''failed''"
    and err: "err = verify_error (chk_ID bad) (chk_Detail bad) cause" by auto
  moreover have "errors_is err k \<longleftrightarrow> (\<exists>e. cause = Some e \<and> errors_is e k)" for k
    unfolding err verify_error_def by (cases cause) simp_all
  ultimately show ?thesis using rel' by metis
qed

text \<open>The same release on a target whose connection drops.\<close>

definition dropping_env :: "unit env" where
  "dropping_env = listing_env\<lparr>e_Run :=
     (\<lambda>opts cmd w. ((\<lparr>Stdout = [], Stderr = [], ExitCode = 0\<rparr>, Some (Sentinel ErrConnectionMayHaveDropped)), w))\<rparr>"

theorem CoreVerify_records_failure_witness:
  "\<exists>err bad rel. CoreVerify dropping_env verify_ctx () = ((Some err, Some rel), ()) \<and>
     ver_Status (rel_Verify rel) = ''failed'' \<and> last (ver_Checks (rel_Verify rel)) = bad \<and> chk_Status bad = ''failed''"
proof -
  let ?run = "CoreVerify dropping_env verify_ctx ()"
  have verify: "opt_Verify (sc_Opts verify_ctx)" and rel: "sc_Release verify_ctx = Some verify_rel"
    by (simp_all add: verify_ctx_def)
  have "fst (fst ?run) \<noteq> None" by code_simp
  then obtain err where run: "?run = ((Some err, snd (fst ?run)), ())"
    by (metis (full_types) old.unit.exhaust option.exhaust_sel prod.collapse)
  from CoreVerify_records_failure [OF verify rel run] run show ?thesis by fastforce
qed

section \<open>Two answers the checks misread\<close>

text \<open>
  With redirects followed, an answer such as 304 that is no redirect to follow still counts as
  one, so the preflight refuses the deploy as if following were off.
\<close>

lemma unfollowed_status_counts_as_redirect:
  "judge_response url rejects \<lparr>resp_Status = 304, resp_Location = [], resp_Path = p\<rparr> = Some e \<Longrightarrow>
   errors_is e ErrVerifyRedirect"
  by (auto simp: judge_response_def)

text \<open>A served file that differs passes when its name carries the mark of a deletion.\<close>

lemma deletion_mark_in_a_name:
  "fst (judge_report ''vendor'' ''>fcst...... a*deleting.php'' []) = None \<and>
   fst (judge_report ''vendor'' ''>fcst...... a.php'' []) \<noteq> None"
  by code_simp

end
