(* ===== verification/Version.thy ===== *)
theory Version
  imports Prelude "HOL-Library.Word"
begin

text \<open>
  Numeric dot versions (\<open>internal/engine/version_compare.go\<close>) and what the preflight reads out
  of a PHP version or constraint with them (\<open>phpSeries\<close> and \<open>composerPHPFloor\<close> of
  \<open>internal/deploy/tasks_prepare.go\<close>).  A component is read into a machine integer of 64 bits,
  which wraps.
\<close>

section \<open>Parsing\<close>

definition digit_of :: "char \<Rightarrow> nat" where
  "digit_of c = of_char c - 48"

text \<open>The value read so far and whether a digit was seen.\<close>

fun scan_digits :: "64 word \<Rightarrow> bool \<Rightarrow> string \<Rightarrow> int option" where
  "scan_digits value seen [] = (if seen then Some (sint value) else None)"
| "scan_digits value seen (c # cs) =
     (if is_digit c then scan_digits (value * 10 + of_nat (digit_of c)) True cs
      else if seen then Some (sint value) else None)"

definition parseLeadingDigits :: "string \<Rightarrow> int option" where
  "parseLeadingDigits segment = scan_digits 0 False segment"

fun parse_segments :: "string list \<Rightarrow> int list option" where
  "parse_segments [] = Some []"
| "parse_segments (segment # segments) =
     (let segment = trim_space segment in
      if segment = [] then None
      else case parseLeadingDigits segment of
        None \<Rightarrow> None
      | Some value \<Rightarrow> map_option ((#) value) (parse_segments segments))"

definition parseNumericDotVersion :: "string \<Rightarrow> int list option" where
  "parseNumericDotVersion raw =
     (let raw = trim_space raw in if raw = [] then None else parse_segments (split_on CHR ''.'' raw))"

section \<open>Comparing\<close>

text \<open>A missing component counts as 0.\<close>

definition component :: "int list \<Rightarrow> nat \<Rightarrow> int" where
  "component parts i = (if i < length parts then parts ! i else 0)"

fun compare_from :: "nat list \<Rightarrow> int list \<Rightarrow> int list \<Rightarrow> int" where
  "compare_from [] left right = 0"
| "compare_from (i # indices) left right =
     (let lv = component left i; rv = component right i in
      if rv < lv then 1 else if lv < rv then -1 else compare_from indices left right)"

definition compare_parts :: "int list \<Rightarrow> int list \<Rightarrow> int" where
  "compare_parts left right = compare_from [0..<max (length left) (length right)] left right"

definition CompareNumericDotVersions :: "string \<Rightarrow> string \<Rightarrow> int option" where
  "CompareNumericDotVersions left right =
     (case parseNumericDotVersion left of
        None \<Rightarrow> None
      | Some leftParts \<Rightarrow>
          (case parseNumericDotVersion right of
             None \<Rightarrow> None
           | Some rightParts \<Rightarrow> Some (compare_parts leftParts rightParts)))"

definition IsNumericDotVersionAtLeast :: "string \<Rightarrow> string \<Rightarrow> bool" where
  "IsNumericDotVersionAtLeast raw minimum =
     (case CompareNumericDotVersions raw minimum of None \<Rightarrow> False | Some comparison \<Rightarrow> 0 \<le> comparison)"

section \<open>PHP versions and constraints\<close>

definition phpSeries :: "string \<Rightarrow> string" where
  "phpSeries version =
     (case split_on CHR ''.'' (trim_space version) of
        major # minor # _ \<Rightarrow> major @ ''.'' @ minor
      | _ \<Rightarrow> trim_space version)"

text \<open>The version a constraint names behind its operator; nothing for an operator that is not read.\<close>

definition named_version :: "string \<Rightarrow> string option" where
  "named_version value =
     (if has_prefix value ''>='' then Some (trim_prefix value ''>='')
      else if has_prefix value ''>'' \<or> has_prefix value ''^'' \<or> has_prefix value ''~'' then Some (drop 1 value)
      else if has_prefix value ''<'' \<or> has_prefix value ''='' \<or> has_prefix value ''!'' then None
      else Some value)"

definition composerPHPFloor :: "string \<Rightarrow> string option" where
  "composerPHPFloor constraint =
     (let value = trim_space constraint in
      if value = [] \<or> contains_any value ''|,'' \<or> length (Fields value) \<noteq> 1 then None
      else case named_version value of
        None \<Rightarrow> None
      | Some value \<Rightarrow>
          (case split_on CHR ''.'' (trim_suffix value ''.*'') of
             major # minor # _ \<Rightarrow>
               (let floor = major @ ''.'' @ minor in
                if CompareNumericDotVersions floor floor = None then None else Some floor)
           | _ \<Rightarrow> None))"

section \<open>Lemmas: what a component reads as\<close>

lemma digits_value_grows: "n \<le> digits_value n ds"
proof (induction ds arbitrary: n)
  case (Cons d ds)
  from Cons.IH [of "10 * n + (of_char d - 48)"] show ?case by simp
qed simp

lemma small_sint:
  assumes "unat w < 2 ^ 63"
  shows "sint (w :: 64 word) = int (unat w)"
proof -
  have "int (unat w) < int (2 ^ 63)" using assms by (simp only: of_nat_less_iff)
  then have "int (unat w) < 2 ^ 63" by (simp only: of_nat_power of_nat_numeral)
  moreover have "- (2 ^ 63) \<le> int (unat w)" by (rule order_trans [of _ 0]) simp_all
  ultimately have "signed_take_bit 63 (int (unat w)) = int (unat w)" by (intro signed_take_bit_int_eq_self)
  then show ?thesis by (simp add: sint_uint)
qed

lemma next_value:
  "10 * unat value + k < 2 ^ 64 \<Longrightarrow> unat (value * 10 + of_nat k :: 64 word) = 10 * unat value + k"
  by (simp add: unat_word_ariths unat_of_nat mod_simps mult.commute)

lemma scan_digits_exact:
  assumes "list_all is_digit ds" and "unat acc = n" and "digits_value n ds < 2 ^ 63" and "ds \<noteq> [] \<or> seen"
    and "case rest of [] \<Rightarrow> True | c # _ \<Rightarrow> \<not> is_digit c"
  shows "scan_digits acc seen (ds @ rest) = Some (int (digits_value n ds))"
  using assms
proof (induction ds arbitrary: acc n seen)
  case Nil
  then show ?case by (cases rest) (simp_all add: small_sint)
next
  case (Cons d ds)
  let ?n = "10 * n + digit_of d"
  have "?n \<le> digits_value ?n ds" by (rule digits_value_grows)
  with Cons.prems(3) have "?n < 2 ^ 63" by (simp add: digit_of_def)
  with Cons.prems(2) next_value [of "acc" "digit_of d"]
  have grown: "unat (acc * 10 + of_nat (digit_of d)) = ?n" by simp
  have "scan_digits (acc * 10 + of_nat (digit_of d)) True (ds @ rest) = Some (int (digits_value ?n ds))"
    using Cons.prems by (intro Cons.IH [OF _ grown]) (simp_all add: digit_of_def)
  with Cons.prems(1) show ?case by (simp add: digit_of_def)
qed

section \<open>Lemmas: the order of versions\<close>

lemma compare_from_cases:
  "compare_from is left right \<in> {-1, 0, 1}"
  by (induction "is" left right rule: compare_from.induct) (auto simp: Let_def)

lemma compare_from_swap: "compare_from is right left = - compare_from is left right"
  by (induction "is" left right rule: compare_from.induct) (auto simp: Let_def)

lemma compare_from_trans:
  "0 \<le> compare_from is a b \<Longrightarrow> 0 \<le> compare_from is b c \<Longrightarrow> 0 \<le> compare_from is a c"
  by (induction "is") (auto simp: Let_def split: if_splits)

lemma compare_from_zero: "compare_from is left right = 0 \<longleftrightarrow> (\<forall>i \<in> set is. component left i = component right i)"
  by (induction "is") (auto simp: Let_def)

text \<open>Components both sides lack do not matter.\<close>

lemma compare_from_append:
  "compare_from (is @ js) left right =
   (if compare_from is left right = 0 then compare_from js left right else compare_from is left right)"
  by (induction "is") (auto simp: Let_def)

lemma compare_parts_upto:
  assumes "length left \<le> n" and "length right \<le> n"
  shows "compare_parts left right = compare_from [0..<n] left right"
proof -
  let ?m = "max (length left) (length right)"
  have "[0..<n] = [0..<?m] @ [?m..<n]" using assms upt_add_eq_append [of 0 ?m "n - ?m"] by simp
  moreover have "compare_from [?m..<n] left right = 0" by (auto simp: compare_from_zero component_def)
  ultimately show ?thesis by (auto simp: compare_parts_def compare_from_append)
qed

lemma compare_parts_trans:
  assumes "0 \<le> compare_parts a b" and "0 \<le> compare_parts b c"
  shows "0 \<le> compare_parts a c"
proof -
  let ?n = "max (length a) (max (length b) (length c))"
  have "compare_parts a b = compare_from [0..<?n] a b" "compare_parts b c = compare_from [0..<?n] b c"
    "compare_parts a c = compare_from [0..<?n] a c"
    by (simp_all add: compare_parts_upto)
  with assms compare_from_trans show ?thesis by metis
qed

lemma compare_parts_swap: "compare_parts b a = - compare_parts a b"
  unfolding compare_parts_def max.commute [of "length b" "length a"] by (rule compare_from_swap)

lemma compare_from_above:
  "(\<forall>i \<in> set is. component right i \<le> component left i) \<Longrightarrow> 0 \<le> compare_from is left right"
  by (induction "is") (auto simp: Let_def)

lemma at_least_parts:
  "IsNumericDotVersionAtLeast a b \<longleftrightarrow>
   (case (parseNumericDotVersion a, parseNumericDotVersion b) of
      (Some p, Some q) \<Rightarrow> 0 \<le> compare_parts p q | _ \<Rightarrow> False)"
  by (simp add: IsNumericDotVersionAtLeast_def CompareNumericDotVersions_def split: option.split)

section \<open>Lemmas: writing and reading a version\<close>

lemma split_on_no_dot: "sep \<notin> set w \<Longrightarrow> split_on sep w = [w]"
  by (induction w) auto

lemma split_on_append: "sep \<notin> set w \<Longrightarrow> split_on sep (w @ sep # s) = w # split_on sep s"
  by (induction w) auto

lemma split_on_join:
  "ws \<noteq> [] \<Longrightarrow> list_all (\<lambda>w. sep \<notin> set w) ws \<Longrightarrow> split_on sep (join [sep] ws) = ws"
  by (induction "[sep]" ws rule: join.induct) (simp_all add: split_on_no_dot split_on_append)

lemma split_on_chars: "w \<in> set (split_on sep s) \<Longrightarrow> set w \<subseteq> set s"
proof (induction s arbitrary: w)
  case (Cons c s)
  then show ?case by (cases "split_on sep s") (fastforce split: if_splits)+
qed simp

lemma digit_not_space: "is_digit c \<Longrightarrow> \<not> is_space c"
  using is_digit_bounds [of c] by (auto simp: is_space_def)

lemma list_all_join:
  "list_all P sep \<Longrightarrow> list_all (list_all P) ws \<Longrightarrow> list_all P (join sep ws)"
  by (induction sep ws rule: join.induct) auto

lemma parse_digits:
  assumes "n < 2 ^ 63"
  shows "parseLeadingDigits (nat_digits n) = Some (int n)"
  using scan_digits_exact [of "nat_digits n" 0 0 False "[]"] assms
  by (simp add: parseLeadingDigits_def digits_value_nat_digits list_all_nat_digits)

lemma digits_no_space: "list_all (\<lambda>c. \<not> is_space c) (nat_digits n)"
  using list_all_nat_digits [of n] by (auto simp: list_all_iff digit_not_space)

lemma digits_no_dot: "CHR ''.'' \<notin> set (nat_digits n)"
  using list_all_nat_digits [of n] by (auto simp: list_all_iff is_digit_def less_eq_char_def)

lemma parse_segments_digits:
  "\<forall>n \<in> set ns. n < 2 ^ 63 \<Longrightarrow> parse_segments (map nat_digits ns) = Some (map int ns)"
  by (induction ns) (simp_all add: Let_def trim_space_id digits_no_space parse_digits)

section \<open>Lemmas: the floor of a constraint\<close>

lemma trim_right_last: "trim_right s \<noteq> [] \<Longrightarrow> \<not> is_space (last (trim_right s))"
  by (simp add: trim_right_def last_rev hd_dropWhile)

lemma trim_space_last: "trim_space s \<noteq> [] \<Longrightarrow> \<not> is_space (last (trim_space s))"
  unfolding trim_space_def by (rule trim_right_last)

lemma trim_space_hd:
  assumes "trim_space s \<noteq> []"
  shows "\<not> is_space (hd (trim_space s))"
proof -
  have suffix: "suffix (dropWhile is_space (rev (trim_left s))) (rev (trim_left s))" by (rule suffix_dropWhile)
  then have "prefix (trim_space s) (trim_left s)" by (simp add: trim_space_def trim_right_def suffix_to_prefix)
  then have "trim_left s \<noteq> []" "hd (trim_space s) = hd (trim_left s)"
    using assms by (auto simp: prefix_def)
  then show ?thesis by (simp add: trim_left_def hd_dropWhile)
qed

lemma Fields_empty: "Fields s = [] \<longleftrightarrow> list_all is_space s"
  by (subst Fields.simps) (auto simp: Let_def list_all_iff)

text \<open>A trimmed text of one field has no space in it.\<close>

lemma single_field:
  assumes "length (Fields (trim_space s)) = 1"
  shows "list_all (\<lambda>c. \<not> is_space c) (trim_space s)"
proof -
  let ?t = "trim_space s" and ?tail = "dropWhile (\<lambda>c. \<not> is_space c) (trim_space s)"
  have t: "?t \<noteq> []" using assms by auto
  then have "dropWhile is_space ?t = ?t" using trim_space_hd [OF t] by (cases ?t) simp_all
  with t assms have "Fields ?tail = []" by (subst (asm) Fields.simps) (simp add: Let_def)
  then have spaces: "list_all is_space ?tail" by (simp add: Fields_empty)
  have "?tail = []"
  proof (rule ccontr)
    assume "?tail \<noteq> []"
    then have "last ?tail = last ?t" by (metis last_appendR takeWhile_dropWhile_id)
    with spaces \<open>?tail \<noteq> []\<close> trim_space_last [OF t] show False by (metis last_in_set list_all_iff)
  qed
  then show ?thesis by (simp add: list_all_iff dropWhile_eq_Nil_conv)
qed

lemma named_version_chars: "named_version s = Some v \<Longrightarrow> set v \<subseteq> set s"
  by (auto simp: named_version_def trim_prefix_def split: if_splits dest: in_set_dropD)

lemma trim_suffix_chars: "set (trim_suffix s p) \<subseteq> set s"
  by (auto simp: trim_suffix_def cut_suffix_def split: option.splits if_splits dest: in_set_takeD)

lemma parse_version_segments:
  "list_all (\<lambda>c. \<not> is_space c) v \<Longrightarrow> v \<noteq> [] \<Longrightarrow>
   parseNumericDotVersion v = parse_segments (split_on CHR ''.'' v)"
  by (simp add: parseNumericDotVersion_def trim_space_id)

lemma floor_parts:
  assumes "composerPHPFloor constraint = Some floor"
    and "named_version (trim_space constraint) = Some version"
    and "parseNumericDotVersion (trim_suffix version ''.*'') = Some parts"
  shows "\<exists>a b ps. parts = a # b # ps \<and> parseNumericDotVersion floor = Some [a, b]"
proof -
  let ?v = "trim_suffix version ''.*''"
  from assms(1,2) obtain major minor rest where
    one: "length (Fields (trim_space constraint)) = 1"
    and segs: "split_on CHR ''.'' ?v = major # minor # rest" and floor: "floor = major @ ''.'' @ minor"
    by (auto simp: composerPHPFloor_def Let_def split: if_splits list.splits)
  have chars: "list_all (\<lambda>c. \<not> is_space c) ?v"
    using single_field [OF one] named_version_chars [OF assms(2)] trim_suffix_chars [of version "''.*''"]
    by (auto simp: list_all_iff)
  have "?v \<noteq> []" using segs by auto
  with assms(3) chars segs have parse: "parse_segments (major # minor # rest) = Some parts"
    by (simp add: parse_version_segments)
  have major: "set major \<subseteq> set ?v" and minor: "set minor \<subseteq> set ?v"
    using split_on_chars [of _ "CHR ''.''" ?v] segs by simp_all
  then have "list_all (\<lambda>c. \<not> is_space c) floor"
    using chars floor by (auto simp: list_all_iff is_space_def)
  moreover have "split_on CHR ''.'' floor = [major, minor]"
    using split_on_join [of "[major, minor]" "CHR ''.''"] split_on_no_sep [of _ "CHR ''.''" ?v] segs floor by simp
  ultimately have "parseNumericDotVersion floor = parse_segments [major, minor]"
    using floor by (simp add: parse_version_segments)
  with parse show ?thesis by (auto simp: Let_def split: if_splits option.splits)
qed

text \<open>A component too large for a machine integer reads as another number, and compares as that.\<close>

lemma large_component_wraps:
  "parseNumericDotVersion ''9223372036854775808'' = Some [- (2 ^ 63)] \<and>
   \<not> IsNumericDotVersionAtLeast ''9223372036854775808'' ''1''"
  by code_simp

section \<open>Properties\<close>

text \<open>
  A version reads back as it was written: the parser gives every component of a dotted
  version exactly, as long as each fits a signed machine integer.
\<close>

theorem version_roundtrip:
  assumes "ns \<noteq> []" and "\<forall>n \<in> set ns. n < 2 ^ 63"
  shows "parseNumericDotVersion (join ''.'' (map nat_digits ns)) = Some (map int ns)"
proof -
  have "list_all (\<lambda>c. \<not> is_space c) (join ''.'' (map nat_digits ns))"
    using digits_no_space by (intro list_all_join) (simp_all add: list_all_iff is_space_def)
  moreover have "split_on CHR ''.'' (join ''.'' (map nat_digits ns)) = map nat_digits ns"
    using assms(1) by (intro split_on_join) (auto simp: list_all_iff digits_no_dot)
  moreover from this have "join ''.'' (map nat_digits ns) \<noteq> []"
    by (metis list.map_disc_iff assms(1) nat_digits_nonempty list.set_intros(1) list.set_map imageE neq_Nil_conv split_on.simps(1) list.inject)
  ultimately show ?thesis using assms(2) by (simp add: parse_version_segments parse_segments_digits)
qed

theorem version_roundtrip_witness: "parseNumericDotVersion ''8.4.12'' = Some [8, 4, 12]"
proof -
  have "join ''.'' (map nat_digits [8, 4, 12]) = ''8.4.12''" by code_simp
  with version_roundtrip [of "[8, 4, 12]"] show ?thesis by simp
qed

text \<open>
  "At least" orders the versions that can be compared: it is reflexive, total and
  transitive on them, and it holds of nothing else.
\<close>

theorem at_least_orders_versions:
  "(IsNumericDotVersionAtLeast a b \<longrightarrow> parseNumericDotVersion a \<noteq> None \<and> parseNumericDotVersion b \<noteq> None) \<and>
   (parseNumericDotVersion a \<noteq> None \<longrightarrow> IsNumericDotVersionAtLeast a a) \<and>
   (parseNumericDotVersion a \<noteq> None \<longrightarrow> parseNumericDotVersion b \<noteq> None \<longrightarrow>
      IsNumericDotVersionAtLeast a b \<or> IsNumericDotVersionAtLeast b a) \<and>
   (IsNumericDotVersionAtLeast a b \<longrightarrow> IsNumericDotVersionAtLeast b c \<longrightarrow> IsNumericDotVersionAtLeast a c)"
proof -
  have total: "0 \<le> compare_parts p q \<or> 0 \<le> compare_parts q p" for p q
    using compare_parts_swap [of q p] by linarith
  have "compare_parts p p = 0" for p by (simp add: compare_parts_def compare_from_zero)
  with total show ?thesis
    using compare_parts_trans by (auto simp: at_least_parts split: option.splits)
qed

lemma at_least_orders_versions_witness:
  "IsNumericDotVersionAtLeast ''8.4'' ''8.2'' \<and> IsNumericDotVersionAtLeast ''8.2'' ''7.4.33'' \<and>
   IsNumericDotVersionAtLeast ''8.4'' ''7.4.33''"
proof -
  have "IsNumericDotVersionAtLeast ''8.4'' ''8.2''" "IsNumericDotVersionAtLeast ''8.2'' ''7.4.33''" by code_simp+
  with at_least_orders_versions [of "''8.4''" "''8.2''" "''7.4.33''"] show ?thesis by blast
qed

text \<open>
  The floor read out of a Composer constraint is never above the version the constraint
  names: a target that satisfies the named version is not reported.
\<close>

theorem composerPHPFloor_never_above:
  assumes "composerPHPFloor constraint = Some floor"
    and "named_version (trim_space constraint) = Some version"
    and "parseNumericDotVersion (trim_suffix version ''.*'') = Some parts" and "\<forall>p \<in> set parts. 0 \<le> p"
  shows "IsNumericDotVersionAtLeast (trim_suffix version ''.*'') floor"
proof -
  obtain a b ps where parts: "parts = a # b # ps" and floor: "parseNumericDotVersion floor = Some [a, b]"
    using floor_parts [OF assms(1-3)] by blast
  have "component [a, b] i \<le> component parts i" for i
    using assms(4) parts by (auto simp: component_def nth_Cons split: nat.split)
  then have "0 \<le> compare_parts parts [a, b]" unfolding compare_parts_def by (intro compare_from_above) blast
  with assms(3) floor show ?thesis by (simp add: IsNumericDotVersionAtLeast_def CompareNumericDotVersions_def)
qed

theorem composerPHPFloor_never_above_witness:
  "composerPHPFloor ''^8.2.7'' = Some ''8.2'' \<and> IsNumericDotVersionAtLeast ''8.2.7'' ''8.2''"
proof -
  have floor: "composerPHPFloor ''^8.2.7'' = Some ''8.2''" by code_simp
  have named: "named_version (trim_space ''^8.2.7'') = Some ''8.2.7''" by code_simp
  have trimmed: "trim_suffix ''8.2.7'' ''.*'' = ''8.2.7''" by code_simp
  have parts: "parseNumericDotVersion (trim_suffix ''8.2.7'' ''.*'') = Some [8, 2, 7]" by code_simp
  from composerPHPFloor_never_above [OF floor named parts] floor show ?thesis unfolding trimmed by simp
qed

end
