(* ===== verification/Preflight.thy ===== *)
theory Preflight
  imports Artifact WorkingCopy Verify Version Query
begin

text \<open>
  The preflight of a deploy (\<open>CoreCheck\<close> of \<open>tasks_prepare.go\<close> and its probes,
  \<open>RefreshSandboxMirror\<close> of \<open>sandbox_lifecycle.go\<close>): what is asked of the target and of the
  project before anything is created.  The lines printed for the operator are not modelled, but
  the question whether one is printed is where it depends on an answer.
\<close>

section \<open>Where the deploy path would be created\<close>

definition quoted :: "string \<Rightarrow> string" where
  "quoted s = [dq] @ s @ [dq]"

definition nearestExistingParentCommand :: "string \<Rightarrow> string" where
  "nearestExistingParentCommand deployPath =
     ''p='' @ Shell deployPath @ ''; while [ -n '' @ quoted ''$p'' @ '' ] && [ ! -e '' @ quoted ''$p'' @
     '' ] && [ '' @ quoted ''$p'' @ '' != '' @ quoted ''/'' @ '' ]; do p=$(dirname '' @ quoted ''$p'' @ ''); done; ''"

text \<open>\<open>filepath.Dir\<close> shortens a path until it is its own parent, which is what ends the walk.\<close>

definition walk_measure :: "string \<Rightarrow> nat" where
  "walk_measure p = (if p = [] then 4 else if p = ''.'' then 2 else 2 * length p + 1)"

lemma join_length: "ws \<noteq> [] \<Longrightarrow> length (join [c] ws) + 1 = sum_list (map length ws) + length ws"
  by (induction "[c]" ws rule: join.induct) auto

lemma split_length: "sum_list (map length (split_on c s)) + length (split_on c s) = length s + 1"
  by (induction s) (auto split: list.split)

lemma split_on_snoc: "split_on c (s @ [c]) = split_on c s @ [[]]"
  by (induction s) (auto split: list.split)

lemma split_ends_empty: "[] \<in> set (split_on c (s @ [c]))"
  by (simp add: split_on_snoc)

lemma clean_segments_bound:
  "sum_list (map length (clean_segments rooted out segs)) + length (clean_segments rooted out segs) \<le>
   sum_list (map length out) + length out + sum_list (map length segs) + length (filter (\<lambda>s. s \<noteq> []) segs)"
proof (induction rooted out segs rule: clean_segments.induct)
  case (1 rooted out)
  then show ?case by (simp add: rev_map [symmetric])
next
  case (2 rooted out seg segs)
  then show ?case by (auto split: list.split)
qed

lemma filter_shorter: "[] \<in> set ws \<Longrightarrow> length (filter (\<lambda>w. w \<noteq> []) ws) < length ws"
  by (rule length_filter_less) auto

lemma path_clean_shrinks:
  "path_clean (s @ ''/'') \<noteq> [] \<and>
   (path_clean (s @ ''/'') \<in> {''.'', ''/''} \<or> length (path_clean (s @ ''/'')) < length (s @ ''/''))"
proof -
  let ?q = "s @ ''/''" and ?segs = "split_on CHR ''/'' (s @ ''/'')"
  let ?body = "clean_segments (has_prefix ?q ''/'') [] ?segs"
  have bound: "sum_list (map length ?body) + length ?body \<le>
      sum_list (map length ?segs) + length (filter (\<lambda>w. w \<noteq> []) ?segs)"
    using clean_segments_bound [of _ "[]" ?segs] by simp
  have fewer: "length (filter (\<lambda>w. w \<noteq> []) ?segs) + (if has_prefix ?q ''/'' then 2 else 1) \<le> length ?segs"
  proof (cases s)
    case Nil
    then show ?thesis by simp
  next
    case (Cons c cs)
    then show ?thesis
      using filter_shorter [OF split_ends_empty [of "CHR ''/''" s]]
        filter_shorter [OF split_ends_empty [of "CHR ''/''" cs]] by auto
  qed
  show ?thesis
  proof (cases "?body = []")
    case True
    then show ?thesis by (auto simp: path_clean_def Let_def)
  next
    case False
    with join_length [OF False, of "CHR ''/''"] bound fewer split_length [of "CHR ''/''" ?q]
    show ?thesis by (auto simp: path_clean_def Let_def)
  qed
qed

lemma walk_shrinks:
  assumes "path_dir p \<noteq> p"
  shows "walk_measure (path_dir p) < walk_measure p"
proof (cases "CHR ''/'' \<in> set p")
  case False
  then have none: "dropWhile (\<lambda>c. c \<noteq> CHR ''/'') (rev p) = []" by (auto simp: dropWhile_eq_Nil_conv)
  have "path_dir p = path_clean []" unfolding path_dir_def none by (simp only: rev.simps)
  moreover have "path_clean [] = ''.''" by code_simp
  ultimately show ?thesis using assms by (cases p) (auto simp: walk_measure_def)
next
  case True
  then obtain s t where p: "p = s @ CHR ''/'' # t" "CHR ''/'' \<notin> set t" using split_list_last by metis
  then have "dropWhile (\<lambda>c. c \<noteq> CHR ''/'') (rev t @ CHR ''/'' # rev s) = CHR ''/'' # rev s"
    by (subst dropWhile_append2) auto
  with p(1) have dir: "path_dir p = path_clean (s @ ''/'')" by (simp add: path_dir_def)
  have short: "length (s @ ''/'') \<le> length p" using p(1) by simp
  have "p \<noteq> []" "p \<noteq> ''.''" using True by auto
  then have measure_p: "walk_measure p = 2 * length p + 1" by (simp add: walk_measure_def)
  from path_clean_shrinks [of s] consider "path_dir p = ''.''" | "path_dir p = ''/''"
    | "path_dir p \<noteq> []" "length (path_dir p) < length p"
    using dir short by fastforce
  then show ?thesis
  proof cases
    case 1
    then show ?thesis using measure_p \<open>p \<noteq> []\<close> by (cases p) (auto simp: walk_measure_def)
  next
    case 2
    with assms True have "2 \<le> length p" by (cases p; cases "tl p") auto
    with 2 measure_p show ?thesis by (simp add: walk_measure_def)
  next
    case 3
    then show ?thesis using measure_p by (simp add: walk_measure_def)
  qed
qed

function nearestExistingDir :: "'w machine \<Rightarrow> string \<Rightarrow> 'w \<Rightarrow> string" where
  "nearestExistingDir m current w =
     (if (case m_Stat m current w of Inr _ \<Rightarrow> True | Inl _ \<Rightarrow> False) then current
      else let parent = path_dir current in if parent = current then current else nearestExistingDir m parent w)"
  by pat_completeness auto
termination by (relation "measure (\<lambda>(m, current, w). walk_measure current)") (auto intro: walk_shrinks)

declare nearestExistingDir.simps [simp del]

text \<open>The command, and the note: nothing, or why the path cannot be judged as it is.\<close>

definition WritabilityProbeCommand :: "'w machine \<Rightarrow> string \<Rightarrow> bool \<Rightarrow> 'w \<Rightarrow> string \<times> string" where
  "WritabilityProbeCommand m deployPath local w =
     (let command = nearestExistingParentCommand deployPath @ ''test -w '' @ quoted ''$p'' in
      if \<not> local then (command, [])
      else case m_Stat m deployPath w of
        Inl _ \<Rightarrow>
          (command, ''the deploy path '' @ deployPath @ '' does not exist yet: writability was probed at '' @
             nearestExistingDir m deployPath w @ '', and the deploy will create the path'' @ newline)
      | Inr isDir \<Rightarrow>
          if \<not> isDir then
            (command, ''the deploy path '' @ deployPath @
               '' exists and is not a directory, so the deploy has nothing to create a release under'' @ newline)
          else (command, []))"

section \<open>The sandbox mirror\<close>

definition SandboxStateDir :: "string \<Rightarrow> string" where
  "SandboxStateDir projectRoot = path_join [projectRoot, ''.govard'', ''sandbox'']"

definition SandboxMirrorPath :: "string \<Rightarrow> string" where
  "SandboxMirrorPath projectRoot = path_join [SandboxStateDir projectRoot, ''repo.git'']"

definition local_exec :: "'w env \<Rightarrow> int \<Rightarrow> string \<Rightarrow> 'w \<Rightarrow> (cmd_result \<times> go_error option) \<times> 'w" where
  "local_exec env timeout cmd w = e_RunLocal env \<lparr>Timeout = timeout, Stdin = [], Streamed = False\<rparr> cmd w"

definition localBranch :: "'w env \<Rightarrow> string \<Rightarrow> 'w \<Rightarrow> string \<times> 'w" where
  "localBranch env repository w =
     (case local_exec env shortCommandTimeout (''git -C '' @ ShellQuote repository @ '' rev-parse --abbrev-ref HEAD'') w of
        ((_, Some _), w) \<Rightarrow> ([], w)
      | ((result, None), w) \<Rightarrow>
          (let branch = trim_space (Stdout result) in (if branch = ''HEAD'' then [] else branch, w)))"

definition point_mirror_head :: "'w env \<Rightarrow> string \<Rightarrow> string \<Rightarrow> 'w \<Rightarrow> go_error option \<times> 'w" where
  "point_mirror_head env repository mirror w =
     (case localBranch env repository w of
        (branch, w) \<Rightarrow>
          if branch = [] then (None, w)
          else (case local_exec env shortCommandTimeout (''git -C '' @ ShellQuote mirror @ '' symbolic-ref HEAD '' @
              ShellQuote (''refs/heads/'' @ branch)) w of
            ((_, Some err), w) \<Rightarrow> (Some (Wrapf ''point the sandbox mirror's HEAD at %s: %w'' [branch] err), w)
          | ((_, None), w) \<Rightarrow> (None, w)))"

definition RefreshSandboxMirror :: "'w env \<Rightarrow> string \<Rightarrow> string \<Rightarrow> 'w \<Rightarrow> go_error option \<times> 'w" where
  "RefreshSandboxMirror env repository mirror w =
     (case local_exec env shortCommandTimeout (''git init --bare -q '' @ ShellQuote mirror) w of
        ((_, Some err), w) \<Rightarrow> (Some (Wrapf ''create the sandbox mirror %s: %w'' [mirror] err), w)
      | ((_, None), w) \<Rightarrow>
          (case local_exec env DefaultCommandTimeout (''git -C '' @ ShellQuote mirror @ '' fetch --prune --quiet '' @
              ShellQuote repository @ '' '' @ ShellQuote ''+refs/heads/*:refs/heads/*'') w of
             ((_, Some err), w) \<Rightarrow> (Some (Wrapf ''refresh the sandbox mirror from %s: %w'' [repository] err), w)
           | ((_, None), w) \<Rightarrow> point_mirror_head env repository mirror w))"

definition checkSandboxMirror :: "'w env \<Rightarrow> step_ctx \<Rightarrow> 'w \<Rightarrow> go_error option \<times> 'w" where
  "checkSandboxMirror env sc w =
     (if \<not> rc_Sandbox (h_Remote (sc_Host sc)) then (None, w)
      else
        let root = (if trim_space (sc_WorkDir sc) = []
              then (case m_Getwd (e_Machine env) w of Inr resolved \<Rightarrow> resolved | Inl _ \<Rightarrow> sc_WorkDir sc)
              else sc_WorkDir sc);
            mirror = SandboxMirrorPath root
        in if trim_space root = [] then
             (Some (Errorf ''cannot locate the project checkout to refresh the sandbox mirror'' []), w)
           else case m_Stat (e_Machine env) mirror w of
             Inl _ \<Rightarrow> (Some (Errorf ''the sandbox mirror %s is missing; run `govard sandbox up` and retry'' [mirror]), w)
           | Inr _ \<Rightarrow> RefreshSandboxMirror env root mirror w)"

section \<open>The repository\<close>

definition qualifyRef :: "string \<Rightarrow> string \<Rightarrow> string" where
  "qualifyRef pre name = (if has_prefix name ''refs/'' then name else pre @ name)"

text \<open>The ref this deploy will fetch; none for a deploy of a bare revision.\<close>

definition checked_ref :: "options \<Rightarrow> string" where
  "checked_ref opts =
     (if trim_space (opt_Tag opts) \<noteq> [] then qualifyRef ''refs/tags/'' (trim_space (opt_Tag opts))
      else if trim_space (opt_Branch opts) \<noteq> [] then qualifyRef ''refs/heads/'' (trim_space (opt_Branch opts))
      else [])"

definition ls_remote_command :: "string \<Rightarrow> string \<Rightarrow> string" where
  "ls_remote_command repository ref =
     ''git ls-remote --exit-code '' @ Shell repository @ (if ref \<noteq> [] then '' '' @ Shell ref else [])"

definition checkRepositoryReachable :: "'w env \<Rightarrow> step_ctx \<Rightarrow> 'w \<Rightarrow> go_error option \<times> 'w" where
  "checkRepositoryReachable env sc w =
     (let repository = deploy_repository sc; ref = checked_ref (sc_Opts sc); name = h_Name (sc_Host sc) in
      if repository = [] then (None, w)
      else case long_exec env sc (ls_remote_command repository ref) w of
        (Some err, w) \<Rightarrow>
          (Some (if ref = [] then
                   Wrapf ''target %s cannot reach %s (deploy key or network): %w'' [name, repository] err
                 else Wrapf ''target %s cannot reach %s %s (deploy key, network, or the ref was never pushed): %w''
                   [name, repository, ref] err), w)
      | (None, w) \<Rightarrow> (None, w))"

section \<open>The atomic rename\<close>

definition ProbeMarker :: string where "ProbeMarker = ''.govard-mvprobe''"
definition deployPathNotADirectoryExit :: int where "deployPathNotADirectoryExit = 65"

definition rename_probe :: "host \<Rightarrow> string" where
  "rename_probe h =
     (let probeDir = path_join [h_DeployPath h, ''.dep'']; v = (\<lambda>name. quoted (CHR ''$'' # name)) in
      nearestExistingParentCommand (h_DeployPath h) @
      ''dp='' @ Shell (h_DeployPath h) @ ''; dep='' @ Shell probeDir @
      ''; link='' @ Shell (path_join [probeDir, ProbeMarker @ ''.link'']) @
      ''; target='' @ Shell (path_join [probeDir, ProbeMarker @ ''.target'']) @
      ''; fresh=0; [ -e '' @ v ''dp'' @ '' ] || fresh=1; '' @
      ''if [ -e '' @ v ''dp'' @ '' ] && [ ! -d '' @ v ''dp'' @ '' ]; then rc='' @ itoa deployPathNotADirectoryExit @ ''; '' @
      ''else mkdir -p '' @ v ''dep'' @ '' && ln -sfn '' @ v ''dep'' @ '' '' @ v ''link'' @ '' && mv -T '' @
      v ''link'' @ '' '' @ v ''target'' @ ''; rc=$?; fi; '' @
      ''rm -f '' @ v ''link'' @ '' '' @ v ''target'' @ ''; rmdir '' @ v ''dep'' @ '' 2>/dev/null || true; '' @
      ''if [ '' @ v ''fresh'' @ '' = 1 ]; then d='' @ v ''dp'' @ ''; '' @
      ''while [ -n '' @ v ''d'' @ '' ] && [ '' @ v ''d'' @ '' != '' @ v ''p'' @ '' ] && [ '' @ v ''d'' @ '' != '' @
      quoted ''/'' @ '' ]; do rmdir '' @ v ''d'' @ '' 2>/dev/null || break; d=$(dirname '' @ v ''d'' @ ''); done; fi; '' @
      ''exit $rc'')"

definition probeAtomicRename :: "'w env \<Rightarrow> step_ctx \<Rightarrow> 'w \<Rightarrow> go_error option \<times> 'w" where
  "probeAtomicRename env sc w =
     (case step_exec env sc (rename_probe (sc_Host sc)) w of
        (Some err, w) \<Rightarrow>
          (Some (if command_exit_code err = Some deployPathNotADirectoryExit then
                   Wrapf ''%w: %s'' [h_DeployPath (sc_Host sc)] (Sentinel ErrDeployPathNotADirectory)
                 else Wrapf ''%w: the symlink swap needs GNU mv (mv -T)'' [] (Sentinel ErrMoveAtomicUnsupported)), w)
      | (None, w) \<Rightarrow> (None, w))"

definition php_words :: "step_ctx \<Rightarrow> string" where
  "php_words sc = CommandWords (opt_Settings (sc_Opts sc)) ''php_bin'' ''php''"

definition cache_probe :: "step_ctx \<Rightarrow> string" where
  "cache_probe sc = php_words sc @ '' -r '' @ [sq] @ ''echo extension_loaded('' @ quoted ''Zend OPcache'' @ '') ? 1 : 0;'' @ [sq]"

text \<open>Whether the operator is warned that the target may keep serving the previous release.\<close>

definition noteSymlinkRuntimeCache :: "'w env \<Rightarrow> step_ctx \<Rightarrow> 'w \<Rightarrow> bool \<times> 'w" where
  "noteSymlinkRuntimeCache env sc w =
     (if settingsString (opt_Settings (sc_Opts sc)) ''runtime_reload_command'' \<noteq> [] then (False, w)
      else case e_Run env (short_opts (sc_Live sc)) (cache_probe sc) w of
        ((result, err), w) \<Rightarrow> (err = None \<and> trim_space (Stdout result) = ''1'', w))"

section \<open>Disk and PHP\<close>

definition disk_command :: "host \<Rightarrow> string" where
  "disk_command h = nearestExistingParentCommand (h_DeployPath h) @ ''df -Pk '' @ quoted ''$p''"

text \<open>The available kilobytes of the last line, where the report has one.\<close>

definition available_kb :: "string \<Rightarrow> int option" where
  "available_kb out =
     (let lines = split_on CHR 0x0A (trim_space out) in
      if length lines < 2 then None
      else let fields = Fields (last lines) in if length fields < 4 then None else atoi (fields ! 3))"

definition checkDiskSpace :: "'w env \<Rightarrow> step_ctx \<Rightarrow> 'w \<Rightarrow> go_error option \<times> 'w" where
  "checkDiskSpace env sc w =
     (case e_Run env (short_opts (sc_Live sc)) (disk_command (sc_Host sc)) w of
        ((_, Some _), w) \<Rightarrow> (None, w)
      | ((result, None), w) \<Rightarrow>
          (case available_kb (Stdout result) of
             None \<Rightarrow> (None, w)
           | Some availableKB \<Rightarrow>
               if availableKB \<le> 0 then
                 (Some (Errorf ''deploy path %s is on a full filesystem'' [h_DeployPath (sc_Host sc)]), w)
               else (None, w)))"

definition php_probe :: "step_ctx \<Rightarrow> string" where
  "php_probe sc = php_words sc @ '' -r '' @ [sq] @ ''echo PHP_VERSION;'' @ [sq]"

definition checkPHPVersion :: "'w env \<Rightarrow> step_ctx \<Rightarrow> 'w \<Rightarrow> go_error option \<times> 'w" where
  "checkPHPVersion env sc w =
     (let settings = opt_Settings (sc_Opts sc); phpBin = settingsString settings ''php_bin'' in
      if phpBin = [] then (None, w)
      else case e_Run env (short_opts (sc_Live sc)) (php_probe sc) w of
        ((_, Some err), w) \<Rightarrow> (Some (Wrapf ''php is not available as %q on the target: %w'' [phpBin] err), w)
      | ((result, None), w) \<Rightarrow>
          (let actual = trim_space (Stdout result); want = settingsString settings ''php_version'' in
           if want \<noteq> [] \<and> \<not> has_prefix actual want then
             (Some (Errorf ''target runs php %s but the project declares %s'' [actual, want]), w)
           else (None, w)))"

definition probeTargetPHP :: "'w env \<Rightarrow> step_ctx \<Rightarrow> 'w \<Rightarrow> (go_error + string) \<times> 'w" where
  "probeTargetPHP env sc w =
     (case e_Run env (short_opts (sc_Live sc)) (php_probe sc) w of
        ((_, Some err), w) \<Rightarrow> (Inl err, w)
      | ((result, None), w) \<Rightarrow> (Inr (trim_space (Stdout result)), w))"

text \<open>The constraint the dependencies were resolved for and the file it stands in.\<close>

definition manifest_requirement :: "'w machine \<Rightarrow> string \<Rightarrow> 'w \<Rightarrow> string \<times> string" where
  "manifest_requirement m workDir w =
     (case m_ReadFile m (path_join [workDir, ''composer.json'']) w of
        Inl _ \<Rightarrow> ([], [])
      | Inr raw \<Rightarrow>
          (case m_RequirePHP m raw of
             None \<Rightarrow> ([], [])
           | Some php \<Rightarrow>
               if trim_space php \<noteq> [] then (trim_space php, ''composer.json require.php'') else ([], [])))"

definition composerPlatformRequirement :: "'w machine \<Rightarrow> string \<Rightarrow> 'w \<Rightarrow> string \<times> string" where
  "composerPlatformRequirement m workDir w =
     (if trim_space workDir = [] then ([], [])
      else case m_ReadFile m (path_join [workDir, ''composer.lock'']) w of
        Inl err \<Rightarrow> if \<not> errors_is err ErrNotExist then ([], []) else manifest_requirement m workDir w
      | Inr raw \<Rightarrow>
          (case m_LockPlatform m raw of
             None \<Rightarrow> manifest_requirement m workDir w
           | Some (php, dev) \<Rightarrow>
               if trim_space php \<noteq> [] then (trim_space php, ''composer.lock platform.php'')
               else if trim_space dev \<noteq> [] then (trim_space dev, ''composer.lock platform-dev.php'')
               else manifest_requirement m workDir w))"

text \<open>The warning: the constraint, its file, the target's version and the floor it is below.\<close>

definition noteComposerPlatform :: "'w env \<Rightarrow> step_ctx \<Rightarrow> 'w \<Rightarrow> (string \<times> string \<times> string \<times> string) option \<times> 'w" where
  "noteComposerPlatform env sc w =
     (case composerPlatformRequirement (e_Machine env) (sc_WorkDir sc) w of
        (constraint, source) \<Rightarrow>
          (case composerPHPFloor constraint of
             None \<Rightarrow> (None, w)
           | Some floor \<Rightarrow>
               (case probeTargetPHP env sc w of
                  (Inl _, w) \<Rightarrow> (None, w)
                | (Inr actual, w) \<Rightarrow>
                    (case CompareNumericDotVersions actual floor of
                       None \<Rightarrow> (None, w)
                     | Some comparison \<Rightarrow>
                         if 0 \<le> comparison then (None, w) else (Some (constraint, source, actual, floor), w)))))"

section \<open>Artifact parity\<close>

definition artifactAlreadyDelivered :: "release option \<Rightarrow> bool" where
  "artifactAlreadyDelivered rel =
     (case rel of
        None \<Rightarrow> False
      | Some r \<Rightarrow> list_ex (\<lambda>t. srec_ID t = TaskArtifact \<and> srec_Status t = StepOK) (rel_Tasks r))"

definition compare_php :: "'w env \<Rightarrow> step_ctx \<Rightarrow> string \<Rightarrow> 'w \<Rightarrow> go_error option \<times> 'w" where
  "compare_php env sc built w =
     (if built = [] then (None, w)
      else case probeTargetPHP env sc w of
        (Inl err, w) \<Rightarrow>
          (Some (Wrapf ''the artifact was built with PHP %s but the target's PHP could not be determined (set settings.php_bin, or deploy with --build=server and build on the target): %w''
             [built] err), w)
      | (Inr actual, w) \<Rightarrow>
          if \<not> has_prefix actual (phpSeries built) then
            (Some (Errorf ''the artifact was built with PHP %s but the target runs PHP %s; rebuild it with `govard deploy build` in an image that matches the target, or deploy with --build=server''
               [built, actual]), w)
          else (None, w))"

definition checkArtifactParity :: "'w env \<Rightarrow> step_ctx \<Rightarrow> 'w \<Rightarrow> go_error option \<times> 'w" where
  "checkArtifactParity env sc w =
     (let opts = sc_Opts sc; artifactDir = trim_space (opt_ArtifactDir opts) in
      if opt_Build opts \<noteq> BuildArtifact then (None, w)
      else if artifactDir = [] then
        (if opt_Resume opts \<and> artifactAlreadyDelivered (sc_Release sc) then None else Some no_artifact_dir, w)
      else case ReadManifest env artifactDir w of
        Inl err \<Rightarrow> (Some err, w)
      | Inr manifest \<Rightarrow>
          (let revision = deployed_revision opts in
           if am_Revision manifest \<noteq> [] \<and> revision \<noteq> [] \<and> am_Revision manifest \<noteq> revision then
             (Some (Errorf ''the artifact at %s was built for revision %s but %s is being deployed; rebuild it or pass --revision %s''
                [artifactDir, am_Revision manifest, revision, am_Revision manifest]), w)
           else compare_php env sc (am_PHPVersion manifest) w))"

section \<open>What the operator is warned of\<close>

text \<open>
  A path that is not copied because a shared one covers it, a shared path inside a copied one,
  or that nothing is copied at all.
\<close>

datatype sync_note = NothingToCopy | NotCopied string string | LeftOut string string

definition sync_notes :: "step_ctx \<Rightarrow> sync_note list" where
  "sync_notes sc =
     (let paths = settingsStringList (opt_Settings (sc_Opts sc)) [''sync_paths''] in
      if paths = [] then [NothingToCopy]
      else concat (map (\<lambda>entry.
        (case sharedCovering entry (shared_entries sc) of Some covering \<Rightarrow> [NotCopied entry covering] | None \<Rightarrow> []) @
        map (LeftOut entry) (sharedInside entry (shared_entries sc))) paths))"

definition noteInPlaceSyncPaths :: "'w env \<Rightarrow> step_ctx \<Rightarrow> 'w \<Rightarrow> sync_note list \<times> 'w" where
  "noteInPlaceSyncPaths env sc w =
     (case ResolvePublishStrategy env (sc_Host sc) (sc_Opts sc) w of
        (Inl _, w) \<Rightarrow> ([], w)
      | (Inr strategy, w) \<Rightarrow> (if strategy \<noteq> PublishInPlace then [] else sync_notes sc, w))"

definition private_url :: "string \<Rightarrow> bool" where
  "private_url url \<longleftrightarrow> url \<noteq> [] \<and> \<not> contains url ''packagist.org'' \<and> \<not> contains url ''packagist.com''"

definition privateComposerRepositories :: "'w machine \<Rightarrow> string \<Rightarrow> 'w \<Rightarrow> go_error + string list" where
  "privateComposerRepositories m workDir w =
     (if trim_space workDir = [] then Inr []
      else case m_ReadFile m (path_join [workDir, ''composer.json'']) w of
        Inl err \<Rightarrow> if errors_is err ErrNotExist then Inr [] else Inl (Wrapf ''read composer.json: %w'' [] err)
      | Inr raw \<Rightarrow>
          (case m_RepositoryURLs m raw of
             None \<Rightarrow> Inr []
           | Some urls \<Rightarrow> Inr (filter private_url (map trim_space urls))))"

definition ComposerAuthEnv :: string where "ComposerAuthEnv = ''COMPOSER_AUTH''"

text \<open>Where the credentials will come from, or that there are none.\<close>

datatype credentials = FromEnvironment | FromShared | FromProject | NoCredentials "string list"

definition auth_test :: "host \<Rightarrow> string" where
  "auth_test h = ''test -f '' @ Shell (path_join [SharedPath h, ''auth.json''])"

definition find_credentials :: "'w env \<Rightarrow> step_ctx \<Rightarrow> string list \<Rightarrow> 'w \<Rightarrow> credentials \<times> 'w" where
  "find_credentials env sc repositories w =
     (if trim_space (e_Getenv env ComposerAuthEnv) \<noteq> [] then (FromEnvironment, w)
      else case step_exec env sc (auth_test (sc_Host sc)) w of
        (None, w) \<Rightarrow> (FromShared, w)
      | (Some _, w) \<Rightarrow>
          (case m_Stat (e_Machine env) (path_join [sc_WorkDir sc, ''auth.json'']) w of
             Inr _ \<Rightarrow> (FromProject, w)
           | Inl _ \<Rightarrow> (NoCredentials repositories, w)))"

definition noteComposerCredentials :: "'w env \<Rightarrow> step_ctx \<Rightarrow> 'w \<Rightarrow> (go_error + credentials option) \<times> 'w" where
  "noteComposerCredentials env sc w =
     (if opt_Build (sc_Opts sc) = BuildArtifact then (Inr None, w)
      else case privateComposerRepositories (e_Machine env) (sc_WorkDir sc) w of
        Inl err \<Rightarrow> (Inl err, w)
      | Inr repositories \<Rightarrow>
          if repositories = [] then (Inr None, w)
          else (case find_credentials env sc repositories w of (note, w) \<Rightarrow> (Inr (Some note), w)))"

section \<open>The preflight\<close>

fun first_error :: "('w \<Rightarrow> go_error option \<times> 'w) list \<Rightarrow> 'w \<Rightarrow> go_error option \<times> 'w" where
  "first_error [] w = (None, w)"
| "first_error (c # cs) w =
     (case c w of (Some err, w) \<Rightarrow> (Some err, w) | (None, w) \<Rightarrow> first_error cs w)"

definition check_reachable :: "'w env \<Rightarrow> step_ctx \<Rightarrow> 'w \<Rightarrow> go_error option \<times> 'w" where
  "check_reachable env sc w =
     (case step_exec env sc ''true'' w of
        (Some err, w) \<Rightarrow>
          (Some (if rc_Sandbox (h_Remote (sc_Host sc)) then
                   Wrapf ''the sandbox container behind remote %q is not running; run `govard sandbox up` and retry: %w''
                     [h_Name (sc_Host sc)] err
                 else Wrapf ''target %s is not reachable: %w'' [h_Name (sc_Host sc)] err), w)
      | (None, w) \<Rightarrow> (None, w))"

definition check_writable :: "'w env \<Rightarrow> step_ctx \<Rightarrow> 'w \<Rightarrow> go_error option \<times> 'w" where
  "check_writable env sc w =
     (let h = sc_Host sc in
      case step_exec env sc (fst (WritabilityProbeCommand (e_Machine env) (h_DeployPath h) (h_Local h) w)) w of
        (Some err, w) \<Rightarrow> (Some (Wrapf ''deploy path %s is not writable: %w'' [h_DeployPath h] err), w)
      | (None, w) \<Rightarrow> (None, w))"

definition check_strategy :: "'w env \<Rightarrow> step_ctx \<Rightarrow> 'w \<Rightarrow> go_error option \<times> 'w" where
  "check_strategy env sc w =
     (case ResolvePublishStrategy env (sc_Host sc) (sc_Opts sc) w of
        (Inl _, w) \<Rightarrow> (None, w)
      | (Inr strategy, w) \<Rightarrow>
          if strategy \<noteq> PublishSymlink then (None, w)
          else (case probeAtomicRename env sc w of
             (Some err, w) \<Rightarrow> (Some err, w)
           | (None, w) \<Rightarrow> (None, snd (noteSymlinkRuntimeCache env sc w))))"

definition check_platform :: "'w env \<Rightarrow> step_ctx \<Rightarrow> 'w \<Rightarrow> go_error option \<times> 'w" where
  "check_platform env sc w =
     (None, if opt_Build (sc_Opts sc) \<noteq> BuildArtifact then snd (noteComposerPlatform env sc w) else w)"

definition check_credentials :: "'w env \<Rightarrow> step_ctx \<Rightarrow> 'w \<Rightarrow> go_error option \<times> 'w" where
  "check_credentials env sc w =
     (case noteComposerCredentials env sc w of
        (Inl err, w) \<Rightarrow> (Some err, w)
      | (Inr _, w) \<Rightarrow> (None, w))"

definition check_submodules :: "'w env \<Rightarrow> step_ctx \<Rightarrow> 'w \<Rightarrow> go_error option \<times> 'w" where
  "check_submodules env sc w =
     (if sc_WorkDir sc = [] then (None, w)
      else case m_Stat (e_Machine env) (path_join [sc_WorkDir sc, ''.gitmodules'']) w of
        Inr _ \<Rightarrow> (Some (Wrapf ''%w: %s/.gitmodules is present'' [sc_WorkDir sc] (Sentinel ErrSubmodulesUnsupported)), w)
      | Inl _ \<Rightarrow> (None, w))"

text \<open>A verify URL that answers with a redirect is refused; any other failure is only reported.\<close>

definition check_verify_url :: "'w env \<Rightarrow> step_ctx \<Rightarrow> 'w \<Rightarrow> go_error option \<times> 'w" where
  "check_verify_url env sc w =
     (let opts = sc_Opts sc; url = trim_space (opt_VerifyURL opts) in
      if \<not> opt_Verify opts \<or> url = [] then (None, w)
      else case VerifyURL (e_Machine env) url (opt_VerifyTimeout opts) (verify_policy_of opts) w of
        (Some err, w) \<Rightarrow>
          (if errors_is err ErrVerifyRedirect
           then Some (Wrapf ''refusing to deploy to %s: %w'' [h_Name (sc_Host sc)] err) else None, w)
      | (None, w) \<Rightarrow> (None, w))"

definition preflight_checks :: "'w env \<Rightarrow> step_ctx \<Rightarrow> ('w \<Rightarrow> go_error option \<times> 'w) list" where
  "preflight_checks env sc =
     [check_reachable env sc, checkSandboxMirror env sc, check_writable env sc, checkRepositoryReachable env sc,
      check_strategy env sc, checkDiskSpace env sc, checkPHPVersion env sc, checkDBBackup env sc,
      check_platform env sc, checkArtifactParity env sc, checkWritableMode env sc,
      (\<lambda>w. (None, snd (noteInPlaceSyncPaths env sc w))), check_credentials env sc, check_submodules env sc,
      check_verify_url env sc]"

definition CoreCheck :: "'w env \<Rightarrow> step_ctx \<Rightarrow> 'w \<Rightarrow> go_error option \<times> 'w" where
  "CoreCheck env sc w =
     (if trim_space (h_DeployPath (sc_Host sc)) = [] then (Some (Sentinel ErrDeployPathMissing), w)
      else first_error (preflight_checks env sc) w)"

section \<open>The commands of a preflight\<close>

definition preflight_commands :: "step_ctx \<Rightarrow> string list" where
  "preflight_commands sc =
     (let h = sc_Host sc in
      [''true'', nearestExistingParentCommand (h_DeployPath h) @ ''test -w '' @ quoted ''$p'',
       ls_remote_command (deploy_repository sc) (checked_ref (sc_Opts sc)),
       ''test -L '' @ Shell (h_CurrentPath h), ''test -e '' @ Shell (h_CurrentPath h),
       rename_probe h, cache_probe sc, disk_command h, php_probe sc, dump_Command (opt_DBBackupProbe (sc_Opts sc)),
       ''command -v setfacl >/dev/null 2>&1'', auth_test h])"

lemma preflight_command:
  "''true'' \<in> set (preflight_commands sc)"
  "nearestExistingParentCommand (h_DeployPath (sc_Host sc)) @ ''test -w '' @ quoted ''$p'' \<in> set (preflight_commands sc)"
  "ls_remote_command (deploy_repository sc) (checked_ref (sc_Opts sc)) \<in> set (preflight_commands sc)"
  "''test -L '' @ Shell (h_CurrentPath (sc_Host sc)) \<in> set (preflight_commands sc)"
  "''test -e '' @ Shell (h_CurrentPath (sc_Host sc)) \<in> set (preflight_commands sc)"
  "rename_probe (sc_Host sc) \<in> set (preflight_commands sc)"
  "cache_probe sc \<in> set (preflight_commands sc)"
  "disk_command (sc_Host sc) \<in> set (preflight_commands sc)"
  "php_probe sc \<in> set (preflight_commands sc)"
  "dump_Command (opt_DBBackupProbe (sc_Opts sc)) \<in> set (preflight_commands sc)"
  "''command -v setfacl >/dev/null 2>&1'' \<in> set (preflight_commands sc)"
  "auth_test (sc_Host sc) \<in> set (preflight_commands sc)"
  unfolding preflight_commands_def Let_def by (simp_all only: list.set insertI1 insertI2)

lemmas preflight_asks [simp] = preflight_command preflight_command [simplified append_Cons append_Nil]

text \<open>A property of the target that those commands, local commands and requests preserve.\<close>

locale preflight_kept =
  fixes env :: "'w env" and sc :: step_ctx and J :: "'w \<Rightarrow> bool"
  assumes run_kept: "J w \<Longrightarrow> cmd \<in> set (preflight_commands sc) \<Longrightarrow> e_Run env opts cmd w = (r, w') \<Longrightarrow> J w'"
    and local_kept: "J w \<Longrightarrow> e_RunLocal env opts cmd w = (r, w') \<Longrightarrow> J w'"
    and get_kept: "J w \<Longrightarrow> m_Get (e_Machine env) check t url w = (r', w') \<Longrightarrow> J w'"
begin

lemma asked_kept: "e_Run env opts cmd w = (r, w') \<Longrightarrow> cmd \<in> set (preflight_commands sc) \<Longrightarrow> J w \<Longrightarrow> J w'"
  by (rule run_kept)

lemma here_kept: "e_RunLocal env opts cmd w = (r, w') \<Longrightarrow> J w \<Longrightarrow> J w'"
  by (rule local_kept)

lemma request_kept: "m_Get (e_Machine env) check t url w = (r', w') \<Longrightarrow> J w \<Longrightarrow> J w'"
  by (rule get_kept)

lemma short_kept: "step_exec env sc cmd w = (r, w') \<Longrightarrow> cmd \<in> set (preflight_commands sc) \<Longrightarrow> J w \<Longrightarrow> J w'"
  by (auto simp: step_exec_def split: prod.splits dest: asked_kept)

lemma long_kept: "long_exec env sc cmd w = (r, w') \<Longrightarrow> cmd \<in> set (preflight_commands sc) \<Longrightarrow> J w \<Longrightarrow> J w'"
  by (auto simp: long_exec_def split: prod.splits dest: asked_kept)

lemma strategy_kept: "ResolvePublishStrategy env (sc_Host sc) (sc_Opts sc) w = (r, w') \<Longrightarrow> J w \<Longrightarrow> J w'"
  by (auto simp: ResolvePublishStrategy_def succeeds_def Let_def
      split: if_splits prod.splits bool.splits dest!: asked_kept)

lemma reachable_kept: "check_reachable env sc w = (r, w') \<Longrightarrow> J w \<Longrightarrow> J w'"
  by (auto simp: check_reachable_def  split: prod.splits option.splits dest!: short_kept)

lemma mirror_kept: "checkSandboxMirror env sc w = (r, w') \<Longrightarrow> J w \<Longrightarrow> J w'"
  by (auto simp: checkSandboxMirror_def RefreshSandboxMirror_def point_mirror_head_def localBranch_def local_exec_def Let_def
      split: if_splits prod.splits option.splits sum.splits dest!: here_kept)

lemma writable_kept: "check_writable env sc w = (r, w') \<Longrightarrow> J w \<Longrightarrow> J w'"
  by (auto simp: check_writable_def WritabilityProbeCommand_def Let_def
      split: if_splits prod.splits option.splits sum.splits dest!: short_kept)

lemma repository_kept: "checkRepositoryReachable env sc w = (r, w') \<Longrightarrow> J w \<Longrightarrow> J w'"
  using preflight_command(3) [of sc]
  by (auto simp del: preflight_asks simp: checkRepositoryReachable_def Let_def
      split: if_splits prod.splits option.splits dest!: long_kept)

lemma rename_kept: "probeAtomicRename env sc w = (r, w') \<Longrightarrow> J w \<Longrightarrow> J w'"
  by (auto simp: probeAtomicRename_def  split: prod.splits option.splits dest!: short_kept)

lemma cache_kept: "noteSymlinkRuntimeCache env sc w = (r, w') \<Longrightarrow> J w \<Longrightarrow> J w'"
  by (auto simp: noteSymlinkRuntimeCache_def Let_def split: if_splits prod.splits dest!: asked_kept)

lemma check_strategy_kept: "check_strategy env sc w = (r, w') \<Longrightarrow> J w \<Longrightarrow> J w'"
  by (auto simp: check_strategy_def split: if_splits prod.splits option.splits sum.splits
      dest!: strategy_kept rename_kept dest: cache_kept [OF prod.collapse [symmetric]])

lemma disk_kept: "checkDiskSpace env sc w = (r, w') \<Longrightarrow> J w \<Longrightarrow> J w'"
  by (auto simp: checkDiskSpace_def Let_def
      split: if_splits prod.splits option.splits dest!: asked_kept)

lemma php_kept: "checkPHPVersion env sc w = (r, w') \<Longrightarrow> J w \<Longrightarrow> J w'"
  by (auto simp: checkPHPVersion_def Let_def
      split: if_splits prod.splits option.splits dest!: asked_kept)

lemma dump_kept: "checkDBBackup env sc w = (r, w') \<Longrightarrow> J w \<Longrightarrow> J w'"
  by (auto simp: checkDBBackup_def Let_def
      split: if_splits prod.splits option.splits dest!: short_kept)

lemma probe_php_kept: "probeTargetPHP env sc w = (r, w') \<Longrightarrow> J w \<Longrightarrow> J w'"
  by (auto simp: probeTargetPHP_def Let_def split: prod.splits option.splits dest!: asked_kept)

lemma note_platform_kept: "noteComposerPlatform env sc w = (r, w') \<Longrightarrow> J w \<Longrightarrow> J w'"
  by (auto simp: noteComposerPlatform_def split: if_splits prod.splits option.splits sum.splits dest!: probe_php_kept)

lemma platform_kept: "check_platform env sc w = (r, w') \<Longrightarrow> J w \<Longrightarrow> J w'"
  by (auto simp: check_platform_def split: if_splits dest: note_platform_kept [OF prod.collapse [symmetric]])

lemma parity_kept: "checkArtifactParity env sc w = (r, w') \<Longrightarrow> J w \<Longrightarrow> J w'"
  by (auto simp: checkArtifactParity_def compare_php_def Let_def
      split: if_splits prod.splits sum.splits dest!: probe_php_kept)

lemma writable_mode_kept: "checkWritableMode env sc w = (r, w') \<Longrightarrow> J w \<Longrightarrow> J w'"
  by (auto simp: checkWritableMode_def Let_def
      split: if_splits prod.splits option.splits dest!: short_kept)

lemma sync_kept: "noteInPlaceSyncPaths env sc w = (r, w') \<Longrightarrow> J w \<Longrightarrow> J w'"
  by (auto simp: noteInPlaceSyncPaths_def split: prod.splits sum.splits dest!: strategy_kept)

lemma credentials_kept: "check_credentials env sc w = (r, w') \<Longrightarrow> J w \<Longrightarrow> J w'"
  by (auto simp: check_credentials_def noteComposerCredentials_def find_credentials_def Let_def
      split: if_splits prod.splits option.splits sum.splits dest!: short_kept)

lemma submodules_kept: "check_submodules env sc w = (r, w') \<Longrightarrow> J w \<Longrightarrow> J w'"
  by (auto simp: check_submodules_def split: if_splits sum.splits)

lemma url_kept: "VerifyURL (e_Machine env) url t policy w = (r, w') \<Longrightarrow> J w \<Longrightarrow> J w'"
  by (auto simp: VerifyURL_def Let_def split: if_splits prod.splits option.splits sum.splits dest!: request_kept)

lemma verify_kept: "check_verify_url env sc w = (r, w') \<Longrightarrow> J w \<Longrightarrow> J w'"
  by (auto simp: check_verify_url_def Let_def split: if_splits prod.splits option.splits dest!: url_kept)

lemma first_error_kept:
  assumes "\<And>c w r w'. c \<in> set cs \<Longrightarrow> c w = (r, w') \<Longrightarrow> J w \<Longrightarrow> J w'"
  shows "first_error cs w = (r, w') \<Longrightarrow> J w \<Longrightarrow> J w'"
  using assms by (induction cs arbitrary: w) (fastforce split: prod.splits option.splits)+

lemma CoreCheck_kept: "CoreCheck env sc w = (r, w') \<Longrightarrow> J w \<Longrightarrow> J w'"
proof -
  have "J w'" if "c \<in> set (preflight_checks env sc)" "c w = (r, w')" "J w" for c w r w'
    using that sync_kept [OF prod.collapse [symmetric], of w]
    by (auto simp: preflight_checks_def
        dest: reachable_kept mirror_kept writable_kept repository_kept check_strategy_kept disk_kept php_kept dump_kept
          platform_kept parity_kept writable_mode_kept credentials_kept submodules_kept verify_kept)
  from first_error_kept [OF this] show "CoreCheck env sc w = (r, w') \<Longrightarrow> J w \<Longrightarrow> J w'"
    by (auto simp: CoreCheck_def split: if_splits)
qed

end

interpretation asked: preflight_kept "logging env" sc "\<lambda>(w, log). set log \<subseteq> set (preflight_commands sc)" for env sc
  by unfold_locales (auto simp: logging_def beside_def split: prod.splits)

section \<open>Properties\<close>

text \<open>
  The preflight only asks.  Whatever it finds, the commands it runs on the target are its
  own probes: that the target answers, the writability and rename probes, free space, the PHP
  version, the strategy, the recipe's dump probe, and whether the target reaches the ref this
  deploy will fetch.
\<close>

theorem CoreCheck_only_asks:
  assumes "CoreCheck (logging env) sc (w, []) = (err, (w', log))"
  shows "set log \<subseteq> set (preflight_commands sc)"
  using asked.CoreCheck_kept [OF assms] by simp

theorem CoreCheck_only_asks_witness:
  "list_all (\<lambda>cmd. cmd \<in> set (preflight_commands artifact_ctx)) (snd (snd (CoreCheck (logging noting_env) artifact_ctx (False, []))))"
proof -
  let ?run = "CoreCheck (logging noting_env) artifact_ctx (False, [])"
  have "?run = (fst ?run, (fst (snd ?run), snd (snd ?run)))" by (metis prod.collapse)
  from CoreCheck_only_asks [OF this] show ?thesis by (auto simp: list_all_iff)
qed

text \<open>
  C39. The walk to the directory a deploy path would be created under ends, and where it should:
  at an iterated parent of the path, with nothing existing before it, that exists or has no
  parent of its own.
\<close>

theorem nearestExistingDir_nearest:
  "\<exists>n. nearestExistingDir m p w = (path_dir ^^ n) p \<and>
     (\<forall>k < n. \<exists>err. m_Stat m ((path_dir ^^ k) p) w = Inl err) \<and>
     ((\<exists>isDir. m_Stat m (nearestExistingDir m p w) w = Inr isDir) \<or>
      path_dir (nearestExistingDir m p w) = nearestExistingDir m p w)"
proof (induction m p w rule: nearestExistingDir.induct)
  case (1 m p w)
  show ?case
  proof (cases "m_Stat m p w")
    case (Inr isDir)
    then have "nearestExistingDir m p w = p" by (subst nearestExistingDir.simps) simp
    with Inr show ?thesis by (intro exI [of _ 0]) simp
  next
    case (Inl err)
    show ?thesis
    proof (cases "path_dir p = p")
      case True
      then have "nearestExistingDir m p w = p" by (subst nearestExistingDir.simps) (simp add: Inl Let_def)
      with True show ?thesis by (intro exI [of _ 0]) simp
    next
      case False
      then have step: "nearestExistingDir m p w = nearestExistingDir m (path_dir p) w"
        by (subst nearestExistingDir.simps) (simp add: Inl Let_def)
      from 1 [OF _ refl False] Inl obtain n where
        n: "nearestExistingDir m (path_dir p) w = (path_dir ^^ n) (path_dir p)"
          "\<forall>k < n. \<exists>err. m_Stat m ((path_dir ^^ k) (path_dir p)) w = Inl err"
        and ends: "(\<exists>isDir. m_Stat m (nearestExistingDir m (path_dir p) w) w = Inr isDir) \<or>
          path_dir (nearestExistingDir m (path_dir p) w) = nearestExistingDir m (path_dir p) w"
        by auto
      have "\<exists>err. m_Stat m ((path_dir ^^ k) p) w = Inl err" if "k < Suc n" for k
        using that n(2) Inl by (cases k) (auto simp: funpow_swap1)
      with n(1) ends show ?thesis unfolding step
        by (intro exI [of _ "Suc n"]) (simp add: funpow_swap1)
    qed
  qed
qed

lemma nearestExistingDir_nearest_witness: "nearestExistingDir bare_machine ''/srv/app'' () = ''/''"
proof -
  obtain n where n: "nearestExistingDir bare_machine ''/srv/app'' () = (path_dir ^^ n) ''/srv/app''"
    and stop: "(\<exists>isDir. m_Stat bare_machine (nearestExistingDir bare_machine ''/srv/app'' ()) () = Inr isDir) \<or>
      path_dir (nearestExistingDir bare_machine ''/srv/app'' ()) = nearestExistingDir bare_machine ''/srv/app'' ()"
    using nearestExistingDir_nearest [of "bare_machine" "''/srv/app''" "()"] by blast
  have dirs: "path_dir ''/srv/app'' = ''/srv''" "path_dir ''/srv'' = ''/''" "path_dir ''/'' = ''/''" by code_simp+
  have fixed: "path_dir ((path_dir ^^ n) ''/srv/app'') = (path_dir ^^ n) ''/srv/app''"
    using stop unfolding n by (simp add: bare_machine_def)
  have root: "(path_dir ^^ k) ''/'' = ''/''" for k by (induction k) (simp_all add: dirs(3))
  consider "n = 0" | "n = 1" | k where "n = Suc (Suc k)" by (metis One_nat_def not0_implies_Suc)
  then show ?thesis
  proof cases
    case 1 with fixed dirs show ?thesis by simp
  next
    case 2 with fixed dirs show ?thesis by simp
  next
    case 3 with n root dirs show ?thesis by (simp add: funpow_swap1)
  qed
qed

text \<open>
  An artifact that passes the preflight was made for this deploy: its manifest can be read,
  its revision is the one being deployed where both are known, and where it records a PHP the
  target's answer starts with the series of it.
\<close>

theorem checkArtifactParity_agrees:
  assumes "checkArtifactParity env sc w = (None, w')" and "opt_Build (sc_Opts sc) = BuildArtifact"
    and "dir = trim_space (opt_ArtifactDir (sc_Opts sc))" and "dir \<noteq> []"
    and "revision = deployed_revision (sc_Opts sc)"
  shows "\<exists>manifest. ReadManifest env dir w = Inr manifest \<and>
    (am_Revision manifest = [] \<or> revision = [] \<or> am_Revision manifest = revision) \<and>
    (am_PHPVersion manifest = [] \<or>
      (\<exists>actual. probeTargetPHP env sc w = (Inr actual, w') \<and> has_prefix actual (phpSeries (am_PHPVersion manifest))))"
  using assms
  by (auto simp: checkArtifactParity_def compare_php_def Let_def split: sum.splits if_splits prod.splits)

theorem checkArtifactParity_agrees_witness:
  "\<exists>manifest. ReadManifest noting_env ''/out'' False = Inr manifest \<and> am_Revision manifest = ''abc''"
proof -
  have passed: "checkArtifactParity noting_env artifact_ctx False = (None, True)" by code_simp
  have build: "opt_Build (sc_Opts artifact_ctx) = BuildArtifact" by (simp add: artifact_ctx_def)
  have dir: "''/out'' = trim_space (opt_ArtifactDir (sc_Opts artifact_ctx))" by code_simp
  have revision: "''abc'' = deployed_revision (sc_Opts artifact_ctx)" by code_simp
  have "case ReadManifest noting_env ''/out'' False of Inr manifest \<Rightarrow> am_Revision manifest \<noteq> [] | Inl _ \<Rightarrow> False"
    by code_simp
  with checkArtifactParity_agrees [OF passed build dir _ revision] show ?thesis by auto
qed

text \<open>The series is compared as text, so one series accepts another that continues its digits.\<close>

lemma parity_accepts_another_series:
  "checkArtifactParity noting_env artifact_ctx False = (None, True) \<and>
   probeTargetPHP noting_env artifact_ctx False = (Inr ''8.10.0'', True) \<and>
   (case ReadManifest noting_env ''/out'' False of Inr manifest \<Rightarrow> phpSeries (am_PHPVersion manifest) = ''8.1'' | Inl _ \<Rightarrow> False)"
  by code_simp

end
