(* ===== verification/Execute.thy ===== *)
theory Execute
  imports Preflight
begin

text \<open>
  The executor (\<open>execute.go\<close>): running the steps of a plan in order, the record after every
  step, carrying over the successes of an interrupted run, the migration probe, the lock
  policy and the outcome.

  A step's Go implementation is looked up in \<open>cores\<close>, an argument of the executor as the
  function value in the plan is one of the program.  A \<open>Vars\<close> shares its maps with the copies
  made of it, so what one step sets is seen by the later ones: the variables are part of the
  run's state.  The timeline printed while the run goes on, the heartbeat and the deadline
  put on a Go implementation are not modelled.
\<close>

section \<open>Outcomes\<close>

record step_result =
  res_ID :: string
  res_Stage :: stage
  res_Status :: string
  res_Duration :: int
  res_Err :: "go_error option"
  res_SkipReason :: string

record run_outcome =
  out_Steps :: "step_result list"
  out_Total :: int
  out_LockHeld :: bool
  out_AlreadyDeployed :: bool
  out_LockHeldByAnother :: bool
  out_ConnectionMayHaveDropped :: bool

definition no_outcome :: run_outcome where
  "no_outcome = \<lparr>out_Steps = [], out_Total = 0, out_LockHeld = False, out_AlreadyDeployed = False,
     out_LockHeldByAnother = False, out_ConnectionMayHaveDropped = False\<rparr>"

definition resumeAlwaysReruns :: "string list" where
  "resumeAlwaysReruns = [TaskCheck, TaskLock, TaskUnlock, TaskShared]"

definition noteTransportFailure :: "go_error \<Rightarrow> run_outcome \<Rightarrow> run_outcome" where
  "noteTransportFailure err out =
     (if errors_is err ErrConnectionMayHaveDropped then out\<lparr>out_ConnectionMayHaveDropped := True\<rparr> else out)"

definition noteLockUnavailable :: "go_error \<Rightarrow> run_outcome \<Rightarrow> run_outcome" where
  "noteLockUnavailable err out =
     (if errors_is err ErrLockHeld then out\<lparr>out_LockHeldByAnother := True\<rparr> else out)"

definition LockKeptOnFailure :: "stage \<Rightarrow> bool" where
  "LockKeptOnFailure st \<longleftrightarrow> st \<noteq> StagePrepare \<and> st \<noteq> StageBuild"

text \<open>The five texts of the hint, kept as their formats; every argument is the remote's name.\<close>

definition RecoveryHint :: "string \<Rightarrow> run_outcome \<Rightarrow> string \<times> string list" where
  "RecoveryHint remote out =
     (if out_ConnectionMayHaveDropped out then
        (if out_LockHeld out then
           (''exit 255: the SSH connection may have dropped, so the failed step may still be running or may have died midway; check the target with `govard deploy status %s` before `govard deploy --remote %s --resume`, which re-runs the step, or release the lock with `govard deploy unlock %s`'',
            [remote, remote, remote])
         else
           (''exit 255: the SSH connection may have dropped, so the failed step may still be running or may have died midway; check the target with `govard deploy status %s` before retrying `govard deploy --remote %s`, because nothing signalled the remote process group'',
            [remote, remote]))
      else if out_LockHeldByAnother out then
        (''another deploy holds the deploy lock on %s; check it with `govard deploy status %s`, then continue it with `govard deploy --remote %s --resume` once it finishes, or release the lock deliberately with `govard deploy unlock %s --force`'',
         [remote, remote, remote, remote])
      else if out_LockHeld out then
        (''the release directory, its record and the deploy lock were kept on %s; continue with `govard deploy --remote %s --resume`, or inspect the target with `govard deploy status %s`'',
         [remote, remote, remote])
      else
        (''nothing live changed and the deploy lock was released; fix the reported error and retry `govard deploy --remote %s`'',
         [remote]))"

section \<open>The executor and the state of a run\<close>

record executor =
  x_Host :: host
  x_Opts :: options
  x_ComposerAuth :: string
  x_WorkDir :: string
  x_Terminal :: bool

text \<open>\<open>NewExecutor\<close> reads the credentials once; the working directory is the
  process's, and whether the output is a terminal is the operating system's answer.\<close>

definition NewExecutor :: "'w env \<Rightarrow> host \<Rightarrow> options \<Rightarrow> string \<Rightarrow> bool \<Rightarrow> executor" where
  "NewExecutor env h opts workDir terminal =
     \<lparr>x_Host = h, x_Opts = opts, x_ComposerAuth = trim_space (e_Getenv env ComposerAuthEnv), x_WorkDir = workDir,
      x_Terminal = terminal\<rparr>"

record 'w run_state =
  s_World :: 'w
  s_Vars :: vars
  s_Release :: release
  s_Results :: "step_result list"
  s_LockHeld :: bool
  s_ProbeDone :: bool
  s_Required :: bool
  s_Window :: "nat set"

datatype 'w flow = Next "'w run_state" | Stop "'w run_state" run_outcome go_error

definition step_context :: "executor \<Rightarrow> vars \<Rightarrow> release \<Rightarrow> step_ctx" where
  "step_context x vs rel =
     \<lparr>sc_Host = x_Host x, sc_Vars = vs, sc_Release = Some rel, sc_Opts = x_Opts x,
      sc_WorkDir = [], sc_Checks = [], sc_Live = False, sc_Terminal = False\<rparr>"

section \<open>Recording\<close>

definition write_record :: "'w env \<Rightarrow> executor \<Rightarrow> 'w run_state \<Rightarrow> 'w run_state" where
  "write_record env x s =
     s\<lparr>s_World := snd (WriteRelease env (x_Host x) (Some (s_Release s)) (s_World s))\<rparr>"

text \<open>The record is stored once the release has a number; a write that fails is only reported.\<close>

definition store_if_numbered :: "'w env \<Rightarrow> executor \<Rightarrow> 'w run_state \<Rightarrow> 'w run_state" where
  "store_if_numbered env x s = (if rel_Release (s_Release s) \<noteq> [] then write_record env x s else s)"

definition record_result ::
  "'w env \<Rightarrow> executor \<Rightarrow> step \<Rightarrow> string \<Rightarrow> int \<Rightarrow> go_error option \<Rightarrow> 'w run_state \<Rightarrow> 'w run_state" where
  "record_result env x st status duration err s =
     (let result = \<lparr>res_ID = ID st, res_Stage = Stage st, res_Status = status, res_Duration = duration,
            res_Err = err, res_SkipReason = (if status = StepSkipped then SkipReason st else [])\<rparr>;
          entry = \<lparr>srec_ID = ID st, srec_Status = status, srec_DurationMS = duration div 10 ^ 6,
            srec_Error = (case err of None \<Rightarrow> [] | Some e \<Rightarrow> error_text e)\<rparr>
      in store_if_numbered env x
           (s\<lparr>s_Results := s_Results s @ [result], s_Release := RecordTask entry (s_Release s)\<rparr>))"

definition carryOver ::
  "'w env \<Rightarrow> executor \<Rightarrow> step \<Rightarrow> step_record \<Rightarrow> 'w run_state \<Rightarrow> 'w run_state" where
  "carryOver env x st stored s =
     (let result = \<lparr>res_ID = ID st, res_Stage = Stage st, res_Status = StepSkipped, res_Duration = 0,
            res_Err = None, res_SkipReason = ''completed in the interrupted run''\<rparr>
      in store_if_numbered env x
           (s\<lparr>s_Results := s_Results s @ [result], s_Release := RecordTask stored (s_Release s)\<rparr>))"

definition skip_with ::
  "'w env \<Rightarrow> executor \<Rightarrow> step \<Rightarrow> string \<Rightarrow> 'w run_state \<Rightarrow> 'w run_state" where
  "skip_with env x st reason s = record_result env x (st\<lparr>SkipReason := reason\<rparr>) StepSkipped 0 None s"

section \<open>Failing\<close>

definition releaseLockAfterFailure :: "'w env \<Rightarrow> executor \<Rightarrow> 'w run_state \<Rightarrow> 'w run_state" where
  "releaseLockAfterFailure env x s =
     (if \<not> s_LockHeld s then s
      else s\<lparr>s_World := snd (CoreUnlock env (step_context x NewVars (s_Release s)) (s_World s))\<rparr>)"

text \<open>What every failing path of the loop ends with: the record, the lock policy of the stage.\<close>

definition stop_failed ::
  "'w env \<Rightarrow> executor \<Rightarrow> stage \<Rightarrow> run_outcome \<Rightarrow> go_error \<Rightarrow> 'w run_state \<Rightarrow> 'w flow" where
  "stop_failed env x stg out err s =
     (let s = write_record env x (s\<lparr>s_Release := (s_Release s)\<lparr>rel_Status := StatusFailed\<rparr>\<rparr>);
          keep = LockKeptOnFailure stg
      in Stop (if keep then s else releaseLockAfterFailure env x s) (out\<lparr>out_LockHeld := keep\<rparr>) err)"

section \<open>The migration probe\<close>

definition probe_vars :: "host \<Rightarrow> release \<Rightarrow> vars \<Rightarrow> vars" where
  "probe_vars h rel vs =
     (let vs = Set ''release'' (rel_Release rel) vs;
          vs = SetPath ''release_path''
            (if rel_Path rel = [] then ReleasePath (rel_Release rel) h else rel_Path rel) vs
      in if pub_PreviousRelease (rel_Publish rel) \<noteq> [] then
           SetPath ''previous_release'' (ReleasePath (pub_PreviousRelease (rel_Publish rel)) h) vs
         else vs)"

definition command_timeout :: "options \<Rightarrow> int" where
  "command_timeout opts =
     (if opt_CommandTimeout opts \<le> 0 then DefaultCommandTimeout else opt_CommandTimeout opts)"

text \<open>The answer to a probe that ran: its exit code, and the error it came with.\<close>

definition probe_verdict :: "string \<Rightarrow> string \<Rightarrow> int \<Rightarrow> go_error option \<Rightarrow> go_error + bool" where
  "probe_verdict name command code err =
     (if code = 0 then
        (case err of
           Some e \<Rightarrow> Inl (Wrapf ''migration probe reported success with an error on %s: %w'' [name] e)
         | None \<Rightarrow> Inr False)
      else if code = 1 \<or> code = 2 then Inr True
      else Inl (Errorf ''migration probe exited %d on %s (want 0 = current, 1/2 = migrate); refusing to guess: %s''
        [itoa code, name, command]))"

definition checkMigrationRequired ::
  "'w env \<Rightarrow> executor \<Rightarrow> migration_probe \<Rightarrow> vars \<Rightarrow> release \<Rightarrow> 'w \<Rightarrow> (go_error + bool \<times> int) \<times> 'w" where
  "checkMigrationRequired env x probe vs rel w =
     (case Expand (probe_vars (x_Host x) rel vs) (probe_Command probe) of
        Inl e \<Rightarrow> (Inl (Wrapf ''expand the migration probe: %w'' [] e), w)
      | Inr command \<Rightarrow>
          (case e_Run env \<lparr>Timeout = command_timeout (x_Opts x), Stdin = [], Streamed = False\<rparr> command w of
             ((result, err), w) \<Rightarrow>
               (case (case err of None \<Rightarrow> Inr (ExitCode result)
                      | Some e \<Rightarrow> (case command_exit_code e of
                          None \<Rightarrow> Inl (Wrapf ''migration probe failed on %s: %w'' [h_Name (x_Host x)] e)
                        | Some code \<Rightarrow> Inr code)) of
                  Inl e \<Rightarrow> (Inl e, w)
                | Inr code \<Rightarrow>
                    (case probe_verdict (h_Name (x_Host x)) command code err of
                       Inl e \<Rightarrow> (Inl e, w)
                     | Inr required \<Rightarrow> (Inr (required, code), w)))))"

section \<open>One step\<close>

definition optionSkipReason :: "string \<Rightarrow> options \<Rightarrow> string" where
  "optionSkipReason tid opts =
     (if tid = TaskDBBackup then (if \<not> opt_DBBackup opts then ''--db-backup not given'' else [])
      else if tid = TaskWorkersPause \<or> tid = TaskWorkersResume then
        (if (case map_of (opt_Settings opts) ''worker_control'' of
               Some v \<Rightarrow> SettingText v \<noteq> Some ''true'' | None \<Rightarrow> True)
         then ''worker_control is off'' else [])
      else [])"

definition ComposerAuthCommand :: "string \<Rightarrow> string" where
  "ComposerAuthCommand command =
     ComposerAuthEnv @ ''='' @ [dq] @ ''$(cat)'' @ [dq] @ ''; export '' @ ComposerAuthEnv @ ''; '' @ command"

definition step_vars :: "host \<Rightarrow> release \<Rightarrow> vars \<Rightarrow> vars" where
  "step_vars h rel vs =
     (let vs = Set ''release'' (rel_Release rel) vs;
          vs = (if rel_Path rel \<noteq> [] then SetPath ''release_path'' (rel_Path rel) vs else vs)
      in if pub_PreviousRelease (rel_Publish rel) \<noteq> [] then
           SetPath ''previous_release'' (ReleasePath (pub_PreviousRelease (rel_Publish rel)) h) vs
         else vs)"

definition run_context :: "executor \<Rightarrow> plan \<Rightarrow> step \<Rightarrow> vars \<Rightarrow> release \<Rightarrow> step_ctx" where
  "run_context x p st vs rel =
     \<lparr>sc_Host = x_Host x, sc_Vars = vs, sc_Release = Some rel,
      sc_Opts = (x_Opts x)\<lparr>opt_VerifyRejectPaths := plan_VerifyRejectPaths p\<rparr>,
      sc_WorkDir = x_WorkDir x, sc_Checks = Checks st,
      sc_Live = (opt_Verbose (x_Opts x) \<and> \<not> opt_JSON (x_Opts x)), sc_Terminal = x_Terminal x\<rparr>"

definition runStep ::
  "'w env \<Rightarrow> (core_fn \<Rightarrow> 'w core_run) \<Rightarrow> executor \<Rightarrow> step \<Rightarrow> step_ctx \<Rightarrow> int \<Rightarrow> 'w \<Rightarrow>
   (go_error option \<times> release option \<times> vars) \<times> 'w" where
  "runStep env cores x st sc timeout w =
     (case core st of
        Some c \<Rightarrow> cores c env sc w
      | None \<Rightarrow>
          (case Expand (sc_Vars sc) (Command st) of
             Inl e \<Rightarrow> ((Some (Wrapf ''expand %s: %w'' [ID st] e), sc_Release sc, sc_Vars sc), w)
           | Inr command \<Rightarrow>
               (let auth = (ID st = TaskVendors \<and> RunOn st \<noteq> RunLocal \<and> x_ComposerAuth x \<noteq> []);
                    command = (if auth then ComposerAuthCommand command else command);
                    ro = \<lparr>Timeout = timeout, Stdin = (if auth then x_ComposerAuth x else []), Streamed = sc_Live sc\<rparr>
                in case (if RunOn st = RunLocal then e_RunLocal env else e_Run env) ro command w of
                     ((_, err), w) \<Rightarrow> ((err, sc_Release sc, sc_Vars sc), w))))"

definition timeout_for :: "options \<Rightarrow> nat set \<Rightarrow> nat \<Rightarrow> int" where
  "timeout_for opts window idx =
     (if idx \<in> window then
        (if 0 < opt_MaintenanceTimeout opts then opt_MaintenanceTimeout opts else DefaultMaintenanceTimeout)
      else if 0 < opt_CommandTimeout opts then opt_CommandTimeout opts else DefaultCommandTimeout)"

text \<open>The step runs: the part of the loop body after every reason to skip it was excluded.\<close>

definition step_error :: "string \<Rightarrow> executor \<Rightarrow> go_error \<Rightarrow> go_error" where
  "step_error sid x e = Wrapf ''step %s failed on %s: %w'' [sid, h_Name (x_Host x)] e"

definition the_release :: "release option \<Rightarrow> release \<Rightarrow> release" where
  "the_release r old = (case r of Some rel \<Rightarrow> rel | None \<Rightarrow> old)"

definition execute_step ::
  "'w env \<Rightarrow> (core_fn \<Rightarrow> 'w core_run) \<Rightarrow> executor \<Rightarrow> plan \<Rightarrow> nat \<Rightarrow> step \<Rightarrow> 'w run_state \<Rightarrow> 'w flow" where
  "execute_step env cores x p idx st s =
     (let vs = step_vars (x_Host x) (s_Release s) (s_Vars s); s = s\<lparr>s_Vars := vs\<rparr> in
      case reuseSandboxAssets env (x_Host x) (x_Opts x) st vs (s_Release s) (s_World s) of
        (Some reason, w) \<Rightarrow> Next (skip_with env x st reason (s\<lparr>s_World := w\<rparr>))
      | (None, w) \<Rightarrow>
          (case runStep env cores x st (run_context x p st vs (s_Release s))
              (timeout_for (x_Opts x) (s_Window s) idx) w of
             ((err, rel, vs'), w') \<Rightarrow>
               (let elapsed = e_Clock env w' - e_Clock env w;
                    s = s\<lparr>s_World := w', s_Release := the_release rel (s_Release s), s_Vars := vs'\<rparr>
                in case (if Optional st then None else err) of
                     Some e \<Rightarrow>
                       stop_failed env x (Stage st)
                         (noteLockUnavailable e (noteTransportFailure e no_outcome)) (step_error (ID st) x e)
                         (record_result env x st StepFailed elapsed (Some e) s)
                   | None \<Rightarrow>
                       (let s = record_result env x st StepOK elapsed None s;
                            s = (if err = None then
                                   s\<lparr>s_World := recordSandboxAssets env (x_Host x) (x_Opts x) st vs' (s_Release s) (s_World s)\<rparr>
                                 else s)
                        in Next (if ID st = TaskLock then s\<lparr>s_LockHeld := True\<rparr> else s)))))"

definition no_number_error :: "string \<Rightarrow> go_error" where
  "no_number_error sid =
     Errorf ''step %s needs a release number and deploy:release did not run in this run; pass --resume to continue a release that already exists'' [sid]"

text \<open>The rules of the loop body after the probe, in the order of the source.\<close>

definition decide_step ::
  "'w env \<Rightarrow> (core_fn \<Rightarrow> 'w core_run) \<Rightarrow> executor \<Rightarrow> plan \<Rightarrow> nat \<Rightarrow> step \<Rightarrow> 'w run_state \<Rightarrow> 'w flow" where
  "decide_step env cores x p idx st s =
     (if NeedsMigration st \<and> \<not> s_Required s then
        Next (skip_with env x st ''db up-to-date (probe exit 0)'' s)
      else if opt_SkipLock (x_Opts x) \<and> (ID st = TaskLock \<or> ID st = TaskUnlock) then
        Next (skip_with env x st ''locking is disabled'' s)
      else if ID st = TaskUnlock \<and> \<not> s_LockHeld s then
        Next (skip_with env x st ''this run did not hold the deploy lock'' s)
      else if optionSkipReason (ID st) (x_Opts x) \<noteq> [] then
        Next (skip_with env x st (optionSkipReason (ID st) (x_Opts x)) s)
      else if rel_Release (s_Release s) = [] \<and> Stage st \<noteq> StagePrepare then
        stop_failed env x (Stage st) no_outcome (step_error (ID st) x (no_number_error (ID st)))
          (record_result env x st StepFailed 0 (Some (no_number_error (ID st))) s)
      else execute_step env cores x p idx st s)"

text \<open>The probe resolves at the first gated step that would otherwise run, and only once.\<close>

definition probe_then_decide ::
  "'w env \<Rightarrow> (core_fn \<Rightarrow> 'w core_run) \<Rightarrow> executor \<Rightarrow> plan \<Rightarrow> nat \<Rightarrow> step \<Rightarrow> 'w run_state \<Rightarrow> 'w flow" where
  "probe_then_decide env cores x p idx st s =
     (case (if NeedsMigration st \<and> \<not> s_ProbeDone s then plan_MigrationProbe p else None) of
        None \<Rightarrow> decide_step env cores x p idx st s
      | Some probe \<Rightarrow>
          (let vs = probe_vars (x_Host x) (s_Release s) (s_Vars s); s = s\<lparr>s_ProbeDone := True, s_Vars := vs\<rparr> in
           case checkMigrationRequired env x probe vs (s_Release s) (s_World s) of
             (Inl e, w) \<Rightarrow> stop_failed env x (Stage st) (noteTransportFailure e no_outcome) e (s\<lparr>s_World := w\<rparr>)
           | (Inr (required, code), w) \<Rightarrow>
               (let verdict = \<lparr>mig_Required = required, mig_ProbeExit = code,
                      mig_ResolvedAt = e_FormatTime env (e_Clock env w)\<rparr>;
                    s = write_record env x (s\<lparr>s_World := w, s_Required := required,
                      s_Release := (s_Release s)\<lparr>rel_Migration := Some verdict\<rparr>\<rparr>);
                    s = (if \<not> required \<and> windowIsGated p then s\<lparr>s_Window := {}\<rparr> else s)
                in decide_step env cores x p idx st s)))"

definition exec_step ::
  "'w env \<Rightarrow> (core_fn \<Rightarrow> 'w core_run) \<Rightarrow> executor \<Rightarrow> plan \<Rightarrow> string list \<Rightarrow> (string \<times> step_record) list \<Rightarrow>
   nat \<Rightarrow> step \<Rightarrow> 'w run_state \<Rightarrow> 'w flow" where
  "exec_step env cores x p completed carried idx st s =
     (if ID st \<in> set completed then
        (case map_of carried (ID st) of
           Some stored \<Rightarrow> Next (carryOver env x st stored s)
         | None \<Rightarrow>
             Next (skip_with env x st
               (if SkipReason st = [] \<and> opt_From (x_Opts x) \<noteq> [] then ''not run: resumed from '' @ opt_From (x_Opts x)
                else SkipReason st) s))
      else if Skipped st \<or> (Command st = [] \<and> core st = None) then
        Next (skip_with env x st
          (if SkipReason st = [] \<and> Implementation st = ImplementationNone then
             ''this framework's recipe has no '' @ ID st @ '' step''
           else SkipReason st) s)
      else probe_then_decide env cores x p idx st s)"

section \<open>The loop\<close>

fun run_loop ::
  "'w env \<Rightarrow> (core_fn \<Rightarrow> 'w core_run) \<Rightarrow> executor \<Rightarrow> plan \<Rightarrow> string list \<Rightarrow> (string \<times> step_record) list \<Rightarrow>
   nat \<Rightarrow> step list \<Rightarrow> 'w run_state \<Rightarrow> 'w flow" where
  "run_loop env cores x p completed carried idx [] s = Next s"
| "run_loop env cores x p completed carried idx (st # sts) s =
     (case exec_step env cores x p completed carried idx st s of
        Stop s out e \<Rightarrow> Stop s out e
      | Next s \<Rightarrow> run_loop env cores x p completed carried (Suc idx) sts s)"

section \<open>What the target already runs\<close>

fun complete_record :: "'w env \<Rightarrow> host \<Rightarrow> string \<Rightarrow> release_entry list \<Rightarrow> 'w \<Rightarrow> bool \<times> 'w" where
  "complete_record env h revision [] w = (False, w)"
| "complete_record env h revision (e # es) w =
     (if ent_Foreign e \<or> ent_Status e \<noteq> StatusOK then complete_record env h revision es w
      else case ReadRelease env h (ent_Release e) w of
        (Inl _, w) \<Rightarrow> complete_record env h revision es w
      | (Inr rel, w) \<Rightarrow>
          if rel_Revision rel = revision then (True, w) else complete_record env h revision es w)"

definition hasCompleteRecordFor :: "'w env \<Rightarrow> host \<Rightarrow> string \<Rightarrow> 'w \<Rightarrow> bool \<times> 'w" where
  "hasCompleteRecordFor env h revision w =
     (case ListReleases env h w of
        (Inl _, w) \<Rightarrow> (False, w)
      | (Inr entries, w) \<Rightarrow> complete_record env h revision entries w)"

text \<open>The live revision and whether its record is complete, or nothing when unknown.\<close>

definition revision_by_head :: "'w env \<Rightarrow> host \<Rightarrow> 'w \<Rightarrow> (string \<times> bool) option \<times> 'w" where
  "revision_by_head env h w =
     (case e_Run env (short_opts False) (''git -C '' @ Shell (h_CurrentPath h) @ '' rev-parse HEAD'') w of
        ((_, Some _), w) \<Rightarrow> (None, w)
      | ((result, None), w) \<Rightarrow>
          (let revision = trim_space (Stdout result) in
           if revision = [] then (None, w)
           else case hasCompleteRecordFor env h revision w of
             (complete, w) \<Rightarrow> (Some (revision, complete), w)))"

definition liveRevision :: "'w env \<Rightarrow> host \<Rightarrow> 'w \<Rightarrow> (string \<times> bool) option \<times> 'w" where
  "liveRevision env h w =
     (case e_Run env (short_opts False) (''readlink -f '' @ Shell (h_CurrentPath h)) w of
        ((_, Some _), w) \<Rightarrow> revision_by_head env h w
      | ((result, None), w) \<Rightarrow>
          (let resolved = trim_space (Stdout result) in
           if resolved \<noteq> [] \<and> resolved \<noteq> h_CurrentPath h then
             (case ReadRelease env h (path_base resolved) w of
                (Inl _, w) \<Rightarrow> revision_by_head env h w
              | (Inr rel, w) \<Rightarrow>
                  if rel_Revision rel \<noteq> [] then (Some (rel_Revision rel, rel_Status rel = StatusOK), w)
                  else revision_by_head env h w)
           else revision_by_head env h w))"

section \<open>The start of a run\<close>

definition start_release :: "executor \<Rightarrow> release \<Rightarrow> release" where
  "start_release x rel =
     (let rel = (if rel_Path rel = [] then rel\<lparr>rel_Path := ReleasePath (rel_Release rel) (x_Host x)\<rparr> else rel);
          rel = (if rel_Branch rel = [] then rel\<lparr>rel_Branch := opt_Branch (x_Opts x)\<rparr> else rel)
      in if bld_Mode (rel_Build rel) = [] \<and> trim_space (rel_Release rel) = [] \<and> opt_Build (x_Opts x) \<noteq> [] then
           rel\<lparr>rel_Build := (rel_Build rel)\<lparr>bld_Mode := opt_Build (x_Opts x)\<rparr>\<rparr>
         else rel)"

definition already_deployed :: "'w env \<Rightarrow> executor \<Rightarrow> release \<Rightarrow> 'w \<Rightarrow> bool \<times> 'w" where
  "already_deployed env x rel w =
     (let continuing = opt_Resume (x_Opts x) \<and> trim_space (rel_Release rel) \<noteq> [] in
      if opt_Force (x_Opts x) \<or> continuing \<or> trim_space (rel_Revision rel) = [] then (False, w)
      else case liveRevision env (x_Host x) w of
        (None, w) \<Rightarrow> (False, w)
      | (Some (live, complete), w) \<Rightarrow> (complete \<and> live = rel_Revision rel, w))"

definition note_previous :: "'w env \<Rightarrow> executor \<Rightarrow> release \<Rightarrow> 'w \<Rightarrow> release \<times> 'w" where
  "note_previous env x rel w =
     (if pub_PreviousRelease (rel_Publish rel) \<noteq> [] then (rel, w)
      else case liveReleaseName env (x_Host x) w of
        (live, w) \<Rightarrow>
          (if live \<noteq> [] \<and> live \<noteq> rel_Release rel then
             rel\<lparr>rel_Publish := (rel_Publish rel)\<lparr>pub_PreviousRelease := live\<rparr>\<rparr> else rel, w))"

text \<open>
  What a resume takes from the stored record: the steps that succeeded, their entries, the
  revision and whether a migration was found to be required.
\<close>

definition carried_entry :: "step_record \<Rightarrow> bool" where
  "carried_entry t \<longleftrightarrow> srec_Status t = StepOK \<and> srec_ID t \<notin> set resumeAlwaysReruns"

definition carried_from :: "release \<Rightarrow> (string \<times> step_record) list" where
  "carried_from previous = map (\<lambda>t. (srec_ID t, t)) (rev (filter carried_entry (rel_Tasks previous)))"

definition resume_from ::
  "'w env \<Rightarrow> executor \<Rightarrow> release \<Rightarrow> 'w \<Rightarrow> ((string \<times> step_record) list \<times> bool \<times> release) \<times> 'w" where
  "resume_from env x rel w =
     (if \<not> (opt_Resume (x_Opts x) \<and> rel_Release rel \<noteq> []) then (([], False, rel), w)
      else case ReadRelease env (x_Host x) (rel_Release rel) w of
        (Inl _, w) \<Rightarrow> (([], False, rel), w)
      | (Inr previous, w) \<Rightarrow>
          ((carried_from previous,
            (case rel_Migration previous of Some mg \<Rightarrow> mig_Required mg | None \<Rightarrow> False),
            if rel_Revision previous \<noteq> [] then rel\<lparr>rel_Revision := rel_Revision previous\<rparr> else rel), w))"

text \<open>\<open>--from\<close>: the named step and the later ones run again, the earlier ones do not run.\<close>

definition apply_from ::
  "string \<Rightarrow> plan \<Rightarrow> string list \<times> (string \<times> step_record) list \<Rightarrow> string list \<times> (string \<times> step_record) list" where
  "apply_from from p marks =
     (case marks of (completed, carried) \<Rightarrow>
        (case (if from = [] then None else IndexOf from p) of
           None \<Rightarrow> (completed, carried)
         | Some i \<Rightarrow>
             (let later = map ID (drop i (Steps p)) in
              (filter (\<lambda>sid. sid \<notin> set later) completed @ map ID (take i (Steps p)),
               filter (\<lambda>e. fst e \<notin> set later) carried))))"

text \<open>Taking the lock when the plan's own step for it is not going to run.\<close>

definition take_lock_early :: "'w env \<Rightarrow> executor \<Rightarrow> string list \<Rightarrow> vars \<Rightarrow> release \<Rightarrow> 'w \<Rightarrow> (go_error option \<times> bool) \<times> 'w" where
  "take_lock_early env x completed vs rel w =
     (if TaskLock \<in> set completed \<and> \<not> opt_SkipLock (x_Opts x) then
        (case CoreLock env ((step_context x vs rel)) w of
           (Some e, w) \<Rightarrow> ((Some e, False), w)
         | (None, w) \<Rightarrow> ((None, True), w))
      else ((None, False), w))"

section \<open>The run\<close>

definition finish :: "'w env \<Rightarrow> int \<Rightarrow> 'w run_state \<Rightarrow> run_outcome \<Rightarrow> run_outcome" where
  "finish env started s out =
     out\<lparr>out_Steps := s_Results s, out_Total := e_Clock env (s_World s) - started\<rparr>"

definition initial_state :: "vars \<Rightarrow> release \<Rightarrow> bool \<Rightarrow> bool \<Rightarrow> nat set \<Rightarrow> 'w \<Rightarrow> 'w run_state" where
  "initial_state vs rel held probed window w =
     \<lparr>s_World = w, s_Vars = vs, s_Release = rel, s_Results = [], s_LockHeld = held, s_ProbeDone = probed,
      s_Required = True, s_Window = window\<rparr>"

text \<open>The end of a run whose steps all went through: the record says ok, if it can be written.\<close>

definition complete_run ::
  "'w env \<Rightarrow> executor \<Rightarrow> int \<Rightarrow> 'w run_state \<Rightarrow> (run_outcome \<times> go_error option) \<times> 'w run_state" where
  "complete_run env x started s =
     (let s = s\<lparr>s_Release := (s_Release s)\<lparr>rel_Status := StatusOK\<rparr>\<rparr> in
      case WriteRelease env (x_Host x) (Some (s_Release s)) (s_World s) of
        (Some e, w) \<Rightarrow>
          (let s = s\<lparr>s_World := w\<rparr> in ((finish env started s (noteTransportFailure e no_outcome), Some e), s))
      | (None, w) \<Rightarrow> (let s = s\<lparr>s_World := w\<rparr> in ((finish env started s no_outcome, None), s)))"

definition run_plan ::
  "'w env \<Rightarrow> (core_fn \<Rightarrow> 'w core_run) \<Rightarrow> executor \<Rightarrow> plan \<Rightarrow> string list \<Rightarrow> (string \<times> step_record) list \<Rightarrow>
   int \<Rightarrow> 'w run_state \<Rightarrow> (run_outcome \<times> go_error option) \<times> 'w run_state" where
  "run_plan env cores x p completed carried started s =
     (case run_loop env cores x p completed carried 0 (Steps p) s of
        Stop s out e \<Rightarrow> ((finish env started s out, Some e), s)
      | Next s \<Rightarrow> complete_run env x started s)"

definition Run ::
  "'w env \<Rightarrow> (core_fn \<Rightarrow> 'w core_run) \<Rightarrow> executor \<Rightarrow> plan \<Rightarrow> vars \<Rightarrow> release \<Rightarrow> 'w \<Rightarrow>
   (run_outcome \<times> go_error option) \<times> 'w run_state" where
  "Run env cores x p vs release w =
     (let started = e_Clock env w; rel = start_release x release in
      case already_deployed env x rel w of
        (True, w) \<Rightarrow>
          (let s = initial_state vs rel False False {} w in
           ((finish env started s (no_outcome\<lparr>out_AlreadyDeployed := True\<rparr>), None), s))
      | (False, w) \<Rightarrow>
          (case note_previous env x rel w of (rel, w) \<Rightarrow>
          (case resume_from env x rel w of ((carried, verdict, rel), w) \<Rightarrow>
          (case apply_from (opt_From (x_Opts x)) p (map fst carried, carried) of (completed, carried) \<Rightarrow>
          (case take_lock_early env x completed vs rel w of
             ((Some e, _), w) \<Rightarrow>
               (let s = initial_state vs rel False verdict {} w in
                ((finish env started s (noteTransportFailure e no_outcome),
                  Some (Wrapf ''acquire the deploy lock: %w'' [] e)), s))
           | ((None, held), w) \<Rightarrow>
               run_plan env cores x p completed carried started
                 (initial_state vs rel held verdict (maintenanceWindow p) w))))))"

section \<open>The Go implementations\<close>

text \<open>What \<open>wireCoreTasks\<close> attaches to the tasks.\<close>

definition plain_core :: "('w env \<Rightarrow> step_ctx \<Rightarrow> 'w \<Rightarrow> go_error option \<times> 'w) \<Rightarrow> 'w core_run" where
  "plain_core f env sc w = (case f env sc w of (e, w) \<Rightarrow> ((e, sc_Release sc, sc_Vars sc), w))"

definition record_core :: "'w task_func \<Rightarrow> 'w core_run" where
  "record_core f env sc w = (case f env sc w of ((e, rel), w) \<Rightarrow> ((e, rel, sc_Vars sc), w))"

definition core_run :: "core_fn \<Rightarrow> 'w core_run" where
  "core_run c =
     (case c of
        CoreCheckFn \<Rightarrow> plain_core CoreCheck
      | CoreLockFn \<Rightarrow> plain_core CoreLock
      | CoreUnlockFn \<Rightarrow> plain_core CoreUnlock
      | CoreReleaseFn \<Rightarrow> record_core CoreRelease
      | CoreCodeFn \<Rightarrow> plain_core CoreCode
      | CoreSharedFn \<Rightarrow> plain_core CoreShared
      | CoreWritableFn \<Rightarrow> plain_core CoreWritable
      | CoreActivateFn \<Rightarrow> record_core CoreActivate
      | CoreArtifactFn \<Rightarrow> record_core CoreArtifact
      | CoreRecordFn \<Rightarrow> plain_core CoreRecord
      | CoreVerifyFn \<Rightarrow> record_core CoreVerify
      | CoreCleanupFn \<Rightarrow> plain_core CoreCleanup
      | CoreDBBackupFn command \<Rightarrow> CoreDBBackup command)"

text \<open>\<open>RunStep\<close> of \<open>query.go\<close>: one step without the executor's bookkeeping.\<close>

definition RunStep ::
  "'w env \<Rightarrow> (core_fn \<Rightarrow> 'w core_run) \<Rightarrow> host \<Rightarrow> options \<Rightarrow> bool \<Rightarrow> vars \<Rightarrow> step \<Rightarrow> release \<Rightarrow> 'w \<Rightarrow>
   (go_error option \<times> release \<times> vars) \<times> 'w" where
  "RunStep env cores h opts terminal vs st rel w =
     (let stepVars = Set ''release'' (rel_Release rel) vs;
          stepVars = (if rel_Path rel \<noteq> [] then SetPath ''release_path'' (rel_Path rel) stepVars else stepVars);
          live = (opt_Verbose opts \<and> \<not> opt_JSON opts);
          sc = \<lparr>sc_Host = h, sc_Vars = stepVars, sc_Release = Some rel, sc_Opts = opts, sc_WorkDir = [],
            sc_Checks = Checks st, sc_Live = live, sc_Terminal = terminal\<rparr>
      in if Skipped st then ((None, rel, stepVars), w)
         else case core st of
           Some c \<Rightarrow> (case cores c env sc w of ((e, r, vs), w) \<Rightarrow> ((e, the_release r rel, vs), w))
         | None \<Rightarrow>
             if Command st = [] then ((None, rel, stepVars), w)
             else (case Expand stepVars (Command st) of
               Inl e \<Rightarrow> ((Some (Wrapf ''expand %s: %w'' [ID st] e), rel, stepVars), w)
             | Inr command \<Rightarrow>
                 (case e_Run env \<lparr>Timeout = command_timeout opts, Stdin = [], Streamed = live\<rparr> command w of
                    ((_, Some e), w) \<Rightarrow> ((Some (Wrapf ''%s: %w'' [ID st] e), rel, stepVars), w)
                  | ((_, None), w) \<Rightarrow> ((None, rel, stepVars), w))))"

end
