(* ===== verification/ExecuteRun.thy ===== *)
theory ExecuteRun
  imports Execute
begin

text \<open>
  What the operations of the executor report, from one step up to a whole run: the parts of
  the state each leaves alone, what a step adds to the timeline, and the ways a run ends.
\<close>

section \<open>The parts of the state an operation leaves alone\<close>

named_theorems state_simps

lemma write_record_fields [simp, state_simps]:
  "s_Vars (write_record env x s) = s_Vars s" "s_Release (write_record env x s) = s_Release s"
  "s_Results (write_record env x s) = s_Results s" "s_LockHeld (write_record env x s) = s_LockHeld s"
  "s_ProbeDone (write_record env x s) = s_ProbeDone s" "s_Required (write_record env x s) = s_Required s"
  "s_Window (write_record env x s) = s_Window s"
  by (simp_all add: write_record_def)

lemma store_if_numbered_fields [simp, state_simps]:
  "s_Vars (store_if_numbered env x s) = s_Vars s" "s_Release (store_if_numbered env x s) = s_Release s"
  "s_Results (store_if_numbered env x s) = s_Results s" "s_LockHeld (store_if_numbered env x s) = s_LockHeld s"
  "s_Required (store_if_numbered env x s) = s_Required s"
  by (simp_all add: store_if_numbered_def)

text \<open>The result and the record entry of one step.\<close>

definition result_of :: "step \<Rightarrow> string \<Rightarrow> int \<Rightarrow> go_error option \<Rightarrow> step_result" where
  "result_of st status duration err =
     \<lparr>res_ID = ID st, res_Stage = Stage st, res_Status = status, res_Duration = duration,
      res_Err = err, res_SkipReason = (if status = StepSkipped then SkipReason st else [])\<rparr>"

definition entry_for :: "step \<Rightarrow> string \<Rightarrow> int \<Rightarrow> go_error option \<Rightarrow> step_record" where
  "entry_for st status duration err =
     \<lparr>srec_ID = ID st, srec_Status = status, srec_DurationMS = duration div 10 ^ 6,
      srec_Error = (case err of None \<Rightarrow> [] | Some e \<Rightarrow> error_text e)\<rparr>"

lemma record_result_fields [simp, state_simps]:
  "s_Results (record_result env x st status d err s) = s_Results s @ [result_of st status d err]"
  "s_Release (record_result env x st status d err s) = RecordTask (entry_for st status d err) (s_Release s)"
  "s_LockHeld (record_result env x st status d err s) = s_LockHeld s"
  "s_Required (record_result env x st status d err s) = s_Required s"
  by (simp_all add: record_result_def Let_def result_of_def entry_for_def)

lemma skip_with_fields [simp, state_simps]:
  "s_Results (skip_with env x st reason s) = s_Results s @ [result_of (st\<lparr>SkipReason := reason\<rparr>) StepSkipped 0 None]"
  "s_Release (skip_with env x st reason s) =
     RecordTask (entry_for (st\<lparr>SkipReason := reason\<rparr>) StepSkipped 0 None) (s_Release s)"
  "s_LockHeld (skip_with env x st reason s) = s_LockHeld s"
  by (simp_all add: skip_with_def)

lemma carryOver_fields [simp, state_simps]:
  "s_Results (carryOver env x st t s) =
     s_Results s @ [\<lparr>res_ID = ID st, res_Stage = Stage st, res_Status = StepSkipped, res_Duration = 0,
            res_Err = None, res_SkipReason = ''completed in the interrupted run''\<rparr>]"
  "s_Release (carryOver env x st t s) = RecordTask t (s_Release s)"
  "s_LockHeld (carryOver env x st t s) = s_LockHeld s"
  by (simp_all add: carryOver_def Let_def)

lemma result_of_fields [simp]:
  "res_ID (result_of st status d err) = ID st" "res_Stage (result_of st status d err) = Stage st"
  "res_Status (result_of st status d err) = status"
  by (simp_all add: result_of_def)

lemma entry_for_fields [simp]:
  "srec_ID (entry_for st status d err) = ID st" "srec_Status (entry_for st status d err) = status"
  by (simp_all add: entry_for_def)

lemma releaseLockAfterFailure_fields [simp, state_simps]:
  "s_Results (releaseLockAfterFailure env x s) = s_Results s"
  "s_Release (releaseLockAfterFailure env x s) = s_Release s"
  "s_LockHeld (releaseLockAfterFailure env x s) = s_LockHeld s"
  by (simp_all add: releaseLockAfterFailure_def)

lemma note_fields [simp]:
  "out_LockHeld (noteTransportFailure e out) = out_LockHeld out"
  "out_LockHeld (noteLockUnavailable e out) = out_LockHeld out"
  "out_AlreadyDeployed (noteTransportFailure e out) = out_AlreadyDeployed out"
  "out_AlreadyDeployed (noteLockUnavailable e out) = out_AlreadyDeployed out"
  "\<not> out_AlreadyDeployed no_outcome" "\<not> out_LockHeld no_outcome"
  by (simp_all add: noteTransportFailure_def noteLockUnavailable_def no_outcome_def)

lemma stop_failed_Stop:
  "\<exists>s'. stop_failed env x stg out err s = Stop s' (out\<lparr>out_LockHeld := LockKeptOnFailure stg\<rparr>) err \<and>
     s_Results s' = s_Results s \<and> s_LockHeld s' = s_LockHeld s \<and>
     s_Release s' = (s_Release s)\<lparr>rel_Status := StatusFailed\<rparr>"
  by (auto simp: stop_failed_def Let_def)

section \<open>What one step adds to the timeline\<close>

text \<open>
  A step either goes on with one more result, which is not a failure, or stops the run with at
  most one more result, a failure, and with the lock policy of its stage.
\<close>

definition step_reports :: "step \<Rightarrow> 'w run_state \<Rightarrow> 'w flow \<Rightarrow> bool" where
  "step_reports st s fl \<longleftrightarrow>
     (case fl of
        Next s' \<Rightarrow> \<exists>r. s_Results s' = s_Results s @ [r] \<and> res_ID r = ID st \<and> res_Status r \<in> {StepOK, StepSkipped}
      | Stop s' out e \<Rightarrow>
          out_LockHeld out = LockKeptOnFailure (Stage st) \<and> \<not> out_AlreadyDeployed out \<and>
          rel_Status (s_Release s') = StatusFailed \<and>
          (s_Results s' = s_Results s \<or>
           (\<exists>r. s_Results s' = s_Results s @ [r] \<and> res_ID r = ID st \<and> res_Status r = StepFailed)))"

lemma step_reports_Next:
  "s_Results s' = s_Results s @ [r] \<Longrightarrow> res_ID r = ID st \<Longrightarrow> res_Status r \<in> {StepOK, StepSkipped} \<Longrightarrow>
   step_reports st s (Next s')"
  by (auto simp: step_reports_def)

lemma step_reports_stop:
  assumes "s_Results s1 = s_Results s \<or>
      (\<exists>r. s_Results s1 = s_Results s @ [r] \<and> res_ID r = ID st \<and> res_Status r = StepFailed)"
    and "\<not> out_AlreadyDeployed out"
  shows "step_reports st s (stop_failed env x (Stage st) out e s1)"
  using stop_failed_Stop [of env x "Stage st" out e s1] assms by (auto simp: step_reports_def)

lemma skip_reports: "s_Results s1 = s_Results s \<Longrightarrow> step_reports st s (Next (skip_with env x st reason s1))"
  by (rule step_reports_Next [where r = "result_of (st\<lparr>SkipReason := reason\<rparr>) StepSkipped 0 None"]) simp_all

lemma execute_step_reports:
  assumes "s_Results s1 = s_Results s"
  shows "step_reports st s (execute_step env cores x p idx st s1)"
proof -
  let ?vs = "step_vars (x_Host x) (s_Release s1) (s_Vars s1)"
  obtain reuse w where reuse:
    "reuseSandboxAssets env (x_Host x) (x_Opts x) st ?vs (s_Release s1) (s_World s1) = (reuse, w)"
    by fastforce
  obtain err rel vs' w' where run: "runStep env cores x st (run_context x p st ?vs (s_Release s1))
      (timeout_for (x_Opts x) (s_Window s1) idx) w = ((err, rel, vs'), w')"
    by (metis prod.collapse)
  show ?thesis
  proof (cases reuse)
    case (Some reason)
    with reuse assms show ?thesis by (simp add: execute_step_def Let_def skip_reports)
  next
    case None
    show ?thesis
    proof (cases "if Optional st then None else err")
      case (Some e)
      then show ?thesis
        using reuse None run assms by (auto simp: execute_step_def Let_def intro!: step_reports_stop)
    next
      case no: None
      then show ?thesis
        using reuse None run assms
        by (auto simp: execute_step_def Let_def intro!: step_reports_Next)
    qed
  qed
qed

lemma decide_step_reports:
  "s_Results s1 = s_Results s \<Longrightarrow> step_reports st s (decide_step env cores x p idx st s1)"
  by (auto simp: decide_step_def intro: skip_reports execute_step_reports intro!: step_reports_stop)

lemma exec_step_reports:
  "step_reports st s (exec_step env cores x p completed carried idx st s)"
proof -
  have carry: "step_reports st s (Next (carryOver env x st t s))" for t
    by (rule step_reports_Next) auto
  have probe: "step_reports st s (probe_then_decide env cores x p idx st s)"
    unfolding probe_then_decide_def Let_def
    by (auto intro!: decide_step_reports step_reports_stop split: option.split prod.split sum.split)
  show ?thesis
    using carry probe by (auto simp: exec_step_def intro: skip_reports split: option.split)
qed

section \<open>The loop\<close>

definition loop_reports :: "step list \<Rightarrow> 'w run_state \<Rightarrow> 'w flow \<Rightarrow> bool" where
  "loop_reports sts s fl \<longleftrightarrow>
     (case fl of
        Next s' \<Rightarrow> \<exists>rs. s_Results s' = s_Results s @ rs \<and> map res_ID rs = map ID sts \<and>
          (\<forall>r \<in> set rs. res_Status r \<in> {StepOK, StepSkipped})
      | Stop s' out e \<Rightarrow> \<exists>before st after rs fail.
          sts = before @ st # after \<and> s_Results s' = s_Results s @ rs @ fail \<and>
          map res_ID rs = map ID before \<and> (\<forall>r \<in> set rs. res_Status r \<in> {StepOK, StepSkipped}) \<and>
          (fail = [] \<or> (\<exists>r. fail = [r] \<and> res_ID r = ID st \<and> res_Status r = StepFailed)) \<and>
          out_LockHeld out = LockKeptOnFailure (Stage st) \<and> \<not> out_AlreadyDeployed out \<and>
          rel_Status (s_Release s') = StatusFailed)"

lemma run_loop_reports:
  "loop_reports sts s (run_loop env cores x p completed carried idx sts s)"
proof (induction sts arbitrary: s idx)
  case Nil
  then show ?case by (simp add: loop_reports_def)
next
  case (Cons st sts)
  note one = exec_step_reports [of st s env cores x p completed carried idx]
  show ?case
  proof (cases "exec_step env cores x p completed carried idx st s")
    case (Stop s' out e)
    with one have "\<exists>fail. s_Results s' = s_Results s @ fail \<and>
        (fail = [] \<or> (\<exists>r. fail = [r] \<and> res_ID r = ID st \<and> res_Status r = StepFailed))"
      by (auto simp: step_reports_def)
    with one Stop show ?thesis
      by (fastforce simp: loop_reports_def step_reports_def intro: exI [of _ "[]"])
  next
    case (Next s1)
    with one obtain r where r: "s_Results s1 = s_Results s @ [r]" "res_ID r = ID st"
      "res_Status r \<in> {StepOK, StepSkipped}" by (auto simp: step_reports_def)
    note rest = Cons.IH [of s1 "Suc idx"]
    show ?thesis
    proof (cases "run_loop env cores x p completed carried (Suc idx) sts s1")
      case (Next s')
      with rest obtain rs where "s_Results s' = s_Results s1 @ rs" "map res_ID rs = map ID sts"
        "\<forall>r \<in> set rs. res_Status r \<in> {StepOK, StepSkipped}"
        by (auto simp: loop_reports_def)
      with r \<open>exec_step _ _ _ _ _ _ _ _ _ = Next s1\<close> Next show ?thesis
        by (auto simp: loop_reports_def intro!: exI [of _ "r # rs"])
    next
      case (Stop s' out e)
      with rest obtain before st' after rs fail where
        "sts = before @ st' # after" "s_Results s' = s_Results s1 @ rs @ fail"
        "map res_ID rs = map ID before" "\<forall>r \<in> set rs. res_Status r \<in> {StepOK, StepSkipped}"
        "fail = [] \<or> (\<exists>r. fail = [r] \<and> res_ID r = ID st' \<and> res_Status r = StepFailed)"
        "out_LockHeld out = LockKeptOnFailure (Stage st')" "\<not> out_AlreadyDeployed out"
        "rel_Status (s_Release s') = StatusFailed"
        unfolding Stop loop_reports_def flow.case by blast
      with r \<open>exec_step _ _ _ _ _ _ _ _ _ = Next s1\<close> Stop show ?thesis
        unfolding loop_reports_def
        by (simp only: run_loop.simps flow.case, intro exI [of _ "st # before"] exI [of _ st'] exI [of _ after]
              exI [of _ "r # rs"] exI [of _ fail]) auto
    qed
  qed
qed

lemma run_plan_reports:
  assumes "run_plan env cores x p completed carried started s = ((out, err), s')"
    and "s_Results s = []"
  shows "out_Steps out = s_Results s' \<and> \<not> out_AlreadyDeployed out \<and>
    (case err of
       None \<Rightarrow> map res_ID (out_Steps out) = StepIDs p \<and> rel_Status (s_Release s') = StatusOK \<and>
         (\<forall>r \<in> set (out_Steps out). res_Status r \<in> {StepOK, StepSkipped})
     | Some e \<Rightarrow> map res_ID (out_Steps out) = StepIDs p \<and> \<not> out_LockHeld out \<or>
         (\<exists>before st after rs fail. Steps p = before @ st # after \<and> out_Steps out = rs @ fail \<and>
            map res_ID rs = map ID before \<and> (\<forall>r \<in> set rs. res_Status r \<in> {StepOK, StepSkipped}) \<and>
            (fail = [] \<or> (\<exists>r. fail = [r] \<and> res_ID r = ID st \<and> res_Status r = StepFailed)) \<and>
            out_LockHeld out = LockKeptOnFailure (Stage st) \<and> rel_Status (s_Release s') = StatusFailed))"
proof (cases "run_loop env cores x p completed carried 0 (Steps p) s")
  case (Next s1)
  with run_loop_reports [of "Steps p" s env cores x p completed carried 0] assms(2)
  have "map res_ID (s_Results s1) = StepIDs p" "\<forall>r \<in> set (s_Results s1). res_Status r \<in> {StepOK, StepSkipped}"
    by (auto simp: loop_reports_def StepIDs_def)
  with Next assms(1) show ?thesis
    by (auto simp: run_plan_def complete_run_def Let_def finish_def split: prod.splits option.splits)
next
  case (Stop s1 out1 e)
  with run_loop_reports [of "Steps p" s env cores x p completed carried 0] assms(2)
  have "\<exists>before st after rs fail.
          Steps p = before @ st # after \<and> s_Results s1 = rs @ fail \<and>
          map res_ID rs = map ID before \<and> (\<forall>r \<in> set rs. res_Status r \<in> {StepOK, StepSkipped}) \<and>
          (fail = [] \<or> (\<exists>r. fail = [r] \<and> res_ID r = ID st \<and> res_Status r = StepFailed)) \<and>
          out_LockHeld out1 = LockKeptOnFailure (Stage st) \<and> \<not> out_AlreadyDeployed out1 \<and>
          rel_Status (s_Release s1) = StatusFailed"
    unfolding Stop loop_reports_def flow.case by simp
  moreover have "out = finish env started s1 out1" "err = Some e" "s' = s1"
    using assms(1) Stop by (auto simp: run_plan_def)
  ultimately show ?thesis by (simp add: finish_def) blast
qed

text \<open>The ways a run ends before its loop, or its loop.\<close>

lemma Run_cases:
  assumes "Run env cores x p vs release w = ((out, err), s')"
  obtains
    (deployed) w1 where "already_deployed env x (start_release x release) w = (True, w1)"
      "out_AlreadyDeployed out" "err = None" "out_Steps out = []" "s_World s' = w1" "\<not> out_LockHeld out"
      "s_Results s' = []"
  | (refused) e w1 rel1 w2 carried1 verdict rel2 w3 completed held w4 where "err = Some (Wrapf ''acquire the deploy lock: %w'' [] e)" "out_Steps out = []"
      "\<not> out_LockHeld out" "\<not> out_AlreadyDeployed out" "s_Results s' = []"
      "already_deployed env x (start_release x release) w = (False, w1)"
      "note_previous env x (start_release x release) w1 = (rel1, w2)"
      "resume_from env x rel1 w2 = ((carried1, verdict, rel2), w3)"
      "take_lock_early env x completed vs rel2 w3 = ((Some e, held), w4)" "s_World s' = w4"
  | (looped) w1 rel1 w2 carried1 verdict rel2 w3 completed carried held w4 where
      "already_deployed env x (start_release x release) w = (False, w1)"
      "note_previous env x (start_release x release) w1 = (rel1, w2)"
      "resume_from env x rel1 w2 = ((carried1, verdict, rel2), w3)"
      "apply_from (opt_From (x_Opts x)) p (map fst carried1, carried1) = (completed, carried)"
      "take_lock_early env x completed vs rel2 w3 = ((None, held), w4)"
      "run_plan env cores x p completed carried (e_Clock env w)
         (initial_state vs rel2 held verdict (maintenanceWindow p) w4) = ((out, err), s')"
proof -
  obtain b w1 where dep: "already_deployed env x (start_release x release) w = (b, w1)" by fastforce
  obtain rel1 w2 where prev: "note_previous env x (start_release x release) w1 = (rel1, w2)" by fastforce
  obtain carried1 verdict rel2 w3 where res: "resume_from env x rel1 w2 = ((carried1, verdict, rel2), w3)"
    by (metis prod.collapse)
  obtain completed carried where
    frm: "apply_from (opt_From (x_Opts x)) p (map fst carried1, carried1) = (completed, carried)" by fastforce
  obtain e held w4 where lock: "take_lock_early env x completed vs rel2 w3 = ((e, held), w4)"
    by (metis prod.collapse)
  show ?thesis
  proof (cases b)
    case True
    with dep assms deployed show ?thesis
      by (auto simp: Run_def Let_def finish_def initial_state_def no_outcome_def)
  next
    case False
    show ?thesis
    proof (cases e)
      case None
      with False dep prev res frm lock assms looped show ?thesis by (auto simp: Run_def Let_def)
    next
      case (Some err1)
      have run: "out = finish env (e_Clock env w) (initial_state vs rel2 False verdict {} w4)
          (noteTransportFailure err1 no_outcome)" "err = Some (Wrapf ''acquire the deploy lock: %w'' [] err1)"
        "s' = initial_state vs rel2 False verdict {} w4"
        using False dep prev res frm lock Some assms by (auto simp: Run_def Let_def)
      show ?thesis
        by (rule refused [where e = err1, OF _ _ _ _ _ _ prev res lock [unfolded Some]])
          (use run dep False in \<open>simp_all add: finish_def initial_state_def\<close>)
    qed
  qed
qed

end
