(* ===== verification/CoreContract.thy ===== *)
theory CoreContract
  imports ExecuteRun
begin

text \<open>
  What the executor relies on in a Go implementation of a step: it may fill in the release,
  but it leaves the recorded steps alone and never takes away a release's number.  The
  implementations modelled here keep the contract, and the executor's treatment of the record
  rests on it.
\<close>

section \<open>The contract\<close>

locale step_core =
  fixes run :: "'w core_run"
  assumes keeps_record: "run env sc w = ((e, Some rel, vs), w') \<Longrightarrow>
    \<exists>old. sc_Release sc = Some old \<and> rel_Tasks rel = rel_Tasks old \<and>
      (rel_Release old \<noteq> [] \<longrightarrow> rel_Release rel \<noteq> [])"
begin

lemma release_after:
  assumes "run env sc w = ((e, r, vs), w')" and "sc_Release sc = Some old"
  shows "rel_Tasks (the_release r old) = rel_Tasks old"
    and "rel_Release old \<noteq> [] \<Longrightarrow> rel_Release (the_release r old) \<noteq> []"
  using keeps_record [of env sc w e _ vs w'] assms by (auto simp: the_release_def split: option.splits)

end

lemma plain_core_contract: "step_core (plain_core f)"
  by unfold_locales (auto simp: plain_core_def split: prod.splits)

interpretation lock_core: step_core "plain_core CoreLock"
  by (rule plain_core_contract)

interpretation unlock_core: step_core "plain_core CoreUnlock"
  by (rule plain_core_contract)

interpretation record_core: step_core "plain_core CoreRecord"
  by (rule plain_core_contract)

interpretation cleanup_core: step_core "plain_core CoreCleanup"
  by (rule plain_core_contract)

lemma set_release_kept:
  "number \<noteq> [] \<Longrightarrow> set_release number path r = Some rel \<Longrightarrow>
   \<exists>old. r = Some old \<and> rel_Tasks rel = rel_Tasks old \<and> rel_Release rel \<noteq> []"
  by (auto simp: set_release_def)

lemma create_release_record:
  assumes "number \<noteq> []" and "create_release number env sc w = ((e, Some rel), w')"
  shows "\<exists>old. sc_Release sc = Some old \<and> rel_Tasks rel = rel_Tasks old \<and>
    (rel_Release old \<noteq> [] \<longrightarrow> rel_Release rel \<noteq> [])"
  using assms
  by (auto simp: create_release_def Let_def dest: set_release_kept split: prod.splits option.splits if_splits bool.splits)

interpretation release_core: step_core "record_core CoreRelease"
proof unfold_locales
  fix env :: "'a env" and sc w e rel vs w'
  assume run: "record_core CoreRelease env sc w = ((e, Some rel, vs), w')"
  show "\<exists>old. sc_Release sc = Some old \<and> rel_Tasks rel = rel_Tasks old \<and>
      (rel_Release old \<noteq> [] \<longrightarrow> rel_Release rel \<noteq> [])"
  proof (cases "fixed_number sc \<noteq> []")
    case True
    with run show ?thesis
      by (auto simp: record_core_def CoreRelease_def intro: create_release_record split: prod.splits)
  next
    case False
    have "n \<noteq> []" if "NextReleaseNumber env (sc_Host sc) w = (Inr n, w1)" for n w1
      using that by (auto simp: NextReleaseNumber_def next_number_def split: prod.splits option.splits)
    with False run show ?thesis
      by (auto simp: record_core_def CoreRelease_def intro: create_release_record split: prod.splits sum.splits)
  qed
qed

interpretation backup_core: step_core "CoreDBBackup command" for command
  by unfold_locales (auto simp: CoreDBBackup_def Let_def split: if_splits option.splits prod.splits)

interpretation check_core: step_core "plain_core CoreCheck"
  by (rule plain_core_contract)

interpretation code_core: step_core "plain_core CoreCode"
  by (rule plain_core_contract)

interpretation shared_core: step_core "plain_core CoreShared"
  by (rule plain_core_contract)

interpretation writable_core: step_core "plain_core CoreWritable"
  by (rule plain_core_contract)

text \<open>An implementation that keeps the entries and the number of the record it is given.\<close>

lemma record_core_contract:
  assumes "\<And>env sc w e rel w'. f env sc w = ((e, Some rel), w') \<Longrightarrow>
    \<exists>old. sc_Release sc = Some old \<and> rel_Tasks rel = rel_Tasks old \<and> rel_Release rel = rel_Release old"
  shows "step_core (record_core f)"
  by unfold_locales (auto simp: record_core_def split: prod.splits dest!: assms)

interpretation activate_core: step_core "record_core CoreActivate"
  by (rule record_core_contract)
    (auto simp: CoreActivate_def activateInPlace_def note_strategy_def Let_def
      split: if_splits prod.splits sum.splits)

interpretation artifact_core: step_core "record_core CoreArtifact"
  by (rule record_core_contract)
    (auto simp: CoreArtifact_def note_artifact_def Let_def split: if_splits prod.splits sum.splits option.splits)

interpretation verify_core: step_core "record_core CoreVerify"
  by (rule record_core_contract) (auto simp: CoreVerify_def split: if_splits prod.splits option.splits)

lemma core_run_contract: "step_core (core_run c)"
  by (cases c) (simp_all add: core_run_def plain_core_contract release_core.step_core_axioms
      activate_core.step_core_axioms artifact_core.step_core_axioms verify_core.step_core_axioms
      backup_core.step_core_axioms)

section \<open>One step\<close>

text \<open>The recorded entry of a step.\<close>

definition entry_in :: "release \<Rightarrow> string \<Rightarrow> step_record option" where
  "entry_in rel tid = map_of (map (\<lambda>t. (srec_ID t, t)) (rel_Tasks rel)) tid"

lemma entry_in_RecordTask [simp]:
  "entry_in (RecordTask t rel) tid = (if tid = srec_ID t then Some t else entry_in rel tid)"
  by (simp add: entry_in_def RecordTask_def release_tasks.lookup_put)

lemma entry_in_tasks: "rel_Tasks rel = rel_Tasks rel' \<Longrightarrow> entry_in rel tid = entry_in rel' tid"
  by (simp add: entry_in_def)

lemma entry_in_status [simp]: "entry_in (rel\<lparr>rel_Status := v\<rparr>) tid = entry_in rel tid"
  by (simp add: entry_in_def)

lemma RecordTask_number [simp]: "rel_Release (RecordTask t rel) = rel_Release rel"
  by (simp add: RecordTask_def)

fun flow_state :: "'w flow \<Rightarrow> 'w run_state" where
  "flow_state (Next s) = s"
| "flow_state (Stop s out e) = s"

lemma flow_state_stop_failed [simp]:
  "s_Release (flow_state (stop_failed env x stg out e s)) = (s_Release s)\<lparr>rel_Status := StatusFailed\<rparr>"
  "s_Results (flow_state (stop_failed env x stg out e s)) = s_Results s"
  "s_LockHeld (flow_state (stop_failed env x stg out e s)) = s_LockHeld s"
  using stop_failed_Stop [of env x stg out e s] by auto

text \<open>
  A step leaves the entries of the others alone, keeps a number, and is reported as run past
  the prepare stage only where the release has one.
\<close>

definition keeps_others :: "step \<Rightarrow> 'w run_state \<Rightarrow> 'w run_state \<Rightarrow> bool" where
  "keeps_others st s s' \<longleftrightarrow>
     (rel_Release (s_Release s) \<noteq> [] \<longrightarrow> rel_Release (s_Release s') \<noteq> []) \<and>
     (\<forall>tid. tid \<noteq> ID st \<longrightarrow> entry_in (s_Release s') tid = entry_in (s_Release s) tid) \<and>
     (\<exists>rs. s_Results s' = s_Results s @ rs \<and>
        (\<forall>r \<in> set rs. res_Status r = StepOK \<longrightarrow> res_Stage r \<noteq> StagePrepare \<longrightarrow>
           rel_Release (s_Release s') \<noteq> []))"

lemma keeps_othersI:
  assumes "rel_Release (s_Release s) \<noteq> [] \<Longrightarrow> rel_Release (s_Release s') \<noteq> []"
    and "\<And>tid. tid \<noteq> ID st \<Longrightarrow> entry_in (s_Release s') tid = entry_in (s_Release s) tid"
    and "s_Results s' = s_Results s @ rs"
    and "\<And>r. r \<in> set rs \<Longrightarrow> res_Status r = StepOK \<Longrightarrow> res_Stage r \<noteq> StagePrepare \<Longrightarrow>
      rel_Release (s_Release s') \<noteq> []"
  shows "keeps_others st s s'"
  using assms unfolding keeps_others_def by blast

lemma skip_keeps_others:
  assumes "s_Results s1 = s_Results s" and "s_Release s1 = s_Release s"
  shows "keeps_others st s (skip_with env x st reason s1)"
  by (rule keeps_othersI [where rs = "[result_of (st\<lparr>SkipReason := reason\<rparr>) StepSkipped 0 None]"])
    (simp_all add: assms status_defs)

lemma runStep_release:
  assumes cores: "\<And>c. step_core (cores c)"
    and run: "runStep env cores x st sc timeout w = ((err, r, vs), w')" and "sc_Release sc = Some old"
  shows "rel_Tasks (the_release r old) = rel_Tasks old \<and>
    (rel_Release old \<noteq> [] \<longrightarrow> rel_Release (the_release r old) \<noteq> [])"
proof (cases "core st")
  case (Some c)
  with run have "cores c env sc w = ((err, r, vs), w')" by (simp add: runStep_def)
  from step_core.release_after [OF cores this assms(3)] show ?thesis by blast
next
  case None
  with run assms(3) have "r = Some old"
    by (auto simp: runStep_def Let_def split: sum.splits prod.splits)
  then show ?thesis by (simp add: the_release_def)
qed

lemma execute_step_keeps_others:
  assumes cores: "\<And>c. step_core (cores c)"
    and number: "rel_Release (s_Release s1) \<noteq> [] \<or> Stage st = StagePrepare"
    and same: "s_Results s1 = s_Results s" "s_Release s1 = s_Release s"
  shows "keeps_others st s (flow_state (execute_step env cores x p idx st s1))"
proof -
  let ?vs = "step_vars (x_Host x) (s_Release s1) (s_Vars s1)"
  obtain reuse w where reuse:
    "reuseSandboxAssets env (x_Host x) (x_Opts x) st ?vs (s_Release s1) (s_World s1) = (reuse, w)"
    by fastforce
  show ?thesis
  proof (cases reuse)
    case (Some reason)
    with reuse same show ?thesis by (simp add: execute_step_def Let_def skip_keeps_others)
  next
    case None
    let ?sc = "run_context x p st ?vs (s_Release s1)"
    let ?timeout = "timeout_for (x_Opts x) (s_Window s1) idx"
    obtain err r vs' w' where run: "runStep env cores x st ?sc ?timeout w = ((err, r, vs'), w')"
      by (metis prod.collapse)
    have "sc_Release ?sc = Some (s_Release s1)" by (simp add: run_context_def)
    from runStep_release [OF cores run this]
    have kept: "rel_Tasks (the_release r (s_Release s)) = rel_Tasks (s_Release s)"
      and named: "rel_Release (s_Release s) \<noteq> [] \<Longrightarrow> rel_Release (the_release r (s_Release s)) \<noteq> []"
      using same by auto
    let ?d = "e_Clock env w' - e_Clock env w"
    have entries: "entry_in (the_release r (s_Release s)) tid = entry_in (s_Release s) tid" for tid
      using kept by (rule entry_in_tasks)
    show ?thesis
    proof (cases "if Optional st then None else err")
      case (Some e)
      then show ?thesis
        using reuse None run
        by (auto simp: execute_step_def Let_def same entries status_defs dest: named
            intro!: keeps_othersI [where rs = "[result_of st StepFailed ?d (Some e)]"])
    next
      case no: None
      then show ?thesis
        using reuse None run number
        by (auto simp: execute_step_def Let_def same entries dest: named
            intro!: keeps_othersI [where rs = "[result_of st StepOK ?d None]"])
    qed
  qed
qed

lemma decide_step_keeps_others:
  assumes cores: "\<And>c. step_core (cores c)" and same: "s_Results s1 = s_Results s" "s_Release s1 = s_Release s"
  shows "keeps_others st s (flow_state (decide_step env cores x p idx st s1))"
proof -
  let ?e = "no_number_error (ID st)"
  have failed: "keeps_others st s (flow_state (stop_failed env x (Stage st) no_outcome e'
      (record_result env x st StepFailed 0 (Some ?e) s1)))" for e'
    by (rule keeps_othersI [where rs = "[result_of st StepFailed 0 (Some ?e)]"]) 
      (simp_all add: same status_defs)
  show ?thesis
    using failed skip_keeps_others [OF same] execute_step_keeps_others [OF cores _ same]
    by (auto simp: decide_step_def same)
qed

lemma keeps_others_from:
  assumes "keeps_others st s1 s'" and "s_Results s1 = s_Results s"
    and "rel_Tasks (s_Release s1) = rel_Tasks (s_Release s)" "rel_Release (s_Release s1) = rel_Release (s_Release s)"
  shows "keeps_others st s s'"
  using assms(1) entry_in_tasks [OF assms(3)] by (simp add: keeps_others_def assms(2,4))

lemma probe_keeps_others:
  assumes cores: "\<And>c. step_core (cores c)"
  shows "keeps_others st s (flow_state (probe_then_decide env cores x p idx st s))"
proof (cases "if NeedsMigration st \<and> \<not> s_ProbeDone s then plan_MigrationProbe p else None")
  case None
  then show ?thesis using decide_step_keeps_others [OF cores] by (simp add: probe_then_decide_def)
next
  case (Some probe)
  let ?vs = "probe_vars (x_Host x) (s_Release s) (s_Vars s)"
  obtain answer w where asked: "checkMigrationRequired env x probe ?vs (s_Release s) (s_World s) = (answer, w)"
    by fastforce
  show ?thesis
  proof (cases answer)
    case (Inl e)
    with Some asked show ?thesis
      by (auto simp: probe_then_decide_def Let_def intro!: keeps_othersI [where rs = "[]"])
  next
    case (Inr verdict)
    then obtain required code where "answer = Inr (required, code)" by (cases verdict) auto
    with Some asked show ?thesis
      by (auto simp: probe_then_decide_def Let_def intro: keeps_others_from [OF decide_step_keeps_others [OF cores]])
  qed
qed

definition well_keyed :: "(string \<times> step_record) list \<Rightarrow> bool" where
  "well_keyed carried \<longleftrightarrow> (\<forall>(sid, t) \<in> set carried. srec_ID t = sid)"

lemma well_keyedD: "well_keyed carried \<Longrightarrow> map_of carried sid = Some t \<Longrightarrow> srec_ID t = sid"
  by (auto simp: well_keyed_def dest: map_of_SomeD)

lemma exec_step_keeps_others:
  assumes "\<And>c. step_core (cores c)" and "well_keyed carried"
  shows "keeps_others st s (flow_state (exec_step env cores x p completed carried idx st s))"
proof -
  have "keeps_others st s (carryOver env x st t s)" if "srec_ID t = ID st" for t
    by (rule keeps_othersI [where rs = "drop (length (s_Results s)) (s_Results (carryOver env x st t s))"])
      (simp_all add: that status_defs)
  moreover have "keeps_others st s (skip_with env x st reason s)" for reason
    by (rule skip_keeps_others) simp_all
  moreover have "keeps_others st s (flow_state (probe_then_decide env cores x p idx st s))"
    using assms(1) by (rule probe_keeps_others)
  ultimately show ?thesis
    using well_keyedD [OF assms(2)] by (auto simp: exec_step_def split: option.split)
qed

section \<open>The loop\<close>

definition ok_numbered :: "'w run_state \<Rightarrow> bool" where
  "ok_numbered s \<longleftrightarrow>
     (\<forall>r \<in> set (s_Results s). res_Status r = StepOK \<longrightarrow> res_Stage r \<noteq> StagePrepare \<longrightarrow>
        rel_Release (s_Release s) \<noteq> [])"

lemma keeps_others_ok_numbered: "keeps_others st s s' \<Longrightarrow> ok_numbered s \<Longrightarrow> ok_numbered s'"
  unfolding keeps_others_def ok_numbered_def by (metis Un_iff set_append)

lemma run_loop_ok_numbered:
  assumes "\<And>c. step_core (cores c)" and "well_keyed carried"
  shows "ok_numbered s \<Longrightarrow> ok_numbered (flow_state (run_loop env cores x p completed carried idx sts s))"
proof (induction sts arbitrary: s idx)
  case Nil
  then show ?case by simp
next
  case (Cons st sts)
  have "ok_numbered (flow_state (exec_step env cores x p completed carried idx st s))"
    using exec_step_keeps_others [OF assms] Cons.prems by (rule keeps_others_ok_numbered)
  with Cons.IH show ?case by (auto split: flow.split)
qed

text \<open>What the timeline says of a step carried over from an interrupted run.\<close>

definition carried_result :: "step \<Rightarrow> step_result" where
  "carried_result st =
     \<lparr>res_ID = ID st, res_Stage = Stage st, res_Status = StepSkipped, res_Duration = 0,
      res_Err = None, res_SkipReason = ''completed in the interrupted run''\<rparr>"

definition carried_kept ::
  "string list \<Rightarrow> (string \<times> step_record) list \<Rightarrow> step list \<Rightarrow> 'w run_state \<Rightarrow> bool" where
  "carried_kept completed carried sts s \<longleftrightarrow>
     (\<forall>st \<in> set sts. \<forall>t. ID st \<in> set completed \<longrightarrow> map_of carried (ID st) = Some t \<longrightarrow>
        entry_in (s_Release s) (ID st) = Some t \<and> carried_result st \<in> set (s_Results s))"

lemma keeps_others_carried:
  assumes "keeps_others st s s'" and "ID st \<notin> ID ` set sts" and "carried_kept completed carried sts s"
  shows "carried_kept completed carried sts s'"
proof -
  from assms(1) obtain rs where "s_Results s' = s_Results s @ rs"
    "\<forall>tid. tid \<noteq> ID st \<longrightarrow> entry_in (s_Release s') tid = entry_in (s_Release s) tid"
    by (auto simp: keeps_others_def)
  with assms(2,3) show ?thesis unfolding carried_kept_def by (metis Un_iff image_eqI set_append)
qed

lemma run_loop_carried:
  assumes cores: "\<And>c. step_core (cores c)"
    and keyed: "well_keyed carried"
  shows "run_loop env cores x p completed carried idx sts s = Next s' \<Longrightarrow> distinct (map ID (seen @ sts)) \<Longrightarrow>
    carried_kept completed carried seen s \<Longrightarrow> carried_kept completed carried (seen @ sts) s'"
proof (induction sts arbitrary: s idx seen)
  case Nil
  then show ?case by simp
next
  case (Cons st sts)
  then obtain s1 where step: "exec_step env cores x p completed carried idx st s = Next s1"
    and rest: "run_loop env cores x p completed carried (Suc idx) sts s1 = Next s'"
    by (auto split: flow.splits)
  have "keeps_others st s s1"
    using exec_step_keeps_others [of cores carried st s env x p completed idx, OF cores keyed] step by simp
  moreover have "ID st \<notin> ID ` set seen" using Cons.prems(2) by auto
  ultimately have "carried_kept completed carried seen s1" using Cons.prems(3) by (rule keeps_others_carried)
  moreover have "entry_in (s_Release s1) (ID st) = Some t \<and> carried_result st \<in> set (s_Results s1)"
    if "ID st \<in> set completed" "map_of carried (ID st) = Some t" for t
    using step that well_keyedD [OF keyed that(2)] by (auto simp: exec_step_def carried_result_def)
  ultimately have "carried_kept completed carried (seen @ [st]) s1"
    by (auto simp: carried_kept_def)
  from Cons.IH [OF rest _ this] Cons.prems(2) show ?case by simp
qed

section \<open>The run\<close>

lemma complete_run_state:
  "complete_run env x started s = ((out, err), s') \<Longrightarrow>
   out_Steps out = s_Results s \<and> s_Results s' = s_Results s \<and>
   s_Release s' = (s_Release s)\<lparr>rel_Status := StatusOK\<rparr>"
  by (auto simp: complete_run_def Let_def finish_def split: prod.splits option.splits)

lemma run_plan_state:
  assumes "run_plan env cores x p completed carried started s = ((out, err), s')"
    and "run_loop env cores x p completed carried 0 (Steps p) s = fl"
  shows "out_Steps out = s_Results (flow_state fl) \<and> s_Results s' = s_Results (flow_state fl) \<and>
    rel_Release (s_Release s') = rel_Release (s_Release (flow_state fl)) \<and>
    (\<forall>tid. entry_in (s_Release s') tid = entry_in (s_Release (flow_state fl)) tid)"
proof (cases fl)
  case (Next s1)
  with assms complete_run_state [of env x started s1 out err s'] show ?thesis by (simp add: run_plan_def)
next
  case (Stop s1 out1 e)
  with assms show ?thesis by (auto simp: run_plan_def finish_def)
qed

lemma run_plan_ok:
  "run_plan env cores x p completed carried started s = ((out, None), s') \<Longrightarrow>
   \<exists>s1. run_loop env cores x p completed carried 0 (Steps p) s = Next s1"
  by (auto simp: run_plan_def split: flow.splits)

lemma carried_from_keyed: "well_keyed (carried_from previous)"
  by (auto simp: well_keyed_def carried_from_def)

lemma well_keyed_Nil [simp]: "well_keyed []"
  by (simp add: well_keyed_def)

lemma resume_from_keyed: "resume_from env x rel w = ((carried, verdict, rel'), w') \<Longrightarrow> well_keyed carried"
  by (auto simp: resume_from_def carried_from_keyed split: if_splits prod.splits sum.splits)

lemma apply_from_keyed: "apply_from sid p marks = (completed, carried) \<Longrightarrow> well_keyed (snd marks) \<Longrightarrow> well_keyed carried"
  by (auto simp: apply_from_def Let_def well_keyed_def split: prod.splits if_splits option.splits)

lemma start_release_number [simp]: "rel_Release (start_release x rel) = rel_Release rel"
  by (simp add: start_release_def Let_def)

lemma note_previous_number: "note_previous env x rel w = (rel', w') \<Longrightarrow> rel_Release rel' = rel_Release rel"
  by (auto simp: note_previous_def split: if_splits prod.splits)

lemma carried_from_lookup:
  assumes "distinct (map srec_ID (rel_Tasks previous))" and "t \<in> set (rel_Tasks previous)" and "carried_entry t"
  shows "map_of (carried_from previous) (srec_ID t) = Some t"
proof (rule map_of_is_SomeI)
  have "distinct (map srec_ID (filter carried_entry (rel_Tasks previous)))"
    using assms(1) by (rule distinct_map_filter)
  then show "distinct (map fst (carried_from previous))"
    by (simp add: carried_from_def comp_def rev_map [symmetric])
  show "(srec_ID t, t) \<in> set (carried_from previous)"
    using assms(2,3) by (auto simp: carried_from_def)
qed

end
