(* ===== verification/RunProps.thy ===== *)
theory RunProps
  imports CoreContract
begin

text \<open>
  Properties of a run of the executor: the timeline, where it stops, the lock policy of the
  stage it stops in, what a resume keeps of the record, and the migration probe's verdict.
\<close>

section \<open>A run\<close>

text \<open>
  A plan of one command in the publish stage, on a target where testing for a file and
  \<open>false\<close> fail and every other command succeeds.
\<close>

definition command_step :: "string \<Rightarrow> stage \<Rightarrow> string \<Rightarrow> core_fn option \<Rightarrow> step" where
  "command_step sid stg command c =
     \<lparr>ID = sid, Kind = StepTask, Stage = stg, Title = sid, Command = command, RunOn = RunRemote,
      Optional = False, NeedsApplication = False, NeedsMigration = False, ReusableOutputs = [],
      Source = [], Checks = [], Skipped = False, SkipReason = [], order = 0, core = c\<rparr>"

definition run_env :: "unit env" where
  "run_env =
     \<lparr>e_Run = (\<lambda>opts cmd w.
        if take 5 cmd \<in> set [''test '', ''false''] then
          ((\<lparr>Stdout = [], Stderr = [], ExitCode = 1\<rparr>, Some (CommandError [] 1 [])), w)
        else ((\<lparr>Stdout = [], Stderr = [], ExitCode = 0\<rparr>, None), w)),
      e_RunLocal = (\<lambda>opts cmd w. ((\<lparr>Stdout = [], Stderr = [], ExitCode = 0\<rparr>, None), w)),
      e_Marshal = (\<lambda>r. Inr []), e_Unmarshal = (\<lambda>s. Inl (Sentinel ErrReleaseExists)),
      e_UnmarshalOwner = (\<lambda>s. None), e_Clock = (\<lambda>w. 0), e_FormatTime = (\<lambda>t. []),
      e_ParseTime = (\<lambda>s. None), e_Getenv = (\<lambda>s. []), e_Pid = 42,
      e_Sha256 = (\<lambda>s. s), e_MarshalAssets = fst, e_UnmarshalAssets = (\<lambda>s. None), e_Machine = bare_machine\<rparr>"

definition bare_options :: options where
  "bare_options =
     \<lparr>opt_Branch = ''main'', opt_Revision = [], opt_Tag = [], opt_Repository = [], opt_Build = [],
      opt_ArtifactDir = [], opt_Publish = [], opt_KeepReleases = 5, opt_Verify = False, opt_VerifyURL = [],
      opt_VerifyTimeout = 0, opt_VerifyFollowRedirects = False, opt_VerifyRejectPaths = [],
      opt_LockStaleAfter = 0, opt_MaintenanceTimeout = 0, opt_DBBackup = False,
      opt_DBBackupProbe = \<lparr>dump_Command = [], dump_Needs = []\<rparr>, opt_SkipLock = False,
      opt_IgnoreDeployerLock = False, opt_CommandTimeout = 0, opt_Resume = False, opt_From = [],
      opt_Force = False, opt_Yes = False, opt_JSON = False, opt_Verbose = False, opt_Settings = [],
      opt_RawSettings = [], opt_Hooks = []\<rparr>"

definition bare_host :: host where
  "bare_host = \<lparr>h_Name = ''t'', h_Local = False,
     h_Remote = plain_remote [] None,
     h_DeployPath = ''/d'', h_CurrentPath = ''/d/current'', h_Repository = []\<rparr>"

definition demo_executor :: executor where
  "demo_executor = NewExecutor run_env bare_host bare_options [] False"

definition one_command :: "string \<Rightarrow> plan" where
  "one_command command =
     \<lparr>Steps = [command_step TaskDBMigrate StagePublish command None],
      plan_MigrationProbe = None, plan_VerifyRejectPaths = []\<rparr>"

definition demo_run :: "string \<Rightarrow> (run_outcome \<times> go_error option) \<times> unit run_state" where
  "demo_run number =
     Run run_env core_run demo_executor (one_command ''true'') NewVars
       (NewRelease (\<lambda>_. []) [] number [] ''main'') ()"

lemma demo_run_Run:
  "Run run_env core_run demo_executor (one_command ''true'') NewVars
     (NewRelease (\<lambda>_. []) [] number [] ''main'') () =
   ((fst (fst (demo_run number)), snd (fst (demo_run number))), snd (demo_run number))"
  by (simp add: demo_run_def)

section \<open>Properties\<close>

text \<open>
  C6. The timeline of a run follows the plan.  A run that reports no error has an entry for
  every step of the plan, none failed, and records the release as ok; a run that stops in the
  loop reports the steps before the one it stops at, then at most that step as failed, and
  nothing after it.
\<close>

theorem Run_timeline:
  assumes "Run env cores x p vs release w = ((out, err), s)"
  shows "case err of
       None \<Rightarrow> out_AlreadyDeployed out \<and> out_Steps out = [] \<or>
         map res_ID (out_Steps out) = StepIDs p \<and> rel_Status (s_Release s) = StatusOK \<and>
         (\<forall>r \<in> set (out_Steps out). res_Status r \<in> {StepOK, StepSkipped})
     | Some e \<Rightarrow> out_Steps out = [] \<or> map res_ID (out_Steps out) = StepIDs p \<or>
         (\<exists>before st after rs fail. Steps p = before @ st # after \<and> out_Steps out = rs @ fail \<and>
            map res_ID rs = map ID before \<and> (\<forall>r \<in> set rs. res_Status r \<in> {StepOK, StepSkipped}) \<and>
            (fail = [] \<or> (\<exists>r. fail = [r] \<and> res_ID r = ID st \<and> res_Status r = StepFailed)))"
  using assms
proof (cases rule: Run_cases)
  case deployed
  then show ?thesis by simp
next
  case (refused e)
  then show ?thesis by simp
next
  case (looped w1 rel1 w2 carried1 verdict rel2 w3 completed carried held w4)
  have "s_Results (initial_state vs rel2 held verdict (maintenanceWindow p) w4) = []"
    by (simp add: initial_state_def)
  note reports = run_plan_reports [OF looped(6) this]
  show ?thesis
  proof (cases err)
    case None
    with reports show ?thesis unfolding None option.case by metis
  next
    case (Some e)
    with reports show ?thesis unfolding Some option.case by blast
  qed
qed

theorem Run_timeline_witness:
  "map res_ID (out_Steps (fst (fst (demo_run ''7'')))) = [TaskDBMigrate] \<and>
   rel_Status (s_Release (snd (demo_run ''7''))) = StatusOK"
proof -
  have "snd (fst (demo_run ''7'')) = None" "\<not> out_AlreadyDeployed (fst (fst (demo_run ''7'')))"
    by code_simp+
  with Run_timeline [OF demo_run_Run [of "''7''"]] show ?thesis
    by (simp add: StepIDs_def one_command_def command_step_def)
qed



text \<open>
  Nothing past the prepare stage runs without a release number: when a step of a later
  stage is reported as run, the release has one, whatever the implementations do that keep
  the executor's contract.
\<close>

theorem Run_numbered:
  assumes cores: "\<And>c. step_core (cores c)"
    and run: "Run env cores x p vs release w = ((out, err), s)"
    and result: "r \<in> set (out_Steps out)" "res_Status r = StepOK" "res_Stage r \<noteq> StagePrepare"
  shows "rel_Release (s_Release s) \<noteq> []"
  using run
proof (cases rule: Run_cases)
  case (looped w1 rel1 w2 carried1 verdict rel2 w3 completed carried held w4)
  let ?s0 = "initial_state vs rel2 held verdict (maintenanceWindow p) w4"
  have "well_keyed carried"
    using apply_from_keyed [OF looped(4)] resume_from_keyed [OF looped(3)] by simp
  moreover have "ok_numbered ?s0" by (simp add: ok_numbered_def initial_state_def)
  ultimately have "ok_numbered (flow_state (run_loop env cores x p completed carried 0 (Steps p) ?s0))"
    using cores by (intro run_loop_ok_numbered)
  with run_plan_state [OF looped(6) refl] result show ?thesis by (auto simp: ok_numbered_def)
qed (use result in simp_all)

theorem Run_numbered_witness: "rel_Release (s_Release (snd (demo_run ''7''))) \<noteq> []"
proof -
  have contract: "step_core (core_run c)" for c :: core_fn
    by (rule core_run_contract)
  have steps: "out_Steps (fst (fst (demo_run ''7''))) \<noteq> []"
    "res_Status (hd (out_Steps (fst (fst (demo_run ''7''))))) = StepOK"
    "res_Stage (hd (out_Steps (fst (fst (demo_run ''7''))))) \<noteq> StagePrepare"
    by code_simp+
  show ?thesis
    by (rule Run_numbered [OF contract demo_run_Run hd_in_set [OF steps(1)] steps(2,3)])
qed


text \<open>A stored record of this release whose migration step succeeded.\<close>

definition stored_record :: release where
  "stored_record =
     \<lparr>rel_SchemaVersion = 1, rel_Tool = [], rel_Release = [], rel_Revision = [], rel_Branch = [],
      rel_CreatedAt = [], rel_CreatedBy = [], rel_CI = None,
      rel_Build = \<lparr>bld_Mode = [], bld_DurationMS = 0, bld_ArtifactRevision = [],
        bld_ArtifactFiles = 0, bld_ArtifactBytes = 0\<rparr>,
      rel_Tasks = [\<lparr>srec_ID = TaskDBMigrate, srec_Status = StepOK, srec_DurationMS = 0, srec_Error = []\<rparr>],
      rel_Publish = \<lparr>pub_Strategy = [], pub_Docroot = [], pub_PreviousRelease = []\<rparr>,
      rel_Verify = \<lparr>ver_Status = [], ver_Checks = []\<rparr>, rel_DatabaseBackup = [],
      rel_Migration = None, rel_Status = [], rel_Path = []\<rparr>"

definition resumed_env :: "unit env" where
  "resumed_env = run_env\<lparr>e_Run := (\<lambda>opts cmd w. ((\<lparr>Stdout = [], Stderr = [], ExitCode = 0\<rparr>, None), w)),
     e_Unmarshal := (\<lambda>s. Inr stored_record)\<rparr>"

definition resumed_executor :: executor where
  "resumed_executor = NewExecutor resumed_env bare_host (bare_options\<lparr>opt_Resume := True\<rparr>) [] False"

definition resumed_run :: "(run_outcome \<times> go_error option) \<times> unit run_state" where
  "resumed_run =
     Run resumed_env core_run resumed_executor (one_command ''true'')
       NewVars (NewRelease (\<lambda>_. []) [] ''7'' [] ''main'') ()"


text \<open>
  The exit code the probe is judged by: that of the command, or of the error it ended with;
  none when the command could not be run at all.
\<close>

definition probe_exit :: "cmd_result \<Rightarrow> go_error option \<Rightarrow> int option" where
  "probe_exit result err = (case err of None \<Rightarrow> Some (ExitCode result) | Some e \<Rightarrow> command_exit_code e)"

text \<open>
  C9. The migration probe never guesses: migrations are skipped only on exit code 0 without
  an error, required only on exit codes 1 and 2, and every other outcome stops the run.
\<close>

theorem checkMigrationRequired_never_guesses:
  assumes "Expand (probe_vars (x_Host x) rel vs) (probe_Command probe) = Inr command"
    and "e_Run env \<lparr>Timeout = command_timeout (x_Opts x), Stdin = [], Streamed = False\<rparr> command w = ((result, err), w')"
  shows "snd (checkMigrationRequired env x probe vs rel w) = w' \<and>
    (case fst (checkMigrationRequired env x probe vs rel w) of
       Inr (required, code) \<Rightarrow> probe_exit result err = Some code \<and>
         (if required then code = 1 \<or> code = 2 else code = 0 \<and> err = None)
     | Inl e \<Rightarrow> probe_exit result err \<notin> {Some 0, Some 1, Some 2} \<or> probe_exit result err = Some 0 \<and> err \<noteq> None)"
  using assms
  by (cases err; cases "command_exit_code (the err)")
    (auto simp: checkMigrationRequired_def probe_exit_def probe_verdict_def)

definition demo_probe :: migration_probe where
  "demo_probe = \<lparr>probe_Title = [], probe_Command = ''false''\<rparr>"

theorem checkMigrationRequired_never_guesses_witness:
  "case fst (checkMigrationRequired run_env demo_executor demo_probe NewVars
       (NewRelease (\<lambda>_. []) [] ''7'' [] ''main'') ()) of
     Inr (required, code) \<Rightarrow> required \<and> code = 1 | Inl e \<Rightarrow> False"
proof -
  let ?rel = "NewRelease (\<lambda>_. []) [] ''7'' [] ''main''"
  let ?result = "\<lparr>Stdout = [], Stderr = [], ExitCode = 1\<rparr>" and ?err = "CommandError [] 1 []"
  have expand: "Expand (probe_vars (x_Host demo_executor) ?rel NewVars) (probe_Command demo_probe) = Inr ''false''"
    by code_simp
  have run: "e_Run run_env \<lparr>Timeout = command_timeout (x_Opts demo_executor), Stdin = [], Streamed = False\<rparr>
      ''false'' () = ((?result, Some ?err), ())"
    by (simp add: run_env_def)
  have "probe_exit ?result (Some ?err) = Some 1" by (simp add: probe_exit_def)
  with checkMigrationRequired_never_guesses [OF expand run] show ?thesis
    by (auto split: sum.splits prod.splits if_splits)
qed

text \<open>
  A run that fails before its release has a number still writes a record: the path is built
  from the empty number, so the file lands beside the releases, where no release is read from.
\<close>

lemma unnumbered_failure_is_recorded:
  assumes "\<And>r. e_Marshal env r = Inr payload" and "rel_Release (s_Release s) = []" and "\<not> s_LockHeld s"
    and "s_World s = (w, log)"
  shows "snd (s_World (flow_state (stop_failed (logging env) x stg out e s))) =
    log @ [write_command (ReleaseRecordPath [] (x_Host x))]"
  using assms
  by (simp add: stop_failed_def Let_def releaseLockAfterFailure_def write_record_def WriteRelease_def
      writeTargetFile_def logging_def split: prod.split option.split)

end
