(* ===== verification/LockSafety.thy ===== *)
theory LockSafety
  imports CoreContract
begin

text \<open>
  A deploy does not remove a lock it does not hold: across everything a run does, the command
  that removes the lock is issued only by a run that took it.
\<close>

section \<open>Operations that issue no command of removal\<close>

text \<open>
  A property of the target that every command but the removal of the lock preserves.  The
  operations that read and record releases keep it.
\<close>

lemma not_unlock: "take 2 cmd \<noteq> ''rm'' \<Longrightarrow> cmd \<noteq> unlock_command h"
  by (auto simp: unlock_command_def)

lemma trim_suffix_start: "2 < length s \<Longrightarrow> take 2 (trim_suffix s [c]) = take 2 s"
  by (cases s rule: rev_cases) (auto simp: trim_suffix_def cut_suffix_def split: option.split)

lemma reuse_command_start: "outputs \<noteq> [] \<Longrightarrow> take 2 (reuse_command p c outputs) \<noteq> ''rm''"
  by (cases outputs) (simp_all add: reuse_command_def trim_suffix_start)

lemma check_command_start: "outputs \<noteq> [] \<Longrightarrow> take 2 (check_command c outputs) \<noteq> ''rm''"
  by (cases outputs) (simp_all add: check_command_def trim_suffix_start)

locale lock_kept =
  fixes env :: "'w env" and h :: host and J :: "'w \<Rightarrow> bool"
  assumes run_kept: "J w \<Longrightarrow> cmd \<noteq> unlock_command h \<Longrightarrow> e_Run env opts cmd w = (r, w') \<Longrightarrow> J w'"
    and local_kept: "J w \<Longrightarrow> e_RunLocal env opts cmd w = (r, w') \<Longrightarrow> J w'"
begin

lemma other_kept: "e_Run env opts cmd w = (r, w') \<Longrightarrow> take 2 cmd \<noteq> ''rm'' \<Longrightarrow> J w \<Longrightarrow> J w'"
  using run_kept not_unlock by blast

lemma step_kept: "step_exec env sc cmd w = (r, w') \<Longrightarrow> take 2 cmd \<noteq> ''rm'' \<Longrightarrow> J w \<Longrightarrow> J w'"
  by (auto simp: step_exec_def split: prod.splits dest: other_kept)

lemma ReadRelease_kept: "ReadRelease env k n w = (r, w') \<Longrightarrow> J w \<Longrightarrow> J w'"
  by (auto simp: ReadRelease_def split: prod.splits option.splits sum.splits if_splits dest!: other_kept)

lemma writeTargetFile_kept: "writeTargetFile env k goal payload w = (r, w') \<Longrightarrow> J w \<Longrightarrow> J w'"
  by (auto simp: writeTargetFile_def write_command_def Let_def split: prod.splits option.splits dest!: other_kept)

lemma WriteRelease_kept: "WriteRelease env k rel w = (r, w') \<Longrightarrow> J w \<Longrightarrow> J w'"
  by (auto simp: WriteRelease_def split: prod.splits option.splits sum.splits dest: writeTargetFile_kept)

lemma AppendHistory_kept: "AppendHistory env k rel w = (r, w') \<Longrightarrow> J w \<Longrightarrow> J w'"
  by (auto simp: AppendHistory_def split: prod.splits option.splits sum.splits dest!: other_kept)

lemma read_entries_kept: "read_entries env k ns w = (r, w') \<Longrightarrow> J w \<Longrightarrow> J w'"
  by (induction ns arbitrary: w r) (auto split: prod.splits dest: ReadRelease_kept)

lemma releaseEntries_kept: "releaseEntries env k w = (r, w') \<Longrightarrow> J w \<Longrightarrow> J w'"
  by (auto simp: releaseEntries_def list_command_def split: prod.splits option.splits
      dest!: other_kept dest: read_entries_kept)

lemma live_by_head_kept: "live_by_head env k w = (r, w') \<Longrightarrow> J w \<Longrightarrow> J w'"
  by (auto simp: live_by_head_def Let_def split: prod.splits option.splits sum.splits if_splits
      dest!: other_kept dest: releaseEntries_kept)

lemma liveReleaseName_kept: "liveReleaseName env k w = (r, w') \<Longrightarrow> J w \<Longrightarrow> J w'"
  by (auto simp: liveReleaseName_def Let_def split: prod.splits option.splits if_splits
      dest!: other_kept dest: live_by_head_kept)

lemma ListReleases_kept: "ListReleases env k w = (r, w') \<Longrightarrow> J w \<Longrightarrow> J w'"
  by (auto simp: ListReleases_def split: prod.splits sum.splits dest!: releaseEntries_kept dest: liveReleaseName_kept)

lemma complete_record_kept: "complete_record env k sha es w = (r, w') \<Longrightarrow> J w \<Longrightarrow> J w'"
  by (induction es arbitrary: w r)
    (auto split: prod.splits sum.splits if_splits dest: ReadRelease_kept)

lemma hasCompleteRecordFor_kept: "hasCompleteRecordFor env k sha w = (r, w') \<Longrightarrow> J w \<Longrightarrow> J w'"
  by (auto simp: hasCompleteRecordFor_def split: prod.splits sum.splits
      dest!: ListReleases_kept dest: complete_record_kept)

lemma revision_by_head_kept: "revision_by_head env k w = (r, w') \<Longrightarrow> J w \<Longrightarrow> J w'"
  by (auto simp: revision_by_head_def Let_def split: prod.splits option.splits if_splits
      dest!: other_kept dest: hasCompleteRecordFor_kept)

lemma liveRevision_kept: "liveRevision env k w = (r, w') \<Longrightarrow> J w \<Longrightarrow> J w'"
  by (auto simp: liveRevision_def Let_def split: prod.splits option.splits sum.splits if_splits
      dest!: other_kept dest: revision_by_head_kept ReadRelease_kept)

lemma already_deployed_kept: "already_deployed env x rel w = (r, w') \<Longrightarrow> J w \<Longrightarrow> J w'"
  by (auto simp: already_deployed_def Let_def split: prod.splits option.splits if_splits dest: liveRevision_kept)

lemma note_previous_kept: "note_previous env x rel w = (r, w') \<Longrightarrow> J w \<Longrightarrow> J w'"
  by (auto simp: note_previous_def split: prod.splits if_splits dest: liveReleaseName_kept)

lemma resume_from_kept: "resume_from env x rel w = (r, w') \<Longrightarrow> J w \<Longrightarrow> J w'"
  by (auto simp: resume_from_def split: prod.splits sum.splits if_splits dest: ReadRelease_kept)

lemma fingerprint_kept: "sandboxAssetsFingerprint env k st vs rel w = (r, w') \<Longrightarrow> J w \<Longrightarrow> J w'"
  by (auto simp: sandboxAssetsFingerprint_def digest_command_def Let_def split: prod.splits sum.splits if_splits
      dest!: other_kept)

lemma reuseSandboxAssets_kept: "reuseSandboxAssets env k opts st vs rel w = (r, w') \<Longrightarrow> J w \<Longrightarrow> J w'"
  by (auto simp: reuseSandboxAssets_def sandboxAssetsEligible_def split: prod.splits option.splits if_splits
      dest!: fingerprint_kept other_kept [OF _ reuse_command_start] dest: other_kept)

lemma recordSandboxAssets_kept: "J w \<Longrightarrow> J (recordSandboxAssets env k opts st vs rel w)"
  by (auto simp: recordSandboxAssets_def sandboxAssetsEligible_def split: prod.splits option.splits if_splits
      dest!: fingerprint_kept other_kept [OF _ check_command_start] intro: writeTargetFile_kept prod.collapse [symmetric])

lemma NextReleaseNumber_kept: "NextReleaseNumber env k w = (r, w') \<Longrightarrow> J w \<Longrightarrow> J w'"
  by (auto simp: NextReleaseNumber_def list_command_def split: prod.splits option.splits dest!: other_kept)

lemma releaseIsGovards_kept: "releaseIsGovards env k n w = (r, w') \<Longrightarrow> J w \<Longrightarrow> J w'"
  by (auto simp: releaseIsGovards_def split: prod.splits sum.splits dest: ReadRelease_kept)

lemma create_release_kept: "create_release n env sc w = (r, w') \<Longrightarrow> J w \<Longrightarrow> J w'"
  by (auto simp: create_release_def Let_def split: prod.splits option.splits bool.splits
      dest!: step_kept dest: releaseIsGovards_kept)

lemma CoreRelease_kept: "CoreRelease env sc w = (r, w') \<Longrightarrow> J w \<Longrightarrow> J w'"
  by (auto simp: CoreRelease_def split: prod.splits sum.splits if_splits
      dest!: NextReleaseNumber_kept dest: create_release_kept)

lemma CoreRecord_kept: "CoreRecord env sc w = (r, w') \<Longrightarrow> J w \<Longrightarrow> J w'"
  by (auto simp: CoreRecord_def split: prod.splits option.splits dest: WriteRelease_kept AppendHistory_kept)

text \<open>Taking the lock where \<open>J\<close> says that somebody else has it fails and changes nothing.\<close>

lemma acquire_refused:
  assumes "lock_target env h J" and "sc_Host sc = h" and "acquire env sc w = (r, w')" and "J w"
  shows "r \<noteq> None \<and> J w'"
proof -
  obtain err w1 where step: "step_exec env sc (acquire_command h) w = (err, w1)" by fastforce
  with lock_target_acquire [OF assms(1) step] assms(4) obtain e where "err = Some e" "J w1"
    by (cases err) auto
  with assms(2,3) step show ?thesis
    by (auto simp: acquire_def DescribeLockOwner_def describeLockOwner_def read_owner_command_def Let_def
        split: if_splits prod.splits option.splits dest!: other_kept)
qed

lemma CoreLock_refused:
  assumes "lock_target env h J" and "sc_Host sc = h" and "CoreLock env sc w = (r, w')" and "J w"
  shows "r \<noteq> None \<and> J w'"
  using assms(3,4)
  by (auto simp: CoreLock_def deployer_lock_command_def split: if_splits prod.splits option.splits
      dest!: step_kept dest: acquire_refused [OF assms(1,2)])

section \<open>The bookkeeping of a run\<close>

lemma write_record_kept: "J (s_World s) \<Longrightarrow> J (s_World (write_record env x s))"
  by (simp add: write_record_def) (metis WriteRelease_kept prod.collapse)

lemma store_if_numbered_kept: "J (s_World s) \<Longrightarrow> J (s_World (store_if_numbered env x s))"
  by (simp add: store_if_numbered_def write_record_kept)

lemma record_result_kept: "J (s_World s) \<Longrightarrow> J (s_World (record_result env x st status d err s))"
  by (simp add: record_result_def Let_def store_if_numbered_kept)

lemma skip_with_kept: "J (s_World s) \<Longrightarrow> J (s_World (skip_with env x st reason s))"
  by (simp add: skip_with_def record_result_kept)

lemma carryOver_kept: "J (s_World s) \<Longrightarrow> J (s_World (carryOver env x st t s))"
  by (simp add: carryOver_def Let_def store_if_numbered_kept)

text \<open>A run that does not hold the lock fails without releasing it.\<close>

lemma stop_failed_kept:
  "J (s_World s) \<Longrightarrow> \<not> s_LockHeld s \<Longrightarrow> J (s_World (flow_state (stop_failed env x stg out e s)))"
  by (simp add: stop_failed_def Let_def releaseLockAfterFailure_def write_record_kept)

lemma complete_run_kept: "complete_run env x started s = (r, s') \<Longrightarrow> J (s_World s) \<Longrightarrow> J (s_World s')"
  by (auto simp: complete_run_def Let_def split: prod.splits option.splits dest: WriteRelease_kept)

end

text \<open>
  On the target whose commands are logged, the operations above log no removal of the lock.
\<close>

interpretation logged: lock_kept "logging env" h "\<lambda>(w, log). unlock_command h \<notin> set log" for env h
  by unfold_locales (auto simp: logging_def split: prod.splits)

section \<open>Plans whose only removal of the lock is the unlock step\<close>

text \<open>An implementation that keeps \<open>J\<close>, whatever variables and release it is given.\<close>

definition core_keeps :: "'w env \<Rightarrow> host \<Rightarrow> ('w \<Rightarrow> bool) \<Rightarrow> 'w core_run \<Rightarrow> bool" where
  "core_keeps env h J run \<longleftrightarrow>
     (\<forall>sc w r w'. sc_Host sc = h \<longrightarrow> run env sc w = (r, w') \<longrightarrow> J w \<longrightarrow> J w')"

definition command_keeps :: "host \<Rightarrow> string \<Rightarrow> bool" where
  "command_keeps h template \<longleftrightarrow> (\<forall>vs. Expand vs template \<noteq> Inr (unlock_command h))"

text \<open>
  The lock step is the engine's and not optional, the engine's removal is only in the unlock
  step, and every other implementation and command leaves the lock alone.
\<close>

definition lock_safe_step :: "'w env \<Rightarrow> host \<Rightarrow> ('w \<Rightarrow> bool) \<Rightarrow> (core_fn \<Rightarrow> 'w core_run) \<Rightarrow> step \<Rightarrow> bool" where
  "lock_safe_step env h J cores st \<longleftrightarrow>
     (ID st = TaskLock \<longrightarrow> core st = Some CoreLockFn \<and> \<not> Optional st) \<and>
     (case core st of
        None \<Rightarrow> RunOn st \<noteq> RunLocal \<longrightarrow> command_keeps h (Command st)
      | Some c \<Rightarrow> if c = CoreUnlockFn then ID st = TaskUnlock else core_keeps env h J (cores c))"

definition free_of :: "('w \<Rightarrow> bool) \<Rightarrow> 'w run_state \<Rightarrow> bool" where
  "free_of J s \<longleftrightarrow> J (s_World s) \<and> \<not> s_LockHeld s"

lemma runStep_kept:
  assumes "lock_kept env (x_Host x) J" and "lock_safe_step env (x_Host x) J cores st"
    and "ID st \<noteq> TaskUnlock" and "sc_Host sc = x_Host x"
    and "runStep env cores x st sc timeout w = (r, w')" and "J w"
  shows "J w'"
proof (cases "core st")
  case (Some c)
  with assms(2,3) have "core_keeps env (x_Host x) J (cores c)" by (auto simp: lock_safe_step_def split: if_splits)
  moreover from Some assms(5) have "cores c env sc w = (r, w')" by (simp add: runStep_def)
  ultimately show ?thesis using assms(4,6) unfolding core_keeps_def by blast
next
  case None
  show ?thesis
  proof (cases "Expand (sc_Vars sc) (Command st)")
    case (Inl e)
    with None assms(5,6) show ?thesis by (simp add: runStep_def)
  next
    case (Inr command)
    let ?auth = "ID st = TaskVendors \<and> RunOn st \<noteq> RunLocal \<and> x_ComposerAuth x \<noteq> []"
    have "RunOn st \<noteq> RunLocal \<Longrightarrow> command \<noteq> unlock_command (x_Host x)"
      using assms(2) None Inr by (auto simp: lock_safe_step_def command_keeps_def)
    moreover have "ComposerAuthCommand c \<noteq> unlock_command (x_Host x)" for c
      by (rule not_unlock) (simp add: ComposerAuthCommand_def ComposerAuthEnv_def)
    ultimately have "RunOn st \<noteq> RunLocal \<Longrightarrow> (if ?auth then ComposerAuthCommand command else command) \<noteq> unlock_command (x_Host x)"
      by simp
    then show ?thesis
      using assms(1,5,6) None Inr
      by (auto simp: runStep_def Let_def split: prod.splits if_splits
          dest: lock_kept.run_kept lock_kept.local_kept)
  qed
qed

lemma execute_step_free:
  assumes kept: "lock_kept env (x_Host x) J" and safe: "lock_safe_step env (x_Host x) J cores st"
    and lock: "lock_target env (x_Host x) J" "cores CoreLockFn = plain_core CoreLock"
    and "ID st \<noteq> TaskUnlock" and "free_of J s"
  shows "free_of J (flow_state (execute_step env cores x p idx st s))"
proof -
  let ?vs = "step_vars (x_Host x) (s_Release s) (s_Vars s)"
  let ?sc = "run_context x p st ?vs (s_Release s)"
  let ?timeout = "timeout_for (x_Opts x) (s_Window s) idx"
  obtain reuse w where reuse:
    "reuseSandboxAssets env (x_Host x) (x_Opts x) st ?vs (s_Release s) (s_World s) = (reuse, w)"
    by fastforce
  have w: "J w" using lock_kept.reuseSandboxAssets_kept [OF kept reuse] assms(6) by (simp add: free_of_def)
  obtain err r vs' w' where run: "runStep env cores x st ?sc ?timeout w = ((err, r, vs'), w')"
    by (metis prod.collapse)
  have host: "sc_Host ?sc = x_Host x" by (simp add: run_context_def)
  have w': "J w'" by (rule runStep_kept [OF kept safe assms(5) host run w])
  have refused: "err \<noteq> None \<and> \<not> Optional st" if "ID st = TaskLock"
  proof -
    have "core st = Some CoreLockFn" "\<not> Optional st" using that safe by (auto simp: lock_safe_step_def)
    moreover from this run lock(2) have "fst (CoreLock env ?sc w) = err"
      by (auto simp: runStep_def plain_core_def split: prod.splits)
    ultimately show ?thesis
      using lock_kept.CoreLock_refused [OF kept lock(1) host _ w] by (metis prod.collapse)
  qed
  show ?thesis
  proof (cases reuse)
    case (Some reason)
    with reuse w assms(6) show ?thesis
      by (simp add: execute_step_def Let_def free_of_def lock_kept.skip_with_kept [OF kept])
  next
    case None
    show ?thesis
    proof (cases "if Optional st then None else err")
      case (Some e)
      with reuse None run w' assms(6) show ?thesis
        by (auto simp: execute_step_def Let_def free_of_def
            intro!: lock_kept.stop_failed_kept [OF kept] lock_kept.record_result_kept [OF kept])
    next
      case no: None
      with refused have "ID st \<noteq> TaskLock" by (auto split: if_splits)
      with reuse None no run w' assms(6) show ?thesis
        by (auto simp: execute_step_def Let_def free_of_def
            intro!: lock_kept.recordSandboxAssets_kept [OF kept] lock_kept.record_result_kept [OF kept])
    qed
  qed
qed

lemma decide_step_free:
  assumes kept: "lock_kept env (x_Host x) J" and "lock_safe_step env (x_Host x) J cores st"
    and "lock_target env (x_Host x) J" "cores CoreLockFn = plain_core CoreLock" and "free_of J s"
  shows "free_of J (flow_state (decide_step env cores x p idx st s))"
proof -
  have skip: "free_of J (skip_with env x st reason s)" for reason
    using assms(5) lock_kept.skip_with_kept [OF kept] by (simp add: free_of_def)
  have failed: "free_of J (flow_state (stop_failed env x (Stage st) no_outcome e
      (record_result env x st StepFailed 0 (Some e') s)))" for e e'
    using assms(5) lock_kept.stop_failed_kept [OF kept] lock_kept.record_result_kept [OF kept]
    by (simp add: free_of_def)
  show ?thesis
  proof (cases "ID st = TaskUnlock")
    case True
    then show ?thesis using assms(5) skip by (simp add: decide_step_def free_of_def)
  next
    case False
    then show ?thesis using skip failed execute_step_free [OF assms(1-4) False assms(5)]
      by (simp add: decide_step_def)
  qed
qed

definition probe_keeps :: "host \<Rightarrow> plan \<Rightarrow> bool" where
  "probe_keeps h p \<longleftrightarrow>
     (case plan_MigrationProbe p of None \<Rightarrow> True | Some probe \<Rightarrow> command_keeps h (probe_Command probe))"

lemma checkMigrationRequired_kept:
  assumes "lock_kept env h J" and "command_keeps h (probe_Command probe)"
    and "checkMigrationRequired env x probe vs rel w = (r, w')" and "J w"
  shows "J w'"
proof (cases "Expand (probe_vars (x_Host x) rel vs) (probe_Command probe)")
  case (Inl e)
  with assms(3,4) show ?thesis by (simp add: checkMigrationRequired_def)
next
  case (Inr command)
  then have "command \<noteq> unlock_command h" using assms(2) by (auto simp: command_keeps_def)
  moreover obtain res where
    "e_Run env \<lparr>Timeout = command_timeout (x_Opts x), Stdin = [], Streamed = False\<rparr> command w = (res, w')"
    using assms(3) Inr by (auto simp: checkMigrationRequired_def split: prod.splits sum.splits)
  ultimately show ?thesis using lock_kept.run_kept [OF assms(1,4)] by blast
qed

lemma exec_step_free:
  assumes kept: "lock_kept env (x_Host x) J" and safe: "lock_safe_step env (x_Host x) J cores st"
    and lock: "lock_target env (x_Host x) J" "cores CoreLockFn = plain_core CoreLock"
    and probe: "probe_keeps (x_Host x) p" and "free_of J s"
  shows "free_of J (flow_state (exec_step env cores x p completed carried idx st s))"
proof -
  have skip: "free_of J (skip_with env x st' reason s)" "free_of J (carryOver env x st' t s)" for st' reason t
    using assms(6) lock_kept.skip_with_kept [OF kept] lock_kept.carryOver_kept [OF kept]
    by (simp_all add: free_of_def)
  note decide = decide_step_free [OF kept safe lock]
  have "free_of J (flow_state (probe_then_decide env cores x p idx st s))"
  proof (cases "if NeedsMigration st \<and> \<not> s_ProbeDone s then plan_MigrationProbe p else None")
    case None
    then show ?thesis using decide assms(6) by (simp add: probe_then_decide_def)
  next
    case (Some mp)
    let ?vs = "probe_vars (x_Host x) (s_Release s) (s_Vars s)"
    obtain answer w where asked: "checkMigrationRequired env x mp ?vs (s_Release s) (s_World s) = (answer, w)"
      by fastforce
    have "command_keeps (x_Host x) (probe_Command mp)" using probe Some by (auto simp: probe_keeps_def split: if_splits)
    from checkMigrationRequired_kept [OF kept this asked] assms(6) have w: "J w" by (simp add: free_of_def)
    show ?thesis
    proof (cases answer)
      case (Inl e)
      with Some asked w assms(6) show ?thesis
        by (simp add: probe_then_decide_def Let_def free_of_def lock_kept.stop_failed_kept [OF kept])
    next
      case (Inr verdict)
      then obtain required code where "answer = Inr (required, code)" by (cases verdict) auto
      with Some asked w assms(6) show ?thesis
        by (auto simp: probe_then_decide_def Let_def free_of_def
            intro!: decide [unfolded free_of_def] lock_kept.write_record_kept [OF kept])
    qed
  qed
  with skip show ?thesis by (simp add: exec_step_def split: option.split)
qed

lemma run_loop_free:
  assumes "lock_kept env (x_Host x) J" and "\<forall>st \<in> set sts. lock_safe_step env (x_Host x) J cores st"
    and "lock_target env (x_Host x) J" "cores CoreLockFn = plain_core CoreLock" and "probe_keeps (x_Host x) p"
  shows "free_of J s \<Longrightarrow> free_of J (flow_state (run_loop env cores x p completed carried idx sts s))"
  using assms(2)
proof (induction sts arbitrary: s idx)
  case Nil
  then show ?case by simp
next
  case (Cons st sts)
  then have "free_of J (flow_state (exec_step env cores x p completed carried idx st s))"
    by (intro exec_step_free assms(1,3-5)) simp_all
  with Cons show ?case by (auto split: flow.split)
qed

section \<open>Property\<close>

lemma take_lock_early_refused:
  assumes "lock_kept env (x_Host x) J" and "lock_target env (x_Host x) J" and "J w"
    and "take_lock_early env x completed vs rel w = ((e, held), w')"
  shows "J w' \<and> \<not> held"
  using assms(4) lock_kept.CoreLock_refused [OF assms(1,2), of "step_context x vs rel" w _ w'] assms(3)
  by (auto simp: take_lock_early_def step_context_def split: if_splits prod.splits option.splits)

text \<open>What holds of a locked target holds after a run, step by step.\<close>

lemma Run_lock_kept:
  assumes kept: "lock_kept env (x_Host x) locked" and lock: "lock_target env (x_Host x) locked"
    and cores: "cores CoreLockFn = plain_core CoreLock"
    and steps: "\<forall>st \<in> set (Steps p). lock_safe_step env (x_Host x) locked cores st"
    and probe: "probe_keeps (x_Host x) p"
    and run: "Run env cores x p vs release w = ((out, err), s)" and held: "locked w"
  shows "locked (s_World s)"
  using run
proof (cases rule: Run_cases)
  case (deployed w1)
  then show ?thesis using lock_kept.already_deployed_kept [OF kept] held by blast
next
  case (refused e w1 rel1 w2 carried1 verdict rel2 w3 completed held' w4)
  have "locked w3"
    using refused(6-8) held lock_kept.already_deployed_kept [OF kept] lock_kept.note_previous_kept [OF kept]
      lock_kept.resume_from_kept [OF kept] by metis
  from take_lock_early_refused [OF kept lock this refused(9)] refused(10) show ?thesis by simp
next
  case (looped w1 rel1 w2 carried1 verdict rel2 w3 completed carried held' w4)
  let ?s0 = "initial_state vs rel2 held' verdict (maintenanceWindow p) w4"
  have "locked w3"
    using looped(1-3) held lock_kept.already_deployed_kept [OF kept] lock_kept.note_previous_kept [OF kept]
      lock_kept.resume_from_kept [OF kept] by metis
  from take_lock_early_refused [OF kept lock this looped(5)]
  have "free_of locked ?s0" by (simp add: free_of_def initial_state_def)
  from run_loop_free [OF kept steps lock cores probe this, of completed carried 0]
  have "locked (s_World (flow_state (run_loop env cores x p completed carried 0 (Steps p) ?s0)))"
    by (simp add: free_of_def)
  then show ?thesis
    using looped(6) lock_kept.complete_run_kept [OF kept]
    by (auto simp: run_plan_def split: flow.splits)
qed


definition lock_plan :: plan where
  "lock_plan =
     \<lparr>Steps = map (\<lambda>(sid, c).
        \<lparr>ID = sid, Kind = StepTask, Stage = StagePrepare, Title = sid, Command = [], RunOn = RunRemote,
         Optional = False, NeedsApplication = False, NeedsMigration = False, ReusableOutputs = [],
         Source = [], Checks = [], Skipped = False, SkipReason = [], order = 0, core = Some c\<rparr>)
        [(TaskLock, CoreLockFn), (TaskUnlock, CoreUnlockFn)],
      plan_MigrationProbe = None, plan_VerifyRejectPaths = []\<rparr>"


end
