(* ===== verification/Capture.thy ===== *)
theory Capture
  imports Prelude
begin

text \<open>
  The bounded capture of a command's output (\<open>capture.go\<close>): the buffer keeps the last bytes
  written and counts the rest.  A write shifts the kept bytes in place; the reference is the
  last bytes of everything written.
\<close>

section \<open>The code\<close>

definition captureLimit :: int where "captureLimit = 256 * 1024"

record bounded_buffer =
  bb_limit :: int
  bb_buf :: string
  bb_dropped :: int

definition newBoundedBuffer :: "int \<Rightarrow> bounded_buffer" where
  "newBoundedBuffer limit =
     \<lparr>bb_limit = (if limit \<le> 0 then captureLimit else limit), bb_buf = [], bb_dropped = 0\<rparr>"

text \<open>\<open>copy(b.buf, b.buf[overflow:])\<close> followed by the cut of the last \<open>overflow\<close> bytes.\<close>

definition shift_out :: "nat \<Rightarrow> string \<Rightarrow> string" where
  "shift_out overflow buf =
     take (length buf - overflow) (drop overflow buf @ drop (length buf - overflow) buf)"

text \<open>\<open>Write\<close> also returns the number of bytes consumed, always all of them.\<close>

definition WriteBuffer :: "string \<Rightarrow> bounded_buffer \<Rightarrow> int \<times> bounded_buffer" where
  "WriteBuffer p b =
     (let n = int (length p) in
      if n = 0 then (0, b)
      else if bb_limit b \<le> n then
        (n, b\<lparr>bb_dropped := bb_dropped b + int (length (bb_buf b)) + n - bb_limit b,
              bb_buf := drop (nat (n - bb_limit b)) p\<rparr>)
      else
        let overflow = int (length (bb_buf b)) + n - bb_limit b;
            b = (if 0 < overflow then
                   b\<lparr>bb_buf := shift_out (nat overflow) (bb_buf b), bb_dropped := bb_dropped b + overflow\<rparr>
                 else b)
        in (n, b\<lparr>bb_buf := bb_buf b @ p\<rparr>))"

text \<open>
  \<open>%.1f\<close> of \<open>bytes/unit\<close> with \<open>unit\<close> a power of two: the division is exact, the tenths are
  rounded to the nearest, a tie to the even digit.  Counts are below \<open>2 ^ 53\<close>.
\<close>

definition tenths :: "int \<Rightarrow> int \<Rightarrow> int" where
  "tenths bytes unit =
     (let q = 10 * bytes div unit; r = 10 * bytes mod unit in
      if unit < 2 * r \<or> (2 * r = unit \<and> odd q) then q + 1 else q)"

definition one_decimal :: "int \<Rightarrow> int \<Rightarrow> string" where
  "one_decimal bytes unit = itoa (tenths bytes unit div 10) @ ''.'' @ itoa (tenths bytes unit mod 10)"

definition humanBytes :: "int \<Rightarrow> string" where
  "humanBytes bytes =
     (if 2 ^ 20 \<le> bytes then one_decimal bytes (2 ^ 20) @ '' MiB''
      else if 2 ^ 10 \<le> bytes then one_decimal bytes (2 ^ 10) @ '' KiB''
      else itoa bytes @ '' B'')"

definition ellipsis :: string where "ellipsis = [CHR 0xE2, CHR 0x80, CHR 0xA6]"

definition BufferString :: "bounded_buffer \<Rightarrow> string" where
  "BufferString b =
     (if bb_dropped b = 0 then bb_buf b
      else ellipsis @ '' '' @ humanBytes (bb_dropped b) @ '' dropped, keeping the last '' @
        humanBytes (int (length (bb_buf b))) @ '' '' @ ellipsis @ [CHR 0x0A] @ bb_buf b)"

section \<open>The reference\<close>

definition last_bytes :: "nat \<Rightarrow> string \<Rightarrow> string" where
  "last_bytes n s = drop (length s - n) s"

text \<open>The buffer after the bytes \<open>s\<close> were written to it, in any number of writes.\<close>

definition captured :: "nat \<Rightarrow> string \<Rightarrow> bounded_buffer" where
  "captured limit s =
     \<lparr>bb_limit = int limit, bb_buf = last_bytes limit s, bb_dropped = int (length s - limit)\<rparr>"

lemma shift_out_drop: "overflow \<le> length buf \<Longrightarrow> shift_out overflow buf = drop overflow buf"
  by (simp add: shift_out_def)

lemma write_captured:
  assumes "0 < limit"
  shows "WriteBuffer p (captured limit s) = (int (length p), captured limit (s @ p))"
proof -
  consider "p = []" | "p \<noteq> []" "limit \<le> length p" | "p \<noteq> []" "length p < limit" by linarith
  then show ?thesis
  proof cases
    case 1
    then show ?thesis by (simp add: WriteBuffer_def)
  next
    case 2
    then show ?thesis
      by (auto simp: WriteBuffer_def Let_def captured_def last_bytes_def nat_diff_distrib')
  next
    case 3
    show ?thesis
    proof (cases "length s + length p \<le> limit")
      case True
      with 3 show ?thesis by (simp add: WriteBuffer_def Let_def captured_def last_bytes_def)
    next
      case False
      with 3 show ?thesis
        by (auto simp: WriteBuffer_def Let_def captured_def last_bytes_def shift_out_drop nat_diff_distrib'
            nat_add_distrib drop_append split: nat_diff_split)
    qed
  qed
qed

section \<open>Property\<close>

definition write_all :: "string list \<Rightarrow> bounded_buffer \<Rightarrow> bounded_buffer" where
  "write_all ws b = fold (\<lambda>p b. snd (WriteBuffer p b)) ws b"

lemma write_all_captured:
  "0 < limit \<Longrightarrow> write_all ws (captured limit s) = captured limit (s @ concat ws)"
  by (induction ws arbitrary: s) (simp_all add: write_all_def write_captured)

definition effective_limit :: "int \<Rightarrow> nat" where
  "effective_limit limit = nat (if limit \<le> 0 then captureLimit else limit)"

lemma effective_limit_pos: "0 < effective_limit limit"
  by (simp add: effective_limit_def captureLimit_def)

lemma newBoundedBuffer_captured: "newBoundedBuffer limit = captured (effective_limit limit) []"
  by (simp add: newBoundedBuffer_def captured_def last_bytes_def effective_limit_def captureLimit_def)

text \<open>
  However the output is cut into writes, the capture holds the last bytes of the whole
  output up to its limit and never more, it has counted exactly the bytes it no longer holds,
  and what it shows is the output itself when all of it fits.
\<close>

theorem capture_keeps_the_tail:
  "let b = write_all ws (newBoundedBuffer limit) in
     bb_buf b = last_bytes (effective_limit limit) (concat ws) \<and>
     length (bb_buf b) \<le> effective_limit limit \<and>
     bb_dropped b + int (length (bb_buf b)) = int (length (concat ws)) \<and>
     (if length (concat ws) \<le> effective_limit limit then BufferString b = concat ws
      else suffix (bb_buf b) (BufferString b) \<and> BufferString b \<noteq> bb_buf b)"
proof -
  have b: "write_all ws (newBoundedBuffer limit) = captured (effective_limit limit) (concat ws)"
    using write_all_captured [OF effective_limit_pos, of ws limit "[]"] by (simp add: newBoundedBuffer_captured)
  show ?thesis
    unfolding b by (auto simp: captured_def last_bytes_def BufferString_def ellipsis_def suffix_def)
qed

end
