(* ===== verification/LiveOutput.thy ===== *)
theory LiveOutput
  imports Capture
begin

text \<open>
  Showing a command's output while it runs (\<open>stream.go\<close>): every line nested under its step, and
  lines of the tool itself among them.  The writer behind it is the argument \<open>out\<close>, which may
  fail; the lock that makes each call one unit is not modelled.
\<close>

section \<open>The writer\<close>

type_synonym 'w writer = "string \<Rightarrow> 'w \<Rightarrow> go_error option \<times> 'w"

record live_writer =
  lw_prefix :: string
  lw_atLineStart :: bool

definition newLiveWriter :: "string \<Rightarrow> live_writer" where
  "newLiveWriter indent = \<lparr>lw_prefix = indent, lw_atLineStart = True\<rparr>"

text \<open>The rest of the line with its newline, or all there is.\<close>

definition chunk_of :: "string \<Rightarrow> string" where
  "chunk_of p = takeWhile (\<lambda>c. c \<noteq> CHR 0x0A) p @ (if CHR 0x0A \<in> set p then [CHR 0x0A] else [])"

lemma chunk_append: "p = chunk_of p @ drop (length (chunk_of p)) p"
proof (induction p)
  case (Cons c p)
  then show ?case by (auto simp: chunk_of_def)
qed (simp add: chunk_of_def)

lemma chunk_nonempty: "p \<noteq> [] \<Longrightarrow> chunk_of p \<noteq> []"
  by (cases p) (auto simp: chunk_of_def)

lemma chunk_shorter: "p \<noteq> [] \<Longrightarrow> length p - length (chunk_of p) < length p"
  using chunk_nonempty [of p] by (simp add: diff_less)

text \<open>The bytes consumed, the error of the writer, and the state after them.\<close>

function write_chunks ::
  "'w writer \<Rightarrow> string \<Rightarrow> int \<Rightarrow> live_writer \<Rightarrow> 'w \<Rightarrow> (int \<times> go_error option) \<times> live_writer \<times> 'w" where
  "write_chunks out p written lw w =
     (if p = [] then ((written, None), lw, w)
      else case (if lw_atLineStart lw then out (lw_prefix lw) w else (None, w)) of
        (Some err, w) \<Rightarrow> ((written, Some err), lw, w)
      | (None, w) \<Rightarrow>
          (let lw = lw\<lparr>lw_atLineStart := False\<rparr>; chunk = chunk_of p in
           case out chunk w of
             (Some err, w) \<Rightarrow> ((written, Some err), lw, w)
           | (None, w) \<Rightarrow>
               (let lw = (if last chunk = CHR 0x0A then lw\<lparr>lw_atLineStart := True\<rparr> else lw) in
                write_chunks out (drop (length chunk) p) (written + int (length chunk)) lw w)))"
  by pat_completeness auto
termination
  by (relation "measure (\<lambda>(out, p, written, lw, w). length p)") (auto intro: chunk_shorter)

declare write_chunks.simps [simp del]

definition LiveWrite :: "'w writer \<Rightarrow> string \<Rightarrow> live_writer \<Rightarrow> 'w \<Rightarrow> (int \<times> go_error option) \<times> live_writer \<times> 'w" where
  "LiveWrite out p lw w = write_chunks out p 0 lw w"

definition LiveWriteLine :: "'w writer \<Rightarrow> string \<Rightarrow> live_writer \<Rightarrow> 'w \<Rightarrow> live_writer \<times> 'w" where
  "LiveWriteLine out line lw w =
     (let line = (if has_suffix line [CHR 0x0A] then line else line @ [CHR 0x0A]) in
      case out line w of (_, w) \<Rightarrow> (lw\<lparr>lw_atLineStart := True\<rparr>, w))"

text \<open>
  \<open>streamTo\<close>: the capture alone, or the capture and then the live output.  The capture never
  fails.
\<close>

definition streamTo ::
  "'w writer option \<Rightarrow> string \<Rightarrow> bounded_buffer \<Rightarrow> live_writer \<Rightarrow> 'w \<Rightarrow>
   (int \<times> go_error option) \<times> bounded_buffer \<times> live_writer \<times> 'w" where
  "streamTo live p b lw w =
     (case WriteBuffer p b of
        (n, b) \<Rightarrow>
          (case live of
             None \<Rightarrow> ((n, None), b, lw, w)
           | Some out \<Rightarrow> (case LiveWrite out p lw w of ((n, err), lw, w) \<Rightarrow> ((n, err), b, lw, w))))"

section \<open>The reference: a indent before the first byte of every line\<close>

fun nest :: "string \<Rightarrow> bool \<Rightarrow> string \<Rightarrow> string" where
  "nest indent start [] = []"
| "nest indent start (c # cs) = (if start then indent else []) @ c # nest indent (c = CHR 0x0A) cs"

definition ends_line :: "bool \<Rightarrow> string \<Rightarrow> bool" where
  "ends_line start p = (if p = [] then start else last p = CHR 0x0A)"

lemma nest_append: "nest indent start (p @ q) = nest indent start p @ nest indent (ends_line start p) q"
  by (induction p arbitrary: start) (auto simp: ends_line_def)

lemma nest_chunk: "nest indent False (chunk_of p) = chunk_of p"
proof -
  have "nest indent False (takeWhile (\<lambda>c. c \<noteq> CHR 0x0A) p @ q) = takeWhile (\<lambda>c. c \<noteq> CHR 0x0A) p @ nest indent False q"
    for q by (induction p) auto
  then show ?thesis by (simp add: chunk_of_def)
qed

text \<open>A writer that never fails, and the text it has received.\<close>

definition collect :: "string writer" where
  "collect s w = (None, w @ s)"

lemma write_chunks_nest:
  "write_chunks collect p n lw w =
     ((n + int (length p), None), lw\<lparr>lw_atLineStart := ends_line (lw_atLineStart lw) p\<rparr>,
      w @ nest (lw_prefix lw) (lw_atLineStart lw) p)"
proof (induction p arbitrary: n lw w rule: measure_induct_rule [where f = length])
  case (less p)
  show ?case
  proof (cases "p = []")
    case True
    then show ?thesis by (simp add: write_chunks.simps ends_line_def)
  next
    case False
    let ?chunk = "chunk_of p" and ?rest = "drop (length (chunk_of p)) p"
    have split: "p = ?chunk @ ?rest" and some: "?chunk \<noteq> []" using chunk_append chunk_nonempty False by blast+
    have shorter: "length ?rest < length p" using some False by simp
    have nested: "nest indent start ?chunk = (if start then indent else []) @ ?chunk" for indent start
      using nest_chunk [of indent p] some by (cases ?chunk) auto
    have whole: "nest indent start p = (if start then indent else []) @ ?chunk @ nest indent (last ?chunk = CHR 0x0A) ?rest"
      for indent start
    proof -
      have "nest indent start (?chunk @ ?rest) =
          (if start then indent else []) @ ?chunk @ nest indent (last ?chunk = CHR 0x0A) ?rest"
        using some by (simp add: nest_append nested ends_line_def)
      then show ?thesis unfolding split [symmetric] .
    qed
    have lines: "ends_line start p = ends_line (last ?chunk = CHR 0x0A) ?rest" for start
    proof -
      have "ends_line start (?chunk @ ?rest) = ends_line (last ?chunk = CHR 0x0A) ?rest"
        using some by (simp add: ends_line_def)
      then show ?thesis unfolding split [symmetric] .
    qed
    have len: "int (length ?chunk) + int (length ?rest) = int (length p)"
      using arg_cong [OF split, of length] by (simp only: length_append of_nat_add)
    show ?thesis
      using False len
      by (subst write_chunks.simps) (simp add: collect_def whole lines Let_def less [OF shorter])
  qed
qed

text \<open>
  C31. However a command's output is cut into writes, what is shown is the output with the prefix
  at the start of every line, every byte is reported as consumed, and the next write starts a
  line exactly when the output so far ended one.
\<close>

theorem live_output_is_nested:
  "fold (\<lambda>p (consumed, lw, w). case LiveWrite collect p lw w of ((n, _), lw, w) \<Rightarrow> (consumed + n, lw, w))
     writes (0, newLiveWriter indent, []) =
   (int (length (concat writes)), \<lparr>lw_prefix = indent, lw_atLineStart = ends_line True (concat writes)\<rparr>,
    nest indent True (concat writes))"
proof (induction writes rule: rev_induct)
  case Nil
  then show ?case by (simp add: newLiveWriter_def ends_line_def)
next
  case (snoc p writes)
  then show ?case
    by (simp add: LiveWrite_def write_chunks_nest nest_append) (auto simp: ends_line_def)
qed

text \<open>
  A line of the tool itself is not held back until the command ends its own: it lands behind the
  unfinished line, without a indent, and the rest of that line starts a new one.
\<close>

lemma tool_line_inside_a_line:
  "(let (_, lw, w) = LiveWrite collect ''compiling'' (newLiveWriter ''| '') [];
        (lw, w) = LiveWriteLine collect ''still running'' lw w;
        (_, lw, w) = LiveWrite collect '' done'' lw w in w) =
   ''| compilingstill running'' @ [CHR 0x0A] @ ''|  done''"
  by (simp add: LiveWrite_def write_chunks_nest LiveWriteLine_def newLiveWriter_def collect_def has_suffix_def ends_line_def)

end
