(* ===== verification/Runners.thy ===== *)
theory Runners
  imports Capture RemoteSSH SharedPaths
begin

text \<open>
  Running one command (\<open>runner.go\<close>, \<open>runner_ssh.go\<close>, \<open>runner_container.go\<close>): on this machine,
  over ssh, or inside the project's container.  A process of the operating system is the
  argument \<open>os\<close>: what it wrote, how it ended, and whether it ended by itself.  The signals sent
  to a cancelled process and its group are part of ending it.
\<close>

section \<open>Processes\<close>

text \<open>
  The error of \<open>cmd.Run\<close>: an exit status, the signal that ended it, pipes still open after
  the wait delay, or anything else.
\<close>

datatype exit_error = ExitStatus int | Signalled string | WaitDelayExpired | NotStarted string

text \<open>The context after the process: \<open>ctx.Err()\<close>.\<close>

datatype context_end = NotCancelled | DeadlineExceeded | Canceled

text \<open>
  \<open>ps_OnCancel\<close> is what cancelling the process also starts: the script a second connection
  runs.  \<open>ps_Merged\<close> sends the error output where the standard output goes.
\<close>

record process_start =
  ps_Argv :: "string list"
  ps_Dir :: string
  ps_Stdin :: string
  ps_Timeout :: int
  ps_Merged :: bool
  ps_OnCancel :: "string option"

record process =
  pr_Stdout :: "string list"
  pr_Stderr :: "string list"
  pr_Error :: "exit_error option"
  pr_Context :: context_end

record 'w os =
  os_Exec :: "process_start \<Rightarrow> 'w \<Rightarrow> process \<times> 'w"
  os_Nano :: "'w \<Rightarrow> int"

text \<open>What a run keeps of the writes of one stream.\<close>

definition shown :: "string list \<Rightarrow> string" where
  "shown writes = BufferString (write_all writes (newBoundedBuffer captureLimit))"

section \<open>Failures\<close>

datatype failure_cause = TimedOut | Interrupted | FailedWith exit_error

record command_failure =
  cf_Command :: string
  cf_ExitCode :: int
  cf_Stderr :: string
  cf_Cause :: failure_cause
  cf_Note :: string

definition commandError :: "context_end \<Rightarrow> string \<Rightarrow> string \<Rightarrow> exit_error \<Rightarrow> command_failure" where
  "commandError ctx command stderr err =
     \<lparr>cf_Command = command, cf_ExitCode = (case err of ExitStatus n \<Rightarrow> n | _ \<Rightarrow> - 1), cf_Stderr = stderr,
      cf_Cause = (case ctx of DeadlineExceeded \<Rightarrow> TimedOut | Canceled \<Rightarrow> Interrupted | NotCancelled \<Rightarrow> FailedWith err),
      cf_Note = []\<rparr>"

definition command_message :: "command_failure \<Rightarrow> string" where
  "command_message f =
     (let prefix = (case cf_Cause f of
          TimedOut \<Rightarrow> ''command timed out''
        | Interrupted \<Rightarrow> ''the run was interrupted''
        | FailedWith WaitDelayExpired \<Rightarrow> ''command timed out''
        | FailedWith _ \<Rightarrow> ''command failed (exit '' @ itoa (cf_ExitCode f) @ '')'')
      in prefix @ '': '' @ cf_Command f @
         (if cf_Note f = [] then [] else CHR 0x0A # cf_Note f) @
         (if trim_space (cf_Stderr f) = [] then [] else CHR 0x0A # trim_space (cf_Stderr f)))"

text \<open>The failure as the error value of the other theories, which read its exit code.\<close>

definition as_error :: "command_failure \<Rightarrow> go_error" where
  "as_error f = CommandError (cf_Command f) (cf_ExitCode f) (cf_Stderr f)"

section \<open>On this machine\<close>

definition LocalRun :: "'w os \<Rightarrow> string \<Rightarrow> 'w runner" where
  "LocalRun os dir opts command w =
     (case os_Exec os \<lparr>ps_Argv = [''sh'', ''-c'', command], ps_Dir = dir, ps_Stdin = Stdin opts,
          ps_Timeout = Timeout opts, ps_Merged = False, ps_OnCancel = None\<rparr> w of
        (p, w) \<Rightarrow>
          (let result = \<lparr>Stdout = shown (pr_Stdout p), Stderr = shown (pr_Stderr p), ExitCode = 0\<rparr> in
           case pr_Error p of
             None \<Rightarrow> ((result, None), w)
           | Some err \<Rightarrow> ((result, Some (as_error (commandError (pr_Context p) command (Stderr result) err))), w)))"

section \<open>Over ssh\<close>

definition remoteInterruptTimeout :: int where "remoteInterruptTimeout = 20 * 10 ^ 9"

definition SSHArgs :: "'w env \<Rightarrow> string \<Rightarrow> remote_config \<Rightarrow> string \<Rightarrow> 'w \<Rightarrow> string list \<times> 'w" where
  "SSHArgs env name cfg command w =
     (case BuildSSHArgs env name cfg False False w of (args, w) \<Rightarrow> (args @ [RemoteTarget cfg, command], w))"

definition remoteInterruptPIDFile :: "int \<Rightarrow> int \<Rightarrow> string" where
  "remoteInterruptPIDFile pid nano = ''/tmp/.govard-deploy-interrupt-'' @ itoa pid @ ''-'' @ itoa nano @ ''.pid''"

definition remoteExitReport :: "int \<Rightarrow> int \<Rightarrow> string" where
  "remoteExitReport pid nano = ''__govard-exit-255-'' @ itoa pid @ ''-'' @ itoa nano"

definition recordRemoteProcessGroup :: "string \<Rightarrow> string \<Rightarrow> string \<Rightarrow> string" where
  "recordRemoteProcessGroup command pidFile report =
     ''printf '' @ [sq] @ ''%s'' @ [CHR 0x5C] @ ''n'' @ [sq] @ '' $$ > '' @ ShellQuote pidFile @ ''; ( '' @ command @ [CHR 0x0A] @
     ''); rc=$?; rm -f '' @ pidFile @ ''; if [ '' @ [dq] @ ''$rc'' @ [dq] @ '' = 255 ]; then printf '' @
     [sq] @ ''%s'' @ [CHR 0x5C] @ ''n'' @ [sq] @ '' '' @ ShellQuote report @ '' >&2; fi; exit $rc''"

definition processGroupTeardownScript :: "string \<Rightarrow> string" where
  "processGroupTeardownScript pidFile =
     join [CHR 0x0A]
       [''p=$(cat '' @ ShellQuote pidFile @ '' 2>/dev/null)'',
        ''n=0'',
        ''while [ -z '' @ [dq] @ ''$p'' @ [dq] @ '' ] && [ $n -lt 2 ]; do'',
        ''  sleep 1'',
        ''  p=$(cat '' @ ShellQuote pidFile @ '' 2>/dev/null)'',
        ''  n=$((n+1))'',
        ''done'',
        ''if [ -n '' @ [dq] @ ''$p'' @ [dq] @ '' ]; then'',
        ''  kill -TERM -$p 2>/dev/null'',
        ''  n=0'',
        ''  while [ $n -lt 2 ] && kill -0 -$p 2>/dev/null; do'',
        ''    sleep 1'',
        ''    n=$((n+1))'',
        ''  done'',
        ''  kill -0 -$p 2>/dev/null && kill -KILL -$p 2>/dev/null'',
        ''fi'',
        ''rm -f '' @ pidFile]"

definition stripExitReport :: "string \<Rightarrow> string \<Rightarrow> string \<times> bool" where
  "stripExitReport stderr report =
     (case index_of stderr report of None \<Rightarrow> (stderr, False) | Some index \<Rightarrow> (take index stderr, True))"

definition terminateRemote :: "'w env \<Rightarrow> 'w os \<Rightarrow> string \<Rightarrow> remote_config \<Rightarrow> string \<Rightarrow> 'w \<Rightarrow> 'w" where
  "terminateRemote env os name cfg pidFile w =
     (case SSHArgs env name cfg (processGroupTeardownScript pidFile) w of
        (args, w) \<Rightarrow>
          snd (os_Exec os \<lparr>ps_Argv = ''ssh'' # args, ps_Dir = [], ps_Stdin = [], ps_Timeout = remoteInterruptTimeout,
            ps_Merged = False, ps_OnCancel = None\<rparr> w))"

text \<open>The process of one remote command: the command behind the record of its process group.\<close>

definition ssh_start ::
  "'w env \<Rightarrow> 'w os \<Rightarrow> string \<Rightarrow> remote_config \<Rightarrow> string \<Rightarrow> run_options \<Rightarrow> string \<Rightarrow> 'w \<Rightarrow> process_start \<times> 'w" where
  "ssh_start env os name cfg dir opts command w =
     (let pidFile = remoteInterruptPIDFile (e_Pid env) (os_Nano os w);
          report = remoteExitReport (e_Pid env) (os_Nano os w)
      in case SSHArgs env name cfg (recordRemoteProcessGroup command pidFile report) w of
        (args, w) \<Rightarrow>
          (\<lparr>ps_Argv = ''ssh'' # args, ps_Dir = dir, ps_Stdin = Stdin opts, ps_Timeout = Timeout opts,
            ps_Merged = False, ps_OnCancel = Some (processGroupTeardownScript pidFile)\<rparr>, w))"

text \<open>
  How the end of the ssh client is read: an exit status of 255 without the wrapper's report, on
  a run nobody cancelled, is a connection that died.
\<close>

definition dropped :: "process \<Rightarrow> bool \<Rightarrow> bool" where
  "dropped p reported \<longleftrightarrow> pr_Error p = Some (ExitStatus 255) \<and> \<not> reported \<and> pr_Context p = NotCancelled"

definition SSHRun :: "'w env \<Rightarrow> 'w os \<Rightarrow> string \<Rightarrow> remote_config \<Rightarrow> string \<Rightarrow> 'w runner" where
  "SSHRun env os name cfg dir opts command w =
     (let pidFile = remoteInterruptPIDFile (e_Pid env) (os_Nano os w);
          report = remoteExitReport (e_Pid env) (os_Nano os w)
      in case ssh_start env os name cfg dir opts command w of
        (start, w) \<Rightarrow>
          (case os_Exec os start w of
             (p, w) \<Rightarrow>
               (case stripExitReport (shown (pr_Stderr p)) report of
                  (stderr, reported) \<Rightarrow>
                    (let result = \<lparr>Stdout = shown (pr_Stdout p), Stderr = stderr, ExitCode = 0\<rparr> in
                     case pr_Error p of
                       None \<Rightarrow> ((result, None), w)
                     | Some err \<Rightarrow>
                         (let failure = commandError (pr_Context p) command stderr err in
                          if dropped p reported then
                            ((result, Some (Wrapf ''%w: %v'' [command_message failure] (Sentinel ErrConnectionMayHaveDropped))),
                             terminateRemote env os name cfg pidFile w)
                          else ((result, Some (as_error failure)), w))))))"

section \<open>Inside the project's container\<close>

definition containerInterruptTimeout :: int where "containerInterruptTimeout = 20 * 10 ^ 9"

record container_runner =
  c_Container :: string
  c_User :: string
  c_LocalRoot :: string
  c_ContainerRoot :: string

text \<open>\<open>filepath.Rel\<close> on the components of the two cleaned paths; nothing where it is an error.\<close>

definition path_elems :: "string \<Rightarrow> string list" where
  "path_elems p =
     (let body = (if has_prefix p ''/'' then tl p else p) in if body = [] then [] else split_on CHR ''/'' body)"

fun drop_common :: "string list \<Rightarrow> string list \<Rightarrow> string list \<times> string list" where
  "drop_common (b # bs) (t # ts) = (if b = t then drop_common bs ts else (b # bs, t # ts))"
| "drop_common bs ts = (bs, ts)"

definition filepath_rel :: "string \<Rightarrow> string \<Rightarrow> string option" where
  "filepath_rel basepath targpath =
     (let base = path_clean basepath; targ = path_clean targpath in
      if targ = base then Some ''.''
      else
        let base = (if base = ''.'' then [] else base) in
        if has_prefix base ''/'' \<noteq> has_prefix targ ''/'' then None
        else case drop_common (path_elems base) (path_elems targ) of
          (bs, ts) \<Rightarrow>
            if bs \<noteq> [] \<and> hd bs = ''..'' then None
            else Some (join ''/'' (map (\<lambda>_. ''..'') bs @ ts)))"

definition outside_error :: "container_runner \<Rightarrow> string \<Rightarrow> go_error" where
  "outside_error r path =
     Wrapf ''%w: %s is outside the project root %s; move --output under the project root, or build on the host''
       [path, c_LocalRoot r] (Sentinel ErrContainerPathUnmappable)"

definition ContainerPath :: "container_runner \<Rightarrow> string \<Rightarrow> go_error + string" where
  "ContainerPath r path =
     (if trim_space (c_ContainerRoot r) = [] then
        Inl (Wrapf ''%w: this runner has no container root configured, so no path can be mapped into it'' []
          (Sentinel ErrContainerPathUnmappable))
      else
        let path = trim_space path in
        if path = [] then Inr (path_clean (c_ContainerRoot r))
        else
          let path = path_clean path in
          case filepath_rel (path_clean (c_LocalRoot r)) path of
            None \<Rightarrow> Inl (outside_error r path)
          | Some rel \<Rightarrow>
              if rel = ''..'' \<or> has_prefix rel ''../'' then Inl (outside_error r path)
              else Inr (path_join [c_ContainerRoot r, rel]))"

definition no_container :: go_error where
  "no_container = Errorf ''the container runner has no container name to exec into'' []"

definition container_argv :: "container_runner \<Rightarrow> string \<Rightarrow> string \<Rightarrow> go_error + string list" where
  "container_argv r workdir script =
     (if trim_space (c_Container r) = [] then Inl no_container
      else Inr (''exec'' # (if c_User r \<noteq> [] then [''-u'', c_User r] else []) @
        [''-w'', if trim_space workdir = [] then c_ContainerRoot r else workdir, c_Container r, ''sh'', ''-c'', script]))"

definition pathNameChar :: "char \<Rightarrow> bool" where
  "pathNameChar b \<longleftrightarrow>
     CHR ''a'' \<le> b \<and> b \<le> CHR ''z'' \<or> CHR ''A'' \<le> b \<and> b \<le> CHR ''Z'' \<or> is_digit b \<or> b \<in> set ''._-+~''"

text \<open>
  The loop over the occurrences of the project root, on the text still to be read.  The root is
  not empty here; the first test is only there for the recursion.
\<close>

function rewrite_root :: "string \<Rightarrow> string \<Rightarrow> string \<Rightarrow> string" where
  "rewrite_root root inside rest =
     (if root = [] then rest
      else case index_of rest root of
        None \<Rightarrow> rest
      | Some found \<Rightarrow>
          (let end = found + length root in
           if end < length rest \<and> pathNameChar (rest ! end) \<or> 0 < found \<and> pathNameChar (rest ! (found - 1))
           then take (found + 1) rest @ rewrite_root root inside (drop (found + 1) rest)
           else take found rest @ inside @ rewrite_root root inside (drop end rest)))"
  by pat_completeness auto
termination
proof (relation "measure (\<lambda>(root, inside, rest). length rest)", goal_cases)
  case (2 root inside rest found e)
  with index_of_bound [of rest root found] show ?case by (cases root) auto
next
  case (3 root inside rest found e)
  with index_of_bound [of rest root found] show ?case by (cases root) auto
qed simp

declare rewrite_root.simps [simp del]

definition replaceLocalRoot :: "container_runner \<Rightarrow> string \<Rightarrow> string" where
  "replaceLocalRoot r command =
     (let root = trim_space (c_LocalRoot r) in
      if root = [] then command
      else
        let root = path_clean root; inside = path_clean (c_ContainerRoot r) in
        if root = ''.'' \<or> root = ''/'' then command else rewrite_root root inside command)"

definition ContainerArgs :: "container_runner \<Rightarrow> string \<Rightarrow> string \<Rightarrow> go_error + string list" where
  "ContainerArgs r workdir command =
     (if trim_space (c_Container r) = [] then Inl no_container
      else container_argv r workdir (replaceLocalRoot r command))"

definition recordContainerProcessGroup :: "string \<Rightarrow> string \<Rightarrow> string" where
  "recordContainerProcessGroup command pidFile =
     ''printf '' @ [sq] @ ''%s'' @ [CHR 0x5C] @ ''n'' @ [sq] @ '' $$ > '' @ ShellQuote pidFile @ ''; ( '' @ command @ [CHR 0x0A] @
     ''); rc=$?; rm -f '' @ pidFile @ ''; exit $rc''"

definition containerInterruptPIDFile :: "int \<Rightarrow> int \<Rightarrow> string" where
  "containerInterruptPIDFile pid nano = ''/tmp/.govard-build-interrupt-'' @ itoa pid @ ''-'' @ itoa nano @ ''.pid''"

text \<open>The text of the teardown's own failure, or nothing.\<close>

definition exit_text :: "exit_error \<Rightarrow> string" where
  "exit_text err =
     (case err of ExitStatus n \<Rightarrow> ''exit status '' @ itoa n | Signalled t \<Rightarrow> ''signal: '' @ t
      | WaitDelayExpired \<Rightarrow> ''exec: WaitDelay expired before I/O complete'' | NotStarted t \<Rightarrow> t)"

definition terminateInContainer :: "'w os \<Rightarrow> container_runner \<Rightarrow> string \<Rightarrow> 'w \<Rightarrow> string option \<times> 'w" where
  "terminateInContainer os r pidFile w =
     (case container_argv r (c_ContainerRoot r) (processGroupTeardownScript pidFile) of
        Inl err \<Rightarrow> (Some (concat (error_text err)), w)
      | Inr args \<Rightarrow>
          (case os_Exec os \<lparr>ps_Argv = ''docker'' # args, ps_Dir = [], ps_Stdin = [],
              ps_Timeout = containerInterruptTimeout, ps_Merged = True, ps_OnCancel = None\<rparr> w of
             (p, w) \<Rightarrow>
               (case pr_Error p of
                  None \<Rightarrow> (None, w)
                | Some err \<Rightarrow>
                    (let trimmed = trim_space (concat (pr_Stdout p)) in
                     (Some (if trimmed = [] then exit_text err else exit_text err @ '': '' @ trimmed), w)))))"

definition containerTeardownNote :: "string \<Rightarrow> string option \<Rightarrow> string" where
  "containerTeardownNote name teardown =
     (case teardown of
        None \<Rightarrow> ''teardown attempted: govard ran a second docker exec in container '' @ name @
          '' to signal the step'' @ [sq] @ ''s process group''
      | Some err \<Rightarrow> ''teardown attempted but failed: the docker exec in container '' @ name @
          '' that signals the step'' @ [sq] @ ''s process group did not complete ('' @ err @
          ''); the step may still be running there'')"

text \<open>The working directory inside the container: the mapped one, or the project's root.\<close>

definition container_workdir :: "container_runner \<Rightarrow> string \<Rightarrow> go_error + string" where
  "container_workdir r dir = (if trim_space dir = [] then Inr (c_ContainerRoot r) else ContainerPath r dir)"

text \<open>A failure of the run itself is an error; one of the command carries its note.\<close>

definition ContainerRunFull ::
  "'w env \<Rightarrow> 'w os \<Rightarrow> container_runner \<Rightarrow> string \<Rightarrow> run_options \<Rightarrow> string \<Rightarrow> 'w \<Rightarrow>
   (go_error + cmd_result \<times> command_failure option) \<times> 'w" where
  "ContainerRunFull env os r dir opts command w =
     (if Stdin opts \<noteq> [] then
        (Inl (Wrapf ''%w: %q would have to carry it in its argv or its command text, which is what RunOptions.Stdin exists to avoid''
           [command] (Sentinel ErrContainerStdinUnsupported)), w)
      else case container_workdir r dir of
        Inl err \<Rightarrow> (Inl err, w)
      | Inr workdir \<Rightarrow>
          (let pidFile = containerInterruptPIDFile (e_Pid env) (os_Nano os w) in
           case container_argv r workdir (recordContainerProcessGroup (replaceLocalRoot r command) pidFile) of
             Inl err \<Rightarrow> (Inl err, w)
           | Inr args \<Rightarrow>
               (case os_Exec os \<lparr>ps_Argv = ''docker'' # args, ps_Dir = [], ps_Stdin = [], ps_Timeout = Timeout opts,
                   ps_Merged = False, ps_OnCancel = None\<rparr> w of
                  (p, w) \<Rightarrow>
                    (case (if pr_Context p \<noteq> NotCancelled then terminateInContainer os r pidFile w else (None, w)) of
                       (teardown, w) \<Rightarrow>
                         (let result = \<lparr>Stdout = shown (pr_Stdout p), Stderr = shown (pr_Stderr p), ExitCode = 0\<rparr> in
                          case pr_Error p of
                            None \<Rightarrow> (Inr (result, None), w)
                          | Some err \<Rightarrow>
                              (let failure = commandError (pr_Context p) command (Stderr result) err in
                               (Inr (result, Some (if pr_Context p \<noteq> NotCancelled
                                  then failure\<lparr>cf_Note := containerTeardownNote (c_Container r) teardown\<rparr>
                                  else failure)), w)))))))"

definition ContainerRun :: "'w env \<Rightarrow> 'w os \<Rightarrow> container_runner \<Rightarrow> string \<Rightarrow> 'w runner" where
  "ContainerRun env os r dir opts command w =
     (case ContainerRunFull env os r dir opts command w of
        (Inl err, w) \<Rightarrow> ((\<lparr>Stdout = [], Stderr = [], ExitCode = 0\<rparr>, Some err), w)
      | (Inr (result, failure), w) \<Rightarrow> ((result, map_option as_error failure), w))"

section \<open>Lemmas: the rewritten command\<close>

lemma rewrite_none: "index_of rest root = None \<Longrightarrow> rewrite_root root inside rest = rest"
  by (subst rewrite_root.simps) simp

lemma index_of_skip:
  "(\<And>k. k < length x \<Longrightarrow> \<not> has_prefix (drop k (x @ y)) root) \<Longrightarrow>
   index_of (x @ y) root = map_option ((+) (length x)) (index_of y root)"
proof (induction x)
  case Nil
  show ?case by (cases "index_of y root") simp_all
next
  case (Cons c x)
  have "\<not> has_prefix (c # x @ y) root" using Cons.prems [of 0] by simp
  moreover have "index_of (x @ y) root = map_option ((+) (length x)) (index_of y root)"
    using Cons.prems [of "Suc _"] by (intro Cons.IH) simp
  ultimately show ?case by (cases "index_of y root") simp_all
qed

text \<open>Text in which no occurrence starts is kept, when it does not end inside a name.\<close>

lemma rewrite_skip:
  assumes "\<And>k. k < length x \<Longrightarrow> \<not> has_prefix (drop k (x @ y)) root"
    and "x = [] \<or> \<not> pathNameChar (last x)"
  shows "rewrite_root root inside (x @ y) = x @ rewrite_root root inside y"
proof (cases "root = [] \<or> index_of y root = None")
  case True
  with index_of_skip [OF assms(1)] show ?thesis
    by (auto simp: rewrite_root.simps [of root inside "x @ y"] rewrite_root.simps [of root inside y])
next
  case False
  then obtain f where root: "root \<noteq> []" and f: "index_of y root = Some f" by auto
  have before: "0 < length x + f \<and> pathNameChar ((x @ y) ! (length x + f - 1)) \<longleftrightarrow>
    0 < f \<and> pathNameChar (y ! (f - 1))"
  proof (cases "f = 0")
    case True
    with assms(2) show ?thesis by (cases "x = []") (simp_all add: nth_append last_conv_nth)
  next
    case False
    then obtain g where "f = Suc g" by (cases f) auto
    then show ?thesis by (simp add: nth_append)
  qed
  have after: "(x @ y) ! (length x + f + length root) = y ! (f + length root)"
    using nth_append_length_plus [of x y "f + length root"] by (simp add: add.assoc)
  show ?thesis
    using index_of_skip [OF assms(1)] root f before after
    by (simp add: rewrite_root.simps [of root inside "x @ y"] rewrite_root.simps [of root inside y] Let_def add.assoc)
qed

lemma rewrite_hit:
  assumes "root \<noteq> []" and "b = [] \<or> \<not> pathNameChar (hd b)"
  shows "rewrite_root root inside (root @ b) = inside @ rewrite_root root inside b"
proof -
  have "index_of (root @ b) root = Some 0" using index_of_append [of "[]" root b] by simp
  with assms show ?thesis
    by (subst rewrite_root.simps) (auto simp: Let_def nth_append hd_conv_nth)
qed

section \<open>Lemmas: cleaned paths\<close>

lemma split_join_plain: "ss \<noteq> [] \<Longrightarrow> list_all plain_segment ss \<Longrightarrow> split_on CHR ''/'' (join ''/'' ss) = ss"
proof (induction ss)
  case (Cons s ss)
  have s: "CHR ''/'' \<notin> set s" using Cons.prems by (simp add: plain_segment_def)
  then have more: "split_on CHR ''/'' (s @ CHR ''/'' # t) = s # split_on CHR ''/'' t" for t by (induction s) auto
  from s have alone: "split_on CHR ''/'' s = [s]" by (induction s) auto
  show ?case
  proof (cases "ss = []")
    case True
    with alone show ?thesis by simp
  next
    case False
    with Cons more show ?thesis by (simp add: join_slash_Cons)
  qed
qed simp

lemma clean_plain: "list_all plain_segment ss \<Longrightarrow> clean_segments rooted out ss = rev out @ ss"
  by (induction ss arbitrary: out) (auto simp: plain_segment_def)

definition rooted :: "string list \<Rightarrow> string" where
  "rooted ss = CHR ''/'' # join ''/'' ss"

lemma path_clean_rooted_plain: "list_all plain_segment ss \<Longrightarrow> path_clean (rooted ss) = rooted ss"
  by (cases "ss = []") (simp_all add: rooted_def path_clean_rooted split_join_plain clean_plain)

lemma path_elems_rooted: "list_all plain_segment ss \<Longrightarrow> path_elems (rooted ss) = ss"
  by (cases "ss = []") (simp_all add: rooted_def path_elems_def Let_def split_join_plain join_empty)

lemma join_append: "ss \<noteq> [] \<Longrightarrow> ts \<noteq> [] \<Longrightarrow> join ''/'' (ss @ ts) = join ''/'' ss @ CHR ''/'' # join ''/'' ts"
proof (induction ss)
  case (Cons s ss)
  then show ?case by (cases "ss = []") (simp_all add: join_slash_Cons)
qed simp

lemma rooted_append: "ss \<noteq> [] \<Longrightarrow> ts \<noteq> [] \<Longrightarrow> rooted (ss @ ts) = rooted ss @ CHR ''/'' # join ''/'' ts"
  by (simp add: rooted_def join_append)

text \<open>A cleaned absolute path is its components.\<close>

lemma clean_rooted:
  assumes "has_prefix p ''/''"
  obtains ss where "list_all plain_segment ss" "path_clean p = rooted ss"
proof -
  from assms obtain s where p: "p = CHR ''/'' # s" by (auto simp: has_prefix_iff)
  have "list_all plain_segment (clean_segments True [] (split_on CHR ''/'' s))"
    by (rule clean_segments_plain) (auto simp: list_all_iff split_on_no_sep)
  with p that show ?thesis by (simp add: path_clean_rooted rooted_def)
qed

lemma drop_common_prefix: "drop_common bs (bs @ ts) = ([], ts)"
  by (induction bs) (cases ts; simp)+

lemma filepath_rel_inside:
  assumes "list_all plain_segment bs" and "list_all plain_segment ts" and "ts \<noteq> []"
  shows "filepath_rel (rooted bs) (rooted (bs @ ts)) = Some (join ''/'' ts)"
proof -
  have plain: "list_all plain_segment (bs @ ts)" using assms by simp
  have "rooted (bs @ ts) \<noteq> rooted bs"
    using path_elems_rooted [OF assms(1)] path_elems_rooted [OF plain] assms(3) by (metis append_self_conv)
  moreover have "rooted bs \<noteq> ''.''" by (simp add: rooted_def)
  moreover have "has_prefix (rooted ss) ''/''" for ss by (simp add: rooted_def)
  ultimately show ?thesis
    using assms plain
    by (simp add: filepath_rel_def Let_def path_clean_rooted_plain path_elems_rooted drop_common_prefix)
qed

section \<open>Both translations of a path agree\<close>

lemma trim_space_nonempty: "\<not> is_space c \<Longrightarrow> trim_space (c # s) \<noteq> []"
  by (simp add: trim_space_def trim_left_def trim_right_def dropWhile_eq_Nil_conv)

lemma trim_space_rooted: "trim_space (rooted ss) \<noteq> []"
  by (simp add: rooted_def trim_space_nonempty is_space_def)

lemma plain_not_up: "list_all plain_segment ts \<Longrightarrow> join ''/'' ts \<noteq> ''..'' \<and> \<not> has_prefix (join ''/'' ts) ''../''"
proof (cases ts)
  case (Cons t rest)
  assume "list_all plain_segment ts"
  with Cons have split: "split_on CHR ''/'' (join ''/'' ts) = t # rest" and t: "t \<noteq> ''..''"
    by (auto simp: split_join_plain plain_segment_def)
  from split t have "join ''/'' ts \<noteq> ''..''" by (auto simp: split_join_plain)
  moreover have "\<not> has_prefix (join ''/'' ts) ''../''"
  proof
    assume "has_prefix (join ''/'' ts) ''../''"
    then obtain s where "join ''/'' ts = ''../'' @ s" by (auto simp: has_prefix_iff)
    with split t show False by simp
  qed
  ultimately show ?thesis by simp
qed simp

lemma ContainerPath_inside:
  assumes "c_LocalRoot r = rooted bs" and "c_ContainerRoot r = rooted cs" and "list_all plain_segment (bs @ cs @ ts)"
    and "cs \<noteq> []" "ts \<noteq> []" and "trim_space (rooted (bs @ ts)) = rooted (bs @ ts)"
  shows "ContainerPath r (rooted (bs @ ts)) = Inr (rooted (cs @ ts))"
proof -
  have plain: "list_all plain_segment bs" "list_all plain_segment cs" "list_all plain_segment ts" using assms(3) by auto
  have "rooted (cs @ ts) = rooted cs @ ''/'' @ join ''/'' ts" using rooted_append [OF assms(4,5)] by simp
  moreover have "path_clean (rooted (cs @ ts)) = rooted (cs @ ts)" using plain by (simp add: path_clean_rooted_plain)
  moreover have "join ''/'' ts \<noteq> []" using join_empty [OF plain(3)] assms(5) by simp
  ultimately have "path_join [rooted cs, join ''/'' ts] = rooted (cs @ ts)"
    by (simp add: path_join_def) (simp add: rooted_def)
  moreover have "rooted (bs @ ts) \<noteq> []" by (simp add: rooted_def)
  ultimately show ?thesis
    using assms plain plain_not_up [OF plain(3)] filepath_rel_inside [OF plain(1,3) assms(5)]
    by (simp add: ContainerPath_def Let_def trim_space_rooted path_clean_rooted_plain)
qed

lemma ShellQuote_plain: "s \<noteq> [] \<Longrightarrow> sq \<notin> set s \<Longrightarrow> ShellQuote s = sq # s @ [sq]"
proof -
  assume "s \<noteq> []" "sq \<notin> set s"
  moreover have "sq \<notin> set s \<Longrightarrow> concat (map (\<lambda>c. if c = sq then [sq, dq, sq, dq, sq] else [c]) s) = s"
    by (induction s) auto
  ultimately show ?thesis by (simp add: ShellQuote_def)
qed

text \<open>
  A path reaches the container the same way through a working directory and through the
  text of a command.  A quoted path below the project's root, in a command that names the root
  nowhere else in or before it, is rewritten to the very path \<open>ContainerPath\<close> gives, quoted, and
  the rest of the command is treated on its own.
\<close>

theorem container_paths_agree:
  assumes "c_LocalRoot r = rooted bs" and "c_ContainerRoot r = rooted cs"
    and "list_all plain_segment (bs @ cs @ ts)" and "bs \<noteq> []" "cs \<noteq> []" "ts \<noteq> []"
    and "trim_space (rooted bs) = rooted bs" and "trim_space (rooted (bs @ ts)) = rooted (bs @ ts)"
    and "sq \<notin> set (rooted (bs @ ts))" "sq \<notin> set (rooted (cs @ ts))"
    and "\<forall>k < length pre + 1. \<not> has_prefix (drop k (pre @ ShellQuote (rooted (bs @ ts)) @ post)) (rooted bs)"
    and "\<forall>k < length (rooted ts) + 1. \<not> has_prefix (drop k (rooted ts @ sq # post)) (rooted bs)"
  shows "\<exists>mapped. ContainerPath r (rooted (bs @ ts)) = Inr mapped \<and>
    replaceLocalRoot r (pre @ ShellQuote (rooted (bs @ ts)) @ post) =
      pre @ ShellQuote mapped @ replaceLocalRoot r post"
proof -
  let ?root = "rooted bs" and ?inside = "rooted cs"
  have plain: "list_all plain_segment bs" "list_all plain_segment cs" using assms(3) by auto
  have splits: "rooted (bs @ ts) = ?root @ rooted ts" "rooted (cs @ ts) = ?inside @ rooted ts"
    using rooted_append assms(4-6) by (simp_all add: rooted_def)
  have nonempty: "?root \<noteq> []" "rooted (bs @ ts) \<noteq> []" "rooted (cs @ ts) \<noteq> []" by (simp_all add: rooted_def)
  have "?root \<noteq> ''.''" "?root \<noteq> ''/''"
    using join_empty [OF plain(1)] assms(4) by (simp_all add: rooted_def)
  then have replace: "replaceLocalRoot r command = rewrite_root ?root ?inside command" for command
    using assms(1,2,7) plain nonempty by (simp add: replaceLocalRoot_def Let_def path_clean_rooted_plain)
  have quote: "\<not> pathNameChar sq" "\<not> pathNameChar CHR ''/''" by (simp_all add: pathNameChar_def sq_def is_digit_def)
  have "pre @ ShellQuote (rooted (bs @ ts)) @ post = (pre @ [sq]) @ ?root @ (rooted ts @ [sq]) @ post"
    using assms(9) nonempty by (simp add: ShellQuote_plain splits)
  also have "rewrite_root ?root ?inside \<dots> = (pre @ [sq]) @ rewrite_root ?root ?inside (?root @ (rooted ts @ [sq]) @ post)"
    using assms(9,11) nonempty quote by (intro rewrite_skip) (simp_all add: ShellQuote_plain splits)
  also have "rewrite_root ?root ?inside (?root @ (rooted ts @ [sq]) @ post) =
      ?inside @ rewrite_root ?root ?inside ((rooted ts @ [sq]) @ post)"
    using nonempty quote by (intro rewrite_hit) (simp_all add: rooted_def)
  also have "rewrite_root ?root ?inside ((rooted ts @ [sq]) @ post) = (rooted ts @ [sq]) @ rewrite_root ?root ?inside post"
    using assms(12) quote by (intro rewrite_skip) simp_all
  finally show ?thesis
    using ContainerPath_inside [OF assms(1-3,5,6,8)] assms(10) nonempty
    by (simp add: replace ShellQuote_plain splits)
qed

lemma all_upto: "(\<forall>k < n. P k) \<longleftrightarrow> list_all P [0..<n]"
  by (auto simp: list_all_iff)

definition demo_container :: container_runner where
  "demo_container = \<lparr>c_Container = ''shop-php-1'', c_User = ''www'', c_LocalRoot = ''/srv/app'', c_ContainerRoot = ''/var/www''\<rparr>"

theorem container_paths_agree_witness:
  "ContainerPath demo_container ''/srv/app/out'' = Inr ''/var/www/out'' \<and>
   replaceLocalRoot demo_container (''tar -x -C '' @ ShellQuote ''/srv/app/out'' @ '' -v'') =
     ''tar -x -C '' @ ShellQuote ''/var/www/out'' @ replaceLocalRoot demo_container '' -v''"
proof -
  have roots: "c_LocalRoot demo_container = rooted [''srv'', ''app'']" "c_ContainerRoot demo_container = rooted [''var'', ''www'']"
    by code_simp+
  have path: "rooted ([''srv'', ''app''] @ [''out'']) = ''/srv/app/out''" by code_simp
  have mapped: "ContainerPath demo_container ''/srv/app/out'' = Inr ''/var/www/out''" by code_simp
  have before: "\<forall>k < length ''tar -x -C '' + 1. \<not> has_prefix (drop k (''tar -x -C '' @ ShellQuote (rooted ([''srv'', ''app''] @ [''out''])) @ '' -v''))
      (rooted [''srv'', ''app''])"
    and behind: "\<forall>k < length (rooted [''out'']) + 1. \<not> has_prefix (drop k (rooted [''out''] @ sq # '' -v'')) (rooted [''srv'', ''app''])"
    unfolding all_upto by code_simp+
  have plain: "list_all plain_segment ([''srv'', ''app''] @ [''var'', ''www''] @ [''out''])" by code_simp
  have trimmed: "trim_space (rooted [''srv'', ''app'']) = rooted [''srv'', ''app'']"
    "trim_space (rooted ([''srv'', ''app''] @ [''out''])) = rooted ([''srv'', ''app''] @ [''out''])"
    "sq \<notin> set (rooted ([''srv'', ''app''] @ [''out'']))" "sq \<notin> set (rooted ([''var'', ''www''] @ [''out'']))"
    by code_simp+
  have some: "[''srv'', ''app''] \<noteq> []" "[''var'', ''www''] \<noteq> []" "[''out''] \<noteq> []" by simp_all
  from container_paths_agree [OF roots plain some trimmed before behind, unfolded path]
  obtain q where q: "ContainerPath demo_container ''/srv/app/out'' = Inr q"
    "replaceLocalRoot demo_container (''tar -x -C '' @ ShellQuote ''/srv/app/out'' @ '' -v'') =
       ''tar -x -C '' @ ShellQuote q @ replaceLocalRoot demo_container '' -v''"
    by (elim exE conjE)
  from q(1) mapped have "q = ''/var/www/out''" by (simp only: sum.inject)
  with mapped q(2) show ?thesis by (simp only: simp_thms)
qed

text \<open>
  The test on the left of an occurrence looks at the text still to be read, which starts anew
  after a replacement: a directory that repeats the root below the root is rewritten twice.
\<close>

lemma root_below_itself_is_rewritten_twice:
  "ContainerPath demo_container ''/srv/app/srv/app'' = Inr ''/var/www/srv/app'' \<and>
   replaceLocalRoot demo_container ''cd /srv/app/srv/app'' = ''cd /var/www/var/www''"
  by code_simp

section \<open>A lost connection\<close>

lemma length_nat_digits: "0 < k \<Longrightarrow> n < 10 ^ k \<Longrightarrow> length (nat_digits n) \<le> k"
proof (induction k arbitrary: n)
  case (Suc k)
  show ?case
  proof (cases "n < 10")
    case False
    then have "0 < k" using Suc.prems by (cases k) auto
    moreover have "n div 10 < 10 ^ k" using Suc.prems by (simp add: less_mult_imp_div_less mult.commute)
    ultimately show ?thesis using Suc.IH False by (subst nat_digits.simps) simp
  qed (subst nat_digits.simps, simp)
qed simp

lemma length_itoa: "in_int64 n \<Longrightarrow> length (itoa n) \<le> 20"
proof -
  assume "in_int64 n"
  then have "nat \<bar>n\<bar> < 10 ^ 19" by (simp add: in_int64_def) linarith
  then show ?thesis using length_nat_digits [of 19 "nat \<bar>n\<bar>"] by (auto simp: itoa_def abs_if split: if_splits)
qed

lemma itoa_no_underscore: "CHR ''_'' \<notin> set (itoa n)"
proof -
  have "CHR ''_'' \<notin> set (nat_digits k)" for k using list_all_nat_digits [of k] by (auto simp: list_all_iff is_digit_def)
  then show ?thesis by (simp add: itoa_def)
qed

text \<open>What a capture shows: the end of what was written, behind a note without an underscore.\<close>

lemma shown_tail:
  obtains lead kept where "shown writes = lead @ kept" "CHR ''_'' \<notin> set lead"
    "kept = drop (length (concat writes) - nat captureLimit) (concat writes)"
proof -
  let ?b = "write_all writes (newBoundedBuffer captureLimit)"
  have b: "?b = captured (effective_limit captureLimit) (concat writes)"
    using write_all_captured [OF effective_limit_pos, of writes captureLimit "[]"] by (simp add: newBoundedBuffer_captured)
  have limit: "effective_limit captureLimit = nat captureLimit" by (simp add: effective_limit_def captureLimit_def)
  have bytes: "CHR ''_'' \<notin> set (humanBytes n)" for n
    by (simp add: humanBytes_def one_decimal_def itoa_no_underscore)
  show ?thesis
  proof (cases "bb_dropped ?b = 0")
    case True
    then show ?thesis
      by (intro that [of "[]"]) (simp_all add: shown_def BufferString_def b limit captured_def last_bytes_def)
  next
    case False
    then show ?thesis
      by (intro that [of "ellipsis @ '' '' @ humanBytes (bb_dropped ?b) @ '' dropped, keeping the last '' @
          humanBytes (int (length (bb_buf ?b))) @ '' '' @ ellipsis @ [CHR 0x0A]"])
        (simp_all add: shown_def BufferString_def ellipsis_def bytes, simp add: b limit captured_def last_bytes_def)
  qed
qed

lemma report_text:
  obtains rest where "remoteExitReport pid nano = CHR ''_'' # rest"
  by (simp add: remoteExitReport_def)

lemma report_fits: "in_int64 pid \<Longrightarrow> in_int64 nano \<Longrightarrow> length (remoteExitReport pid nano) < nat captureLimit"
  using length_itoa [of pid] length_itoa [of nano] by (simp add: remoteExitReport_def captureLimit_def)

text \<open>An occurrence of the report cannot start in text without an underscore, nor where the step did not print it.\<close>

lemma no_report:
  assumes "report = CHR ''_'' # rest" and "CHR ''_'' \<notin> set lead"
    and "\<And>k. k < n \<Longrightarrow> \<not> has_prefix (drop k kept) report" and "k < length lead + n"
  shows "\<not> has_prefix (drop k (lead @ kept)) report"
proof (cases "k < length lead")
  case True
  then have "drop k (lead @ kept) = lead ! k # drop (Suc k) lead @ kept" by (simp add: Cons_nth_drop_Suc [symmetric])
  moreover have "lead ! k \<noteq> CHR ''_''" using assms(2) True nth_mem by metis
  ultimately show ?thesis using assms(1) by simp
next
  case False
  with assms(3) [of "k - length lead"] assms(4) show ?thesis by simp
qed

lemma unfinished_report:
  assumes "report = CHR ''_'' # rest" and "concat writes = out"
    and "\<And>k. k < length out \<Longrightarrow> \<not> has_prefix (drop k (out @ report)) report"
  shows "stripExitReport (shown writes) report = (shown writes, False)"
proof -
  obtain lead kept where shown: "shown writes = lead @ kept" "CHR ''_'' \<notin> set lead"
    and kept: "kept = drop (length (concat writes) - nat captureLimit) (concat writes)"
    by (rule shown_tail)
  let ?j = "length (concat writes) - nat captureLimit"
  have "\<not> has_prefix (drop k kept) report" if "k < length kept" for k
  proof -
    have "k + ?j < length out" using that by (simp add: kept assms(2))
    with assms(3) [of "k + ?j"] show ?thesis
      using has_prefix_appendI [of "drop (k + ?j) out" report report] by (auto simp: kept assms(2))
  qed
  then have "\<not> has_prefix (drop k (shown writes)) report" if "k < length (shown writes)" for k
    using no_report [OF assms(1) shown(2), of "length kept" kept k] that by (simp add: shown(1))
  moreover have "\<not> has_prefix (drop (length (shown writes)) (shown writes)) report" using assms(1) by simp
  ultimately have "index_of (shown writes) report = None" unfolding index_of_None by (metis le_neq_implies_less)
  then show ?thesis by (simp add: stripExitReport_def)
qed

lemma finished_report:
  assumes "report = CHR ''_'' # rest" and "length report < nat captureLimit"
    and "concat writes = out @ report @ [CHR 0x0A]"
    and "\<And>k. k < length out \<Longrightarrow> \<not> has_prefix (drop k (out @ report)) report"
  obtains own where "stripExitReport (shown writes) report = (own, True)" "shown writes = own @ report @ [CHR 0x0A]"
    "index_of own report = None"
proof -
  obtain lead kept where shown: "shown writes = lead @ kept" "CHR ''_'' \<notin> set lead"
    and kept: "kept = drop (length (concat writes) - nat captureLimit) (concat writes)"
    by (rule shown_tail)
  let ?j = "length (concat writes) - nat captureLimit"
  have j: "?j \<le> length out" using assms(2) by (simp add: assms(3))
  then have kept_out: "kept = drop ?j out @ report @ [CHR 0x0A]" by (simp add: kept assms(3))
  have clean: "\<not> has_prefix (drop k kept) report" if "k < length (drop ?j out)" for k
  proof
    assume "has_prefix (drop k kept) report"
    then obtain r where "drop k (drop ?j out @ report @ [CHR 0x0A]) = report @ r" by (auto simp: kept_out has_prefix_iff)
    moreover have "drop k (drop ?j out @ report @ [CHR 0x0A]) = drop (?j + k) (out @ report) @ [CHR 0x0A]"
      using that by (simp add: add.commute)
    ultimately have eq: "drop (?j + k) (out @ report) @ [CHR 0x0A] = report @ r" by simp
    have "length report \<le> length (drop (?j + k) (out @ report))" using that by simp
    with arg_cong [OF eq, of "take (length report)"] have "take (length report) (drop (?j + k) (out @ report)) = report"
      by simp
    then have "has_prefix (drop (?j + k) (out @ report)) report" unfolding has_prefix_iff by (metis append_take_drop_id)
    with assms(4) [of "?j + k"] that show False by simp
  qed
  let ?own = "lead @ drop ?j out"
  have own: "shown writes = ?own @ report @ [CHR 0x0A]" by (simp add: shown(1) kept_out)
  have first: "\<not> has_prefix (drop k (shown writes)) report" if "k < length ?own" for k
    using no_report [OF assms(1) shown(2), of "length (drop ?j out)" kept k] clean that by (simp add: shown(1))
  from index_of_append [of ?own report "[CHR 0x0A]"] first
  have "index_of (shown writes) report = Some (length ?own)" unfolding own by blast
  then have "stripExitReport (shown writes) report = (?own, True)" by (simp add: stripExitReport_def own)
  moreover have "index_of ?own report = None"
    unfolding index_of_None
  proof (intro allI impI)
    fix k assume "k \<le> length ?own"
    show "\<not> has_prefix (drop k ?own) report"
    proof (cases "k = length ?own")
      case True
      then show ?thesis using assms(1) by simp
    next
      case False
      with \<open>k \<le> length ?own\<close> first [of k] show ?thesis
        unfolding own by (auto dest: has_prefix_appendI [where r = "report @ [CHR 0x0A]"])
    qed
  qed
  ultimately show ?thesis using that own by blast
qed

text \<open>
  A step that exits with 255 is not taken for a lost connection, and a lost connection is not
  taken for a failed step.  When the wrapper's report is the last thing on the error output, the
  run fails with the step's own status and no second connection is made; when it is missing, the
  error says the connection may have dropped and the second connection is sent to stop what may
  still run.  Either way the report is not in the text the operator sees, however much of the
  output the capture dropped.
\<close>

theorem SSHRun_tells_loss_from_failure:
  assumes "ssh_start env os name cfg dir opts command w = (start, w1)" and "os_Exec os start w1 = (p, w2)"
    and "pr_Error p = Some (ExitStatus 255)" and "pr_Context p = NotCancelled"
    and "in_int64 (e_Pid env)" and "in_int64 (os_Nano os w)"
    and "report = remoteExitReport (e_Pid env) (os_Nano os w)"
    and "concat (pr_Stderr p) = out @ (if finished then report @ [CHR 0x0A] else [])"
    and "\<forall>k < length out. \<not> has_prefix (drop k (out @ report)) report"
  shows "\<exists>result err. SSHRun env os name cfg dir opts command w =
      ((result, Some err),
       if finished then w2
       else terminateRemote env os name cfg (remoteInterruptPIDFile (e_Pid env) (os_Nano os w)) w2) \<and>
    (errors_is err ErrConnectionMayHaveDropped \<longleftrightarrow> \<not> finished) \<and>
    (finished \<longrightarrow> command_exit_code err = Some 255) \<and>
    index_of (Stderr result) report = None"
proof -
  obtain rest where rest: "report = CHR ''_'' # rest" using report_text assms(7) by metis
  have fits: "length report < nat captureLimit" using report_fits assms(5-7) by blast
  show ?thesis
  proof (cases finished)
    case True
    then have "concat (pr_Stderr p) = out @ report @ [CHR 0x0A]" using assms(8) by simp
    from finished_report [OF rest fits this] assms(9) obtain own
      where "stripExitReport (shown (pr_Stderr p)) report = (own, True)" "index_of own report = None" by metis
    with True show ?thesis
      using assms(1-7) by (simp add: SSHRun_def Let_def dropped_def as_error_def commandError_def)
  next
    case False
    then have "concat (pr_Stderr p) = out" using assms(8) by simp
    from unfinished_report [OF rest this] assms(9)
    have strip: "stripExitReport (shown (pr_Stderr p)) report = (shown (pr_Stderr p), False)" by blast
    then have "index_of (shown (pr_Stderr p)) report = None"
      by (auto simp: stripExitReport_def split: option.splits)
    with False strip show ?thesis
      using assms(1-7) by (simp add: SSHRun_def Let_def dropped_def)
  qed
qed

definition lossy_os :: "unit os" where
  "lossy_os =
     \<lparr>os_Exec = (\<lambda>start w. (\<lparr>pr_Stdout = [], pr_Stderr = [''broken '', ''pipe''], pr_Error = Some (ExitStatus 255),
        pr_Context = NotCancelled\<rparr>, w)), os_Nano = (\<lambda>w. 7)\<rparr>"

theorem SSHRun_tells_loss_from_failure_witness:
  "\<exists>result err. SSHRun listing_env lossy_os ''live'' (plain_remote ''/srv'' None) [] (short_opts False) ''make'' () = ((result, Some err), ()) \<and>
     errors_is err ErrConnectionMayHaveDropped"
proof -
  let ?start = "ssh_start listing_env lossy_os ''live'' (plain_remote ''/srv'' None) [] (short_opts False) ''make'' ()"
  let ?p = "\<lparr>pr_Stdout = [], pr_Stderr = [''broken '', ''pipe''], pr_Error = Some (ExitStatus 255), pr_Context = NotCancelled\<rparr>"
  have start: "?start = (fst ?start, snd ?start)" by (rule prod.collapse [symmetric])
  have ran: "os_Exec lossy_os (fst ?start) (snd ?start) = (?p, ())" by (simp add: lossy_os_def)
  have ids: "in_int64 (e_Pid listing_env)" "in_int64 (os_Nano lossy_os ())" by code_simp+
  have out: "concat (pr_Stderr ?p) = ''broken pipe'' @ (if False then remoteExitReport (e_Pid listing_env) (os_Nano lossy_os ()) @ [CHR 0x0A] else [])"
    by simp
  have clean: "\<forall>k < length ''broken pipe''. \<not> has_prefix (drop k (''broken pipe'' @
      remoteExitReport (e_Pid listing_env) (os_Nano lossy_os ()))) (remoteExitReport (e_Pid listing_env) (os_Nano lossy_os ()))"
    unfolding all_upto by code_simp
  have "pr_Error ?p = Some (ExitStatus 255)" "pr_Context ?p = NotCancelled" by simp_all
  from SSHRun_tells_loss_from_failure [OF start ran this ids refl out clean] show ?thesis by auto
qed

end
