(* ===== verification/BuildArtifact.thy ===== *)
theory BuildArtifact
  imports Runners Artifact Verify PlanBuild
begin

text \<open>
  Building an artifact (\<open>artifact.go\<close>, \<open>planFrontendRunner\<close> of \<open>runner_container.go\<close>): one revision
  is extracted into the output directory, the recipe's build tasks run there, what belongs to
  the target is dropped, and the manifest is written.  A build panics where \<open>BuildPlan\<close> does.
  The lines printed for the operator are not modelled.
\<close>

section \<open>Where a build runs\<close>

text \<open>A build's runner: this machine (or whatever a caller put in its place), or a container.\<close>

datatype 'w build_runner = OnHost "string \<Rightarrow> 'w runner" | InContainer container_runner

definition run_on :: "'w env \<Rightarrow> 'w os \<Rightarrow> 'w build_runner \<Rightarrow> string \<Rightarrow> 'w runner" where
  "run_on env os runner = (case runner of OnHost run \<Rightarrow> run | InContainer r \<Rightarrow> ContainerRun env os r)"

record 'w build_request =
  br_Recipe :: recipe
  br_Hooks :: "hook list"
  br_Options :: options
  br_Vars :: vars
  br_WorkDir :: string
  br_OutputDir :: string
  br_Force :: bool
  br_Runner :: "'w build_runner option"
  br_HostRunner :: "'w build_runner option"

definition or_local :: "'w os \<Rightarrow> 'w build_runner option \<Rightarrow> 'w build_runner" where
  "or_local os runner = (case runner of Some r \<Rightarrow> r | None \<Rightarrow> OnHost (LocalRun os))"

definition build_opts :: "int \<Rightarrow> run_options" where
  "build_opts timeout = \<lparr>Timeout = timeout, Stdin = [], Streamed = False\<rparr>"

section \<open>The tools of the frontend step\<close>

definition frontendDirsVariable :: string where "frontendDirsVariable = ''settings.frontend_dir_args''"
definition runnerNameHost :: string where "runnerNameHost = ''host''"
definition runnerNameContainer :: string where "runnerNameContainer = ''container''"
definition nodeTools :: "string list" where "nodeTools = [''node'', ''npm'']"

definition tools_script :: "string list \<Rightarrow> string" where
  "tools_script tools =
     ''for tool in '' @ join '' '' (map ShellQuote tools) @ ''; do command -v '' @ [dq] @ ''$tool'' @ [dq] @
     '' >/dev/null 2>&1 || printf '' @ [sq] @ ''%s'' @ [CHR 0x5C] @ ''n'' @ [sq] @ '' '' @ [dq] @ ''$tool'' @ [dq] @ ''; done''"

definition missingToolsOn :: "'w env \<Rightarrow> 'w os \<Rightarrow> 'w build_runner \<Rightarrow> string list \<Rightarrow> 'w \<Rightarrow> (go_error + string list) \<times> 'w" where
  "missingToolsOn env os runner tools w =
     (case run_on env os runner [] (build_opts shortCommandTimeout) (tools_script tools) w of
        ((_, Some err), w) \<Rightarrow> (Inl err, w)
      | ((result, None), w) \<Rightarrow>
          (Inr (filter (\<lambda>name. name \<noteq> []) (map trim_space (split_on CHR 0x0A (Stdout result)))), w))"

text \<open>The frontend step of a plan, where the build would run it.\<close>

fun find_frontend :: "vars \<Rightarrow> step list \<Rightarrow> step option" where
  "find_frontend vs [] = None"
| "find_frontend vs (st # steps) =
     (if ID st \<noteq> TaskFrontend \<or> Kind st \<noteq> StepTask \<or> Stage st \<noteq> StageBuild then find_frontend vs steps
      else if \<not> Implemented st \<or> NeedsApplication st \<or> NeedsMigration st then None
      else
        let placeholder = ''{{'' @ frontendDirsVariable @ ''}}'' in
        if \<not> contains (Command st) placeholder then Some st
        else case Expand vs placeholder of
          Inl _ \<Rightarrow> None
        | Inr dirs \<Rightarrow> if trim_space dirs = [] then None else Some st)"

definition frontendBuildStep :: "'w build_request \<Rightarrow> step option outcome" where
  "frontendBuildStep req =
     (case BuildPlan (br_Recipe req) (br_Hooks req) of
        Panic \<Rightarrow> Panic
      | Fail _ \<Rightarrow> Done None
      | Done p \<Rightarrow> Done (find_frontend (br_Vars req) (Steps (ForBuildMode BuildServer p))))"

record 'w frontend_plan =
  fp_StepID :: string
  fp_Runner :: "'w build_runner option"
  fp_Name :: string

definition no_frontend :: "'w frontend_plan" where
  "no_frontend = \<lparr>fp_StepID = [], fp_Runner = None, fp_Name = []\<rparr>"

text \<open>The error type is \<open>runtime.MissingError\<close>; its text is kept, the hint is the end of its detail.\<close>

definition no_node :: "string \<Rightarrow> string list \<Rightarrow> string list \<Rightarrow> string \<Rightarrow> go_error" where
  "no_node name missing hostMissing step =
     Errorf (''missing capability '' @ [dq] @ ''node'' @ [dq] @ '': neither container %s (no %s) nor the host (no %s) has the Node toolchain %s needs; --runner container runs the PHP steps in the project'' @ [sq] @ ''s app container and a step that needs Node on the host when the container has none; install Node in the container or on the host running govard (--runner host does not help: it needs Node on the host too), or, when the frontend command uses {{settings.frontend_dir_args}} as every shipped recipe does, leave deploy.settings.frontend_dir empty to skip the frontend build'')
       [name, join '', '' missing, join '', '' hostMissing, step]"

definition place_frontend ::
  "'w env \<Rightarrow> 'w os \<Rightarrow> container_runner \<Rightarrow> 'w build_runner \<Rightarrow> step \<Rightarrow> 'w \<Rightarrow> 'w frontend_plan outcome \<times> 'w" where
  "place_frontend env os r host st w =
     (case missingToolsOn env os (InContainer r) nodeTools w of
        (Inl err, w) \<Rightarrow> (Fail (Wrapf ''check container %s for the Node toolchain %s needs: %w'' [c_Container r, ID st] err), w)
      | (Inr missing, w) \<Rightarrow>
          if missing = [] then
            (Done \<lparr>fp_StepID = ID st, fp_Runner = Some (InContainer r), fp_Name = runnerNameContainer\<rparr>, w)
          else (case missingToolsOn env os host nodeTools w of
             (Inl err, w) \<Rightarrow> (Fail (Wrapf ''check the host for the Node toolchain %s needs: %w'' [ID st] err), w)
           | (Inr hostMissing, w) \<Rightarrow>
               if hostMissing = [] then
                 (Done \<lparr>fp_StepID = ID st, fp_Runner = Some host, fp_Name = runnerNameHost\<rparr>, w)
               else (Fail (no_node (c_Container r) missing hostMissing (ID st)), w)))"

definition planFrontendRunner ::
  "'w env \<Rightarrow> 'w os \<Rightarrow> 'w build_runner \<Rightarrow> 'w build_runner option \<Rightarrow> 'w build_request \<Rightarrow> 'w \<Rightarrow> 'w frontend_plan outcome \<times> 'w" where
  "planFrontendRunner env os runner host req w =
     (case runner of
        OnHost _ \<Rightarrow> (Done no_frontend, w)
      | InContainer r \<Rightarrow>
          (case frontendBuildStep req of
             Panic \<Rightarrow> (Panic, w)
           | Fail err \<Rightarrow> (Fail err, w)
           | Done None \<Rightarrow> (Done no_frontend, w)
           | Done (Some st) \<Rightarrow> place_frontend env os r (or_local os host) st w))"

section \<open>The output directory\<close>

definition prepareOutputDir :: "'w machine \<Rightarrow> string \<Rightarrow> bool \<Rightarrow> 'w \<Rightarrow> go_error option \<times> 'w" where
  "prepareOutputDir m output force w =
     (let create = (\<lambda>w. case m_MkdirAll m output w of
            (Some err, w) \<Rightarrow> (Some (Wrapf ''create output directory %s: %w'' [output] err), w)
          | (None, w) \<Rightarrow> (None, w))
      in case m_ReadDir m output w of
        Inr entries \<Rightarrow>
          if entries = [] then create w
          else if \<not> force then
            (Some (Errorf ''output directory %s is not empty; pass --force to replace its contents'' [output]), w)
          else (case m_RemoveAll m output w of
             (Some err, w) \<Rightarrow> (Some (Wrapf ''clear output directory %s: %w'' [output] err), w)
           | (None, w) \<Rightarrow> create w)
      | Inl err \<Rightarrow>
          if \<not> errors_is err ErrNotExist then (Some (Wrapf ''inspect output directory %s: %w'' [output] err), w)
          else create w)"

definition resolveBuildRevision ::
  "'w env \<Rightarrow> 'w os \<Rightarrow> 'w build_runner \<Rightarrow> string \<Rightarrow> options \<Rightarrow> 'w \<Rightarrow> (go_error + string) \<times> 'w" where
  "resolveBuildRevision env os runner workDir opts w =
     (let revision = deployed_revision opts in
      if revision \<noteq> [] then (Inr revision, w)
      else case run_on env os runner [] (build_opts shortCommandTimeout)
          (''git -C '' @ ShellQuote workDir @ '' rev-parse HEAD'') w of
        ((_, Some err), w) \<Rightarrow> (Inl (Wrapf ''resolve the local revision (pass --revision in CI): %w'' [] err), w)
      | ((result, None), w) \<Rightarrow>
          (let resolved = trim_space (Stdout result) in
           if resolved = [] then
             (Inl (Errorf ''resolve the local revision: git returned an empty value (pass --revision in CI)'' []), w)
           else (Inr resolved, w)))"

definition materialise_command :: "string \<Rightarrow> string \<Rightarrow> string \<Rightarrow> string" where
  "materialise_command workDir output revision =
     ''git -C '' @ ShellQuote workDir @ '' cat-file -e '' @ ShellQuote revision @ ''^{commit} && git -C '' @
     ShellQuote workDir @ '' archive --format=tar '' @ ShellQuote revision @ '' | tar -x -C '' @ ShellQuote output"

definition materialiseRevision ::
  "'w env \<Rightarrow> 'w os \<Rightarrow> 'w build_runner \<Rightarrow> string \<Rightarrow> string \<Rightarrow> string \<Rightarrow> int \<Rightarrow> 'w \<Rightarrow> go_error option \<times> 'w" where
  "materialiseRevision env os runner workDir output revision timeout w =
     (case run_on env os runner [] (build_opts timeout) (materialise_command workDir output revision) w of
        ((_, Some err), w) \<Rightarrow>
          (Some (Wrapf ''materialise %s from %s (is the revision fetched?): %w'' [revision, workDir] err), w)
      | ((_, None), w) \<Rightarrow> (None, w))"

section \<open>The build tasks\<close>

text \<open>
  One step: left out, refused, or run in the output directory, where the frontend step of a
  container build runs on the side chosen for it.  What \<open>Set\<close> writes into the shared variables
  is the same for every step.
\<close>

definition step_runner :: "'w build_runner \<Rightarrow> 'w frontend_plan \<Rightarrow> step \<Rightarrow> 'w build_runner" where
  "step_runner runner frontend st =
     (case runner of
        OnHost _ \<Rightarrow> runner
      | InContainer _ \<Rightarrow>
          if ID st = fp_StepID frontend then (case fp_Runner frontend of Some r \<Rightarrow> r | None \<Rightarrow> runner) else runner)"

definition step_command :: "vars \<Rightarrow> string \<Rightarrow> step \<Rightarrow> go_error + string" where
  "step_command vs output st = Expand (SetPath ''release_path'' output (Set ''release'' [] vs)) (Command st)"

fun build_steps ::
  "'w env \<Rightarrow> 'w os \<Rightarrow> 'w build_runner \<Rightarrow> 'w frontend_plan \<Rightarrow> int \<Rightarrow> vars \<Rightarrow> string \<Rightarrow> step list \<Rightarrow> 'w \<Rightarrow>
   go_error option \<times> 'w" where
  "build_steps env os runner frontend timeout vs output [] w = (None, w)"
| "build_steps env os runner frontend timeout vs output (st # steps) w =
     (if Stage st \<noteq> StageBuild \<or> \<not> Implemented st \<or> NeedsApplication st \<or> NeedsMigration st then
        build_steps env os runner frontend timeout vs output steps w
      else if core st \<noteq> None then
        (Some (Errorf ''the build stage declares the core step %s; `govard deploy build` runs shell tasks only'' [ID st]), w)
      else case step_command vs output st of
        Inl err \<Rightarrow> (Some (Wrapf ''expand %s: %w'' [ID st] err), w)
      | Inr command \<Rightarrow>
          (case run_on env os (step_runner runner frontend st) output (build_opts timeout) command w of
             ((_, Some err), w) \<Rightarrow> (Some (Wrapf ''%s: %w'' [ID st] err), w)
           | ((_, None), w) \<Rightarrow> build_steps env os runner frontend timeout vs output steps w))"

definition runBuildTasks ::
  "'w env \<Rightarrow> 'w os \<Rightarrow> 'w build_runner \<Rightarrow> 'w frontend_plan \<Rightarrow> 'w build_request \<Rightarrow> vars \<Rightarrow> string \<Rightarrow> 'w \<Rightarrow>
   go_error option outcome \<times> 'w" where
  "runBuildTasks env os runner frontend req vs output w =
     (case BuildPlan (br_Recipe req) (br_Hooks req) of
        Panic \<Rightarrow> (Panic, w)
      | Fail err \<Rightarrow> (Fail err, w)
      | Done p \<Rightarrow>
          (case build_steps env os runner frontend (buildStepTimeout (br_Options req)) vs output
              (Steps (ForBuildMode BuildServer p)) w of
             (err, w) \<Rightarrow> (Done err, w)))"

section \<open>What an artifact must not carry, and its manifest\<close>

fun drop_paths :: "'w machine \<Rightarrow> string \<Rightarrow> string list \<Rightarrow> 'w \<Rightarrow> go_error option \<times> 'w" where
  "drop_paths m root [] w = (None, w)"
| "drop_paths m root (rel # paths) w =
     (let rel = trim_space rel in
      if rel = [] then drop_paths m root paths w
      else
        let goal = path_clean (path_join [root, rel]) in
        if goal = root \<or> \<not> has_prefix goal (root @ ''/'') then drop_paths m root paths w
        else case m_Lstat m goal w of
          Inl _ \<Rightarrow> drop_paths m root paths w
        | Inr _ \<Rightarrow>
            (case m_RemoveAll m goal w of
               (Some err, w) \<Rightarrow> (Some (Wrapf ''remove %s from the artifact: %w'' [rel] err), w)
             | (None, w) \<Rightarrow> drop_paths m root paths w))"

definition dropTargetOwnedPaths :: "'w machine \<Rightarrow> string \<Rightarrow> string list \<Rightarrow> 'w \<Rightarrow> go_error option \<times> 'w" where
  "dropTargetOwnedPaths m root paths w = drop_paths m (path_clean root) paths w"

definition projectUsesPHP :: "'w machine \<Rightarrow> string \<Rightarrow> 'w \<Rightarrow> bool" where
  "projectUsesPHP m root w =
     list_ex (\<lambda>name. m_IsRegular m (path_join [root, name]) w) [''composer.json'', ''composer.lock'']"

definition probeLocalPHP :: "'w env \<Rightarrow> 'w os \<Rightarrow> 'w build_runner \<Rightarrow> options \<Rightarrow> string \<Rightarrow> 'w \<Rightarrow> string \<times> 'w" where
  "probeLocalPHP env os runner opts workDir w =
     (case run_on env os runner workDir (build_opts shortCommandTimeout)
         (CommandWords (opt_Settings opts) ''php_bin'' ''php'' @ '' -r '' @ [sq] @ ''echo PHP_VERSION;'' @ [sq]) w of
        ((_, Some err), w) \<Rightarrow> ([], w)
      | ((result, None), w) \<Rightarrow> (trim_space (Stdout result), w))"

definition WriteManifest :: "'w env \<Rightarrow> string \<Rightarrow> artifact_manifest \<Rightarrow> 'w \<Rightarrow> go_error option \<times> 'w" where
  "WriteManifest env root manifest w =
     (case m_MarshalManifest (e_Machine env) manifest of
        Inl err \<Rightarrow> (Some (Wrapf ''encode artifact manifest: %w'' [] err), w)
      | Inr payload \<Rightarrow>
          (case m_WriteFile (e_Machine env) (ManifestPath root) (payload @ [CHR 0x0A]) w of
             (Some err, w) \<Rightarrow> (Some (Wrapf ''write artifact manifest: %w'' [] err), w)
           | (None, w) \<Rightarrow> (None, w)))"

section \<open>The build\<close>

text \<open>From the dropped paths on: the PHP of the build, and the manifest of what is left.\<close>

definition record_artifact ::
  "'w env \<Rightarrow> 'w os \<Rightarrow> 'w build_runner \<Rightarrow> 'w frontend_plan \<Rightarrow> options \<Rightarrow> string \<Rightarrow> string \<Rightarrow> string \<Rightarrow> 'w \<Rightarrow>
   (go_error + artifact_manifest) \<times> 'w" where
  "record_artifact env os runner frontend opts workDir output revision w =
     (case dropTargetOwnedPaths (e_Machine env) output (sharedPaths (opt_Settings opts)) w of
        (Some err, w) \<Rightarrow> (Inl err, w)
      | (None, w) \<Rightarrow>
          (case (if projectUsesPHP (e_Machine env) output w then probeLocalPHP env os runner opts workDir w else ([], w)) of
             (phpVersion, w) \<Rightarrow>
               (case BuildManifest env output revision phpVersion w of
                  Inl err \<Rightarrow> (Inl err, w)
                | Inr manifest \<Rightarrow>
                    (let manifest = manifest\<lparr>am_FrontendRunner := fp_Name frontend\<rparr> in
                     case WriteManifest env output manifest w of
                       (Some err, w) \<Rightarrow> (Inl err, w)
                     | (None, w) \<Rightarrow> (Inr manifest, w)))))"

text \<open>From the resolved revision to the built tree.\<close>

definition build_tree ::
  "'w env \<Rightarrow> 'w os \<Rightarrow> 'w build_runner \<Rightarrow> 'w frontend_plan \<Rightarrow> 'w build_request \<Rightarrow> string \<Rightarrow> string \<Rightarrow> 'w \<Rightarrow>
   string outcome \<times> 'w" where
  "build_tree env os runner frontend req workDir output w =
     (let opts = br_Options req;
          timeout = (if opt_CommandTimeout opts \<le> 0 then DefaultCommandTimeout else opt_CommandTimeout opts)
      in case resolveBuildRevision env os runner workDir opts w of
        (Inl err, w) \<Rightarrow> (Fail err, w)
      | (Inr revision, w) \<Rightarrow>
          (case materialiseRevision env os runner workDir output revision timeout w of
             (Some err, w) \<Rightarrow> (Fail err, w)
           | (None, w) \<Rightarrow>
               (let vs = SetPath ''deploy_path'' (path_dir output) (SetPath ''release_path'' output (Clone (br_Vars req))) in
                case runBuildTasks env os runner frontend req vs output w of
                  (Panic, w) \<Rightarrow> (Panic, w)
                | (Fail err, w) \<Rightarrow> (Fail err, w)
                | (Done (Some err), w) \<Rightarrow> (Fail err, w)
                | (Done None, w) \<Rightarrow> (Done revision, w))))"

definition BuildArtifactDir :: "'w env \<Rightarrow> 'w os \<Rightarrow> 'w build_request \<Rightarrow> 'w \<Rightarrow> artifact_manifest outcome \<times> 'w" where
  "BuildArtifactDir env os req w =
     (if trim_space (br_OutputDir req) = [] then
        (Fail (Errorf ''an output directory is required: pass --output <dir>'' []), w)
      else
        let output = path_clean (br_OutputDir req);
            workDir = (if br_WorkDir req = [] then (case m_Getwd (e_Machine env) w of Inr d \<Rightarrow> d | Inl _ \<Rightarrow> []) else br_WorkDir req);
            runner = or_local os (br_Runner req);
            req = req\<lparr>br_Options := WithRecipeDefaults (br_Recipe req) (br_Options req)\<rparr>
        in case planFrontendRunner env os runner (br_HostRunner req) req w of
          (Panic, w) \<Rightarrow> (Panic, w)
        | (Fail err, w) \<Rightarrow> (Fail err, w)
        | (Done frontend, w) \<Rightarrow>
            (case prepareOutputDir (e_Machine env) output (br_Force req) w of
               (Some err, w) \<Rightarrow> (Fail err, w)
             | (None, w) \<Rightarrow>
                 (case build_tree env os runner frontend req workDir output w of
                    (Panic, w) \<Rightarrow> (Panic, w)
                  | (Fail err, w) \<Rightarrow> (Fail err, w)
                  | (Done revision, w) \<Rightarrow>
                      (case record_artifact env os runner frontend (br_Options req) workDir output revision w of
                         (Inl err, w) \<Rightarrow> (Fail err, w)
                       | (Inr manifest, w) \<Rightarrow> (Done manifest, w)))))"

section \<open>Lemmas: what is removed\<close>

text \<open>The same machine, with every path removed appended to a log.\<close>

definition noting_removals :: "'w machine \<Rightarrow> ('w \<times> string list) machine" where
  "noting_removals m =
     (beside m)\<lparr>m_RemoveAll := (\<lambda>p (w, log). case m_RemoveAll m p w of (r, w') \<Rightarrow> (r, (w', log @ [p])))\<rparr>"

lemma drop_paths_inside:
  "drop_paths (noting_removals m) root paths (w, log) = (err, (w', log')) \<Longrightarrow>
   \<exists>removed. log' = log @ removed \<and>
     (\<forall>p \<in> set removed. \<exists>rel \<in> set paths. p = path_clean (path_join [root, trim_space rel]) \<and>
        p \<noteq> root \<and> has_prefix p (root @ ''/''))"
proof (induction paths arbitrary: w log)
  case Nil
  then show ?case by simp
next
  case (Cons entry paths)
  let ?goal = "path_clean (path_join [root, trim_space entry])"
  consider (skip) "drop_paths (noting_removals m) root paths (w, log) = (err, (w', log'))"
    | (drop) r w1 where "m_RemoveAll m ?goal w = (r, w1)" "?goal \<noteq> root" "has_prefix ?goal (root @ ''/'')"
        "case r of Some e \<Rightarrow> (w', log') = (w1, log @ [?goal])
          | None \<Rightarrow> drop_paths (noting_removals m) root paths (w1, log @ [?goal]) = (err, (w', log'))"
    using Cons.prems
    by (auto simp: Let_def noting_removals_def beside_def split: if_splits sum.splits prod.splits option.splits)
  then show ?case
  proof cases
    case skip
    from Cons.IH [OF this] show ?thesis by auto
  next
    case drop
    show ?thesis
    proof (cases r)
      case (Some e)
      with drop show ?thesis by (intro exI [of _ "[?goal]"]) auto
    next
      case None
      with drop(4) have "drop_paths (noting_removals m) root paths (w1, log @ [?goal]) = (err, (w', log'))" by simp
      from Cons.IH [OF this] obtain removed where "log' = (log @ [?goal]) @ removed"
        "\<forall>p \<in> set removed. \<exists>rel \<in> set paths. p = path_clean (path_join [root, trim_space rel]) \<and>
          p \<noteq> root \<and> has_prefix p (root @ ''/'')" by blast
      with drop(2,3) show ?thesis by (intro exI [of _ "?goal # removed"]) auto
    qed
  qed
qed

lemma rooted_prefix:
  assumes "list_all plain_segment ss" "list_all plain_segment ts" and "has_prefix (rooted ss) (rooted ts @ ''/'')"
  shows "strict_prefix ts ss"
proof (cases "ts = []")
  case True
  with assms show ?thesis
    by (cases ss; cases "tl ss") (auto simp: rooted_def plain_segment_def has_prefix_iff)
next
  case False
  with assms join_prefix [OF assms(1,2)] show ?thesis by (simp add: rooted_def)
qed

text \<open>
  Dropping what belongs to the target removes nothing else.  Every path removed is one of the
  configured ones and lies strictly below the artifact's own directory, component by component:
  a configured path that names the directory itself, or leads out of it, removes nothing.
\<close>

theorem dropTargetOwnedPaths_stays_inside:
  assumes "dropTargetOwnedPaths (noting_removals m) root paths (w, []) = (err, (w', removed))"
    and "has_prefix root ''/''" and "p \<in> set removed"
  shows "strict_prefix (path_elems (path_clean root)) (path_elems p) \<and>
    (\<exists>rel \<in> set paths. p = path_clean (path_join [path_clean root, trim_space rel]))"
proof -
  obtain ts where ts: "list_all plain_segment ts" "path_clean root = rooted ts" using clean_rooted [OF assms(2)] .
  from drop_paths_inside [OF assms(1) [unfolded dropTargetOwnedPaths_def]] assms(3) obtain rel where rel: "rel \<in> set paths"
    "p = path_clean (path_join [path_clean root, trim_space rel])" and below: "has_prefix p (path_clean root @ ''/'')"
    by auto
  have "has_prefix (path_join [path_clean root, trim_space rel]) ''/''"
    unfolding path_join_def by (simp add: ts) (simp add: rooted_def path_clean_rooted)
  from clean_rooted [OF this] obtain ss where ss: "list_all plain_segment ss" "p = rooted ss" by (metis rel(2))
  from rooted_prefix [OF ss(1) ts(1)] below ss ts have "strict_prefix ts ss" by simp
  then have "strict_prefix (path_elems (path_clean root)) (path_elems p)" using ss ts by (simp add: path_elems_rooted)
  with rel show ?thesis by blast
qed

theorem dropTargetOwnedPaths_stays_inside_witness:
  "(\<lambda>p. strict_prefix (path_elems (path_clean ''/out'')) (path_elems p)) ''/out/a'' \<and>
   snd (snd (dropTargetOwnedPaths (noting_removals small_machine) ''/out'' [''..'', ''x/../a'', ''.''] (False, []))) = [''/out/a'']"
proof -
  let ?run = "dropTargetOwnedPaths (noting_removals small_machine) ''/out'' [''..'', ''x/../a'', ''.''] (False, [])"
  have removed: "snd (snd ?run) = [''/out/a'']" by code_simp
  then have run: "?run = (fst ?run, (fst (snd ?run), [''/out/a'']))" by (metis prod.collapse)
  from dropTargetOwnedPaths_stays_inside [OF run] removed show ?thesis by simp
qed

section \<open>From the build to the deploy\<close>

text \<open>
  What a build and the deploy of its artifact rely on in the files of this machine.  A file reads
  back as it was written, and writing one leaves every other as it was; what was encoded as a
  manifest decodes to it; and a walk says what is there, each file under a path of its own.
\<close>

definition honest_files :: "'w env \<Rightarrow> bool" where
  "honest_files env \<longleftrightarrow>
     (let m = e_Machine env in
      (\<forall>p s w w'. m_WriteFile m p s w = (None, w') \<longrightarrow>
         m_ReadFile m p w' = Inr s \<and>
         (\<forall>q. q \<noteq> p \<longrightarrow> m_ReadFile m q w' = m_ReadFile m q w \<and> m_Lstat m q w' = m_Lstat m q w \<and>
            m_Readlink m q w' = m_Readlink m q w)) \<and>
      (\<forall>x t. m_MarshalManifest m x = Inr t \<longrightarrow> m_UnmarshalManifest m (t @ [CHR 0x0A]) = Inr x) \<and>
      (\<forall>root w. list_all (walk_entry env root w) (m_Walk m root w) \<and>
         (\<forall>relative \<in> set (listed_paths (m_Walk m root w)). path_join [root, relative] \<noteq> ManifestPath root)))"

lemma kept_record:
  assumes "honest_files env" and "m_WriteFile (e_Machine env) p s w = (None, w')" and "path_join [root, af_Path file] \<noteq> p"
  shows "as_recorded env root file w' = as_recorded env root file w"
proof -
  let ?m = "e_Machine env" and ?q = "path_join [root, af_Path file]"
  have "m_ReadFile ?m ?q w' = m_ReadFile ?m ?q w" "m_Lstat ?m ?q w' = m_Lstat ?m ?q w"
    "m_Readlink ?m ?q w' = m_Readlink ?m ?q w"
    using assms unfolding honest_files_def Let_def by blast+
  then show ?thesis by (simp add: as_recorded_def)
qed

lemma record_artifact_readable:
  assumes "record_artifact env os runner frontend opts workDir root revision w = (Inr manifest, w')"
    and "honest_files env" and "path_clean root = root"
  shows "ReadManifest env root w' = Inr manifest \<and> VerifyManifest env manifest root w' = None \<and>
    am_Revision manifest = trim_space revision \<and> am_FrontendRunner manifest = fp_Name frontend"
proof -
  from assms(1) obtain php built w2 where built: "BuildManifest env root revision php w2 = Inr built"
    and manifest: "manifest = built\<lparr>am_FrontendRunner := fp_Name frontend\<rparr>"
    and wrote: "WriteManifest env root manifest w2 = (None, w')"
    by (auto simp: record_artifact_def Let_def split: option.splits prod.splits sum.splits)
  from wrote obtain payload where payload: "m_MarshalManifest (e_Machine env) manifest = Inr payload"
    and stored: "m_WriteFile (e_Machine env) (ManifestPath root) (payload @ [CHR 0x0A]) w2 = (None, w')"
    by (auto simp: WriteManifest_def split: sum.splits option.splits prod.splits)
  from built assms(3) obtain files where scan: "scan env root (m_Walk (e_Machine env) root w2) w2 = Inr files"
    and files: "set (am_Files manifest) = set files" "am_SchemaVersion manifest = ArtifactManifestSchema"
      "am_Revision manifest = trim_space revision"
    by (auto simp: manifest BuildManifest_def Let_def split: sum.splits if_splits)
  have walk: "list_all (walk_entry env root w2) (m_Walk (e_Machine env) root w2)"
    and apart: "\<forall>relative \<in> set (listed_paths (m_Walk (e_Machine env) root w2)). path_join [root, relative] \<noteq> ManifestPath root"
    using assms(2) by (auto simp: honest_files_def Let_def)
  note recorded = scan_recorded [OF scan walk]
  have "as_recorded env root entry w'" if "entry \<in> set (am_Files manifest)" for entry
  proof -
    from that files have listed: "entry \<in> set files" by simp
    then have "af_Path entry \<in> set (listed_paths (m_Walk (e_Machine env) root w2))" using recorded by (metis image_eqI set_map)
    with apart kept_record [OF assms(2) stored, of root entry] recorded listed show ?thesis by blast
  qed
  then have "VerifyManifest env manifest root w' = None" by (simp add: VerifyManifest_def verify_files_iff)
  moreover have "m_ReadFile (e_Machine env) (ManifestPath root) w' = Inr (payload @ [CHR 0x0A])"
    "m_UnmarshalManifest (e_Machine env) (payload @ [CHR 0x0A]) = Inr manifest"
    using assms(2) stored payload unfolding honest_files_def Let_def by blast+
  then have "ReadManifest env root w' = Inr manifest" using files by (simp add: ReadManifest_def)
  ultimately show ?thesis using files by (simp add: manifest)
qed


text \<open>One file in the output directory, the manifest beside it once it is written, and a host that runs everything.\<close>

definition built_manifest :: artifact_manifest where
  "built_manifest = \<lparr>am_SchemaVersion = 1, am_Tool = ''govard'', am_BuildMode = ''artifact'', am_Revision = ''abc'',
     am_CreatedAt = ''now'', am_PHPVersion = [], am_FrontendRunner = [], am_ComposerLockSHA256 = [], am_FileCount = 1,
     am_TotalBytes = 2, am_Files = [\<lparr>af_Path = ''a'', af_SHA256 = ''hi'', af_Target = [], af_Size = 2\<rparr>]\<rparr>"

definition builder_machine :: "string option machine" where
  "builder_machine = bare_machine\<lparr>m_Stat := (\<lambda>p w. Inr True), m_MkdirAll := (\<lambda>p w. (None, w)),
     m_Lstat := (\<lambda>p w. if p = ''/out/a'' then Inr (RegularFile 2) else Inl (Sentinel ErrNotExist)),
     m_ReadFile := (\<lambda>p w. if p = ''/out/manifest.json'' then (case w of Some s \<Rightarrow> Inr s | None \<Rightarrow> Inl (Sentinel ErrNotExist))
       else if p = ''/out/a'' then Inr ''hi'' else Inl (Sentinel ErrNotExist)),
     m_WriteFile := (\<lambda>p s w. if p = ''/out/manifest.json'' then (None, Some s) else (Some (Sentinel ErrNotExist), w)),
     m_Walk := (\<lambda>root w. if root = ''/out'' then [WalkFile ''a'' (RegularFile 2)] else []),
     m_MarshalManifest := (\<lambda>x. if x = built_manifest then Inr ''{}'' else Inl (Errorf ''json'' [])),
     m_UnmarshalManifest := (\<lambda>s. Inr built_manifest)\<rparr>"

definition idle_env :: "'w env" where
  "idle_env = \<lparr>e_Run = (\<lambda>opts cmd w. ((\<lparr>Stdout = [], Stderr = [], ExitCode = 0\<rparr>, None), w)),
     e_RunLocal = (\<lambda>opts cmd w. ((\<lparr>Stdout = [], Stderr = [], ExitCode = 0\<rparr>, None), w)),
     e_Marshal = (\<lambda>r. Inr []), e_Unmarshal = (\<lambda>s. Inl (Sentinel ErrNotExist)), e_UnmarshalOwner = (\<lambda>s. None),
     e_Clock = (\<lambda>w. 0), e_FormatTime = (\<lambda>t. ''now''), e_ParseTime = (\<lambda>s. None), e_Getenv = (\<lambda>s. []), e_Pid = 42,
     e_Sha256 = (\<lambda>s. s), e_MarshalAssets = fst, e_UnmarshalAssets = (\<lambda>s. None), e_Machine = bare_machine\<rparr>"

definition builder_env :: "string option env" where
  "builder_env = idle_env\<lparr>e_Machine := builder_machine\<rparr>"

definition build_recipe :: recipe where
  "build_recipe =
     \<lparr>rec_ID = ''demo'', rec_Tasks = [zero_task\<lparr>task_ID := TaskVendors, task_Stage := StageBuild, task_Command := ''true''\<rparr>],
      rec_Hooks = [], rec_Checks = [], rec_Settings = [], rec_Defaults = [], rec_Restore = [],
      rec_DBBackupCommand = [], rec_DBBackupProbe = \<lparr>dump_Command = [], dump_Needs = []\<rparr>,
      rec_VerifyRejectPaths = [], rec_MigrationProbe = None\<rparr>"

definition build_demo :: "string option build_request" where
  "build_demo =
     \<lparr>br_Recipe = build_recipe, br_Hooks = [], br_Options = demo_options\<lparr>opt_Revision := ''abc''\<rparr>, br_Vars = NewVars,
      br_WorkDir = ''/src'', br_OutputDir = ''/out/'', br_Force = False,
      br_Runner = Some (OnHost (\<lambda>dir opts cmd w. ((\<lparr>Stdout = [], Stderr = [], ExitCode = 0\<rparr>, None), w))), br_HostRunner = None\<rparr>"

definition idle_os :: "'w os" where
  "idle_os = \<lparr>os_Exec = (\<lambda>start w. (\<lparr>pr_Stdout = [], pr_Stderr = [], pr_Error = None, pr_Context = NotCancelled\<rparr>, w)),
     os_Nano = (\<lambda>w. 0)\<rparr>"

lemma builder_honest: "honest_files builder_env"
proof -
  have paths: "path_join [''/out'', ''a''] = ''/out/a''" "ManifestPath ''/out'' = ''/out/manifest.json''" by code_simp+
  show ?thesis
    by (auto simp: honest_files_def builder_env_def idle_env_def builder_machine_def bare_machine_def walk_entry_def paths ArtifactManifestName_def
        split: if_splits)
qed


section \<open>Which steps a build runs\<close>

definition buildable :: "step \<Rightarrow> bool" where
  "buildable st \<longleftrightarrow> Stage st = StageBuild \<and> Implemented st \<and> \<not> NeedsApplication st \<and> \<not> NeedsMigration st"

text \<open>A host that notes the directory and the text of every command.\<close>

definition noting_host :: "(string \<Rightarrow> 'w runner) \<Rightarrow> ('w \<times> (string \<times> string) list) build_runner" where
  "noting_host run = OnHost (\<lambda>dir opts cmd (w, log). case run dir opts cmd w of (r, w') \<Rightarrow> (r, (w', log @ [(dir, cmd)])))"

lemma build_steps_log:
  "build_steps env os (noting_host run) frontend timeout vs output steps (w, log) = (None, (w', log')) \<Longrightarrow>
   \<exists>commands. list_all2 (\<lambda>st command. core st = None \<and> step_command vs output st = Inr command)
       (filter buildable steps) commands \<and> log' = log @ map (Pair output) commands"
proof (induction steps arbitrary: w log)
  case (Cons st steps)
  show ?case
  proof (cases "buildable st")
    case False
    then have "build_steps env os (noting_host run) frontend timeout vs output steps (w, log) = (None, (w', log'))"
      using Cons.prems by (auto simp: buildable_def split: if_splits)
    from Cons.IH [OF this] False show ?thesis by simp
  next
    case True
    with Cons.prems obtain command w1 where st: "core st = None" "step_command vs output st = Inr command"
      and rest: "build_steps env os (noting_host run) frontend timeout vs output steps (w1, log @ [(output, command)]) = (None, (w', log'))"
      by (auto simp: buildable_def step_runner_def noting_host_def run_on_def
          split: if_splits sum.splits prod.splits option.splits)
    from Cons.IH [OF rest] obtain commands where
      "list_all2 (\<lambda>st command. core st = None \<and> step_command vs output st = Inr command) (filter buildable steps) commands"
      "log' = (log @ [(output, command)]) @ map (Pair output) commands" by blast
    with st True show ?thesis by (intro exI [of _ "command # commands"]) simp
  qed
qed simp

text \<open>
  C30. A build runs what a server build would run, where the artifact is assembled.  When the
  build tasks succeed on a host, the commands were exactly those of the plan's implemented build
  steps that need neither the application nor its database, in the order of the plan, each
  expanded for the output directory and run in it, and none of them was one of the tool's own.
\<close>

theorem runBuildTasks_runs_the_build_stage:
  assumes "runBuildTasks env os (noting_host run) frontend req vs output (w, []) = (Done None, (w', log))"
  shows "\<exists>p commands. BuildPlan (br_Recipe req) (br_Hooks req) = Done p \<and>
    list_all2 (\<lambda>st command. core st = None \<and> step_command vs output st = Inr command)
      (filter buildable (Steps (ForBuildMode BuildServer p))) commands \<and>
    log = map (Pair output) commands"
proof -
  from assms obtain p where p: "BuildPlan (br_Recipe req) (br_Hooks req) = Done p"
    and run: "build_steps env os (noting_host run) frontend (buildStepTimeout (br_Options req)) vs output
        (Steps (ForBuildMode BuildServer p)) (w, []) = (None, (w', log))"
    by (auto simp: runBuildTasks_def split: outcome.splits prod.splits)
  from build_steps_log [OF run] p show ?thesis by auto
qed

definition willing_host :: "string \<Rightarrow> 'w runner" where
  "willing_host dir opts cmd w = ((\<lparr>Stdout = [], Stderr = [], ExitCode = 0\<rparr>, None), w)"

definition noting_request :: "(unit \<times> (string \<times> string) list) build_request" where
  "noting_request =
     \<lparr>br_Recipe = build_recipe, br_Hooks = [], br_Options = demo_options, br_Vars = NewVars,
      br_WorkDir = ''/src'', br_OutputDir = ''/out'', br_Force = False, br_Runner = None, br_HostRunner = None\<rparr>"

theorem runBuildTasks_runs_the_build_stage_witness:
  "snd (snd (runBuildTasks idle_env idle_os (noting_host willing_host) no_frontend noting_request NewVars ''/out'' ((), []))) =
   [(''/out'', ''true'')]"
proof -
  let ?run = "runBuildTasks idle_env idle_os (noting_host willing_host) no_frontend noting_request NewVars ''/out'' ((), [])"
  have "case fst ?run of Done None \<Rightarrow> True | _ \<Rightarrow> False" by code_simp
  then have run: "?run = (Done None, (fst (snd ?run), snd (snd ?run)))"
    by (cases ?run) (auto split: outcome.splits option.splits)
  from runBuildTasks_runs_the_build_stage [OF run] obtain p commands
    where p: "BuildPlan (br_Recipe noting_request) (br_Hooks noting_request) = Done p"
      and ran: "list_all2 (\<lambda>st command. core st = None \<and> step_command NewVars ''/out'' st = Inr command)
        (filter buildable (Steps (ForBuildMode BuildServer p))) commands"
      and log: "snd (snd ?run) = map (Pair ''/out'') commands" by blast
  have "case BuildPlan (br_Recipe noting_request) (br_Hooks noting_request) of
      Done p \<Rightarrow> map (step_command NewVars ''/out'') (filter buildable (Steps (ForBuildMode BuildServer p))) = [Inr ''true'']
    | _ \<Rightarrow> False" by code_simp
  then have only: "map (step_command NewVars ''/out'') (filter buildable (Steps (ForBuildMode BuildServer p))) = [Inr ''true'']"
    by (simp only: p outcome.case)
  from ran have "map Inr commands = map (step_command NewVars ''/out'') (filter buildable (Steps (ForBuildMode BuildServer p)))"
    by (induction rule: list_all2_induct) simp_all
  then have "commands = [''true'']" unfolding only by (cases commands) simp_all
  with log show ?thesis by simp
qed

end
