(* ===== verification/CommandLine.thy ===== *)
theory CommandLine
  imports Execute Settings PlanBuild
begin

text \<open>
  What every deploy command does before it touches a target (\<open>internal/cmd/deploy_support.go\<close>,
  \<open>internal/cli/exit.go\<close>): reading the flags, naming the remote, resolving the options, the
  recipe and the plan, and the class of each error, which is the exit code of the process.

  A flag set of \<open>pflag\<close> is the list of its declared flags with their values and whether the
  command line set them.  Loading the project's configuration and looking up the recipe of its
  framework are arguments.  A command panics where \<open>BuildPlan\<close> does.
\<close>

section \<open>Errors and exit codes\<close>

datatype cli_error = Execution go_error | UsageError go_error | ConfigError go_error | MissingCapability go_error

text \<open>
  A coded error is never below another one here, so the search along the chain stops at the
  outermost one.  The code of a child process does not count.
\<close>

definition CodeError :: int where "CodeError = 1"
definition CodeUsage :: int where "CodeUsage = 2"
definition CodeCapability :: int where "CodeCapability = 3"
definition CodeConfig :: int where "CodeConfig = 4"

definition Code :: "cli_error option \<Rightarrow> int" where
  "Code err =
     (case err of
        None \<Rightarrow> 0
      | Some (Execution _) \<Rightarrow> CodeError
      | Some (UsageError _) \<Rightarrow> CodeUsage
      | Some (MissingCapability _) \<Rightarrow> CodeCapability
      | Some (ConfigError _) \<Rightarrow> CodeConfig)"

definition configuration_faults :: "sentinel list" where
  "configuration_faults =
     [ErrUnknownAnchor, ErrDuplicateHook, ErrHookCycle, ErrInvalidConfiguration, ErrUnknownRemote,
      ErrRemovedRemoteDeployKey]"

definition configOrUsageError :: "cli_error \<Rightarrow> cli_error" where
  "configOrUsageError err =
     (case err of
        Execution e \<Rightarrow>
          if list_ex (errors_is e) configuration_faults then ConfigError e else UsageError e
      | _ \<Rightarrow> err)"

section \<open>Flags\<close>

datatype flag_value = StringFlag string | BoolFlag bool | NumberFlag int

record flag =
  fl_Value :: flag_value
  fl_Changed :: bool

type_synonym flag_set = "(string \<times> flag) list"

definition declare_flag :: "string \<Rightarrow> flag_value \<Rightarrow> flag_set" where
  "declare_flag name v = [(name, \<lparr>fl_Value = v, fl_Changed = False\<rparr>)]"

definition GetString :: "flag_set \<Rightarrow> string \<Rightarrow> string" where
  "GetString flags name =
     (case map_of flags name of Some f \<Rightarrow> (case fl_Value f of StringFlag s \<Rightarrow> s | _ \<Rightarrow> []) | None \<Rightarrow> [])"

definition GetBool :: "flag_set \<Rightarrow> string \<Rightarrow> bool" where
  "GetBool flags name =
     (case map_of flags name of Some f \<Rightarrow> (case fl_Value f of BoolFlag b \<Rightarrow> b | _ \<Rightarrow> False) | None \<Rightarrow> False)"

definition GetNumber :: "flag_set \<Rightarrow> string \<Rightarrow> int" where
  "GetNumber flags name =
     (case map_of flags name of Some f \<Rightarrow> (case fl_Value f of NumberFlag n \<Rightarrow> n | _ \<Rightarrow> 0) | None \<Rightarrow> 0)"

definition Changed :: "flag_set \<Rightarrow> string \<Rightarrow> bool" where
  "Changed flags name = (case map_of flags name of Some f \<Rightarrow> fl_Changed f | None \<Rightarrow> False)"

definition deployFlagTimeout :: string where "deployFlagTimeout = ''command-timeout''"

definition bindDeploySourceFlags :: flag_set where
  "bindDeploySourceFlags =
     concat (map (\<lambda>name. declare_flag name (StringFlag [])) [''remote'', ''branch'', ''revision'', ''tag''])"

definition negatableBool :: "string \<Rightarrow> bool \<Rightarrow> flag_set" where
  "negatableBool name v = declare_flag name (BoolFlag v) @ declare_flag (''no-'' @ name) (BoolFlag False)"

definition bindDeployFlags :: flag_set where
  "bindDeployFlags =
     bindDeploySourceFlags @
     declare_flag ''build'' (StringFlag BuildAuto) @ declare_flag ''artifact-dir'' (StringFlag []) @
     declare_flag ''publish'' (StringFlag PublishAuto) @ declare_flag ''keep'' (NumberFlag 0) @
     negatableBool ''verify'' True @ negatableBool ''db-backup'' False @ negatableBool ''lock'' True @
     declare_flag ''ignore-deployer-lock'' (BoolFlag False) @ declare_flag deployFlagTimeout (NumberFlag 0) @
     declare_flag ''force'' (BoolFlag False) @ declare_flag ''resume'' (BoolFlag False) @
     declare_flag ''from'' (StringFlag []) @ declare_flag ''yes'' (BoolFlag False) @
     declare_flag ''json'' (BoolFlag False) @ declare_flag ''verbose'' (BoolFlag False)"

definition negatedBool :: "flag_set \<Rightarrow> string \<Rightarrow> go_error + bool" where
  "negatedBool flags name =
     (let v = GetBool flags name in
      if \<not> Changed flags (''no-'' @ name) then Inr v
      else if Changed flags name \<and> v then Inl (Errorf ''--%s and --no-%s contradict each other'' [name, name])
      else Inr False)"

text \<open>A flag of three states: unset where the command does not declare it.\<close>

definition three_state :: "flag_set \<Rightarrow> string \<Rightarrow> go_error + bool option" where
  "three_state flags name =
     (if map_of flags name = None then Inr None else map_sum id Some (negatedBool flags name))"

definition validateDeployFlagCombination :: "overrides \<Rightarrow> go_error option" where
  "validateDeployFlagCombination over =
     (case ValidateSourceSelector over of
        Some err \<Rightarrow> Some err
      | None \<Rightarrow>
          if ov_Publish over \<notin> set [[], PublishAuto, PublishSymlink, PublishInPlace] then
            Some (Errorf ''--publish must be %s, %s or %s'' [PublishAuto, PublishSymlink, PublishInPlace])
          else if to_lower (ov_Build over) \<notin> set [[], BuildAuto, BuildServer, BuildArtifact] then
            Some (Errorf ''--build must be %s, %s or %s'' [BuildAuto, BuildServer, BuildArtifact])
          else None)"

text \<open>The flags every command shares, then the three-state ones, then the combinations.\<close>

definition plain_overrides :: "flag_set \<Rightarrow> overrides" where
  "plain_overrides flags =
     \<lparr>ov_Branch = trim_space (GetString flags ''branch''), ov_Revision = trim_space (GetString flags ''revision''),
      ov_Tag = trim_space (GetString flags ''tag''), ov_Build = trim_space (GetString flags ''build''),
      ov_ArtifactDir = trim_space (GetString flags ''artifact-dir''),
      ov_Publish = trim_space (GetString flags ''publish''), ov_KeepReleases = GetNumber flags ''keep'',
      ov_Verify = None, ov_DBBackup = None, ov_Lock = None,
      ov_IgnoreDeployerLock = GetBool flags ''ignore-deployer-lock'',
      ov_CommandTimeout = GetNumber flags deployFlagTimeout, ov_Resume = GetBool flags ''resume'',
      ov_From = trim_space (GetString flags ''from''), ov_Force = GetBool flags ''force'',
      ov_Yes = GetBool flags ''yes'', ov_JSON = GetBool flags ''json'', ov_Verbose = GetBool flags ''verbose''\<rparr>"

definition overridesFromFlags :: "flag_set \<Rightarrow> cli_error + overrides" where
  "overridesFromFlags flags =
     (case three_state flags ''verify'' of
        Inl err \<Rightarrow> Inl (UsageError err)
      | Inr verify \<Rightarrow>
     (case three_state flags ''db-backup'' of
        Inl err \<Rightarrow> Inl (UsageError err)
      | Inr dbBackup \<Rightarrow>
     (case three_state flags ''lock'' of
        Inl err \<Rightarrow> Inl (UsageError err)
      | Inr lock \<Rightarrow>
          (let over = (plain_overrides flags)\<lparr>ov_Verify := verify, ov_DBBackup := dbBackup, ov_Lock := lock\<rparr> in
           case validateDeployFlagCombination over of
             Some err \<Rightarrow> Inl (UsageError err)
           | None \<Rightarrow>
               if ov_CommandTimeout over < 0 then
                 Inl (UsageError (Errorf ''--%s must not be negative'' [deployFlagTimeout]))
               else Inr over))))"

section \<open>The remote, the options and the host\<close>

definition deployRemoteName :: "flag_set \<Rightarrow> string list \<Rightarrow> cli_error + string" where
  "deployRemoteName flags args =
     (let fromFlag = trim_space (GetString flags ''remote'');
          positional = (case args of [] \<Rightarrow> [] | a # _ \<Rightarrow> trim_space a)
      in if positional \<noteq> [] then
           (if fromFlag \<noteq> [] \<and> fromFlag \<noteq> positional then
              Inl (UsageError (Errorf ''remote %q does not match --remote %q'' [positional, fromFlag]))
            else Inr positional)
         else if fromFlag \<noteq> [] then Inr fromFlag
         else Inl (UsageError (Errorf ''a remote is required: govard deploy <remote>'' [])))"

definition resolve_class :: "go_error \<Rightarrow> cli_error" where
  "resolve_class err =
     (if errors_is err ErrInvalidConfiguration \<or> errors_is err ErrUnknownRemote then ConfigError err
      else UsageError err)"

definition resolveDeployOptions ::
  "(string \<Rightarrow> string + int) \<Rightarrow> (config \<Rightarrow> go_error + remote_config) \<Rightarrow> go_error + config \<Rightarrow> flag_set \<Rightarrow> string \<Rightarrow>
   cli_error + config \<times> options" where
  "resolveDeployOptions parseDuration sandboxRemote loaded flags remote =
     (case overridesFromFlags flags of
        Inl err \<Rightarrow> Inl err
      | Inr over \<Rightarrow>
          (case loaded of
             Inl err \<Rightarrow> Inl (ConfigError err)
           | Inr cfg \<Rightarrow>
               (case ResolveOptions parseDuration sandboxRemote cfg remote over of
                  Inl err \<Rightarrow> Inl (resolve_class err)
                | Inr opts \<Rightarrow> Inr (cfg, opts))))"

definition resolveDeployReadOptions ::
  "(string \<Rightarrow> string + int) \<Rightarrow> (config \<Rightarrow> go_error + remote_config) \<Rightarrow> go_error + config \<Rightarrow> flag_set \<Rightarrow> string \<Rightarrow>
   cli_error + config \<times> options" where
  "resolveDeployReadOptions parseDuration sandboxRemote loaded flags remote =
     (case overridesFromFlags flags of
        Inl err \<Rightarrow> Inl err
      | Inr over \<Rightarrow>
          (case loaded of
             Inl err \<Rightarrow> Inl (ConfigError err)
           | Inr cfg \<Rightarrow>
               (case ResolveReadOptions parseDuration sandboxRemote cfg remote over of
                  Inl err \<Rightarrow> Inl (resolve_class err)
                | Inr opts \<Rightarrow> Inr (cfg, opts))))"

text \<open>The runner of a host follows from the host, so the target is a function of it.\<close>

definition deployHostFor ::
  "(host \<Rightarrow> 'w env) \<Rightarrow> (config \<Rightarrow> go_error + remote_config) \<Rightarrow> config \<Rightarrow> string \<Rightarrow> options \<Rightarrow> 'w \<Rightarrow>
   (cli_error + host) \<times> 'w" where
  "deployHostFor envs sandboxRemote cfg remote opts w =
     (case HostForConfig sandboxRemote cfg remote opts of
        Inl err \<Rightarrow> (Inl (Execution err), w)
      | Inr h \<Rightarrow>
          if trim_space (h_DeployPath h) \<noteq> [] then (Inr h, w)
          else (case DiscoverDeployPath (envs h) h w of
            (Inl err, w) \<Rightarrow> (Inl (ConfigError (Wrapf ''remote %q: %w'' [remote] err)), w)
          | (Inr discovered, w) \<Rightarrow> (Inr (h\<lparr>h_DeployPath := discovered\<rparr>), w)))"

section \<open>The recipe, the hooks and the plan\<close>

definition deployRecipe :: "(config \<Rightarrow> recipe) \<Rightarrow> config \<Rightarrow> options \<Rightarrow> go_error + recipe \<times> options" where
  "deployRecipe recipeFor cfg opts =
     (let r = recipeFor cfg in
      case ValidateSettings r (opt_Settings opts) of
        Some err \<Rightarrow> Inl err
      | None \<Rightarrow>
          (case ValidateDBBackup r (opt_DBBackup opts) of
             Some err \<Rightarrow> Inl err
           | None \<Rightarrow> Inr (r, WithRecipeDefaults r (opts\<lparr>opt_DBBackupProbe := rec_DBBackupProbe r\<rparr>))))"

definition resolveDeployRecipeOptions ::
  "(string \<Rightarrow> string + int) \<Rightarrow> (config \<Rightarrow> go_error + remote_config) \<Rightarrow> (config \<Rightarrow> recipe) \<Rightarrow> go_error + config \<Rightarrow>
   flag_set \<Rightarrow> string \<Rightarrow> cli_error + config \<times> recipe \<times> options" where
  "resolveDeployRecipeOptions parseDuration sandboxRemote recipeFor loaded flags remote =
     (case resolveDeployOptions parseDuration sandboxRemote loaded flags remote of
        Inl err \<Rightarrow> Inl err
      | Inr (cfg, opts) \<Rightarrow>
          (case deployRecipe recipeFor cfg opts of
             Inl err \<Rightarrow> Inl (Execution err)
           | Inr (r, opts) \<Rightarrow> Inr (cfg, r, opts)))"

fun hooksFromConfig :: "hook_config list \<Rightarrow> go_error + hook list" where
  "hooksFromConfig [] = Inr []"
| "hooksFromConfig (cfg # configs) =
     (case HookFromConfig cfg of
        Inl err \<Rightarrow> Inl err
      | Inr h \<Rightarrow> map_sum id (\<lambda>hooks. h # hooks) (hooksFromConfig configs))"

definition deployPlanFor :: "recipe \<Rightarrow> hook list \<Rightarrow> options \<Rightarrow> plan outcome" where
  "deployPlanFor r hooks opts =
     (case BuildPlan r hooks of
        Done p \<Rightarrow> Done (ForPublishStrategy (opt_Publish opts) (ForBuildMode (opt_Build opts) p))
      | Fail err \<Rightarrow> Fail err
      | Panic \<Rightarrow> Panic)"

definition describeLayout :: "string \<Rightarrow> string" where
  "describeLayout strategy =
     (if strategy = PublishInPlace then ''current path is a real directory: releases are copied into it''
      else if strategy = PublishSymlink then
        ''current path is absent or a symlink: releases are swapped atomically''
      else [])"

definition revisionOrSymbolic :: "options \<Rightarrow> string" where
  "revisionOrSymbolic opts =
     (if trim_space (opt_Revision opts) \<noteq> [] then opt_Revision opts
      else if trim_space (opt_Tag opts) \<noteq> [] then ''tag '' @ opt_Tag opts
      else ''HEAD (resolved at deploy time)'')"

section \<open>The plan document\<close>

definition BranchLabel :: "string \<Rightarrow> string" where
  "BranchLabel branch = (if trim_space branch = [] then ''detached'' else branch)"

record plan_json_step =
  pj_Index :: nat
  pj_ID :: string
  pj_Kind :: string
  pj_Stage :: string
  pj_Title :: string
  pj_RunOn :: string
  pj_Source :: string
  pj_Implementation :: implementation
  pj_Command :: string
  pj_Skipped :: bool
  pj_SkipReason :: string
  pj_NeedsApplication :: bool
  pj_NeedsMigration :: bool

record plan_json =
  pd_Remote :: string
  pd_Synthetic :: bool
  pd_Branch :: string
  pd_Revision :: string
  pd_Mode :: string
  pd_Strategy :: string
  pd_DecidedBy :: string
  pd_Steps :: "plan_json_step list"

definition plan_entry :: "nat \<Rightarrow> step \<Rightarrow> plan_json_step" where
  "plan_entry idx st =
     (let skipped = (Skipped st \<or> Implementation st = ImplementationNone) in
      \<lparr>pj_Index = idx + 1, pj_ID = ID st, pj_Kind = Kind st, pj_Stage = Stage st, pj_Title = Title st,
       pj_RunOn = (if RunOn st = [] then RunRemote else RunOn st), pj_Source = Source st,
       pj_Implementation = Implementation st, pj_Command = Command st, pj_Skipped = skipped,
       pj_SkipReason = (if SkipReason st \<noteq> [] then SkipReason st
         else if skipped then ''no implementation for this framework'' else []),
       pj_NeedsApplication = NeedsApplication st, pj_NeedsMigration = NeedsMigration st\<rparr>)"

definition writePlanJSON :: "string \<Rightarrow> options \<Rightarrow> plan \<Rightarrow> plan_json" where
  "writePlanJSON remote opts p =
     \<lparr>pd_Remote = remote, pd_Synthetic = (to_lower (trim_space remote) = SandboxRemoteName),
      pd_Branch = BranchLabel (opt_Branch opts), pd_Revision = revisionOrSymbolic opts,
      pd_Mode = opt_Build opts, pd_Strategy = opt_Publish opts,
      pd_DecidedBy = (if opt_Publish opts = PublishAuto then ''target'' else ''configuration''),
      pd_Steps = map2 plan_entry [0 ..< length (Steps p)] (Steps p)\<rparr>"

text \<open>\<open>deploy plan --json\<close>: the document, or the error of the command; nothing where it panics.\<close>

definition runDeployPlan ::
  "(string \<Rightarrow> string + int) \<Rightarrow> (config \<Rightarrow> go_error + remote_config) \<Rightarrow> (config \<Rightarrow> recipe) \<Rightarrow> go_error + config \<Rightarrow>
   flag_set \<Rightarrow> string list \<Rightarrow> (cli_error + plan_json) option" where
  "runDeployPlan parseDuration sandboxRemote recipeFor loaded flags args =
     (case deployRemoteName flags args of
        Inl err \<Rightarrow> Some (Inl err)
      | Inr remote \<Rightarrow>
     (case resolveDeployRecipeOptions parseDuration sandboxRemote recipeFor loaded flags remote of
        Inl err \<Rightarrow> Some (Inl (configOrUsageError err))
      | Inr (_, r, opts) \<Rightarrow>
          (case hooksFromConfig (opt_Hooks opts) of
             Inl err \<Rightarrow> Some (Inl (configOrUsageError (Execution err)))
           | Inr hooks \<Rightarrow>
               (case deployPlanFor r hooks opts of
                  Panic \<Rightarrow> None
                | Fail err \<Rightarrow> Some (Inl (configOrUsageError (Execution err)))
                | Done p \<Rightarrow> Some (Inr (writePlanJSON remote opts p))))))"

section \<open>Lemmas\<close>

lemma three_state_Inr:
  "three_state flags name = Inr v \<longleftrightarrow>
     (if map_of flags name = None then v = None
      else \<not> (Changed flags (''no-'' @ name) \<and> Changed flags name \<and> GetBool flags name) \<and>
        v = Some (GetBool flags name \<and> \<not> Changed flags (''no-'' @ name)))"
  by (auto simp: three_state_def negatedBool_def Let_def)

text \<open>What the executor does with a step no earlier attempt completed is what the document says.\<close>

lemma plan_entry_agrees:
  assumes "ID st \<notin> set completed"
  shows "pj_Skipped (plan_entry n st) \<longleftrightarrow>
    (\<exists>reason. exec_step env cores x p completed carried idx st s = Next (skip_with env x st reason s)) \<and>
    (Skipped st \<or> Command st = [] \<and> core st = None)"
  using assms
  by (auto simp: plan_entry_def Let_def exec_step_def Implementation_def)

section \<open>Properties\<close>

text \<open>
  What the flags of a deploy mean once they are accepted: each boolean with a negated twin is
  unset exactly where the command does not declare it and otherwise the conjunction of its two
  spellings, which did not ask for both values; at most one source is named; the publish
  strategy and the build mode are ones the engine has; the timeout is not negative.
\<close>

theorem overridesFromFlags_accepted:
  assumes "overridesFromFlags flags = Inr over"
  shows "(\<forall>(name, v) \<in> {(''verify'', ov_Verify over), (''db-backup'', ov_DBBackup over), (''lock'', ov_Lock over)}.
      if map_of flags name = None then v = None
      else \<not> (Changed flags (''no-'' @ name) \<and> Changed flags name \<and> GetBool flags name) \<and>
        v = Some (GetBool flags name \<and> \<not> Changed flags (''no-'' @ name))) \<and>
    ValidateSourceSelector over = None \<and>
    (ov_Publish over = [] \<or> isKnownPublishStrategy (ov_Publish over)) \<and>
    to_lower (ov_Build over) \<in> {[], BuildAuto, BuildServer, BuildArtifact} \<and> 0 \<le> ov_CommandTimeout over"
proof -
  from assms obtain v d l where v: "three_state flags ''verify'' = Inr v" and d: "three_state flags ''db-backup'' = Inr d"
    and l: "three_state flags ''lock'' = Inr l"
    and over: "over = (plain_overrides flags)\<lparr>ov_Verify := v, ov_DBBackup := d, ov_Lock := l\<rparr>"
    and valid: "validateDeployFlagCombination over = None" and timeout: "\<not> ov_CommandTimeout over < 0"
    by (auto simp: overridesFromFlags_def Let_def split: sum.splits option.splits if_splits)
  have "ov_Verify over = v" "ov_DBBackup over = d" "ov_Lock over = l" by (simp_all add: over)
  with v d l valid timeout show ?thesis
    by (simp add: three_state_Inr validateDeployFlagCombination_def isKnownPublishStrategy_def not_less
        split: option.splits if_splits)
qed

definition no_verify_flags :: flag_set where
  "no_verify_flags = AList.update ''no-verify'' \<lparr>fl_Value = BoolFlag True, fl_Changed = True\<rparr> bindDeployFlags"

theorem overridesFromFlags_accepted_witness:
  "\<exists>over. overridesFromFlags no_verify_flags = Inr over \<and> ov_Verify over = Some False"
proof -
  have "\<not> isl (overridesFromFlags no_verify_flags)" by code_simp
  then obtain over where over: "overridesFromFlags no_verify_flags = Inr over"
    by (cases "overridesFromFlags no_verify_flags") auto
  have "map_of no_verify_flags ''verify'' \<noteq> None \<and> Changed no_verify_flags ''no-verify''" by code_simp
  with overridesFromFlags_accepted [OF over] over show ?thesis by simp
qed

text \<open>Why a deploy command stops before it looks at a target: never as an execution failure.\<close>

definition operator_fault :: "cli_error \<Rightarrow> bool" where
  "operator_fault err \<longleftrightarrow> Code (Some err) \<in> {CodeUsage, CodeConfig}"

lemma operator_fault_simps [simp]:
  "operator_fault (UsageError e)" "operator_fault (ConfigError e)"
  "operator_fault (configOrUsageError (Execution e))"
  "operator_fault e' \<Longrightarrow> operator_fault (configOrUsageError e')"
  by (cases e'; auto simp: operator_fault_def Code_def configOrUsageError_def CodeError_def CodeUsage_def
      CodeCapability_def CodeConfig_def)+

lemma resolveDeployOptions_fault:
  "resolveDeployOptions pd sr loaded flags remote = Inl err \<Longrightarrow> operator_fault err"
  by (auto simp: resolveDeployOptions_def overridesFromFlags_def resolve_class_def Let_def
      split: sum.splits option.splits if_splits)

lemma resolveDeployRecipeOptions_fault:
  "resolveDeployRecipeOptions pd sr recipeFor loaded flags remote = Inl err \<Longrightarrow> operator_fault (configOrUsageError err)"
  by (auto simp: resolveDeployRecipeOptions_def split: sum.splits dest: resolveDeployOptions_fault)

text \<open>
  A plan that cannot be shown is the operator's to fix: whatever the flags, the configuration,
  the recipe and the hooks are, the command ends as a usage or a configuration error.
\<close>

theorem runDeployPlan_exit_code:
  assumes "runDeployPlan pd sr recipeFor loaded flags args = Some (Inl err)"
  shows "Code (Some err) \<in> {CodeUsage, CodeConfig}"
proof -
  have "operator_fault err"
    using assms
    by (auto simp: runDeployPlan_def deployRemoteName_def Let_def
        split: sum.splits option.splits outcome.splits if_splits prod.splits dest: resolveDeployRecipeOptions_fault)
  then show ?thesis by (simp add: operator_fault_def)
qed

end
