(* ===== verification/DeployCommand.thy ===== *)
theory DeployCommand
  imports LockSafety CommandLine Runners
begin

text \<open>
  The deploy command (\<open>internal/cmd/deploy.go\<close>, \<open>deploy_sandbox_auth.go\<close>, \<open>RunHooks\<close> of
  \<open>internal/engine/lifecycle_hooks.go\<close>, \<open>RemoteWriteBlocked\<close> of \<open>remote_policy.go\<close>): the gates
  before a run, continuing an unfinished release, and the run between the project's own hooks.
  Also \<open>deploy unlock\<close> (\<open>deploy_unlock.go\<close>).

  The terminal and the confirmation prompt are arguments; the text printed for the operator is
  not modelled.  A command panics where \<open>BuildPlan\<close> does: its result is then nothing.
\<close>

section \<open>The operator and the project's own hooks\<close>

record 'w console =
  con_Terminal :: bool
  con_Confirm :: "string \<Rightarrow> 'w \<Rightarrow> (go_error + bool) \<times> 'w"
  con_OutTerminal :: bool

record lifecycle_step =
  ls_Name :: string
  ls_Run :: string

definition HookPreDeploy :: string where "HookPreDeploy = ''pre_deploy''"
definition HookPostDeploy :: string where "HookPostDeploy = ''post_deploy''"

fun run_hooks :: "'w os \<Rightarrow> string \<Rightarrow> string \<Rightarrow> nat \<Rightarrow> lifecycle_step list \<Rightarrow> 'w \<Rightarrow> go_error option \<times> 'w" where
  "run_hooks os wd event idx [] w = (None, w)"
| "run_hooks os wd event idx (st # steps) w =
     (let command = trim_space (ls_Run st) in
      if command = [] then run_hooks os wd event (Suc idx) steps w
      else case os_Exec os \<lparr>ps_Argv = [''bash'', ''-lc'', command], ps_Dir = wd, ps_Stdin = [], ps_Timeout = 0,
          ps_Merged = False, ps_OnCancel = None\<rparr> w of
        (p, w) \<Rightarrow>
          (case pr_Error p of
             None \<Rightarrow> run_hooks os wd event (Suc idx) steps w
           | Some err \<Rightarrow>
               (let label = (if trim_space (ls_Name st) = [] then ''step #'' @ itoa (int (idx + 1)) else ls_Name st) in
                (Some (Errorf ''hook %s (%s) failed: %w'' [event, label, exit_text err]), w))))"

definition RunHooks ::
  "'w machine \<Rightarrow> 'w os \<Rightarrow> (string \<Rightarrow> lifecycle_step list) \<Rightarrow> string \<Rightarrow> 'w \<Rightarrow> go_error option \<times> 'w" where
  "RunHooks m os lifecycle event w =
     (if lifecycle event = [] then (None, w)
      else run_hooks os (case m_Getwd m w of Inr d \<Rightarrow> d | Inl _ \<Rightarrow> []) event 0 (lifecycle event) w)"

text \<open>The local \<open>HEAD\<close>, from a process of its own.\<close>

definition resolveLocalRevision :: "'w os \<Rightarrow> 'w \<Rightarrow> (go_error + string) \<times> 'w" where
  "resolveLocalRevision os w =
     (case os_Exec os \<lparr>ps_Argv = [''git'', ''rev-parse'', ''HEAD''], ps_Dir = [], ps_Stdin = [], ps_Timeout = 0,
         ps_Merged = False, ps_OnCancel = None\<rparr> w of
        (p, w) \<Rightarrow>
          (case pr_Error p of
             Some err \<Rightarrow> (Inl (Errorf ''resolve the local revision (pass --revision in CI): %w'' [exit_text err]), w)
           | None \<Rightarrow>
               (let revision = trim_space (concat (pr_Stdout p)) in
                (if revision = [] then Inl (Errorf ''resolve the local revision: git returned an empty value'' [])
                 else Inr revision, w))))"

section \<open>Protected remotes\<close>

definition RemoteWriteBlocked :: "string \<Rightarrow> remote_config \<Rightarrow> string option" where
  "RemoteWriteBlocked name rc =
     (case rc_Protected rc of
        Some True \<Rightarrow> Some ''explicit protected flag''
      | Some False \<Rightarrow> None
      | None \<Rightarrow>
          if NormalizeRemoteEnvironment name = RemoteEnvProd then Some ''production environment protection (auto)'' else None)"

definition resolvedRemoteForName ::
  "(config \<Rightarrow> go_error + remote_config) \<Rightarrow> config \<Rightarrow> string \<Rightarrow> go_error + remote_config option" where
  "resolvedRemoteForName sandboxRemote cfg name =
     (if to_lower (trim_space name) = SandboxRemoteName then map_sum id Some (sandboxRemote cfg)
      else Inr (map_of (cf_Remotes cfg) name))"

definition confirmProtectedRemote ::
  "'w console \<Rightarrow> (config \<Rightarrow> go_error + remote_config) \<Rightarrow> config \<Rightarrow> string \<Rightarrow> options \<Rightarrow> string \<Rightarrow> 'w \<Rightarrow>
   cli_error option \<times> 'w" where
  "confirmProtectedRemote con sandboxRemote cfg remote opts action w =
     (case resolvedRemoteForName sandboxRemote cfg remote of
        Inl err \<Rightarrow> (Some (Execution err), w)
      | Inr None \<Rightarrow> (None, w)
      | Inr (Some rc) \<Rightarrow>
          (case RemoteWriteBlocked remote rc of
             None \<Rightarrow> (None, w)
           | Some reason \<Rightarrow>
               if opt_Yes opts then (None, w)
               else if \<not> con_Terminal con then
                 (Some (UsageError (Errorf ''%s is protected (%s); pass --yes to run non-interactively'' [remote, reason])), w)
               else (case con_Confirm con (action @ '' protected remote '' @ go_quote remote @ ''?'') w of
                 (Inl err, w) \<Rightarrow> (Some (Execution err), w)
               | (Inr True, w) \<Rightarrow> (None, w)
               | (Inr False, w) \<Rightarrow> (Some (UsageError (Errorf ''operation on %s cancelled'' [remote])), w))))"

section \<open>Continuing an unfinished release\<close>

definition lockIsHeld :: "'w env \<Rightarrow> host \<Rightarrow> string \<Rightarrow> 'w \<Rightarrow> (go_error + bool) \<times> 'w" where
  "lockIsHeld env h release w =
     (case e_Run env \<lparr>Timeout = minute, Stdin = [], Streamed = False\<rparr> (''test -d '' @ Shell (LockPath h)) w of
        ((_, None), w) \<Rightarrow> (Inr True, w)
      | ((_, Some err), w) \<Rightarrow>
          if command_exit_code err = Some 1 then (Inr False, w)
          else (Inl (Wrapf ''release %s cannot be resumed: the deploy lock could not be checked on %s, so it is treated as held rather than released: %w''
            [release, h_Name h] err), w))"

text \<open>\<open>Duration.Round(time.Second)\<close>, halves away from zero.\<close>

definition RoundSecond :: "int \<Rightarrow> int" where
  "RoundSecond d = (if d < 0 then - round_second (- d) else round_second d)"

definition stale_after :: "options \<Rightarrow> int" where
  "stale_after opts = (if opt_LockStaleAfter opts \<le> 0 then DefaultLockStaleAfter else opt_LockStaleAfter opts)"

text \<open>A release whose record says running is not continued while its lock may be held.\<close>

definition still_running :: "'w env \<Rightarrow> host \<Rightarrow> options \<Rightarrow> release \<Rightarrow> 'w \<Rightarrow> go_error option \<times> 'w" where
  "still_running env h opts rel w =
     (if rel_Status rel \<noteq> StatusRunning then (None, w)
      else case lockIsHeld env h (rel_Release rel) w of
        (Inl err, w) \<Rightarrow> (Some err, w)
      | (Inr False, w) \<Rightarrow> (None, w)
      | (Inr True, w) \<Rightarrow>
          (case DescribeLockOwner env h w of
             ((holder, heldFor), w) \<Rightarrow>
               if heldFor < 0 \<or> heldFor < stale_after opts then
                 (Some (Errorf ''release %s is still running: %s holds its lock (held %s); wait for that run, or release the lock with `govard deploy unlock %s` once it is gone -- for a lock younger than `deploy.lock_stale_after` that needs `--force`, because age is the only evidence govard has that the holder is dead''
                    [rel_Release rel, holder, itoa (RoundSecond heldFor), h_Name h]), w)
               else (None, w)))"

text \<open>A release older than the live one is history.\<close>

definition older_than_live :: "release \<Rightarrow> release \<Rightarrow> bool" where
  "older_than_live rel live =
     (case (atoi (trim_space (rel_Release rel)), atoi (trim_space (rel_Release live))) of
        (Some goal, Some number) \<Rightarrow> goal < number
      | _ \<Rightarrow> False)"

definition goes_backwards :: "'w env \<Rightarrow> host \<Rightarrow> release \<Rightarrow> 'w \<Rightarrow> go_error option \<times> 'w" where
  "goes_backwards env h rel w =
     (case LiveRelease env h w of
        (Inr (Some live), w) \<Rightarrow>
          (if older_than_live rel live then
             Some (Errorf ''release %s is older than the live release %s, so resuming it would activate an older revision over the one serving traffic; deploy normally, or return to it with `govard deploy rollback`''
               [rel_Release rel, rel_Release live])
           else None, w)
      | (_, w) \<Rightarrow> (None, w))"

definition unlock_context :: "host \<Rightarrow> release \<Rightarrow> options \<Rightarrow> step_ctx" where
  "unlock_context h rel opts =
     \<lparr>sc_Host = h, sc_Vars = NewVars, sc_Release = Some rel, sc_Opts = opts, sc_WorkDir = [], sc_Checks = [],
      sc_Live = False, sc_Terminal = False\<rparr>"

definition prepareResume :: "'w env \<Rightarrow> host \<Rightarrow> options \<Rightarrow> 'w \<Rightarrow> (go_error + release option) \<times> 'w" where
  "prepareResume env h opts w =
     (case ResumeTarget env h w of
        (Inl err, w) \<Rightarrow> (Inl err, w)
      | (Inr None, w) \<Rightarrow> (Inr None, w)
      | (Inr (Some rel), w) \<Rightarrow>
          (case still_running env h opts rel w of
             (Some err, w) \<Rightarrow> (Inl err, w)
           | (None, w) \<Rightarrow>
               (case goes_backwards env h rel w of
                  (Some err, w) \<Rightarrow> (Inl err, w)
                | (None, w) \<Rightarrow>
                    (case CoreUnlock env (unlock_context h rel opts) w of
                       (Some err, w) \<Rightarrow> (Inl err, w)
                     | (None, w) \<Rightarrow> (Inr (Some rel), w)))))"

definition explicitBuildFlag :: "flag_set \<Rightarrow> string" where
  "explicitBuildFlag flags =
     (if \<not> Changed flags ''build'' then []
      else let v = to_lower (trim_space (GetString flags ''build'')) in if v = BuildAuto then [] else v)"

definition reconcileResumeBuildMode :: "release \<Rightarrow> options \<Rightarrow> string \<Rightarrow> cli_error + options" where
  "reconcileResumeBuildMode rel opts explicitBuild =
     (let recorded = RecordedBuildMode (Some rel) in
      if recorded = [] then Inr opts
      else if explicitBuild \<noteq> [] \<and> explicitBuild \<noteq> recorded then
        Inl (UsageError (Errorf ''release %s was started with --build=%s, so --build=%s cannot resume it: drop --build to continue it as it began, or deploy normally to start a new release''
          [rel_Release rel, recorded, explicitBuild]))
      else Inr (opts\<lparr>opt_Build := recorded\<rparr>))"

definition validateFromNeedsResume :: "plan \<Rightarrow> string \<Rightarrow> bool \<Rightarrow> go_error option" where
  "validateFromNeedsResume p from resume =
     (let from = trim_space from in
      if from = [] \<or> resume then None
      else if (case (IndexOf TaskRelease p, IndexOf from p) of (Some r, Some f) \<Rightarrow> f \<le> r | _ \<Rightarrow> False) then None
      else Some (Errorf ''--from %q starts after deploy:release, so the run has no release number to expand `{{release_path}}` into: add --resume, or drop --from'' [from]))"

section \<open>Credentials of a sandbox build\<close>

text \<open>\<open>isObject\<close> is \<open>json.Unmarshal\<close> into a map succeeding.  The note is left out.\<close>

fun first_readable :: "'w machine \<Rightarrow> string list \<Rightarrow> 'w \<Rightarrow> string option" where
  "first_readable m [] w = None"
| "first_readable m (p # ps) w =
     (case m_ReadFile m p w of Inr raw \<Rightarrow> Some raw | Inl _ \<Rightarrow> first_readable m ps w)"

definition sandboxComposerAuth ::
  "'w env \<Rightarrow> (string \<Rightarrow> bool) \<Rightarrow> bool \<Rightarrow> bool \<Rightarrow> string \<Rightarrow> string \<Rightarrow> 'w \<Rightarrow> string" where
  "sandboxComposerAuth env isObject remoteIsSandbox serverBuild home cwd w =
     (if \<not> remoteIsSandbox \<or> \<not> serverBuild \<or> trim_space (e_Getenv env ComposerAuthEnv) \<noteq> [] then []
      else case first_readable (e_Machine env)
          (path_join [cwd, ''auth.json''] # (if home \<noteq> [] then [path_join [home, ''.composer'', ''auth.json'']] else [])) w of
        None \<Rightarrow> []
      | Some raw \<Rightarrow> if isObject raw then trim_space raw else [])"

text \<open>The environment of the run, and of the run only.\<close>

definition withSandboxComposerAuth :: "'w env \<Rightarrow> (string \<Rightarrow> bool) \<Rightarrow> bool \<Rightarrow> bool \<Rightarrow> 'w \<Rightarrow> 'w env" where
  "withSandboxComposerAuth env isObject remoteIsSandbox serverBuild w =
     (let home = (case m_HomeDir (e_Machine env) of Some d \<Rightarrow> d | None \<Rightarrow> []);
          cwd = (case m_Getwd (e_Machine env) w of Inr d \<Rightarrow> d | Inl _ \<Rightarrow> []);
          auth = sandboxComposerAuth env isObject remoteIsSandbox serverBuild home cwd w
      in if auth = [] then env
         else env\<lparr>e_Getenv := (\<lambda>name. if name = ComposerAuthEnv then auth else e_Getenv env name)\<rparr>)"

section \<open>Before the run\<close>

record deploy_request =
  dr_Remote :: string
  dr_Host :: host
  dr_Options :: options
  dr_Recipe :: recipe
  dr_Hooks :: "hook list"
  dr_Plan :: plan

text \<open>The revision a deploy of what is checked out names.\<close>

definition default_revision :: "'w os \<Rightarrow> options \<Rightarrow> 'w \<Rightarrow> (go_error + options) \<times> 'w" where
  "default_revision os opts w =
     (if opt_Revision opts = [] \<and> opt_Tag opts = [] then
        (case resolveLocalRevision os w of
           (Inl err, w) \<Rightarrow> (Inl err, w)
         | (Inr revision, w) \<Rightarrow> (Inr (opts\<lparr>opt_Revision := revision\<rparr>), w))
      else (Inr opts, w))"

text \<open>The hooks, the recipe and the plan of the options, and what \<open>--from\<close> may name in it.\<close>

definition planned_request ::
  "(config \<Rightarrow> recipe) \<Rightarrow> config \<Rightarrow> string \<Rightarrow> host \<Rightarrow> options \<Rightarrow> (cli_error + deploy_request) option" where
  "planned_request recipeFor cfg remote h opts =
     (case hooksFromConfig (opt_Hooks opts) of
        Inl err \<Rightarrow> Some (Inl (configOrUsageError (Execution err)))
      | Inr hooks \<Rightarrow>
     (case deployRecipe recipeFor cfg opts of
        Inl err \<Rightarrow> Some (Inl (configOrUsageError (Execution err)))
      | Inr (r, opts) \<Rightarrow>
     (case deployPlanFor r hooks opts of
        Panic \<Rightarrow> None
      | Fail err \<Rightarrow> Some (Inl (configOrUsageError (Execution err)))
      | Done p \<Rightarrow>
          if opt_From opts \<noteq> [] \<and> IndexOf (opt_From opts) p = None then
            Some (Inl (UsageError (Errorf ''--from %q does not name a task or hook in this deploy plan (see `govard deploy plan %s`)''
              [opt_From opts, remote])))
          else (case validateFromNeedsResume p (opt_From opts) (opt_Resume opts) of
            Some err \<Rightarrow> Some (Inl (UsageError err))
          | None \<Rightarrow> Some (Inr \<lparr>dr_Remote = remote, dr_Host = h, dr_Options = opts, dr_Recipe = r,
              dr_Hooks = hooks, dr_Plan = p\<rparr>)))))"

definition prepareDeploy ::
  "(host \<Rightarrow> 'w env) \<Rightarrow> 'w os \<Rightarrow> 'w console \<Rightarrow> (string \<Rightarrow> string + int) \<Rightarrow> (config \<Rightarrow> go_error + remote_config) \<Rightarrow>
   (config \<Rightarrow> recipe) \<Rightarrow> go_error + config \<Rightarrow> flag_set \<Rightarrow> string list \<Rightarrow> 'w \<Rightarrow>
   (cli_error + deploy_request) option \<times> 'w" where
  "prepareDeploy envs os con parseDuration sandboxRemote recipeFor loaded flags args w =
     (case deployRemoteName flags args of
        Inl err \<Rightarrow> (Some (Inl err), w)
      | Inr remote \<Rightarrow>
     (case resolveDeployOptions parseDuration sandboxRemote loaded flags remote of
        Inl err \<Rightarrow> (Some (Inl err), w)
      | Inr (cfg, opts) \<Rightarrow>
     (case deployHostFor envs sandboxRemote cfg remote opts w of
        (Inl err, w) \<Rightarrow> (Some (Inl err), w)
      | (Inr h, w) \<Rightarrow>
     (case confirmProtectedRemote con sandboxRemote cfg remote opts (''Deploy '' @ opt_Revision opts @ '' to'') w of
        (Some err, w) \<Rightarrow> (Some (Inl err), w)
      | (None, w) \<Rightarrow>
     (case ResolvePublishStrategy (envs h) h opts w of
        (Inl err, w) \<Rightarrow> (Some (Inl (Execution err)), w)
      | (Inr strategy, w) \<Rightarrow>
     (case default_revision os (opts\<lparr>opt_Publish := strategy\<rparr>) w of
        (Inl err, w) \<Rightarrow> (Some (Inl (Execution err)), w)
      | (Inr opts, w) \<Rightarrow> (planned_request recipeFor cfg remote h opts, w)))))))"

section \<open>The run\<close>

text \<open>
  The request and the record a run starts from: a new release, or the unfinished one with the
  revision and the build mode it began with.
\<close>

definition resumed_request ::
  "'w env \<Rightarrow> flag_set \<Rightarrow> deploy_request \<Rightarrow> 'w \<Rightarrow> (cli_error + deploy_request \<times> release) option \<times> 'w" where
  "resumed_request env flags req w =
     (let opts = dr_Options req;
          new = NewRelease (e_Getenv env) (e_FormatTime env (e_Clock env w)) [] (opt_Revision opts) (opt_Branch opts)
      in if \<not> opt_Resume opts then (Some (Inr (req, new)), w)
         else case prepareResume env (dr_Host req) opts w of
           (Inl err, w) \<Rightarrow> (Some (Inl (Execution err)), w)
         | (Inr None, w) \<Rightarrow> (Some (Inr (req, new)), w)
         | (Inr (Some rel), w) \<Rightarrow>
             (case reconcileResumeBuildMode rel (opts\<lparr>opt_Revision := rel_Revision rel, opt_Tag := []\<rparr>)
                 (explicitBuildFlag flags) of
                Inl err \<Rightarrow> (Some (Inl err), w)
              | Inr opts \<Rightarrow>
                  (case deployPlanFor (dr_Recipe req) (dr_Hooks req) opts of
                     Panic \<Rightarrow> (None, w)
                   | Fail err \<Rightarrow> (Some (Inl (configOrUsageError (Execution err))), w)
                   | Done p \<Rightarrow> (Some (Inr (req\<lparr>dr_Options := opts, dr_Plan := p\<rparr>, rel)), w))))"

text \<open>The run itself, with the credentials of a sandbox build, and the hooks after it.\<close>

definition deploy_release ::
  "'w env \<Rightarrow> 'w os \<Rightarrow> 'w console \<Rightarrow> (string \<Rightarrow> bool) \<Rightarrow> (string \<Rightarrow> lifecycle_step list) \<Rightarrow> deploy_request \<Rightarrow> release \<Rightarrow>
   'w \<Rightarrow> (cli_error + run_outcome \<times> release) \<times> 'w" where
  "deploy_release env os con isObject lifecycle req rel w =
     (let h = dr_Host req; opts = dr_Options req;
          runEnv = withSandboxComposerAuth env isObject (rc_Sandbox (h_Remote h)) (opt_Build opts = BuildServer) w;
          wd = (case m_Getwd (e_Machine env) w of Inr d \<Rightarrow> d | Inl _ \<Rightarrow> [])
      in case Run runEnv core_run (NewExecutor runEnv h opts wd (con_OutTerminal con)) (dr_Plan req)
          (VarsFor h opts) rel w of
        ((out, runErr), s) \<Rightarrow>
          (case RunHooks (e_Machine env) os lifecycle HookPostDeploy (s_World s) of
             (hookErr, w) \<Rightarrow>
               (case (runErr, hookErr) of
                  (None, Some err) \<Rightarrow> (Inl (Execution (Wrapf ''post-deploy hooks failed: %w'' [] err)), w)
                | (Some err, _) \<Rightarrow>
                    (case RecoveryHint (dr_Remote req) out of
                       (fmt, as) \<Rightarrow> (Inl (Execution (Wrapf (''%w'' @ [CHR 0x0A] @ ''%s'') (fmt # as) err)), w))
                | (None, None) \<Rightarrow> (Inr (out, s_Release s), w))))"

definition runDeploy ::
  "(host \<Rightarrow> 'w env) \<Rightarrow> 'w os \<Rightarrow> 'w console \<Rightarrow> (string \<Rightarrow> string + int) \<Rightarrow> (config \<Rightarrow> go_error + remote_config) \<Rightarrow>
   (config \<Rightarrow> recipe) \<Rightarrow> (string \<Rightarrow> bool) \<Rightarrow> (string \<Rightarrow> lifecycle_step list) \<Rightarrow> go_error + config \<Rightarrow> flag_set \<Rightarrow>
   string list \<Rightarrow> 'w \<Rightarrow> (cli_error + run_outcome \<times> release) option \<times> 'w" where
  "runDeploy envs os con parseDuration sandboxRemote recipeFor isObject lifecycle loaded flags args w =
     (case prepareDeploy envs os con parseDuration sandboxRemote recipeFor loaded flags args w of
        (None, w) \<Rightarrow> (None, w)
      | (Some (Inl err), w) \<Rightarrow> (Some (Inl err), w)
      | (Some (Inr req), w) \<Rightarrow>
          (let env = envs (dr_Host req) in
           case RunHooks (e_Machine env) os lifecycle HookPreDeploy w of
             (Some err, w) \<Rightarrow> (Some (Inl (Execution (Wrapf ''pre-deploy hooks failed: %w'' [] err))), w)
           | (None, w) \<Rightarrow>
               (case resumed_request env flags req w of
                  (None, w) \<Rightarrow> (None, w)
                | (Some (Inl err), w) \<Rightarrow> (Some (Inl err), w)
                | (Some (Inr (req, rel)), w) \<Rightarrow>
                    (case deploy_release env os con isObject lifecycle req rel w of
                       (result, w) \<Rightarrow> (Some result, w)))))"

section \<open>Releasing a lock\<close>

text \<open>The release the hint about maintenance mode names, where it is printed.\<close>

definition printMaintenanceHint :: "'w env \<Rightarrow> host \<Rightarrow> 'w \<Rightarrow> string option \<times> 'w" where
  "printMaintenanceHint env h w =
     (case IncompleteRelease env h w of
        (Inr (Some rel), w) \<Rightarrow> (if MaintenanceMayBeOn rel then Some (rel_Release rel) else None, w)
      | (_, w) \<Rightarrow> (None, w))"

definition empty_release :: release where
  "empty_release =
     \<lparr>rel_SchemaVersion = 0, rel_Tool = [], rel_Release = [], rel_Revision = [], rel_Branch = [], rel_CreatedAt = [],
      rel_CreatedBy = [], rel_CI = None,
      rel_Build = \<lparr>bld_Mode = [], bld_DurationMS = 0, bld_ArtifactRevision = [], bld_ArtifactFiles = 0, bld_ArtifactBytes = 0\<rparr>,
      rel_Tasks = [], rel_Publish = \<lparr>pub_Strategy = [], pub_Docroot = [], pub_PreviousRelease = []\<rparr>,
      rel_Verify = \<lparr>ver_Status = [], ver_Checks = []\<rparr>, rel_DatabaseBackup = [], rel_Migration = None,
      rel_Status = [], rel_Path = []\<rparr>"

definition unlockDeploy ::
  "'w env \<Rightarrow> host \<Rightarrow> string \<Rightarrow> options \<Rightarrow> bool \<Rightarrow> 'w \<Rightarrow> (go_error + string option) \<times> 'w" where
  "unlockDeploy env h remote opts force w =
     (case e_Run env \<lparr>Timeout = minute, Stdin = [], Streamed = False\<rparr> (''test -d '' @ Shell (LockPath h)) w of
        ((_, Some _), w) \<Rightarrow> (case printMaintenanceHint env h w of (hint, w) \<Rightarrow> (Inr hint, w))
      | ((_, None), w) \<Rightarrow>
          (case DescribeLockOwner env h w of
             ((holder, heldFor), w) \<Rightarrow>
               if \<not> force \<and> 0 \<le> heldFor \<and> heldFor < opt_LockStaleAfter opts then
                 (Inl (Errorf ''%s holds a lock started %s ago by %s; pass --force to release it''
                    [remote, itoa (RoundSecond heldFor), holder]), w)
               else (case CoreUnlock env (unlock_context h empty_release opts) w of
                 (Some err, w) \<Rightarrow> (Inl err, w)
               | (None, w) \<Rightarrow> (case printMaintenanceHint env h w of (hint, w) \<Rightarrow> (Inr hint, w)))))"

definition runDeployUnlock ::
  "(host \<Rightarrow> 'w env) \<Rightarrow> (string \<Rightarrow> string + int) \<Rightarrow> (config \<Rightarrow> go_error + remote_config) \<Rightarrow> go_error + config \<Rightarrow>
   flag_set \<Rightarrow> string list \<Rightarrow> 'w \<Rightarrow> (cli_error + string option) \<times> 'w" where
  "runDeployUnlock envs parseDuration sandboxRemote loaded flags args w =
     (case deployRemoteName flags args of
        Inl err \<Rightarrow> (Inl err, w)
      | Inr remote \<Rightarrow>
     (case resolveDeployReadOptions parseDuration sandboxRemote loaded flags remote of
        Inl err \<Rightarrow> (Inl err, w)
      | Inr (cfg, opts) \<Rightarrow>
     (case deployHostFor envs sandboxRemote cfg remote opts w of
        (Inl err, w) \<Rightarrow> (Inl err, w)
      | (Inr h, w) \<Rightarrow>
          (case unlockDeploy (envs h) h remote opts (GetBool flags ''force'') w of
             (Inl err, w) \<Rightarrow> (Inl (Execution err), w)
           | (Inr hint, w) \<Rightarrow> (Inr hint, w)))))"

section \<open>Lemmas: what leaves the lock alone\<close>

context lock_kept
begin

lemma newest_incomplete_kept: "newest_incomplete env k newest ns w = (r, w') \<Longrightarrow> J w \<Longrightarrow> J w'"
  by (induction ns arbitrary: newest w r)
    (auto split: prod.splits sum.splits option.splits if_splits dest: ReadRelease_kept)

lemma IncompleteRelease_kept: "IncompleteRelease env k w = (r, w') \<Longrightarrow> J w \<Longrightarrow> J w'"
  by (auto simp: IncompleteRelease_def list_command_def split: prod.splits option.splits
      dest!: other_kept dest: newest_incomplete_kept)

lemma LiveRelease_kept: "LiveRelease env k w = (r, w') \<Longrightarrow> J w \<Longrightarrow> J w'"
  by (auto simp: LiveRelease_def split: prod.splits sum.splits if_splits
      dest!: liveReleaseName_kept dest: ReadRelease_kept)

lemma DescribeLockOwner_kept: "DescribeLockOwner env k w = (r, w') \<Longrightarrow> J w \<Longrightarrow> J w'"
  by (auto simp: DescribeLockOwner_def describeLockOwner_def read_owner_command_def Let_def
      split: prod.splits option.splits dest!: other_kept)

lemma lockIsHeld_kept: "lockIsHeld env k n w = (r, w') \<Longrightarrow> J w \<Longrightarrow> J w'"
  by (auto simp: lockIsHeld_def split: prod.splits option.splits if_splits dest!: other_kept)

lemma still_running_kept: "still_running env k opts rel w = (r, w') \<Longrightarrow> J w \<Longrightarrow> J w'"
  by (auto simp: still_running_def split: prod.splits sum.splits bool.splits if_splits
      dest!: lockIsHeld_kept dest: DescribeLockOwner_kept)

lemma goes_backwards_kept: "goes_backwards env k rel w = (r, w') \<Longrightarrow> J w \<Longrightarrow> J w'"
  by (auto simp: goes_backwards_def split: prod.splits sum.splits option.splits dest!: LiveRelease_kept)

lemma printMaintenanceHint_kept: "printMaintenanceHint env k w = (r, w') \<Longrightarrow> J w \<Longrightarrow> J w'"
  by (auto simp: printMaintenanceHint_def split: prod.splits sum.splits option.splits dest!: IncompleteRelease_kept)

end

text \<open>
  The test for the lock tells the truth: it succeeds only on a locked target, and ends with 1
  only on one that is not.
\<close>

definition tests_lock :: "'w env \<Rightarrow> host \<Rightarrow> ('w \<Rightarrow> bool) \<Rightarrow> bool" where
  "tests_lock env h locked \<longleftrightarrow>
     (\<forall>opts w. case snd (fst (e_Run env opts (''test -d '' @ Shell (LockPath h)) w)) of
        None \<Rightarrow> locked w
      | Some err \<Rightarrow> command_exit_code err = Some 1 \<longrightarrow> \<not> locked w)"

lemma lockIsHeld_false:
  "tests_lock env h locked \<Longrightarrow> lockIsHeld env h n w = (Inr False, w') \<Longrightarrow> \<not> locked w"
  unfolding tests_lock_def lockIsHeld_def
  by (auto split: prod.splits option.splits if_splits dest: spec [of _ "\<lparr>Timeout = minute, Stdin = [], Streamed = False\<rparr>"])

text \<open>A release that is running by its record is continued only past a lock that is stale.\<close>

lemma still_running_None:
  assumes "tests_lock env h locked" and "locked w" and "still_running env h opts rel w = (None, w')"
    and "rel_Status rel = StatusRunning"
  shows "\<exists>w1 holder age. DescribeLockOwner env h w1 = ((holder, age), w') \<and> 0 \<le> age \<and> stale_after opts \<le> age"
  using assms lockIsHeld_false [OF assms(1), of "rel_Release rel" w]
  by (auto simp: still_running_def not_less split: prod.splits sum.splits bool.splits if_splits; blast)

lemma goes_backwards_None:
  "goes_backwards env h rel w = (None, w') \<Longrightarrow>
   (case fst (LiveRelease env h w) of Inr (Some live) \<Rightarrow> \<not> older_than_live rel live | _ \<Rightarrow> True)"
  by (auto simp: goes_backwards_def split: prod.splits sum.splits option.splits if_splits)

section \<open>Properties\<close>


text \<open>
  A target with an unfinished release 10 whose record says running, locked by a run that began
  before the clock of the model; the lock is the state.
\<close>

definition stale_env :: "bool env" where
  "stale_env =
     \<lparr>e_Run = (\<lambda>opts cmd w.
        if cmd = unlock_command demo_host then ((\<lparr>Stdout = [], Stderr = [], ExitCode = 0\<rparr>, None), False)
        else if cmd = ''test -d '' @ Shell (LockPath demo_host) then
          ((\<lparr>Stdout = [], Stderr = [], ExitCode = 0\<rparr>, if w then None else Some (CommandError cmd 1 [])), w)
        else if cmd = list_command (ReleasesPath demo_host) then
          ((\<lparr>Stdout = ''10'', Stderr = [], ExitCode = 0\<rparr>, None), w)
        else ((\<lparr>Stdout = [], Stderr = [], ExitCode = 0\<rparr>, None), w)),
      e_RunLocal = (\<lambda>opts cmd w. ((\<lparr>Stdout = [], Stderr = [], ExitCode = 0\<rparr>, None), w)),
      e_Marshal = (\<lambda>r. Inr ''record''),
      e_Unmarshal = (\<lambda>s. Inr (demo_release\<lparr>rel_Release := ''10'', rel_Status := StatusRunning\<rparr>)),
      e_UnmarshalOwner = (\<lambda>s. Some \<lparr>own_PID = 7, own_Actor = ''ci'', own_Revision = [], own_Branch = [],
        own_Host = [], own_StartedAt = ''then''\<rparr>),
      e_Clock = (\<lambda>w. 200 * minute), e_FormatTime = (\<lambda>t. ''now''),
      e_ParseTime = (\<lambda>s. Some 0), e_Getenv = (\<lambda>s. []), e_Pid = 42,
      e_Sha256 = (\<lambda>s. s), e_MarshalAssets = fst, e_UnmarshalAssets = (\<lambda>s. None), e_Machine = bare_machine\<rparr>"

lemma stale_env_kept: "lock_kept stale_env demo_host (\<lambda>w. w)"
  by unfold_locales (auto simp: stale_env_def split: if_splits)

lemma stale_env_tests: "tests_lock stale_env demo_host (\<lambda>w. w)"
  by (auto simp: tests_lock_def stale_env_def unlock_command_def split: if_splits)

lemma demo_stale_after: "stale_after demo_options = 120 * minute"
  by code_simp


section \<open>Lemmas: the build mode of a plan\<close>

text \<open>Shaping a plan for its publish strategy leaves a skipped step skipped.\<close>

definition stays_skipped :: "plan \<Rightarrow> plan \<Rightarrow> bool" where
  "stays_skipped p q \<longleftrightarrow>
     (\<forall>t \<in> set (Steps q). \<exists>s \<in> set (Steps p). ID t = ID s \<and> Kind t = Kind s \<and>
        NeedsApplication t = NeedsApplication s \<and> (Skipped s \<longrightarrow> Skipped t))"

lemma set_close_loop: "set (close_loop d a disable i ss) \<subseteq> insert disable (set ss)"
  by (induction ss arbitrary: i) auto

lemma closeWindowBefore_steps: "set (Steps (closeWindowBefore sid p)) \<subseteq> set (Steps p)"
proof -
  have "Steps p ! d \<in> set (Steps p)" if "index_where P (Steps p) = Some d" for P d
    using that by (simp add: index_where_Some)
  then show ?thesis
    using set_close_loop by (fastforce simp: closeWindowBefore_def split: option.splits if_splits)
qed

lemma ForPublishStrategy_stays_skipped: "stays_skipped p (ForPublishStrategy strategy p)"
proof -
  have "stays_skipped p (closeWindowBefore sid p)" for sid
    using closeWindowBefore_steps [of sid p] by (auto simp: stays_skipped_def)
  moreover have "stays_skipped p (withSteps (map f (Steps p)) p)"
    if "\<And>s. ID (f s) = ID s \<and> Kind (f s) = Kind s \<and> NeedsApplication (f s) = NeedsApplication s \<and>
      (Skipped s \<longrightarrow> Skipped (f s))" for f
    using that by (auto simp: stays_skipped_def)
  ultimately show ?thesis
    by (simp add: ForPublishStrategy_def withUngatedMaintenanceWindow_def withoutMaintenanceWindow_def)
qed

lemma artifact_mode_skips:
  assumes "st \<in> set (Steps (ForPublishStrategy strategy (ForBuildMode BuildArtifact p)))"
    and "Kind st = StepTask" and "ID st \<in> set artifactReplacedBuildTasks" and "\<not> NeedsApplication st"
  shows "Skipped st"
proof -
  obtain s where s: "s \<in> set (Steps (ForBuildMode BuildArtifact p))" "ID st = ID s" "Kind st = Kind s"
      "NeedsApplication st = NeedsApplication s" "Skipped s \<longrightarrow> Skipped st"
    using ForPublishStrategy_stays_skipped [of "ForBuildMode BuildArtifact p" strategy] assms(1)
    by (auto simp: stays_skipped_def)
  from s(1) obtain u where "s = mode_step True u" "u \<in> set (Steps p)" by (auto simp: Steps_ForBuildMode)
  with s assms(2-4) show ?thesis by (auto simp: mode_step_def split: if_splits)
qed

lemma deployPlanFor_artifact:
  "deployPlanFor r hooks opts = Done p \<Longrightarrow> opt_Build opts = BuildArtifact \<Longrightarrow> st \<in> set (Steps p) \<Longrightarrow>
   Kind st = StepTask \<Longrightarrow> ID st \<in> set artifactReplacedBuildTasks \<Longrightarrow> \<not> NeedsApplication st \<Longrightarrow> Skipped st"
  by (auto simp: deployPlanFor_def split: outcome.splits dest: artifact_mode_skips)


text \<open>The stale target with an artifact release, and a request to resume it under other flags.\<close>

definition artifact_env :: "bool env" where
  "artifact_env = stale_env\<lparr>e_Unmarshal := (\<lambda>s. Inr (demo_release\<lparr>rel_Release := ''10'',
     rel_Status := StatusRunning, rel_Build := (rel_Build demo_release)\<lparr>bld_Mode := BuildArtifact\<rparr>\<rparr>))\<rparr>"

definition vendors_recipe :: recipe where
  "vendors_recipe = DefaultRecipe\<lparr>rec_Tasks :=
     [zero_task\<lparr>task_ID := TaskVendors, task_Stage := StageBuild, task_Command := ''composer install''\<rparr>]\<rparr>"

definition resume_demo :: deploy_request where
  "resume_demo =
     \<lparr>dr_Remote = ''staging'', dr_Host = demo_host,
      dr_Options = demo_options\<lparr>opt_Resume := True, opt_Build := BuildServer\<rparr>, dr_Recipe = vendors_recipe,
      dr_Hooks = [], dr_Plan = \<lparr>Steps = [], plan_MigrationProbe = None, plan_VerifyRejectPaths = []\<rparr>\<rparr>"


section \<open>Starting part-way, and consent\<close>

text \<open>
  A run that is not a resume and starts at a named step starts at a step of its plan that is
  not behind the task that gives the release its number.
\<close>

theorem from_past_release_needs_resume:
  assumes "planned_request recipeFor cfg remote h opts = Some (Inr req)"
    and "opt_From (dr_Options req) = trim_space (opt_From (dr_Options req))"
    and "opt_From (dr_Options req) \<noteq> []" and "\<not> opt_Resume (dr_Options req)"
  shows "\<exists>i j. IndexOf (opt_From (dr_Options req)) (dr_Plan req) = Some i \<and>
    IndexOf TaskRelease (dr_Plan req) = Some j \<and> i \<le> j"
  using assms
  by (auto simp: planned_request_def validateFromNeedsResume_def Let_def
      split: sum.splits outcome.splits if_splits option.splits)

definition release_recipe :: recipe where
  "release_recipe = DefaultRecipe\<lparr>rec_Tasks :=
     [zero_task\<lparr>task_ID := TaskRelease, task_Stage := StagePrepare, task_Command := ''true''\<rparr>]\<rparr>"

theorem from_past_release_needs_resume_witness:
  "\<exists>req i j. planned_request (\<lambda>_. release_recipe) demo_config ''staging'' demo_host
      (demo_options\<lparr>opt_From := TaskRelease, opt_Settings := []\<rparr>) = Some (Inr req) \<and>
    IndexOf TaskRelease (dr_Plan req) = Some i \<and> IndexOf TaskRelease (dr_Plan req) = Some j \<and> i \<le> j"
proof -
  let ?plan = "planned_request (\<lambda>_. release_recipe) demo_config ''staging'' demo_host
      (demo_options\<lparr>opt_From := TaskRelease, opt_Settings := []\<rparr>)"
  have "case ?plan of Some (Inr req) \<Rightarrow> opt_From (dr_Options req) = TaskRelease \<and> \<not> opt_Resume (dr_Options req) | _ \<Rightarrow> False"
    by code_simp
  then obtain req where req: "?plan = Some (Inr req)" "opt_From (dr_Options req) = TaskRelease"
      "\<not> opt_Resume (dr_Options req)"
    by (auto split: option.splits sum.splits)
  have name: "trim_space TaskRelease = TaskRelease" "TaskRelease \<noteq> []" by code_simp+
  from from_past_release_needs_resume [OF req(1)] req name show ?thesis by auto
qed

lemma confirmProtectedRemote_consent:
  assumes "confirmProtectedRemote con sandboxRemote cfg remote opts action w = (None, w')"
    and "resolvedRemoteForName sandboxRemote cfg remote = Inr (Some rc)" and "RemoteWriteBlocked remote rc \<noteq> None"
  shows "opt_Yes opts \<or> con_Terminal con \<and> (\<exists>prompt w1 w2. con_Confirm con prompt w1 = (Inr True, w2))"
  using assms
  by (auto simp: confirmProtectedRemote_def split: option.splits if_splits prod.splits sum.splits bool.splits)

lemma WithRecipeDefaults_keeps_consent: "opt_Yes (WithRecipeDefaults r opts) = opt_Yes opts"
  by (simp add: WithRecipeDefaults_def Let_def)

lemma planned_request_keeps:
  "planned_request recipeFor cfg remote h opts = Some (Inr req) \<Longrightarrow>
   dr_Remote req = remote \<and> opt_Yes (dr_Options req) = opt_Yes opts"
  by (auto simp: planned_request_def deployRecipe_def Let_def WithRecipeDefaults_keeps_consent
      split: sum.splits outcome.splits if_splits option.splits)


text \<open>A protected target reached with \<open>--yes\<close>.\<close>

definition quiet_console :: "'w console" where
  "quiet_console = \<lparr>con_Terminal = False, con_Confirm = (\<lambda>_ w. (Inr False, w)), con_OutTerminal = False\<rparr>"

definition quiet_os :: "'w os" where
  "quiet_os = \<lparr>os_Exec = (\<lambda>start w. (\<lparr>pr_Stdout = [], pr_Stderr = [], pr_Error = None, pr_Context = NotCancelled\<rparr>, w)),
     os_Nano = (\<lambda>w. 0)\<rparr>"

definition protected_config :: config where
  "protected_config = demo_config\<lparr>cf_Remotes := [(''prod'', (plain_remote ''/var/www'' None)\<lparr>rc_Protected := Some True\<rparr>)]\<rparr>"

definition yes_flags :: flag_set where
  "yes_flags = declare_flag ''revision'' (StringFlag ''abc'') @ declare_flag ''publish'' (StringFlag PublishSymlink) @
     declare_flag ''yes'' (BoolFlag True)"


text \<open>
  The gate looks the remote up by the name as typed, the rest of the command in lower case: a
  protected remote named with a capital letter is deployed to without a question.
\<close>

lemma capital_letter_skips_protection:
  "fst (confirmProtectedRemote quiet_console no_sandbox protected_config ''Prod'' demo_options ''Deploy abc to'' ()) = None"
  "\<not> isl (HostForConfig no_sandbox protected_config ''Prod'' demo_options)"
  "fst (confirmProtectedRemote quiet_console no_sandbox protected_config ''prod'' demo_options ''Deploy abc to'' ()) \<noteq> None"
  by code_simp+

section \<open>Releasing a lock by hand\<close>

text \<open>
  Without \<open>--force\<close> the unlock command leaves a lock alone whose holder is known to be younger
  than the configured age.
\<close>

theorem unlockDeploy_spares_young_locks:
  assumes "lock_kept env h locked" and "unlockDeploy env h remote opts force w = (r, w')"
    and "locked w" and "\<not> locked w'"
  shows "force \<or> (\<exists>w1 holder age w2. DescribeLockOwner env h w1 = ((holder, age), w2) \<and>
    (age < 0 \<or> opt_LockStaleAfter opts \<le> age))"
proof -
  obtain res err w1 where test: "e_Run env \<lparr>Timeout = minute, Stdin = [], Streamed = False\<rparr>
      (''test -d '' @ Shell (LockPath h)) w = ((res, err), w1)"
    by (metis prod.collapse)
  have "locked w1" using lock_kept.other_kept [OF assms(1) test _ assms(3)] by simp
  obtain holder age w2 where owner: "DescribeLockOwner env h w1 = ((holder, age), w2)" by (metis prod.collapse)
  have "locked w2" using lock_kept.DescribeLockOwner_kept [OF assms(1) owner \<open>locked w1\<close>] .
  show ?thesis
  proof (rule ccontr)
    assume "\<not> ?thesis"
    then have "\<not> force" and "\<not> (age < 0 \<or> opt_LockStaleAfter opts \<le> age)" using owner by blast+
    then have "\<not> force" "0 \<le> age" "age < opt_LockStaleAfter opts" by auto
    with assms(2,4) test \<open>locked w1\<close> \<open>locked w2\<close> owner show False
      by (auto simp: unlockDeploy_def split: option.splits prod.splits
          dest: lock_kept.printMaintenanceHint_kept [OF assms(1)])
  qed
qed

theorem unlockDeploy_spares_young_locks_witness:
  "\<exists>w1 holder age w2. DescribeLockOwner stale_env demo_host w1 = ((holder, age), w2) \<and>
     (age < 0 \<or> 120 * minute \<le> age)"
proof -
  let ?run = "unlockDeploy stale_env demo_host ''staging'' demo_options False True"
  have "\<not> snd ?run" by code_simp
  moreover have "?run = (fst ?run, snd ?run)" by simp
  moreover have "opt_LockStaleAfter demo_options = 120 * minute" by code_simp
  ultimately show ?thesis using unlockDeploy_spares_young_locks [OF stale_env_kept, of "''staging''" demo_options False True] by auto
qed

text \<open>
  A lock whose holder cannot be read: resuming treats it as held, unlocking as released.
\<close>

definition ownerless_env :: "bool env" where
  "ownerless_env = stale_env\<lparr>e_UnmarshalOwner := (\<lambda>_. None)\<rparr>"

lemma unknown_holder_is_judged_twice:
  "isl (fst (prepareResume ownerless_env demo_host demo_options True))"
  "\<not> snd (unlockDeploy ownerless_env demo_host ''staging'' demo_options False True)"
  by code_simp+

text \<open>A connection that fails is reported by the unlock command as no lock being held.\<close>

lemma unreachable_target_holds_no_lock:
  assumes "\<And>opts cmd w. e_Run env opts cmd w = ((res, Some err), w)"
  shows "unlockDeploy env h remote opts force w = (Inr None, w)"
  by (simp add: unlockDeploy_def assms printMaintenanceHint_def IncompleteRelease_def)

end
