(* ===== verification/Rollback.thy ===== *)
theory Rollback
  imports DeployCommand RunProps
begin

text \<open>
  Returning to an earlier release (\<open>internal/cmd/deploy_rollback.go\<close>): the release and the dump
  that are chosen, the activation, and what follows it in the one order that is correct.

  The variables, the record of the release returned to and the target are the state of the
  steps.  The record a failed attempt puts back is a copy whose task list shares its array with
  the record the attempt wrote to; \<open>spare\<close> is how many entries that array still had room for.
\<close>

section \<open>Steps\<close>

type_synonym 'w step_state = "vars \<times> release \<times> 'w"

definition firstStep :: "plan \<Rightarrow> string \<Rightarrow> step option" where
  "firstStep p sid = (case Steps (Only [sid] p) of [] \<Rightarrow> None | st # _ \<Rightarrow> Some st)"

definition run_step ::
  "'w env \<Rightarrow> 'w console \<Rightarrow> host \<Rightarrow> options \<Rightarrow> step \<Rightarrow> 'w step_state \<Rightarrow> go_error option \<times> 'w step_state" where
  "run_step env con h opts st s =
     (case s of (vs, rel, w) \<Rightarrow>
        (case RunStep env core_run h opts (con_OutTerminal con) vs st rel w of
           ((err, rel, vs), w) \<Rightarrow> (err, (vs, rel, w))))"

text \<open>A step of the plan by its name, where the recipe implements it.\<close>

definition run_named ::
  "'w env \<Rightarrow> 'w console \<Rightarrow> host \<Rightarrow> options \<Rightarrow> plan \<Rightarrow> string \<Rightarrow> 'w step_state \<Rightarrow> go_error option \<times> 'w step_state" where
  "run_named env con h opts p sid s =
     (case firstStep p sid of None \<Rightarrow> (None, s) | Some st \<Rightarrow> run_step env con h opts st s)"

fun run_in_order :: "('s \<Rightarrow> go_error option \<times> 's) option list \<Rightarrow> 's \<Rightarrow> go_error option \<times> 's" where
  "run_in_order [] s = (None, s)"
| "run_in_order (None # steps) s = run_in_order steps s"
| "run_in_order (Some step # steps) s =
     (case step s of (Some err, s) \<Rightarrow> (Some err, s) | (None, s) \<Rightarrow> run_in_order steps s)"

definition afterRestore ::
  "('s \<Rightarrow> go_error option \<times> 's) option \<Rightarrow> ('s \<Rightarrow> go_error option \<times> 's) option \<Rightarrow>
   ('s \<Rightarrow> go_error option \<times> 's) option \<Rightarrow> 's \<Rightarrow> go_error option \<times> 's" where
  "afterRestore restore flush verify s = run_in_order [restore, flush, verify] s"

section \<open>Restoring the database\<close>

definition restoreReleaseDatabase ::
  "'w env \<Rightarrow> 'w console \<Rightarrow> host \<Rightarrow> options \<Rightarrow> plan \<Rightarrow> recipe \<Rightarrow> release \<Rightarrow> 'w step_state \<Rightarrow>
   go_error option \<times> 'w step_state" where
  "restoreReleaseDatabase env con h opts p r dump s =
     (case run_named env con h opts p TaskMaintenanceEnable s of
        (Some err, s) \<Rightarrow> (Some (Wrapf ''enable maintenance mode before restoring the database: %w'' [] err), s)
      | (None, (vs, goal, w)) \<Rightarrow>
          (let restore = goal\<lparr>rel_DatabaseBackup := rel_DatabaseBackup dump\<rparr>;
               vs = SetPath ''release_path'' (rel_Path goal) (Set ''release'' (rel_Release goal) vs);
               sc = \<lparr>sc_Host = h, sc_Vars = vs, sc_Release = Some restore, sc_Opts = opts, sc_WorkDir = [],
                 sc_Checks = [], sc_Live = False, sc_Terminal = False\<rparr>
           in case CoreDBRestore (rec_Restore r) env sc w of
             ((restoreErr, _, vs), w) \<Rightarrow>
               (case run_named env con h opts p TaskMaintenanceDisable (vs, goal, w) of
                  (Some err, s) \<Rightarrow>
                    (if restoreErr = None then
                       Some (Wrapf ''disable maintenance mode after restoring the database: %w'' [] err)
                     else restoreErr, s)
                | (None, s) \<Rightarrow> (restoreErr, s))))"

definition confirmDatabaseRestore ::
  "'w console \<Rightarrow> string \<Rightarrow> release \<Rightarrow> options \<Rightarrow> 'w \<Rightarrow> cli_error option \<times> 'w" where
  "confirmDatabaseRestore con remote dump opts w =
     (if opt_Yes opts then (None, w)
      else
        let prompt = ''Restore the dump release '' @ rel_Release dump @
          '' recorded before its migrations over the live database on '' @ remote @ ''? This destroys current data.''
        in if \<not> con_Terminal con then (Some (UsageError (Errorf ''%s; pass --yes to confirm'' [prompt])), w)
           else (case con_Confirm con prompt w of
             (Inl err, w) \<Rightarrow> (Some (Execution err), w)
           | (Inr True, w) \<Rightarrow> (None, w)
           | (Inr False, w) \<Rightarrow> (Some (UsageError (Errorf ''database restore on %s cancelled'' [remote])), w)))"

section \<open>Rewriting an in-place docroot\<close>

text \<open>
  What the copy sees of the entries a run records: an entry that replaces one is written into
  the array, which the copy shares until an append finds no room in it.
\<close>

definition entry_of_result :: "step_result \<Rightarrow> step_record" where
  "entry_of_result r =
     \<lparr>srec_ID = res_ID r, srec_Status = res_Status r, srec_DurationMS = res_Duration r div 10 ^ 6,
      srec_Error = (case res_Err r of None \<Rightarrow> [] | Some e \<Rightarrow> error_text e)\<rparr>"

fun seen_by_copy ::
  "nat \<Rightarrow> bool \<Rightarrow> step_record list \<Rightarrow> step_record list \<Rightarrow> step_record list \<Rightarrow> step_record list" where
  "seen_by_copy spare shared copy live [] = copy"
| "seen_by_copy spare shared copy live (e # es) =
     (let live' = record_task e live in
      if length live' = length live then
        seen_by_copy spare shared (if shared then take (length copy) live' else copy) live' es
      else seen_by_copy (spare - 1) (shared \<and> 0 < spare) copy live' es)"

definition restored_record :: "nat \<Rightarrow> release \<Rightarrow> step_result list \<Rightarrow> release" where
  "restored_record spare original results =
     original\<lparr>rel_Tasks := seen_by_copy spare True (rel_Tasks original) (rel_Tasks original)
       (map entry_of_result results)\<rparr>"

definition rollback_tail :: "plan \<Rightarrow> bool \<Rightarrow> plan option" where
  "rollback_tail p restoreAfterTail =
     map_option (\<lambda>tail.
       (let tail = Excluding [TaskUnlock, TaskCleanup] tail in
        if restoreAfterTail then Excluding [TaskVerify] tail else tail)) (From TaskActivate p)"

text \<open>The docroot is rewritten while it serves, so the window opens first.\<close>

definition open_window ::
  "'w env \<Rightarrow> 'w console \<Rightarrow> host \<Rightarrow> options \<Rightarrow> plan \<Rightarrow> 'w step_state \<Rightarrow> go_error option \<times> 'w step_state" where
  "open_window env con h opts p s =
     (case firstStep p TaskMaintenanceEnable of
        None \<Rightarrow> (None, s)
      | Some enable \<Rightarrow> if Skipped enable then (None, s) else run_step env con h opts enable s)"

definition runInPlaceRollbackTail ::
  "nat \<Rightarrow> 'w env \<Rightarrow> 'w console \<Rightarrow> host \<Rightarrow> options \<Rightarrow> plan \<Rightarrow> bool \<Rightarrow> 'w step_state \<Rightarrow>
   go_error option \<times> 'w step_state" where
  "runInPlaceRollbackTail spare env con h opts p restoreAfterTail s =
     (case rollback_tail p restoreAfterTail of
        None \<Rightarrow> (Some (Errorf ''the recipe declares no %s task, so an in-place rollback cannot run'' [TaskActivate]), s)
      | Some tail \<Rightarrow>
          (case open_window env con h opts p s of
             (Some err, s) \<Rightarrow>
               (Some (Wrapf ''enable maintenance mode before rewriting %s: %w'' [h_CurrentPath h] err), s)
           | (None, (vs, original, w)) \<Rightarrow>
               (let wd = (case m_Getwd (e_Machine env) w of Inr d \<Rightarrow> d | Inl _ \<Rightarrow> []) in
                case Run env core_run (NewExecutor env h opts wd (con_OutTerminal con)) tail vs original w of
                  ((out, None), t) \<Rightarrow> (None, (s_Vars t, s_Release t, s_World t))
                | ((out, Some err), t) \<Rightarrow>
                    (case WriteRelease env h (Some (restored_record spare original (out_Steps out))) (s_World t) of
                       (_, w) \<Rightarrow>
                         (Some (Wrapf ''%w (the maintenance window is still open on %s: release %s and its record are as they were, and the deploy lock is released, so re-run `govard deploy --remote %s rollback --to %s` once the cause is fixed)''
                            [h_Name h, rel_Release original, h_Name h, rel_Release original] err),
                          (s_Vars t, s_Release t, w))))))"

section \<open>The rollback\<close>

text \<open>The activation, and the rest of the work after it.\<close>

definition activate_target ::
  "nat \<Rightarrow> 'w env \<Rightarrow> 'w console \<Rightarrow> host \<Rightarrow> options \<Rightarrow> plan \<Rightarrow> string \<Rightarrow> bool \<Rightarrow> 'w step_state \<Rightarrow>
   go_error option \<times> 'w step_state" where
  "activate_target spare env con h opts p strategy withDB s =
     (if strategy = PublishSymlink then
        (case firstStep p TaskActivate of
           None \<Rightarrow> (Some (Errorf ''the recipe declares no %s task, so nothing can be activated'' [TaskActivate]), s)
         | Some activate \<Rightarrow>
             (case run_step env con h opts activate s of
                (Some err, s) \<Rightarrow>
                  (Some (Wrapf ''re-point %s at release %s: %w'' [h_CurrentPath h, rel_Release (fst (snd s))] err), s)
              | (None, s) \<Rightarrow> (None, s)))
      else runInPlaceRollbackTail spare env con h opts p withDB s)"

definition rollback_body ::
  "nat \<Rightarrow> 'w env \<Rightarrow> 'w console \<Rightarrow> host \<Rightarrow> options \<Rightarrow> plan \<Rightarrow> recipe \<Rightarrow> string \<Rightarrow> release option \<Rightarrow> 'w step_state \<Rightarrow>
   go_error option \<times> 'w step_state" where
  "rollback_body spare env con h opts p r strategy dump s =
     (case activate_target spare env con h opts p strategy (dump \<noteq> None) s of
        (Some err, s) \<Rightarrow> (Some err, s)
      | (None, s) \<Rightarrow>
          afterRestore
            (map_option (restoreReleaseDatabase env con h opts p r) dump)
            (if strategy \<noteq> PublishSymlink \<and> dump = None then None
             else Some (\<lambda>s.
               (case run_named env con h opts p TaskAppCacheFlush s of
                  (Some err, s) \<Rightarrow>
                    (Some (Wrapf ''flush the caches of release %s after the rollback: %w'' [rel_Release (fst (snd s))] err), s)
                | (None, s) \<Rightarrow> (None, s))))
            (if opt_Verify opts then Some (run_named env con h opts p TaskVerify) else None)
            s)"

text \<open>The lock around it, released at the end whatever happened.\<close>

definition locked_rollback ::
  "nat \<Rightarrow> 'w env \<Rightarrow> 'w console \<Rightarrow> host \<Rightarrow> options \<Rightarrow> plan \<Rightarrow> recipe \<Rightarrow> string \<Rightarrow> release option \<Rightarrow> release \<Rightarrow> 'w \<Rightarrow>
   (go_error + release) \<times> 'w" where
  "locked_rollback spare env con h opts p r strategy dump goal w =
     (let body = (\<lambda>w. case rollback_body spare env con h opts p r strategy dump (VarsFor h opts, goal, w) of
            (Some err, (_, _, w)) \<Rightarrow> (Inl err, w)
          | (None, (_, goal, w)) \<Rightarrow> (Inr goal, w))
      in if opt_SkipLock opts then body w
         else case CoreLock env (unlock_context h goal opts) w of
           (Some err, w) \<Rightarrow> (Inl err, w)
         | (None, w) \<Rightarrow>
             (case body w of (result, w) \<Rightarrow> (result, snd (CoreUnlock env (unlock_context h goal opts) w))))"

text \<open>The dump a rollback with \<open>--with-db\<close> restores, once the operator agreed to it.\<close>

definition chosen_dump ::
  "'w env \<Rightarrow> 'w console \<Rightarrow> host \<Rightarrow> string \<Rightarrow> options \<Rightarrow> bool \<Rightarrow> release \<Rightarrow> 'w \<Rightarrow> (cli_error + release option) \<times> 'w" where
  "chosen_dump env con h remote opts withDB goal w =
     (if \<not> withDB then (Inr None, w)
      else case RollbackBackup env h (Some goal) w of
        (Inl err, w) \<Rightarrow> (Inl (Execution err), w)
      | (Inr dump, w) \<Rightarrow>
          (case confirmDatabaseRestore con remote dump opts w of
             (Some err, w) \<Rightarrow> (Inl err, w)
           | (None, w) \<Rightarrow> (Inr (Some dump), w)))"

text \<open>From the chosen release on.\<close>

definition rollback_to ::
  "nat \<Rightarrow> 'w env \<Rightarrow> 'w console \<Rightarrow> (config \<Rightarrow> recipe) \<Rightarrow> config \<Rightarrow> string \<Rightarrow> host \<Rightarrow> options \<Rightarrow> bool \<Rightarrow> release \<Rightarrow> 'w \<Rightarrow>
   (cli_error + release) option \<times> 'w" where
  "rollback_to spare env con recipeFor cfg remote h opts withDB goal w =
     (case chosen_dump env con h remote opts withDB goal w of
        (Inl err, w) \<Rightarrow> (Some (Inl err), w)
      | (Inr dump, w) \<Rightarrow>
     (case ResolvePublishStrategy env h opts w of
        (Inl err, w) \<Rightarrow> (Some (Inl (Execution err)), w)
      | (Inr strategy, w) \<Rightarrow>
          (let opts = opts\<lparr>opt_Publish := strategy, opt_Revision := rel_Revision goal, opt_Tag := [], opt_Force := True\<rparr> in
           case hooksFromConfig (opt_Hooks opts) of
             Inl err \<Rightarrow> (Some (Inl (configOrUsageError (Execution err))), w)
           | Inr hooks \<Rightarrow>
          (case deployRecipe recipeFor cfg opts of
             Inl err \<Rightarrow> (Some (Inl (configOrUsageError (Execution err))), w)
           | Inr (r, opts) \<Rightarrow>
          (case BuildPlan r hooks of
             Panic \<Rightarrow> (None, w)
           | Fail err \<Rightarrow> (Some (Inl (configOrUsageError (Execution err))), w)
           | Done p \<Rightarrow>
               (case locked_rollback spare env con h opts (ForPublishStrategy strategy p) r strategy dump goal w of
                  (Inl err, w) \<Rightarrow> (Some (Inl (Execution err)), w)
                | (Inr goal, w) \<Rightarrow> (Some (Inr goal), w)))))))"

definition runDeployRollback ::
  "nat \<Rightarrow> (host \<Rightarrow> 'w env) \<Rightarrow> 'w console \<Rightarrow> (string \<Rightarrow> string + int) \<Rightarrow> (config \<Rightarrow> go_error + remote_config) \<Rightarrow>
   (config \<Rightarrow> recipe) \<Rightarrow> go_error + config \<Rightarrow> flag_set \<Rightarrow> string list \<Rightarrow> 'w \<Rightarrow> (cli_error + release) option \<times> 'w" where
  "runDeployRollback spare envs con parseDuration sandboxRemote recipeFor loaded flags args w =
     (case deployRemoteName flags args of
        Inl err \<Rightarrow> (Some (Inl err), w)
      | Inr remote \<Rightarrow>
     (case resolveDeployOptions parseDuration sandboxRemote loaded flags remote of
        Inl err \<Rightarrow> (Some (Inl err), w)
      | Inr (cfg, opts) \<Rightarrow>
     (case deployHostFor envs sandboxRemote cfg remote opts w of
        (Inl err, w) \<Rightarrow> (Some (Inl err), w)
      | (Inr h, w) \<Rightarrow>
     (case confirmProtectedRemote con sandboxRemote cfg remote opts ''Roll back'' w of
        (Some err, w) \<Rightarrow> (Some (Inl err), w)
      | (None, w) \<Rightarrow>
     (case LiveRelease (envs h) h w of
        (Inl err, w) \<Rightarrow> (Some (Inl (Execution err)), w)
      | (Inr _, w) \<Rightarrow>
     (case SelectRollbackTarget (envs h) h (GetString flags ''to'') w of
        (Inl err, w) \<Rightarrow> (Some (Inl (Execution err)), w)
      | (Inr goal, w) \<Rightarrow>
          rollback_to spare (envs h) con recipeFor cfg remote h opts (GetBool flags ''with-db'') goal w))))))"

section \<open>Lemmas\<close>

text \<open>An order of steps each of which keeps a property of the state keeps it, however it ends.\<close>

lemma run_in_order_kept:
  assumes "\<And>step s r s'. Some step \<in> set steps \<Longrightarrow> step s = (r, s') \<Longrightarrow> P s \<Longrightarrow> P s'"
  shows "run_in_order steps s = (r, s') \<Longrightarrow> P s \<Longrightarrow> P s'"
  using assms by (induction steps s rule: run_in_order.induct) (auto split: prod.splits option.splits)

lemma firstStep_Some:
  assumes "firstStep p sid = Some st"
  shows "st \<in> set (Steps p)" "ID st = sid"
proof -
  from assms obtain rest where "Steps (Only [sid] p) = st # rest"
    by (auto simp: firstStep_def split: list.splits)
  then have "st \<in> set (filter (\<lambda>s. ID s = sid) (Steps p))" by (simp add: Only_def)
  then show "st \<in> set (Steps p)" "ID st = sid" by simp_all
qed

text \<open>The tail keeps the plan's order and probe and drops what a rollback must not do.\<close>

lemma rollback_tail_Some:
  assumes "rollback_tail p after = Some tail"
  shows "\<exists>i. Steps tail = filter (\<lambda>s. ID s \<notin> {TaskUnlock, TaskCleanup} \<and> (after \<longrightarrow> ID s \<noteq> TaskVerify)) (drop i (Steps p))"
    and "plan_MigrationProbe tail = plan_MigrationProbe p"
proof -
  obtain i where i: "From TaskActivate p = Some (withSteps (drop i (Steps p)) p)"
    using assms by (auto simp: rollback_tail_def From_def split: option.splits)
  have "Steps tail = filter (\<lambda>s. ID s \<notin> {TaskUnlock, TaskCleanup} \<and> (after \<longrightarrow> ID s \<noteq> TaskVerify)) (drop i (Steps p))"
    using assms i by (auto simp: rollback_tail_def Excluding_def Let_def intro!: filter_cong split: if_splits)
  then show "\<exists>i. Steps tail = filter (\<lambda>s. ID s \<notin> {TaskUnlock, TaskCleanup} \<and> (after \<longrightarrow> ID s \<noteq> TaskVerify)) (drop i (Steps p))"
    by blast
  show "plan_MigrationProbe tail = plan_MigrationProbe p"
    using assms i by (auto simp: rollback_tail_def Excluding_def Let_def split: if_splits)
qed

text \<open>Recording entries never changes which steps the entries before them are of.\<close>

lemma record_task_same: "length (record_task e xs) = length xs \<Longrightarrow> map srec_ID (record_task e xs) = map srec_ID xs"
  by (induction e xs rule: record_task.induct) (auto split: if_splits)

lemma record_task_longer: "length (record_task e xs) \<noteq> length xs \<Longrightarrow> record_task e xs = xs @ [e]"
  by (induction e xs rule: record_task.induct) (auto split: if_splits)

lemma seen_by_copy_steps:
  assumes "map srec_ID (take (length copy) live) = map srec_ID copy" and "length copy \<le> length live"
  shows "map srec_ID (seen_by_copy spare shared copy live es) = map srec_ID copy"
  using assms
proof (induction es arbitrary: spare shared copy live)
  case Nil
  then show ?case by simp
next
  case (Cons e es)
  show ?case
  proof (cases "length (record_task e live) = length live")
    case True
    let ?copy = "if shared then take (length copy) (record_task e live) else copy"
    have same: "map srec_ID (record_task e live) = map srec_ID live" using record_task_same True .
    then have "map srec_ID (take n (record_task e live)) = map srec_ID (take n live)" for n
      by (metis take_map)
    with Cons.prems have ids: "map srec_ID ?copy = map srec_ID copy" and len: "length ?copy = length copy"
      using True by (simp_all add: min_absorb2)
    have "map srec_ID (seen_by_copy spare shared ?copy (record_task e live) es) = map srec_ID ?copy"
      using Cons.prems same True len ids by (intro Cons.IH) (simp_all add: take_map [symmetric])
    with ids True show ?thesis by (simp add: Let_def)
  next
    case False
    then have "record_task e live = live @ [e]" by (rule record_task_longer)
    with Cons show ?thesis by (simp add: Let_def)
  qed
qed

lemma restored_record_fields:
  "restored_record spare original results =
     original\<lparr>rel_Tasks := rel_Tasks (restored_record spare original results)\<rparr>"
  "map srec_ID (rel_Tasks (restored_record spare original results)) = map srec_ID (rel_Tasks original)"
  by (simp_all add: restored_record_def seen_by_copy_steps)

section \<open>The lock of a rollback\<close>

text \<open>
  A step a rollback may run while it holds the lock: safe for the run, and its command is not the
  removal of the lock, wherever the recipe says it runs, since \<open>RunStep\<close> runs it on the target.
\<close>

definition rollback_safe_step :: "'w env \<Rightarrow> host \<Rightarrow> ('w \<Rightarrow> bool) \<Rightarrow> step \<Rightarrow> bool" where
  "rollback_safe_step env h J st \<longleftrightarrow>
     lock_safe_step env h J core_run st \<and> (core st = None \<longrightarrow> command_keeps h (Command st)) \<and>
     (ID st \<noteq> TaskUnlock \<longrightarrow> core st \<noteq> Some CoreUnlockFn)"

definition rollback_safe :: "'w env \<Rightarrow> host \<Rightarrow> ('w \<Rightarrow> bool) \<Rightarrow> plan \<Rightarrow> recipe \<Rightarrow> bool" where
  "rollback_safe env h J p r \<longleftrightarrow>
     (\<forall>st \<in> set (Steps p). rollback_safe_step env h J st) \<and> probe_keeps h p \<and>
     core_keeps env h J (CoreDBRestore (rec_Restore r))"

lemma core_keepsD:
  "run env sc w = (r, w') \<Longrightarrow> core_keeps env (sc_Host sc) J run \<Longrightarrow> J w \<Longrightarrow> J w'"
  unfolding core_keeps_def by blast

lemma RunStep_kept:
  assumes "lock_kept env h J" and "rollback_safe_step env h J st" and "ID st \<noteq> TaskUnlock"
    and "RunStep env core_run h opts terminal vs st rel w = (r, w')" and "J w"
  shows "J w'"
proof (cases "core st")
  case None
  let ?vs = "Set ''release'' (rel_Release rel) vs"
  let ?vs = "if rel_Path rel \<noteq> [] then SetPath ''release_path'' (rel_Path rel) ?vs else ?vs"
  show ?thesis
  proof (cases "Skipped st \<or> Command st = [] \<or> isl (Expand ?vs (Command st))")
    case True
    with None assms(4,5) show ?thesis
      by (auto simp: RunStep_def Let_def split: if_splits sum.splits)
  next
    case False
    then obtain command where command: "Expand ?vs (Command st) = Inr command" by (cases "Expand ?vs (Command st)") auto
    with None assms(2) have "command \<noteq> unlock_command h" by (auto simp: rollback_safe_step_def command_keeps_def)
    moreover have "w' = snd (e_Run env \<lparr>Timeout = command_timeout opts, Stdin = [],
        Streamed = opt_Verbose opts \<and> \<not> opt_JSON opts\<rparr> command w)"
      using None False command assms(4)
      by (simp add: RunStep_def Let_def split: prod.splits option.splits)
    ultimately show ?thesis using lock_kept.run_kept [OF assms(1,5)] by (metis prod.collapse)
  qed
next
  case (Some c)
  then have "core_keeps env h J (core_run c)"
    using assms(2,3) by (auto simp: rollback_safe_step_def lock_safe_step_def split: if_splits)
  with Some assms(4,5) show ?thesis
    by (auto simp: RunStep_def Let_def split: if_splits prod.splits dest!: core_keepsD)
qed

lemma run_step_kept:
  "lock_kept env h J \<Longrightarrow> rollback_safe_step env h J st \<Longrightarrow> ID st \<noteq> TaskUnlock \<Longrightarrow>
   run_step env con h opts st s = (r, s') \<Longrightarrow> J (snd (snd s)) \<Longrightarrow> J (snd (snd s'))"
  by (auto simp: run_step_def split: prod.splits dest: RunStep_kept)

lemma run_named_kept:
  assumes "lock_kept env h J" and "rollback_safe env h J p r" and "sid \<noteq> TaskUnlock"
    and "run_named env con h opts p sid s = (e, s')" and "J (snd (snd s))"
  shows "J (snd (snd s'))"
proof (cases "firstStep p sid")
  case (Some st)
  then have "rollback_safe_step env h J st" "ID st \<noteq> TaskUnlock"
    using assms(2,3) firstStep_Some [OF Some] by (auto simp: rollback_safe_def)
  with Some assms(1,4,5) show ?thesis by (auto simp: run_named_def dest: run_step_kept)
qed (use assms in \<open>simp add: run_named_def\<close>)

lemma open_window_kept:
  assumes "lock_kept env h J" and "rollback_safe env h J p r"
    and "open_window env con h opts p s = (e, s')" and "J (snd (snd s))"
  shows "J (snd (snd s'))"
  using run_named_kept [OF assms(1,2), of TaskMaintenanceEnable con opts s e s'] assms(3,4)
  by (auto simp: open_window_def run_named_def task_defs split: option.splits if_splits)

lemma restoreReleaseDatabase_kept:
  assumes "lock_kept env h J" and "rollback_safe env h J p r"
    and "restoreReleaseDatabase env con h opts p r dump s = (e, s')" and "J (snd (snd s))"
  shows "J (snd (snd s'))"
proof -
  note named = run_named_kept [OF assms(1,2)]
  have ids: "TaskMaintenanceEnable \<noteq> TaskUnlock" "TaskMaintenanceDisable \<noteq> TaskUnlock"
    by (simp_all add: task_defs)
  obtain e1 vs goal w1 where enable: "run_named env con h opts p TaskMaintenanceEnable s = (e1, (vs, goal, w1))"
    by (metis prod.collapse)
  with named [OF ids(1) enable assms(4)] have w1: "J w1" by simp
  show ?thesis
  proof (cases e1)
    case (Some err)
    with enable w1 assms(3) show ?thesis by (auto simp: restoreReleaseDatabase_def)
  next
    case None
    let ?vs = "SetPath ''release_path'' (rel_Path goal) (Set ''release'' (rel_Release goal) vs)"
    let ?sc = "\<lparr>sc_Host = h, sc_Vars = ?vs, sc_Release = Some (goal\<lparr>rel_DatabaseBackup := rel_DatabaseBackup dump\<rparr>),
       sc_Opts = opts, sc_WorkDir = [], sc_Checks = [], sc_Live = False, sc_Terminal = False\<rparr>"
    obtain e2 rel2 vs2 w2 where restore: "CoreDBRestore (rec_Restore r) env ?sc w1 = ((e2, rel2, vs2), w2)"
      by (metis prod.collapse)
    have w2: "J w2"
      using assms(2) restore w1 unfolding rollback_safe_def core_keeps_def by (metis step_ctx.select_convs(1))
    obtain e3 s3 where disable: "run_named env con h opts p TaskMaintenanceDisable (vs2, goal, w2) = (e3, s3)"
      by (metis prod.collapse)
    from named [OF ids(2) disable] w2 have "J (snd (snd s3))" by simp
    with enable None restore disable assms(3) show ?thesis
      by (auto simp: restoreReleaseDatabase_def Let_def split: option.splits if_splits)
  qed
qed

lemma rollback_tail_subset: "rollback_tail p after = Some tail \<Longrightarrow> set (Steps tail) \<subseteq> set (Steps p)"
  using rollback_tail_Some(1) by (fastforce dest: in_set_dropD)

lemma tail_safe:
  assumes "rollback_safe env h J p r" and "rollback_tail p after = Some tail"
  shows "\<forall>st \<in> set (Steps tail). lock_safe_step env h J core_run st" and "probe_keeps h tail"
  using assms(1) rollback_tail_subset [OF assms(2)] rollback_tail_Some(2) [OF assms(2)]
  by (auto simp: rollback_safe_def rollback_safe_step_def probe_keeps_def)

lemma rollback_tail_kept:
  assumes kept: "lock_kept env h J" and lock: "lock_target env h J" and safe: "rollback_safe env h J p r"
    and "runInPlaceRollbackTail spare env con h opts p after s = (e, s')" and "J (snd (snd s))"
  shows "J (snd (snd s'))"
proof (cases "rollback_tail p after")
  case None
  with assms(4,5) show ?thesis by (simp add: runInPlaceRollbackTail_def)
next
  case (Some tail)
  obtain e1 vs original w1 where window: "open_window env con h opts p s = (e1, (vs, original, w1))"
    by (metis prod.collapse)
  with open_window_kept [OF kept safe window] assms(5) have w1: "J w1" by simp
  let ?x = "NewExecutor env h opts (case m_Getwd (e_Machine env) w1 of Inr d \<Rightarrow> d | Inl _ \<Rightarrow> []) (con_OutTerminal con)"
  have host: "x_Host ?x = h" by (simp add: NewExecutor_def)
  obtain out e2 t where run: "Run env core_run ?x tail vs original w1 = ((out, e2), t)" by (metis prod.collapse)
  have t: "J (s_World t)"
    using Run_lock_kept [of env ?x J core_run tail vs original w1 out e2 t] host kept lock
      tail_safe [OF safe Some] run w1 by (simp add: core_run_def)
  then show ?thesis
    using Some window run w1 assms(4) lock_kept.WriteRelease_kept [OF kept]
    by (fastforce simp: runInPlaceRollbackTail_def Let_def split: option.splits prod.splits)
qed

lemma activate_target_kept:
  assumes "lock_kept env h J" and "lock_target env h J" and "rollback_safe env h J p r"
    and "activate_target spare env con h opts p strategy withDB s = (e, s')" and "J (snd (snd s))"
  shows "J (snd (snd s'))"
proof (cases "strategy = PublishSymlink")
  case True
  show ?thesis
    using run_named_kept [OF assms(1,3), of TaskActivate con opts s] assms(4,5) True
    by (auto simp: activate_target_def run_named_def task_defs split: option.splits prod.splits)
next
  case False
  with rollback_tail_kept [OF assms(1-3)] assms(4,5) show ?thesis by (simp add: activate_target_def)
qed

lemma rollback_body_kept:
  assumes kept: "lock_kept env h J" and "lock_target env h J" and safe: "rollback_safe env h J p r"
    and "rollback_body spare env con h opts p r strategy dump s = (e, s')" and "J (snd (snd s))"
  shows "J (snd (snd s'))"
proof -
  obtain e1 s1 where act: "activate_target spare env con h opts p strategy (dump \<noteq> None) s = (e1, s1)"
    by (metis prod.collapse)
  have s1: "J (snd (snd s1))" by (rule activate_target_kept [OF assms(1-3) act assms(5)])
  show ?thesis
  proof (cases e1)
    case (Some err)
    with act s1 assms(4) show ?thesis by (simp add: rollback_body_def)
  next
    case None
    note named = run_named_kept [OF kept safe]
    have ids: "TaskAppCacheFlush \<noteq> TaskUnlock" "TaskVerify \<noteq> TaskUnlock" by (simp_all add: task_defs)
    have "J (snd (snd s''))"
      if "Some step \<in> set
          [map_option (restoreReleaseDatabase env con h opts p r) dump,
           if strategy \<noteq> PublishSymlink \<and> dump = None then None
           else Some (\<lambda>s.
             (case run_named env con h opts p TaskAppCacheFlush s of
                (Some err, s) \<Rightarrow>
                  (Some (Wrapf ''flush the caches of release %s after the rollback: %w'' [rel_Release (fst (snd s))] err), s)
              | (None, s) \<Rightarrow> (None, s))),
           if opt_Verify opts then Some (run_named env con h opts p TaskVerify) else None]"
        and "step s' = (e', s'')" and "J (snd (snd s'))" for step s' e' s''
      using that
      by (auto simp: map_option_case split: if_splits prod.splits option.splits
          dest: restoreReleaseDatabase_kept [OF kept safe] named [OF ids(1)] named [OF ids(2)])
    note work = this
    show ?thesis
      using act None assms(4) s1
      by (auto simp: rollback_body_def afterRestore_def
          intro: run_in_order_kept [where P = "\<lambda>s. J (snd (snd s))", OF work])
  qed
qed

lemma CoreUnlock_world:
  "snd (CoreUnlock env sc w) = snd (e_Run env (short_opts (sc_Live sc)) (unlock_command (sc_Host sc)) w)"
  by (simp add: CoreUnlock_def step_exec_def split: prod.splits option.splits)

lemma CoreLock_taken:
  assumes "lock_target env (sc_Host sc) locked" and "CoreLock env sc w = (None, w')"
  shows "\<not> locked w \<and> locked w'"
  using assms(2)
proof (cases rule: CoreLock_cases)
  case (past w1)
  then have "locked w1 = locked w" using lock_target_keeps(3) [OF assms(1)] by blast
  with acquire_outcome [OF assms(1) past(1)] show ?thesis by simp
qed (auto simp: deployer_lock_error_def split: prod.splits if_splits)

section \<open>Properties\<close>


text \<open>A one-step plan on the target whose lock is its state.\<close>

definition activate_plan :: "string \<Rightarrow> plan" where
  "activate_plan command =
     \<lparr>Steps = [\<lparr>ID = TaskActivate, Kind = StepTask, Stage = StagePublish, Title = TaskActivate, Command = command,
        RunOn = RunRemote, Optional = False, NeedsApplication = False, NeedsMigration = False, ReusableOutputs = [],
        Source = [], Checks = [], Skipped = False, SkipReason = [], order = 0, core = None\<rparr>],
      plan_MigrationProbe = None, plan_VerifyRejectPaths = []\<rparr>"

lemma true_expands: "Expand vs ''true'' = Inr ''true''"
  by code_simp

lemma activate_plan_safe: "rollback_safe lock_env demo_host (\<lambda>w. w) (activate_plan ''true'') (DefaultRecipe\<lparr>rec_Restore := []\<rparr>)"
proof -
  have kept: "lock_kept lock_env demo_host (\<lambda>w. w)"
    by unfold_locales (auto simp: lock_env_def split: if_splits)
  have "command_keeps demo_host ''true''" by (simp add: command_keeps_def true_expands unlock_command_def)
  then have "\<forall>st \<in> set (Steps (activate_plan ''true'')). rollback_safe_step lock_env demo_host (\<lambda>w. w) st"
    by (simp add: activate_plan_def rollback_safe_step_def lock_safe_step_def task_defs)
  moreover have "core_keeps lock_env demo_host (\<lambda>w. w) (CoreDBRestore [])"
    by (auto simp: core_keeps_def CoreDBRestore_def runDBCommand_def Let_def split: option.splits prod.splits if_splits
        dest!: lock_kept.other_kept [OF kept])
  ultimately show ?thesis by (simp add: rollback_safe_def probe_keeps_def activate_plan_def)
qed



text \<open>
  A target with room for the record of the release, but not for one with an entry more: the
  tail ends with its last step done and its record not stored.
\<close>

definition full_env :: "unit env" where
  "full_env = run_env\<lparr>e_Marshal := (\<lambda>r. if rel_Tasks r = [] then Inr [] else Inl (Errorf ''no space left'' []))\<rparr>"


text \<open>
  The copy shares the array of the task list, so an entry the failed tail rewrites is rewritten
  in the record that is put back, although the message says the record is as it was.
\<close>

lemma copy_sees_rewritten_entry:
  "rel_Tasks (restored_record 0
      (demo_release\<lparr>rel_Tasks := [\<lparr>srec_ID = TaskActivate, srec_Status = StepOK, srec_DurationMS = 3, srec_Error = []\<rparr>]\<rparr>)
      [\<lparr>res_ID = TaskActivate, res_Stage = StagePublish, res_Status = StepFailed, res_Duration = 0,
         res_Err = Some (Errorf ''exit 1'' []), res_SkipReason = []\<rparr>]) =
   [\<lparr>srec_ID = TaskActivate, srec_Status = StepFailed, srec_DurationMS = 0, srec_Error = error_text (Errorf ''exit 1'' [])\<rparr>]"
  by (simp add: restored_record_def entry_of_result_def Let_def)

text \<open>
  Where the migration tasks of the plan are skipped, so is the task that opens the window, and
  running it does nothing: the restore then runs with the site up.
\<close>

lemma skipped_window_stays_closed:
  "Skipped st \<Longrightarrow> firstStep p TaskMaintenanceEnable = Some st \<Longrightarrow>
   snd (snd (snd (run_named env con h opts p TaskMaintenanceEnable s))) = snd (snd s)"
  by (cases s) (simp add: run_named_def run_step_def RunStep_def Let_def)

end
