(* ===== verification/BuildCache.thy ===== *)
theory BuildCache
  imports DeployCommand BuildArtifact Assets
begin

text \<open>
  \<open>deploy build\<close> and the cache of its artifacts for the sandbox (\<open>internal/cmd/deploy_build.go\<close>,
  \<open>internal/cmd/deploy_build_cache.go\<close>): what names an entry, looking one up, storing a build,
  removing the oldest, and putting a stored artifact back into an output directory.

  The file operations the machine does not have are fields of \<open>disk\<close>.  The version and the
  executable of the program, the container of a project, the check for a container runtime and
  the JSON encoding of a build's inputs are arguments.  Hints and notes are left out.
\<close>

section \<open>The disk\<close>

text \<open>
  One call \<open>WalkDir\<close> makes of its callback, by the slash path below the root, with the
  permissions of what it found.
\<close>

datatype tree_event =
    TreeDir string int
  | TreeLink string
  | TreeFile string int
  | TreeOther string string
  | TreeError go_error

text \<open>An entry \<open>ReadDir\<close> lists; its time of modification where \<open>Info\<close> succeeds.\<close>

record dir_entry =
  de_Name :: string
  de_IsDir :: bool
  de_Mod :: "int option"

record 'w disk =
  d_Tree :: "string \<Rightarrow> 'w \<Rightarrow> tree_event list"
  d_List :: "string \<Rightarrow> 'w \<Rightarrow> go_error + dir_entry list"
  d_Mkdir :: "string \<Rightarrow> int \<Rightarrow> 'w \<Rightarrow> go_error option \<times> 'w"
  d_MkdirTemp :: "string \<Rightarrow> string \<Rightarrow> 'w \<Rightarrow> (go_error + string) \<times> 'w"
  d_Symlink :: "string \<Rightarrow> string \<Rightarrow> 'w \<Rightarrow> go_error option \<times> 'w"
  d_Link :: "string \<Rightarrow> string \<Rightarrow> 'w \<Rightarrow> go_error option \<times> 'w"
  d_Create :: "string \<Rightarrow> int \<Rightarrow> 'w \<Rightarrow> go_error option \<times> 'w"
  d_Fill :: "string \<Rightarrow> string \<Rightarrow> 'w \<Rightarrow> go_error option \<times> 'w"
  d_Rename :: "string \<Rightarrow> string \<Rightarrow> 'w \<Rightarrow> go_error option \<times> 'w"
  d_Remove :: "string \<Rightarrow> 'w \<Rightarrow> go_error option \<times> 'w"
  d_Chtimes :: "string \<Rightarrow> int \<Rightarrow> 'w \<Rightarrow> 'w"
  d_Stamp :: "string \<Rightarrow> 'w \<Rightarrow> go_error + int \<times> int"
  d_Executable :: "go_error + string"

definition exists_path :: "'w machine \<Rightarrow> string \<Rightarrow> 'w \<Rightarrow> bool" where
  "exists_path m p w = (\<not> isl (m_Stat m p w))"

section \<open>The name of an entry\<close>

definition buildCacheKeep :: nat where "buildCacheKeep = 3"
definition buildCacheTreeName :: string where "buildCacheTreeName = ''tree''"
definition buildCacheCompleteName :: string where "buildCacheCompleteName = ''.complete''"
definition buildCacheTempPrefix :: string where "buildCacheTempPrefix = ''.tmp-''"
definition buildCacheTempMaxAge :: int where "buildCacheTempMaxAge = 60 * minute"

record build_cache_key =
  key_Revision :: string
  key_ComposerLockSHA256 :: string
  key_PHP :: string
  key_Mode :: string
  key_GovardVersion :: string
  key_InputsSHA256 :: string
  key_Tools :: string
  key_Binary :: string

definition key_fields :: "build_cache_key \<Rightarrow> string list" where
  "key_fields k =
     [key_Revision k, key_ComposerLockSHA256 k, key_PHP k, key_Mode k, key_GovardVersion k, key_InputsSHA256 k,
      key_Binary k, key_Tools k]"

text \<open>What is written into the hash.\<close>

definition key_text :: "build_cache_key \<Rightarrow> string" where
  "key_text k = concat (map (\<lambda>field. itoa (int (length field)) @ '':'' @ field @ '';'') (key_fields k))"

definition key_ID :: "'w env \<Rightarrow> build_cache_key \<Rightarrow> string" where
  "key_ID env k = take 16 (e_Sha256 env (key_text k))"

definition sandboxBuildCacheDir :: "string \<Rightarrow> string" where
  "sandboxBuildCacheDir projectRoot = path_join [SandboxStateDir projectRoot, ''build-cache'']"

definition buildCacheApplies :: "string \<Rightarrow> bool \<Rightarrow> bool" where
  "buildCacheApplies remote noCache \<longleftrightarrow> \<not> noCache \<and> to_lower (trim_space remote) = SandboxRemoteName"

section \<open>Copying a tree\<close>

definition copyRegularFile ::
  "'w machine \<Rightarrow> 'w disk \<Rightarrow> string \<Rightarrow> string \<Rightarrow> int \<Rightarrow> 'w \<Rightarrow> go_error option \<times> 'w" where
  "copyRegularFile m d src dst perm w =
     (case m_ReadFile m src w of
        Inl err \<Rightarrow> (Some err, w)
      | Inr content \<Rightarrow>
          (case d_Create d dst perm w of
             (Some err, w) \<Rightarrow> (Some err, w)
           | (None, w) \<Rightarrow> d_Fill d dst content w))"

text \<open>One call of the callback of the walk.\<close>

definition link_entry ::
  "'w machine \<Rightarrow> 'w disk \<Rightarrow> string \<Rightarrow> string \<Rightarrow> tree_event \<Rightarrow> 'w \<Rightarrow> go_error option \<times> 'w" where
  "link_entry m d src dst event w =
     (case event of
        TreeError err \<Rightarrow> (Some err, w)
      | TreeDir relative perm \<Rightarrow> d_Mkdir d (path_join [dst, relative]) perm w
      | TreeLink relative \<Rightarrow>
          (case m_Readlink m (path_join [src, relative]) w of
             Inl err \<Rightarrow> (Some err, w)
           | Inr link \<Rightarrow> d_Symlink d link (path_join [dst, relative]) w)
      | TreeFile relative perm \<Rightarrow>
          (case d_Link d (path_join [src, relative]) (path_join [dst, relative]) w of
             (None, w) \<Rightarrow> (None, w)
           | (Some _, w) \<Rightarrow> copyRegularFile m d (path_join [src, relative]) (path_join [dst, relative]) perm w)
      | TreeOther relative kind \<Rightarrow>
          (Some (Errorf ''cannot cache %s: unsupported file type %s'' [path_join [src, relative], kind]), w))"

fun link_entries ::
  "'w machine \<Rightarrow> 'w disk \<Rightarrow> string \<Rightarrow> string \<Rightarrow> tree_event list \<Rightarrow> 'w \<Rightarrow> go_error option \<times> 'w" where
  "link_entries m d src dst [] w = (None, w)"
| "link_entries m d src dst (event # events) w =
     (case link_entry m d src dst event w of
        (Some err, w) \<Rightarrow> (Some err, w)
      | (None, w) \<Rightarrow> link_entries m d src dst events w)"

definition linkTree :: "'w machine \<Rightarrow> 'w disk \<Rightarrow> string \<Rightarrow> string \<Rightarrow> 'w \<Rightarrow> go_error option \<times> 'w" where
  "linkTree m d src dst w = link_entries m d src dst (d_Tree d src w) w"

section \<open>Looking up, storing and removing\<close>

text \<open>A hit makes the entry the most recently used.\<close>

definition lookupBuildCache :: "'w env \<Rightarrow> 'w disk \<Rightarrow> string \<Rightarrow> build_cache_key \<Rightarrow> 'w \<Rightarrow> string option \<times> 'w" where
  "lookupBuildCache env d dir k w =
     (let entry = path_join [dir, key_ID env k]; tree = path_join [entry, buildCacheTreeName] in
      if \<not> exists_path (e_Machine env) (path_join [entry, buildCacheCompleteName]) w then (None, w)
      else if \<not> exists_path (e_Machine env) (path_join [tree, ArtifactManifestName]) w then (None, w)
      else (Some tree, d_Chtimes d entry (e_Clock env w) w))"

text \<open>
  The temporary directories an interrupted store left behind are swept; the other directories
  are the entries, with the time they were last used.
\<close>

fun sweep_temps ::
  "'w env \<Rightarrow> string \<Rightarrow> (string \<times> int) list \<Rightarrow> dir_entry list \<Rightarrow> 'w \<Rightarrow> (string \<times> int) list \<times> 'w" where
  "sweep_temps env dir found [] w = (found, w)"
| "sweep_temps env dir found (e # es) w =
     (case de_Mod e of
        None \<Rightarrow> sweep_temps env dir found es w
      | Some used \<Rightarrow>
          if \<not> de_IsDir e then sweep_temps env dir found es w
          else if has_prefix (de_Name e) buildCacheTempPrefix then
            sweep_temps env dir found es
              (if buildCacheTempMaxAge < e_Clock env w - used then
                 snd (m_RemoveAll (e_Machine env) (path_join [dir, de_Name e]) w)
               else w)
          else sweep_temps env dir (found @ [(de_Name e, used)]) es w)"

fun remove_entries :: "'w machine \<Rightarrow> string \<Rightarrow> string list \<Rightarrow> 'w \<Rightarrow> 'w" where
  "remove_entries m dir [] w = w"
| "remove_entries m dir (n # ns) w = remove_entries m dir ns (snd (m_RemoveAll m (path_join [dir, n]) w))"

text \<open>Newest first; entries of one time stay in the order of the listing, which \<open>sort.Slice\<close> leaves open.\<close>

definition surplus :: "(string \<times> int) list \<Rightarrow> string list" where
  "surplus found = map fst (drop buildCacheKeep (sort_key (\<lambda>e. - snd e) found))"

definition pruneBuildCache :: "'w env \<Rightarrow> 'w disk \<Rightarrow> string \<Rightarrow> 'w \<Rightarrow> 'w" where
  "pruneBuildCache env d dir w =
     (case d_List d dir w of
        Inl _ \<Rightarrow> w
      | Inr entries \<Rightarrow>
          (case sweep_temps env dir [] entries w of
             (found, w) \<Rightarrow> remove_entries (e_Machine env) dir (surplus found) w))"

text \<open>The copy in the temporary directory, its marker last.\<close>

definition fill_entry ::
  "'w env \<Rightarrow> 'w disk \<Rightarrow> string \<Rightarrow> string \<Rightarrow> 'w \<Rightarrow> go_error option \<times> 'w" where
  "fill_entry env d built temp w =
     (case linkTree (e_Machine env) d built (path_join [temp, buildCacheTreeName]) w of
        (Some err, w) \<Rightarrow> (Some (Wrapf ''copy the artifact into the cache: %w'' [] err), w)
      | (None, w) \<Rightarrow>
          (case m_WriteFile (e_Machine env) (path_join [temp, buildCacheCompleteName]) [] w of
             (Some err, w) \<Rightarrow> (Some (Wrapf ''mark the cache entry complete: %w'' [] err), w)
           | (None, w) \<Rightarrow> (None, w)))"

definition storeBuildCache ::
  "'w env \<Rightarrow> 'w disk \<Rightarrow> string \<Rightarrow> build_cache_key \<Rightarrow> string \<Rightarrow> 'w \<Rightarrow> go_error option \<times> 'w" where
  "storeBuildCache env d dir k built w =
     (let m = e_Machine env; final = path_join [dir, key_ID env k];
          complete = path_join [final, buildCacheCompleteName] in
      case m_MkdirAll m dir w of
        (Some err, w) \<Rightarrow> (Some (Wrapf ''create the artifact cache %s: %w'' [dir] err), w)
      | (None, w) \<Rightarrow>
          if exists_path m complete w then (None, w)
          else (case d_MkdirTemp d dir (buildCacheTempPrefix @ key_ID env k @ ''-'') w of
            (Inl err, w) \<Rightarrow> (Some (Wrapf ''create a temporary cache entry: %w'' [] err), w)
          | (Inr temp, w) \<Rightarrow>
              (case fill_entry env d built temp w of
                 (Some err, w) \<Rightarrow> (Some err, snd (m_RemoveAll m temp w))
               | (None, w) \<Rightarrow>
                   (case d_Rename d temp final w of
                      (Some err, w) \<Rightarrow>
                        (let w = snd (m_RemoveAll m temp w) in
                         (if exists_path m complete w then None else Some (Wrapf ''publish the cache entry: %w'' [] err), w))
                    | (None, w) \<Rightarrow> (None, pruneBuildCache env d dir w)))))"

section \<open>Putting an artifact back\<close>

definition restoreFromCache ::
  "'w machine \<Rightarrow> 'w disk \<Rightarrow> string \<Rightarrow> string \<Rightarrow> bool \<Rightarrow> 'w \<Rightarrow> go_error option \<times> 'w" where
  "restoreFromCache m d tree output force w =
     (case m_ReadDir m output w of
        Inr entries \<Rightarrow>
          if entries = [] then linkTree m d tree output w
          else if \<not> force then
            (Some (Errorf ''output directory %s is not empty; pass --force to replace its contents'' [output]), w)
          else (case m_RemoveAll m output w of
             (Some err, w) \<Rightarrow> (Some (Wrapf ''clear output directory %s: %w'' [output] err), w)
           | (None, w) \<Rightarrow> linkTree m d tree output w)
      | Inl err \<Rightarrow>
          if \<not> errors_is err ErrNotExist then (Some (Wrapf ''inspect output directory %s: %w'' [output] err), w)
          else linkTree m d tree output w)"

definition readCachedManifest :: "'w machine \<Rightarrow> string \<Rightarrow> 'w \<Rightarrow> go_error + artifact_manifest" where
  "readCachedManifest m output w =
     (case m_ReadFile m (path_join [output, ArtifactManifestName]) w of
        Inl err \<Rightarrow> Inl (Wrapf ''read the cached artifact manifest: %w'' [] err)
      | Inr raw \<Rightarrow>
          (case m_UnmarshalManifest m raw of
             Inl err \<Rightarrow> Inl (Wrapf ''parse the cached artifact manifest: %w'' [] err)
           | Inr manifest \<Rightarrow> Inr manifest))"

text \<open>The manifest shares its data with the entry, so it is removed before it is written anew.\<close>

definition retargetManifestRevision ::
  "'w machine \<Rightarrow> 'w disk \<Rightarrow> string \<Rightarrow> string \<Rightarrow> 'w \<Rightarrow> (go_error + artifact_manifest) \<times> 'w" where
  "retargetManifestRevision m d output revision w =
     (case readCachedManifest m output w of
        Inl err \<Rightarrow> (Inl err, w)
      | Inr manifest \<Rightarrow>
          if am_Revision manifest = revision then (Inr manifest, w)
          else
            let manifest = manifest\<lparr>am_Revision := revision\<rparr>; path = path_join [output, ArtifactManifestName] in
            case m_MarshalManifest m manifest of
              Inl err \<Rightarrow> (Inl (Wrapf ''encode the cached artifact manifest: %w'' [] err), w)
            | Inr encoded \<Rightarrow>
                (case d_Remove d path w of
                   (Some err, w) \<Rightarrow> (Inl (Wrapf ''replace the cached artifact manifest: %w'' [] err), w)
                 | (None, w) \<Rightarrow>
                     (case m_WriteFile m path encoded w of
                        (Some err, w) \<Rightarrow> (Inl (Wrapf ''write the artifact manifest: %w'' [] err), w)
                      | (None, w) \<Rightarrow> (Inr manifest, w))))"

section \<open>The key of a build\<close>

definition buildCacheGit :: "'w os \<Rightarrow> string \<Rightarrow> string list \<Rightarrow> 'w \<Rightarrow> string option \<times> 'w" where
  "buildCacheGit os workDir args w =
     (case os_Exec os \<lparr>ps_Argv = [''git'', ''-C'', workDir] @ args, ps_Dir = [], ps_Stdin = [], ps_Timeout = 0,
         ps_Merged = False, ps_OnCancel = None\<rparr> w of
        (p, w) \<Rightarrow> (if pr_Error p = None then Some (concat (pr_Stdout p)) else None, w))"

record task_input =
  ti_ID :: string
  ti_Command :: string
  ti_RunOn :: string
  ti_Optional :: bool
  ti_HasCore :: bool

record build_inputs =
  bi_Recipe :: string
  bi_Tasks :: "task_input list"
  bi_Hooks :: "hook list"
  bi_Settings :: settings

definition build_inputs_of :: "recipe \<Rightarrow> hook list \<Rightarrow> options \<Rightarrow> build_inputs" where
  "build_inputs_of r hooks opts =
     \<lparr>bi_Recipe = rec_ID r,
      bi_Tasks = map (\<lambda>t. \<lparr>ti_ID = task_ID t, ti_Command = task_Command t, ti_RunOn = task_RunOn t,
        ti_Optional = task_Optional t, ti_HasCore = (task_Core t \<noteq> None)\<rparr>) (rec_Tasks r),
      bi_Hooks = hooks, bi_Settings = opt_Settings opts\<rparr>"

text \<open>\<open>marshal\<close> is \<open>json.Marshal\<close>; inputs it cannot encode name no entry of another build.\<close>

definition buildInputsDigest ::
  "'w env \<Rightarrow> 'w os \<Rightarrow> (build_inputs \<Rightarrow> go_error + string) \<Rightarrow> recipe \<Rightarrow> hook list \<Rightarrow> options \<Rightarrow> 'w \<Rightarrow> string" where
  "buildInputsDigest env os marshal r hooks opts w =
     (case marshal (build_inputs_of r hooks opts) of
        Inl _ \<Rightarrow> ''unhashable-'' @ itoa (os_Nano os w)
      | Inr raw \<Rightarrow> e_Sha256 env raw)"

definition tools_command :: string where
  "tools_command =
     ''php -r '' @ [sq] @ ''echo PHP_VERSION, PHP_EOL;'' @ [sq] @
     ''; composer --version 2>/dev/null | head -1; node --version 2>/dev/null; true''"

definition builderTools :: "'w env \<Rightarrow> 'w os \<Rightarrow> 'w build_runner \<Rightarrow> 'w \<Rightarrow> string \<times> 'w" where
  "builderTools env os runner w =
     (case run_on env os runner [] (build_opts (30 * 10 ^ 9)) tools_command w of
        ((_, Some err), w) \<Rightarrow> (''unavailable'', w)
      | ((result, None), w) \<Rightarrow> (e_Sha256 env (trim_space (Stdout result)), w))"

definition executableIdentity :: "'w disk \<Rightarrow> 'w \<Rightarrow> string" where
  "executableIdentity d w =
     (case d_Executable d of
        Inl _ \<Rightarrow> []
      | Inr path \<Rightarrow>
          (case d_Stamp d path w of
             Inl _ \<Rightarrow> path
           | Inr (bytes, modified) \<Rightarrow> path @ '':'' @ itoa bytes @ '':'' @ itoa modified))"

text \<open>The revision a build names, else its tag.\<close>

definition spelled_revision :: "options \<Rightarrow> string \<Rightarrow> string" where
  "spelled_revision opts otherwise =
     (if trim_space (opt_Revision opts) \<noteq> [] then trim_space (opt_Revision opts)
      else if trim_space (opt_Tag opts) \<noteq> [] then trim_space (opt_Tag opts)
      else otherwise)"

definition sandboxBuildCacheKey ::
  "'w env \<Rightarrow> 'w os \<Rightarrow> 'w disk \<Rightarrow> (build_inputs \<Rightarrow> go_error + string) \<Rightarrow> string \<Rightarrow> string \<Rightarrow> 'w build_runner \<Rightarrow>
   recipe \<Rightarrow> hook list \<Rightarrow> options \<Rightarrow> string \<Rightarrow> 'w \<Rightarrow> build_cache_key option \<times> 'w" where
  "sandboxBuildCacheKey env os d marshal version workDir builder r hooks opts runnerName w =
     (case buildCacheGit os workDir
         [''rev-parse'', ''--verify'', ''--quiet'', spelled_revision opts ''HEAD'' @ ''^{commit}''] w of
        (None, w) \<Rightarrow> (None, w)
      | (Some resolved, w) \<Rightarrow>
          if trim_space resolved = [] then (None, w)
          else
            let sha = trim_space resolved in
            case buildCacheGit os workDir [''show'', sha @ '':composer.lock''] w of
              (lock, w) \<Rightarrow>
                (let runner = to_lower (trim_space runnerName);
                     runner = (if runner = [] then runnerNameHost else runner);
                     php = (case map_of (opt_Settings opts) ''php_version'' of Some (SStr v) \<Rightarrow> v | _ \<Rightarrow> []);
                     inputs = buildInputsDigest env os marshal r hooks opts w;
                     binary = executableIdentity d w
                 in case builderTools env os builder w of
                   (tools, w) \<Rightarrow>
                     (Some \<lparr>key_Revision = sha,
                        key_ComposerLockSHA256 = e_Sha256 env (case lock of Some s \<Rightarrow> s | None \<Rightarrow> []),
                        key_PHP = trim_space php, key_Mode = BuildArtifact @ ''/'' @ runner, key_GovardVersion = version,
                        key_InputsSHA256 = inputs, key_Tools = tools, key_Binary = binary\<rparr>, w)))"

section \<open>The runner of a build\<close>

definition daemonSentence :: "string \<Rightarrow> exit_error \<Rightarrow> string" where
  "daemonSentence output err =
     (let line = takeWhile (\<lambda>c. c \<noteq> CHR 0x0A) output in
      if trim_space line \<noteq> [] then trim_space line else exit_text err)"

definition probeContainerRunning :: "'w os \<Rightarrow> string \<Rightarrow> 'w \<Rightarrow> cli_error option \<times> 'w" where
  "probeContainerRunning os container w =
     (case os_Exec os \<lparr>ps_Argv = [''docker'', ''inspect'', ''-f'', ''{{.State.Running}}'', container], ps_Dir = [],
         ps_Stdin = [], ps_Timeout = 0, ps_Merged = True, ps_OnCancel = None\<rparr> w of
        (p, w) \<Rightarrow>
          (let state = trim_space (concat (pr_Stdout p)) in
           case pr_Error p of
             None \<Rightarrow>
               if state = ''true'' then (None, w)
               else (Some (MissingCapability (Errorf ''the project container %s is not running'' [container])), w)
           | Some err \<Rightarrow>
               (Some (MissingCapability (Errorf ''the project container %s could not be inspected, so it is not running (docker inspect: %s)''
                  [container, daemonSentence state err])), w)))"

definition containerPathConfigError :: "go_error \<Rightarrow> cli_error" where
  "containerPathConfigError err = (if errors_is err ErrContainerPathUnmappable then ConfigError err else Execution err)"

text \<open>
  The container of a project (its name, user and directory) and the check for a container runtime
  are arguments.
\<close>

definition deployBuildRunner ::
  "'w os \<Rightarrow> ('w \<Rightarrow> cli_error option) \<Rightarrow> (config \<Rightarrow> string \<times> string \<times> string) \<Rightarrow> config \<Rightarrow> string \<Rightarrow> string \<Rightarrow> string \<Rightarrow>
   'w \<Rightarrow> (cli_error + 'w build_runner) \<times> 'w" where
  "deployBuildRunner os requireDocker toolTarget cfg name workDir outputDir w =
     (let choice = to_lower (trim_space name) in
      if choice = [] \<or> choice = runnerNameHost then (Inr (OnHost (LocalRun os)), w)
      else if choice = runnerNameContainer then
        (case toolTarget cfg of
           (container, user, workdir) \<Rightarrow>
             (let r = \<lparr>c_Container = container, c_User = user, c_LocalRoot = workDir, c_ContainerRoot = workdir\<rparr> in
              case ContainerPath r outputDir of
                Inl err \<Rightarrow> (Inl (containerPathConfigError err), w)
              | Inr _ \<Rightarrow>
                  (case requireDocker w of
                     Some err \<Rightarrow> (Inl err, w)
                   | None \<Rightarrow>
                       (case probeContainerRunning os container w of
                          (Some err, w) \<Rightarrow> (Inl err, w)
                        | (None, w) \<Rightarrow> (Inr (InContainer r), w)))))
      else (Inl (UsageError (Errorf ''--runner must be host or container, got %q'' [name])), w))"

section \<open>The command\<close>

definition HostForTest :: "string \<Rightarrow> host" where
  "HostForTest deployPath =
     \<lparr>h_Name = ''local'', h_Local = True,
      h_Remote = \<lparr>rc_Host = [], rc_User = [], rc_Port = 0,
        rc_Auth = \<lparr>auth_Method = [], auth_KeyPath = [], auth_StrictHostKey = False, auth_KnownHostsFile = []\<rparr>,
        rc_Path = [], rc_Local = False, rc_Sandbox = False, rc_Protected = None, rc_Deploy = None\<rparr>,
      h_DeployPath = deployPath, h_CurrentPath = path_join [deployPath, ''current''], h_Repository = []\<rparr>"

text \<open>\<open>filepath.Abs\<close>, an error where the working directory is unknown and needed.\<close>

definition filepath_abs :: "'w machine \<Rightarrow> string \<Rightarrow> 'w \<Rightarrow> go_error + string" where
  "filepath_abs m p w =
     (if has_prefix p ''/'' then Inr (path_clean p)
      else map_sum id (\<lambda>d. path_join [d, p]) (m_Getwd m w))"

definition bindDeployBuildFlags :: flag_set where
  "bindDeployBuildFlags =
     concat (map (\<lambda>name. declare_flag name (StringFlag [])) [''remote'', ''output'', ''branch'', ''revision'', ''tag'']) @
     declare_flag ''force'' (BoolFlag False) @ declare_flag ''json'' (BoolFlag False) @
     declare_flag ''no-cache'' (BoolFlag False) @ declare_flag ''runner'' (StringFlag runnerNameHost) @
     declare_flag deployFlagTimeout (NumberFlag 0)"

text \<open>The error of a build: the refusal of the frontend step is a missing capability.\<close>

definition build_error :: "go_error \<Rightarrow> cli_error" where
  "build_error err =
     (case (err, no_node [] [] [] []) of
        (Errorf f _, Errorf g _) \<Rightarrow> if f = g then MissingCapability err else Execution err
      | _ \<Rightarrow> containerPathConfigError err)"

text \<open>The artifact of a cached build, where the key names a complete entry.\<close>

definition from_cache ::
  "'w env \<Rightarrow> 'w disk \<Rightarrow> string \<Rightarrow> build_cache_key option \<Rightarrow> options \<Rightarrow> string \<Rightarrow> bool \<Rightarrow> 'w \<Rightarrow>
   (go_error + artifact_manifest) option \<times> 'w" where
  "from_cache env d cacheDir key opts output force w =
     (case key of
        None \<Rightarrow> (None, w)
      | Some k \<Rightarrow>
          (case lookupBuildCache env d cacheDir k w of
             (None, w) \<Rightarrow> (None, w)
           | (Some tree, w) \<Rightarrow>
               (case restoreFromCache (e_Machine env) d tree output force w of
                  (Some err, w) \<Rightarrow> (Some (Inl err), w)
                | (None, w) \<Rightarrow>
                    (case retargetManifestRevision (e_Machine env) d output (spelled_revision opts (key_Revision k)) w of
                       (result, w) \<Rightarrow> (Some result, w)))))"

text \<open>A build, and the copy of what it built; a failed copy is only reported.\<close>

definition build_and_store ::
  "'w env \<Rightarrow> 'w os \<Rightarrow> 'w disk \<Rightarrow> string \<Rightarrow> build_cache_key option \<Rightarrow> 'w build_request \<Rightarrow> 'w \<Rightarrow>
   (cli_error + artifact_manifest) option \<times> 'w" where
  "build_and_store env os d cacheDir key req w =
     (case BuildArtifactDir env os req w of
        (Panic, w) \<Rightarrow> (None, w)
      | (Fail err, w) \<Rightarrow> (Some (Inl (build_error err)), w)
      | (Done manifest, w) \<Rightarrow>
          (Some (Inr manifest),
           case key of None \<Rightarrow> w | Some k \<Rightarrow> snd (storeBuildCache env d cacheDir k (br_OutputDir req) w)))"

definition build_with_cache ::
  "'w env \<Rightarrow> 'w os \<Rightarrow> 'w disk \<Rightarrow> string \<Rightarrow> build_cache_key option \<Rightarrow> 'w build_request \<Rightarrow> 'w \<Rightarrow>
   (cli_error + artifact_manifest) option \<times> 'w" where
  "build_with_cache env os d cacheDir key req w =
     (case from_cache env d cacheDir key (br_Options req) (br_OutputDir req) (br_Force req) w of
        (Some (Inl err), w) \<Rightarrow> (Some (Inl (Execution err)), w)
      | (Some (Inr manifest), w) \<Rightarrow> (Some (Inr manifest), w)
      | (None, w) \<Rightarrow> build_and_store env os d cacheDir key req w)"

text \<open>The key of a build, where it may use the cache.\<close>

definition cache_key_for ::
  "'w env \<Rightarrow> 'w os \<Rightarrow> 'w disk \<Rightarrow> (build_inputs \<Rightarrow> go_error + string) \<Rightarrow> string \<Rightarrow> string \<Rightarrow> bool \<Rightarrow> string \<Rightarrow>
   'w build_runner \<Rightarrow> recipe \<Rightarrow> hook list \<Rightarrow> options \<Rightarrow> string \<Rightarrow> 'w \<Rightarrow> build_cache_key option \<times> 'w" where
  "cache_key_for env os d marshal version remote noCache workDir runner r hooks opts runnerName w =
     (if buildCacheApplies remote noCache then
        sandboxBuildCacheKey env os d marshal version workDir runner r hooks opts runnerName w
      else (None, w))"

definition runDeployBuild ::
  "'w env \<Rightarrow> 'w os \<Rightarrow> 'w disk \<Rightarrow> (build_inputs \<Rightarrow> go_error + string) \<Rightarrow> string \<Rightarrow> ('w \<Rightarrow> cli_error option) \<Rightarrow>
   (config \<Rightarrow> string \<times> string \<times> string) \<Rightarrow> (string \<Rightarrow> string + int) \<Rightarrow> (config \<Rightarrow> go_error + remote_config) \<Rightarrow>
   (config \<Rightarrow> recipe) \<Rightarrow> go_error + config \<Rightarrow> flag_set \<Rightarrow> string list \<Rightarrow> 'w \<Rightarrow>
   (cli_error + artifact_manifest) option \<times> 'w" where
  "runDeployBuild env os d marshal version requireDocker toolTarget parseDuration sandboxRemote recipeFor loaded flags
      args w =
     (case deployRemoteName flags args of
        Inl err \<Rightarrow> (Some (Inl err), w)
      | Inr remote \<Rightarrow>
          if trim_space (GetString flags ''output'') = [] then
            (Some (Inl (UsageError (Errorf ''--output is required: govard deploy build %s --output <dir>'' [remote]))), w)
          else
     (case resolveDeployRecipeOptions parseDuration sandboxRemote recipeFor loaded flags remote of
        Inl err \<Rightarrow> (Some (Inl (configOrUsageError err)), w)
      | Inr (cfg, r, opts) \<Rightarrow>
     (case hooksFromConfig (opt_Hooks opts) of
        Inl err \<Rightarrow> (Some (Inl (configOrUsageError (Execution err))), w)
      | Inr hooks \<Rightarrow>
     (case filepath_abs (e_Machine env) (trim_space (GetString flags ''output'')) w of
        Inl err \<Rightarrow> (Some (Inl (Execution (Wrapf ''resolve the output directory %s: %w'' [trim_space (GetString flags ''output'')] err))), w)
      | Inr output \<Rightarrow>
     (case m_Getwd (e_Machine env) w of
        Inl err \<Rightarrow> (Some (Inl (Execution (Wrapf ''resolve the working directory: %w'' [] err))), w)
      | Inr workDir \<Rightarrow>
     (case deployBuildRunner os requireDocker toolTarget cfg (GetString flags ''runner'') workDir output w of
        (Inl err, w) \<Rightarrow> (Some (Inl err), w)
      | (Inr runner, w) \<Rightarrow>
     (case cache_key_for env os d marshal version remote (GetBool flags ''no-cache'') workDir runner r hooks opts
         (GetString flags ''runner'') w of
        (key, w) \<Rightarrow>
          build_with_cache env os d (sandboxBuildCacheDir workDir) key
            \<lparr>br_Recipe = r, br_Hooks = hooks, br_Options = opts,
             br_Vars = VarsFor (HostForTest (path_dir output)) opts, br_WorkDir = workDir, br_OutputDir = output,
             br_Force = GetBool flags ''force'', br_Runner = Some runner, br_HostRunner = None\<rparr> w)))))))"

section \<open>Lemmas: the name of an entry\<close>

lemma netstrings_inj:
  "length vs = length vs' \<Longrightarrow> concat (map netstring vs) = concat (map netstring vs') \<Longrightarrow> vs = vs'"
proof (induction vs vs' rule: list_induct2)
  case (Cons v vs v' vs')
  then have "netstring v @ concat (map netstring vs) = netstring v' @ concat (map netstring vs')" by simp
  from netstring_append [OF this] Cons.IH show ?case by simp
qed simp

lemma key_text_netstrings: "key_text k = concat (map netstring (key_fields k))"
  by (simp add: key_text_def netstring_def [abs_def])

section \<open>Lemmas: what a store changes\<close>

text \<open>The operations that change the disk, appended to a log by the paths they change.\<close>

datatype disk_effect = Wrote string | Removed string | Renamed string string

definition noting :: "disk_effect \<Rightarrow> ('w \<Rightarrow> 'r \<times> 'w) \<Rightarrow> 'w \<times> disk_effect list \<Rightarrow> 'r \<times> ('w \<times> disk_effect list)" where
  "noting effect call = (\<lambda>(w, log). case call w of (r, w') \<Rightarrow> (r, (w', log @ [effect])))"

definition noting_machine :: "'w machine \<Rightarrow> ('w \<times> disk_effect list) machine" where
  "noting_machine m =
     (beside m)\<lparr>m_MkdirAll := (\<lambda>p. noting (Wrote p) (m_MkdirAll m p)),
       m_RemoveAll := (\<lambda>p. noting (Removed p) (m_RemoveAll m p)),
       m_WriteFile := (\<lambda>p s. noting (Wrote p) (m_WriteFile m p s))\<rparr>"

definition noting_disk :: "'w disk \<Rightarrow> ('w \<times> disk_effect list) disk" where
  "noting_disk d =
     \<lparr>d_Tree = (\<lambda>p. d_Tree d p \<circ> fst), d_List = (\<lambda>p. d_List d p \<circ> fst),
      d_Mkdir = (\<lambda>p perm. noting (Wrote p) (d_Mkdir d p perm)),
      d_MkdirTemp = (\<lambda>dir pattern (w, log). case d_MkdirTemp d dir pattern w of
        (Inl err, w') \<Rightarrow> (Inl err, (w', log)) | (Inr temp, w') \<Rightarrow> (Inr temp, (w', log @ [Wrote temp]))),
      d_Symlink = (\<lambda>link p. noting (Wrote p) (d_Symlink d link p)),
      d_Link = (\<lambda>src p. noting (Wrote p) (d_Link d src p)),
      d_Create = (\<lambda>p perm. noting (Wrote p) (d_Create d p perm)),
      d_Fill = (\<lambda>p content. noting (Wrote p) (d_Fill d p content)),
      d_Rename = (\<lambda>src dst. noting (Renamed src dst) (d_Rename d src dst)),
      d_Remove = (\<lambda>p. noting (Removed p) (d_Remove d p)),
      d_Chtimes = (\<lambda>p t (w, log). (d_Chtimes d p t w, log @ [Wrote p])),
      d_Stamp = (\<lambda>p. d_Stamp d p \<circ> fst), d_Executable = d_Executable d\<rparr>"

lemma noting_simps [simp]:
  "m_MkdirAll (noting_machine m) p = noting (Wrote p) (m_MkdirAll m p)"
  "m_RemoveAll (noting_machine m) p = noting (Removed p) (m_RemoveAll m p)"
  "m_WriteFile (noting_machine m) p s = noting (Wrote p) (m_WriteFile m p s)"
  "m_Stat (noting_machine m) p = m_Stat m p \<circ> fst" "m_Readlink (noting_machine m) p = m_Readlink m p \<circ> fst"
  "m_ReadFile (noting_machine m) p = m_ReadFile m p \<circ> fst"
  "d_Tree (noting_disk d) p = d_Tree d p \<circ> fst" "d_List (noting_disk d) p = d_List d p \<circ> fst"
  "d_Mkdir (noting_disk d) p perm = noting (Wrote p) (d_Mkdir d p perm)"
  "d_Symlink (noting_disk d) link p = noting (Wrote p) (d_Symlink d link p)"
  "d_Link (noting_disk d) src p = noting (Wrote p) (d_Link d src p)"
  "d_Create (noting_disk d) p perm = noting (Wrote p) (d_Create d p perm)"
  "d_Fill (noting_disk d) p content = noting (Wrote p) (d_Fill d p content)"
  "d_Rename (noting_disk d) src p = noting (Renamed src p) (d_Rename d src p)"
  by (simp_all add: noting_machine_def noting_disk_def beside_def)

lemma noting_temp:
  "d_MkdirTemp (noting_disk d) dir pattern (w, log) =
     (case d_MkdirTemp d dir pattern w of
        (Inl err, w') \<Rightarrow> (Inl err, (w', log)) | (Inr temp, w') \<Rightarrow> (Inr temp, (w', log @ [Wrote temp])))"
  by (simp add: noting_disk_def)

lemma noting_eq: "noting effect call (w, log) = (r, s) \<longleftrightarrow> (\<exists>w'. call w = (r, w') \<and> s = (w', log @ [effect]))"
  by (auto simp: noting_def split: prod.splits)

text \<open>Where a walk writes: below the destination, at the paths of its own entries.\<close>

fun event_paths :: "tree_event \<Rightarrow> string list" where
  "event_paths (TreeDir p _) = [p]"
| "event_paths (TreeLink p) = [p]"
| "event_paths (TreeFile p _) = [p]"
| "event_paths _ = []"

definition changes_only :: "string set \<Rightarrow> disk_effect list \<Rightarrow> bool" where
  "changes_only paths log \<longleftrightarrow> set log \<subseteq> Wrote ` paths"

lemma changes_only_mono: "changes_only A log \<Longrightarrow> A \<subseteq> B \<Longrightarrow> changes_only B log"
  unfolding changes_only_def by blast

lemma changes_only_append [simp]: "changes_only A (l @ k) \<longleftrightarrow> changes_only A l \<and> changes_only A k"
  by (auto simp: changes_only_def)

lemma link_entry_log:
  "link_entry (noting_machine m) (noting_disk d) src dst event (w, log) = (r, (w', log')) \<Longrightarrow>
   \<exists>new. log' = log @ new \<and> changes_only ((\<lambda>p. path_join [dst, p]) ` set (event_paths event)) new"
  by (cases event)
    (auto simp: link_entry_def copyRegularFile_def noting_eq changes_only_def split: sum.splits option.splits prod.splits)

lemma linked_tree_log:
  "link_entries (noting_machine m) (noting_disk d) src dst events (w, log) = (r, (w', log')) \<Longrightarrow>
   \<exists>new. log' = log @ new \<and> changes_only ((\<lambda>p. path_join [dst, p]) ` set (concat (map event_paths events))) new"
proof (induction events arbitrary: w log)
  case Nil
  then show ?case by (simp add: changes_only_def)
next
  case (Cons event events)
  obtain r1 w1 log1 where one:
    "link_entry (noting_machine m) (noting_disk d) src dst event (w, log) = (r1, (w1, log1))" by (metis prod.collapse)
  from link_entry_log [OF this] obtain new where new: "log1 = log @ new"
    "changes_only ((\<lambda>p. path_join [dst, p]) ` set (event_paths event)) new" by blast
  show ?case
  proof (cases r1)
    case (Some err)
    with one Cons.prems new show ?thesis by (auto intro!: changes_only_mono [OF new(2)])
  next
    case None
    with one Cons.prems have "link_entries (noting_machine m) (noting_disk d) src dst events (w1, log1) = (r, (w', log'))"
      by simp
    from Cons.IH [OF this] obtain more where "log' = log1 @ more"
      "changes_only ((\<lambda>p. path_join [dst, p]) ` set (concat (map event_paths events))) more" by blast
    with new show ?thesis
      by (intro exI [of _ "new @ more"]) (auto intro: changes_only_mono)
  qed
qed

definition noted_env :: "'w env \<Rightarrow> ('w \<times> disk_effect list) env" where
  "noted_env env =
     \<lparr>e_Run = (\<lambda>opts cmd (w, log). case e_Run env opts cmd w of (r, w') \<Rightarrow> (r, (w', log))),
      e_RunLocal = (\<lambda>opts cmd (w, log). case e_RunLocal env opts cmd w of (r, w') \<Rightarrow> (r, (w', log))),
      e_Marshal = e_Marshal env, e_Unmarshal = e_Unmarshal env, e_UnmarshalOwner = e_UnmarshalOwner env,
      e_Clock = e_Clock env \<circ> fst, e_FormatTime = e_FormatTime env, e_ParseTime = e_ParseTime env,
      e_Getenv = e_Getenv env, e_Pid = e_Pid env, e_Sha256 = e_Sha256 env, e_MarshalAssets = e_MarshalAssets env,
      e_UnmarshalAssets = e_UnmarshalAssets env, e_Machine = noting_machine (e_Machine env)\<rparr>"

lemma noted_env_simps [simp]:
  "e_Machine (noted_env env) = noting_machine (e_Machine env)" "e_Sha256 (noted_env env) = e_Sha256 env"
  "key_ID (noted_env env) k = key_ID env k" "e_Clock (noted_env env) = e_Clock env \<circ> fst"
  by (simp_all add: noted_env_def key_ID_def)

lemma exists_path_noted [simp]: "exists_path (noting_machine m) p (w, log) = exists_path m p w"
  by (simp add: exists_path_def)

text \<open>A removal of the entries of \<open>dir\<close>.\<close>

definition removes_in :: "string \<Rightarrow> disk_effect list \<Rightarrow> bool" where
  "removes_in dir log \<longleftrightarrow> set log \<subseteq> range (\<lambda>n. Removed (path_join [dir, n]))"

lemma sweep_temps_log:
  "sweep_temps (noted_env env) dir found es (w, log) = (found', (w', log')) \<Longrightarrow>
   \<exists>new. log' = log @ new \<and> removes_in dir new"
proof (induction es arbitrary: found w log)
  case Nil
  then show ?case by (simp add: removes_in_def)
next
  case (Cons e es)
  obtain found1 w1 log1 where step: "sweep_temps (noted_env env) dir found1 es (w1, log1) = (found', (w', log'))"
    and log1: "log1 = log \<or> log1 = log @ [Removed (path_join [dir, de_Name e])]"
    using Cons.prems
    by (auto simp: noting_def split: option.splits if_splits prod.splits)
  from Cons.IH [OF step] obtain new where "log' = log1 @ new" "removes_in dir new" by blast
  moreover from log1 obtain pre where "log1 = log @ pre" "removes_in dir pre" by (auto simp: removes_in_def)
  ultimately show ?case by (intro exI [of _ "pre @ new"]) (auto simp: removes_in_def)
qed

lemma remove_entries_log:
  "remove_entries (noting_machine m) dir ns (w, log) = (w', log') \<Longrightarrow> \<exists>new. log' = log @ new \<and> removes_in dir new"
proof (induction ns arbitrary: w log)
  case Nil
  then show ?case by (simp add: removes_in_def)
next
  case (Cons n ns)
  obtain r w1 where "m_RemoveAll m (path_join [dir, n]) w = (r, w1)" by fastforce
  with Cons.prems have "remove_entries (noting_machine m) dir ns (w1, log @ [Removed (path_join [dir, n])]) = (w', log')"
    by (simp add: noting_def)
  from Cons.IH [OF this] obtain new where "log' = (log @ [Removed (path_join [dir, n])]) @ new" "removes_in dir new" by blast
  then show ?case
    by (auto simp: removes_in_def intro!: exI [of _ "Removed (path_join [dir, n]) # new"])
qed

lemma pruneBuildCache_log:
  assumes "pruneBuildCache (noted_env env) (noting_disk d) dir (w, log) = (w', log')"
  shows "\<exists>new. log' = log @ new \<and> removes_in dir new"
proof (cases "d_List d dir w")
  case (Inl err)
  with assms show ?thesis by (simp add: pruneBuildCache_def removes_in_def)
next
  case (Inr entries)
  obtain found w1 log1 where sweep: "sweep_temps (noted_env env) dir [] entries (w, log) = (found, (w1, log1))"
    by (metis prod.collapse)
  with Inr assms have "remove_entries (noting_machine (e_Machine env)) dir (surplus found) (w1, log1) = (w', log')"
    by (simp add: pruneBuildCache_def)
  from sweep_temps_log [OF sweep] remove_entries_log [OF this] show ?thesis
    by (auto simp: removes_in_def)
qed

text \<open>The paths of the copy in a temporary directory.\<close>

definition copied_paths :: "'w disk \<Rightarrow> string \<Rightarrow> string \<Rightarrow> 'w \<Rightarrow> string set" where
  "copied_paths d built temp w =
     (\<lambda>p. path_join [path_join [temp, buildCacheTreeName], p]) ` set (concat (map event_paths (d_Tree d built w)))"

lemma fill_entry_log:
  assumes "fill_entry (noted_env env) (noting_disk d) built temp (w, log) = (r, (w', log'))"
  shows "\<exists>new. changes_only (copied_paths d built temp w) new \<and>
    (log' = log @ new @ [Wrote (path_join [temp, buildCacheCompleteName])] \<or> log' = log @ new \<and> r \<noteq> None)"
proof -
  obtain r1 w1 log1 where tree: "linkTree (noting_machine (e_Machine env)) (noting_disk d) built
      (path_join [temp, buildCacheTreeName]) (w, log) = (r1, (w1, log1))" by (metis prod.collapse)
  then obtain new where new: "log1 = log @ new" "changes_only (copied_paths d built temp w) new"
    by (auto simp: linkTree_def copied_paths_def dest!: linked_tree_log)
  with assms tree show ?thesis
    by (auto simp: fill_entry_def noting_def split: option.splits prod.splits)
qed

section \<open>Lemmas: which revision a manifest names\<close>

lemma WithRecipeDefaults_revision [simp]: "deployed_revision (WithRecipeDefaults r opts) = deployed_revision opts"
  by (simp add: WithRecipeDefaults_def deployed_revision_def Let_def)

lemma spelled_revision_alt:
  "spelled_revision opts otherwise = (if deployed_revision opts = [] then otherwise else deployed_revision opts)"
  by (simp add: spelled_revision_def deployed_revision_def Let_def)

lemma record_artifact_revision:
  "record_artifact env os runner frontend opts workDir output revision w = (Inr manifest, w') \<Longrightarrow>
   am_Revision manifest = trim_space revision"
  by (auto simp: record_artifact_def BuildManifest_def Let_def split: prod.splits option.splits sum.splits if_splits)

lemma build_tree_revision:
  "build_tree env os runner frontend req workDir output w = (Done revision, w') \<Longrightarrow>
   deployed_revision (br_Options req) \<noteq> [] \<Longrightarrow> revision = deployed_revision (br_Options req)"
  by (auto simp: build_tree_def resolveBuildRevision_def Let_def
      split: prod.splits option.splits sum.splits if_splits outcome.splits)

text \<open>Trimming an already trimmed text changes nothing.\<close>

lemma trim_space_idem: "trim_space (trim_space s) = trim_space s"
proof -
  let ?r = "dropWhile is_space (rev (dropWhile is_space s))"
  have twice: "dropWhile P (dropWhile P xs) = dropWhile P xs" for P and xs :: string
    by (induction xs) simp_all
  have "dropWhile is_space (rev ?r) = rev ?r"
  proof (cases "rev ?r")
    case (Cons c cs)
    obtain pre where "rev (dropWhile is_space s) = pre @ ?r" by (metis takeWhile_dropWhile_id)
    then have "dropWhile is_space s = rev ?r @ rev pre" by (metis rev_append rev_rev_ident)
    with Cons have "dropWhile is_space s = c # cs @ rev pre" by simp
    then have "\<not> is_space c" by (metis hd_dropWhile list.discI list.sel(1))
    with Cons show ?thesis by simp
  next
    case Nil
    then show ?thesis by (simp only: dropWhile.simps)
  qed
  with twice [of is_space "rev (dropWhile is_space s)"] show ?thesis
    by (simp add: trim_space_def trim_left_def trim_right_def)
qed

lemma trim_deployed_revision: "trim_space (deployed_revision opts) = deployed_revision opts"
  by (simp add: deployed_revision_def Let_def trim_space_idem)

lemma BuildArtifactDir_revision:
  assumes "BuildArtifactDir env os req w = (Done manifest, w')" and "deployed_revision (br_Options req) \<noteq> []"
  shows "am_Revision manifest = deployed_revision (br_Options req)"
proof -
  let ?req = "req\<lparr>br_Options := WithRecipeDefaults (br_Recipe req) (br_Options req)\<rparr>"
  from assms(1) obtain runner frontend workDir dest revision w1 w2 w3 where
    tree: "build_tree env os runner frontend ?req workDir dest w1 = (Done revision, w2)" and
    made: "record_artifact env os runner frontend (br_Options ?req) workDir dest revision w2 = (Inr manifest, w3)"
    by (auto simp: BuildArtifactDir_def Let_def split: if_splits outcome.splits prod.splits option.splits sum.splits)
  from build_tree_revision [OF tree] record_artifact_revision [OF made] assms(2) show ?thesis
    by (simp add: trim_deployed_revision)
qed

lemma retarget_revision:
  "retargetManifestRevision m d output revision w = (Inr manifest, w') \<Longrightarrow> am_Revision manifest = revision"
  by (auto simp: retargetManifestRevision_def Let_def split: sum.splits if_splits prod.splits option.splits)

lemma from_cache_revision:
  assumes "from_cache env d cacheDir key opts output force w = (Some (Inr manifest), w')"
  shows "\<exists>k. key = Some k \<and> am_Revision manifest = spelled_revision opts (key_Revision k)"
  using assms by (auto simp: from_cache_def split: option.splits prod.splits dest: retarget_revision)

lemma build_with_cache_revision:
  assumes "build_with_cache env os d cacheDir key req w = (Some (Inr manifest), w')"
    and "deployed_revision (br_Options req) \<noteq> []"
  shows "am_Revision manifest = deployed_revision (br_Options req)"
  using assms
  by (auto simp: build_with_cache_def build_and_store_def spelled_revision_alt
      split: option.splits prod.splits sum.splits outcome.splits
      dest!: from_cache_revision dest: BuildArtifactDir_revision)

section \<open>Properties\<close>

text \<open>
  C24. What is hashed names one build: two keys with the same text under the hash agree in every
  field, so a field boundary cannot be shifted.
\<close>

theorem key_text_names_one_build: "key_text k = key_text k' \<longleftrightarrow> k = k'"
proof
  assume "key_text k = key_text k'"
  then have "key_fields k = key_fields k'"
    by (intro netstrings_inj) (simp_all add: key_text_netstrings, simp add: key_fields_def)
  then show "k = k'" by (simp add: key_fields_def)
qed simp


text \<open>
  Pruning keeps the most recently used entries: of the entries it found it leaves three, or all
  where there are fewer, and none it leaves was used before one it removes.
\<close>

lemma surplus_spares_recent:
  assumes "distinct (map fst found)"
  shows "card (fst ` set found - set (surplus found)) = min 3 (length found)"
    and "set (surplus found) \<subseteq> fst ` set found"
    and "\<forall>(n, used) \<in> set found. \<forall>(n', used') \<in> set found. n \<notin> set (surplus found) \<longrightarrow> n' \<in> set (surplus found) \<longrightarrow> used' \<le> used"
proof -
  let ?s = "sort_key (\<lambda>e. - snd e) found"
  let ?kept = "take buildCacheKeep ?s" and ?gone = "drop buildCacheKeep ?s"
  have names: "distinct (map fst ?s)" using assms by (simp add: distinct_map)
  have split: "map fst ?s = map fst ?kept @ map fst ?gone" by (simp flip: map_append)
  have sets: "fst ` set found = set (map fst ?kept) \<union> set (map fst ?gone)"
    using arg_cong [OF split, of set] by simp
  have disj: "set (map fst ?kept) \<inter> set (map fst ?gone) = {}"
    using names unfolding split distinct_append by blast
  have gone: "set (surplus found) = set (map fst ?gone)" by (simp add: surplus_def)
  have "fst ` set found - set (surplus found) = set (map fst ?kept)" using sets disj gone by blast
  moreover have "distinct (map fst ?kept)" using names unfolding split by simp
  ultimately show "card (fst ` set found - set (surplus found)) = min 3 (length found)"
    by (simp only: distinct_card length_map length_take length_sort) (simp add: buildCacheKeep_def min.commute)
  show "set (surplus found) \<subseteq> fst ` set found" using sets gone by blast
  have order: "snd g \<le> snd e" if "e \<in> set ?kept" "g \<in> set ?gone" for e g
  proof -
    have "sorted (map (\<lambda>e. - snd e) (?kept @ ?gone))" by simp
    with that have "- snd e \<le> - snd g" unfolding map_append sorted_append by auto
    then show ?thesis by simp
  qed
  have found: "set found = set ?kept \<union> set ?gone" by (metis append_take_drop_id set_append set_sort)
  have "e \<in> set ?kept" if "e \<in> set found" "fst e \<notin> set (surplus found)" for e
    using that(1) that(2) [unfolded gone set_map] unfolding found by blast
  moreover have "g \<in> set ?gone" if "g \<in> set found" "fst g \<in> set (surplus found)" for g
    using that(1) that(2) [unfolded gone] disj unfolding found set_map by blast
  ultimately show "\<forall>(n, used) \<in> set found. \<forall>(n', used') \<in> set found. n \<notin> set (surplus found) \<longrightarrow>
      n' \<in> set (surplus found) \<longrightarrow> used' \<le> used"
    using order by fastforce
qed

text \<open>
  However an artifact was obtained, its manifest names the revision or tag the build was asked
  for, so a deploy of that revision accepts it; and an artifact for any remote but the sandbox
  comes from a build that ran, whatever the cache holds.
\<close>

theorem build_is_of_its_revision:
  assumes run: "runDeployBuild env os d marshal version requireDocker toolTarget parseDuration sandboxRemote recipeFor
      loaded flags args w = (Some (Inr manifest), w')"
    and remote: "deployRemoteName flags args = Inr remote"
    and resolved: "resolveDeployRecipeOptions parseDuration sandboxRemote recipeFor loaded flags remote = Inr (cfg, r, opts)"
  shows "(deployed_revision opts \<noteq> [] \<longrightarrow> am_Revision manifest = deployed_revision opts) \<and>
    (\<not> buildCacheApplies remote (GetBool flags ''no-cache'') \<longrightarrow>
      (\<exists>req w1. br_Recipe req = r \<and> br_Options req = opts \<and> BuildArtifactDir env os req w1 = (Done manifest, w')))"
proof -
  from run remote resolved obtain req runner workDir hooks w1 key w2 where
    key: "cache_key_for env os d marshal version remote (GetBool flags ''no-cache'') workDir runner r hooks opts
      (GetString flags ''runner'') w1 = (key, w2)" and
    built: "build_with_cache env os d (sandboxBuildCacheDir workDir) key req w2 = (Some (Inr manifest), w')" and
    req: "br_Recipe req = r" "br_Options req = opts"
    by (auto simp: runDeployBuild_def split: if_splits sum.splits prod.splits)
  have "BuildArtifactDir env os req w2 = (Done manifest, w')"
    if "\<not> buildCacheApplies remote (GetBool flags ''no-cache'')"
  proof -
    from that key have "key = None" by (simp add: cache_key_for_def)
    with built show ?thesis
      by (auto simp: build_with_cache_def from_cache_def build_and_store_def split: prod.splits outcome.splits)
  qed
  with build_with_cache_revision [OF built] req show ?thesis by blast
qed

definition no_disk :: "'w disk" where
  "no_disk =
     \<lparr>d_Tree = (\<lambda>p w. []), d_List = (\<lambda>p w. Inr []), d_Mkdir = (\<lambda>p perm w. (None, w)),
      d_MkdirTemp = (\<lambda>dir p w. (Inl (Sentinel ErrNotExist), w)), d_Symlink = (\<lambda>l p w. (None, w)),
      d_Link = (\<lambda>src p w. (None, w)), d_Create = (\<lambda>p perm w. (None, w)), d_Fill = (\<lambda>p s w. (None, w)),
      d_Rename = (\<lambda>src p w. (None, w)), d_Remove = (\<lambda>p w. (None, w)), d_Chtimes = (\<lambda>p t w. w),
      d_Stamp = (\<lambda>p w. Inl (Sentinel ErrNotExist)), d_Executable = Inr ''/usr/bin/govard''\<rparr>"

definition build_flags :: flag_set where
  "build_flags = AList.update ''revision'' \<lparr>fl_Value = StringFlag ''abc'', fl_Changed = True\<rparr>
     (AList.update ''output'' \<lparr>fl_Value = StringFlag ''/out'', fl_Changed = True\<rparr> bindDeployBuildFlags)"

theorem build_is_of_its_revision_witness:
  "\<exists>manifest w. runDeployBuild builder_env idle_os no_disk (\<lambda>_. Inr []) ''1'' (\<lambda>_. None) (\<lambda>_. ([], [], [])) demo_duration no_sandbox
      (\<lambda>_. build_recipe) (Inr (protected_config\<lparr>cf_Deploy := demo_deploy\<lparr>dc_Settings := []\<rparr>\<rparr>)) build_flags [''prod''] None =
      (Some (Inr manifest), w) \<and> am_Revision manifest = ''abc''"
proof -
  let ?cfg = "protected_config\<lparr>cf_Deploy := demo_deploy\<lparr>dc_Settings := []\<rparr>\<rparr>"
  let ?run = "runDeployBuild builder_env idle_os no_disk (\<lambda>_. Inr []) ''1'' (\<lambda>_. None) (\<lambda>_. ([], [], [])) demo_duration no_sandbox
      (\<lambda>_. build_recipe) (Inr ?cfg) build_flags [''prod''] None"
  let ?opts = "resolveDeployRecipeOptions demo_duration no_sandbox (\<lambda>_. build_recipe) (Inr ?cfg) build_flags ''prod''"
  have "case fst ?run of Some (Inr manifest) \<Rightarrow> am_Revision manifest = ''abc'' | _ \<Rightarrow> False" by code_simp
  then obtain manifest where run: "?run = (Some (Inr manifest), snd ?run)"
    by (cases ?run) (auto split: option.splits sum.splits)
  have remote: "deployRemoteName build_flags [''prod''] = Inr ''prod''" by code_simp
  have "case ?opts of Inr (cfg, r, opts) \<Rightarrow> deployed_revision opts = ''abc'' | Inl _ \<Rightarrow> False" by code_simp
  then obtain cfg r opts where "?opts = Inr (cfg, r, opts)" "deployed_revision opts = ''abc''"
    by (auto split: sum.splits prod.splits)
  with build_is_of_its_revision [OF run remote] run show ?thesis by auto
qed

text \<open>
  The branch and the verification URL reach the commands of a build through their templates, but
  they are no part of the key: two builds of one commit that differ there share an entry.
\<close>

lemma cache_key_ignores_branch:
  "sandboxBuildCacheKey env os d marshal version workDir builder r hooks (opts\<lparr>opt_Branch := branch, opt_VerifyURL := url\<rparr>) name w =
     sandboxBuildCacheKey env os d marshal version workDir builder r hooks opts name w"
proof -
  let ?opts = "opts\<lparr>opt_Branch := branch, opt_VerifyURL := url\<rparr>"
  have same: "spelled_revision ?opts = spelled_revision opts" "opt_Settings ?opts = opt_Settings opts"
    "build_inputs_of r hooks ?opts = build_inputs_of r hooks opts"
    by (simp_all add: spelled_revision_def build_inputs_of_def fun_eq_iff)
  show ?thesis unfolding sandboxBuildCacheKey_def buildInputsDigest_def same by (rule refl)
qed

lemma branch_reaches_the_build:
  "Expand (VarsFor (HostForTest ''/out'') (demo_options\<lparr>opt_Branch := ''next''\<rparr>)) ''npm run build -- {{branch}}'' = Inr (''npm run build -- '' @ [sq] @ ''next'' @ [sq])"
  "Expand (VarsFor (HostForTest ''/out'') (demo_options\<lparr>opt_Branch := ''main''\<rparr>)) ''npm run build -- {{branch}}'' = Inr (''npm run build -- '' @ [sq] @ ''main'' @ [sq])"
  by code_simp+

end
