(* ===== verification/StatusCommand.thy ===== *)
theory StatusCommand
  imports DeployCommand
begin

text \<open>
  The commands that read a target (\<open>deploy releases\<close> and \<open>deploy status\<close> of
  \<open>internal/cmd/deploy_status.go\<close>, \<open>deploy check\<close> of \<open>deploy_plan.go\<close>), and the document
  \<open>deploy --json\<close> ends with.  Tables are their rows; the columns and their widths are left out.
\<close>

section \<open>Releases\<close>

datatype releases_report = NoReleases | ReleasesJSON "release_entry list" | ReleasesTable "release_entry list"

definition runDeployReleases ::
  "(host \<Rightarrow> 'w env) \<Rightarrow> (string \<Rightarrow> string + int) \<Rightarrow> (config \<Rightarrow> go_error + remote_config) \<Rightarrow> go_error + config \<Rightarrow>
   flag_set \<Rightarrow> string list \<Rightarrow> 'w \<Rightarrow> (cli_error + releases_report) \<times> 'w" where
  "runDeployReleases envs parseDuration sandboxRemote loaded flags args w =
     (case deployRemoteName flags args of
        Inl err \<Rightarrow> (Inl err, w)
      | Inr remote \<Rightarrow>
     (case resolveDeployReadOptions parseDuration sandboxRemote loaded flags remote of
        Inl err \<Rightarrow> (Inl err, w)
      | Inr (cfg, opts) \<Rightarrow>
     (case deployHostFor envs sandboxRemote cfg remote opts w of
        (Inl err, w) \<Rightarrow> (Inl err, w)
      | (Inr h, w) \<Rightarrow>
     (case ListReleases (envs h) h w of
        (Inl err, w) \<Rightarrow> (Inl (Execution err), w)
      | (Inr entries, w) \<Rightarrow>
          (if entries = [] then Inr NoReleases
           else if GetBool flags ''json'' then Inr (ReleasesJSON entries)
           else Inr (ReleasesTable entries), w)))))"

section \<open>Status\<close>

record status_result =
  st_Remote :: string
  st_Release :: string
  st_Revision :: string
  st_Branch :: string
  st_Status :: string
  st_Error :: "cli_error option"

definition status_row :: "string \<Rightarrow> status_result" where
  "status_row name = \<lparr>st_Remote = name, st_Release = [], st_Revision = [], st_Branch = [], st_Status = [], st_Error = None\<rparr>"

definition unknown_row :: "string \<Rightarrow> cli_error \<Rightarrow> status_result" where
  "unknown_row name err = (status_row name)\<lparr>st_Status := ''unknown'', st_Error := Some err\<rparr>"

text \<open>Naming one is explicit; naming none means every configured one.\<close>

definition configured_names :: "config \<Rightarrow> cli_error + string list" where
  "configured_names cfg =
     (let names = SortRemoteNames (map fst (cf_Remotes cfg)) in
      if names = [] then Inl (ConfigError (Errorf ''this project configures no remotes'' [])) else Inr names)"

definition statusRemoteNames :: "flag_set \<Rightarrow> string list \<Rightarrow> config \<Rightarrow> cli_error + string list" where
  "statusRemoteNames flags args cfg =
     (let fromFlag = GetString flags ''remote''; positional = (case args of [] \<Rightarrow> [] | name # _ \<Rightarrow> name) in
      if positional \<noteq> [] then
        (if fromFlag \<noteq> [] \<and> fromFlag \<noteq> positional then
           Inl (UsageError (Errorf ''remote %q does not match --remote %q'' [positional, fromFlag]))
         else Inr [positional])
      else if fromFlag \<noteq> [] then Inr [fromFlag]
      else configured_names cfg)"

definition status_overrides :: overrides where
  "status_overrides = (plain_overrides [])\<lparr>ov_Verify := Some False, ov_Lock := Some False\<rparr>"

definition deployStatusForRemote ::
  "(host \<Rightarrow> 'w env) \<Rightarrow> (string \<Rightarrow> string + int) \<Rightarrow> (config \<Rightarrow> go_error + remote_config) \<Rightarrow> config \<Rightarrow> string \<Rightarrow> 'w \<Rightarrow>
   (go_error + status_result) \<times> 'w" where
  "deployStatusForRemote envs parseDuration sandboxRemote cfg name w =
     (case ResolveReadOptions parseDuration sandboxRemote cfg name status_overrides of
        Inl err \<Rightarrow>
          if errors_is err ErrUnknownRemote then (Inl err, w) else (Inr (unknown_row name (Execution err)), w)
      | Inr opts \<Rightarrow>
     (case deployHostFor envs sandboxRemote cfg name opts w of
        (Inl err, w) \<Rightarrow> (Inr (unknown_row name err), w)
      | (Inr h, w) \<Rightarrow>
     (case LiveRelease (envs h) h w of
        (Inl err, w) \<Rightarrow> (Inr (unknown_row name (Execution err)), w)
      | (Inr None, w) \<Rightarrow> (Inr ((status_row name)\<lparr>st_Status := ''no live release''\<rparr>), w)
      | (Inr (Some rel), w) \<Rightarrow>
          (Inr ((status_row name)\<lparr>st_Release := rel_Release rel, st_Revision := rel_Revision rel,
             st_Branch := rel_Branch rel, st_Status := rel_Status rel\<rparr>), w))))"

fun status_rows ::
  "(host \<Rightarrow> 'w env) \<Rightarrow> (string \<Rightarrow> string + int) \<Rightarrow> (config \<Rightarrow> go_error + remote_config) \<Rightarrow> config \<Rightarrow> string list \<Rightarrow> 'w \<Rightarrow>
   (cli_error + status_result list) \<times> 'w" where
  "status_rows envs parseDuration sandboxRemote cfg [] w = (Inr [], w)"
| "status_rows envs parseDuration sandboxRemote cfg (name # names) w =
     (case deployStatusForRemote envs parseDuration sandboxRemote cfg name w of
        (Inl err, w) \<Rightarrow> (Inl (configOrUsageError (Execution err)), w)
      | (Inr row, w) \<Rightarrow>
          (case status_rows envs parseDuration sandboxRemote cfg names w of
             (Inl err, w) \<Rightarrow> (Inl err, w)
           | (Inr rows, w) \<Rightarrow> (Inr (row # rows), w)))"

text \<open>The rows are written also where the command then fails because no remote answered.\<close>

definition runDeployStatus ::
  "(host \<Rightarrow> 'w env) \<Rightarrow> (string \<Rightarrow> string + int) \<Rightarrow> (config \<Rightarrow> go_error + remote_config) \<Rightarrow> go_error + config \<Rightarrow>
   flag_set \<Rightarrow> string list \<Rightarrow> 'w \<Rightarrow> (cli_error option \<times> status_result list) \<times> 'w" where
  "runDeployStatus envs parseDuration sandboxRemote loaded flags args w =
     (case loaded of
        Inl err \<Rightarrow> ((Some (ConfigError err), []), w)
      | Inr cfg \<Rightarrow>
     (case statusRemoteNames flags args cfg of
        Inl err \<Rightarrow> ((Some err, []), w)
      | Inr names \<Rightarrow>
     (case status_rows envs parseDuration sandboxRemote cfg names w of
        (Inl err, w) \<Rightarrow> ((Some err, []), w)
      | (Inr rows, w) \<Rightarrow>
          ((if list_ex (\<lambda>row. st_Error row = None) rows then None
            else Some (Execution (Errorf ''no configured remote could be reached'' [])), rows), w))))"

section \<open>Check\<close>

record check_report =
  ck_Remote :: string
  ck_Host :: host
  ck_Strategy :: string
  ck_Layout :: string
  ck_NoRepository :: bool

definition runDeployCheckPreflight :: "'w env \<Rightarrow> (string \<Rightarrow> bool) \<Rightarrow> step_ctx \<Rightarrow> 'w \<Rightarrow> go_error option \<times> 'w" where
  "runDeployCheckPreflight env isObject sc w =
     CoreCheck (withSandboxComposerAuth env isObject (rc_Sandbox (h_Remote (sc_Host sc)))
       (opt_Build (sc_Opts sc) = BuildServer) w) sc w"

definition check_context :: "'w env \<Rightarrow> host \<Rightarrow> options \<Rightarrow> 'w \<Rightarrow> step_ctx" where
  "check_context env h opts w =
     \<lparr>sc_Host = h, sc_Vars = NewVars, sc_Release = None, sc_Opts = opts, sc_WorkDir = (case m_Getwd (e_Machine env) w of Inr d \<Rightarrow> d | Inl _ \<Rightarrow> []), sc_Checks = [],
      sc_Live = False, sc_Terminal = False\<rparr>"

definition runDeployCheck ::
  "(host \<Rightarrow> 'w env) \<Rightarrow> (string \<Rightarrow> bool) \<Rightarrow> (string \<Rightarrow> string + int) \<Rightarrow> (config \<Rightarrow> go_error + remote_config) \<Rightarrow>
   (config \<Rightarrow> recipe) \<Rightarrow> go_error + config \<Rightarrow> flag_set \<Rightarrow> string list \<Rightarrow> 'w \<Rightarrow> (cli_error + check_report) \<times> 'w" where
  "runDeployCheck envs isObject parseDuration sandboxRemote recipeFor loaded flags args w =
     (case deployRemoteName flags args of
        Inl err \<Rightarrow> (Inl err, w)
      | Inr remote \<Rightarrow>
     (case resolveDeployRecipeOptions parseDuration sandboxRemote recipeFor loaded flags remote of
        Inl err \<Rightarrow> (Inl (configOrUsageError err), w)
      | Inr (cfg, _, opts) \<Rightarrow>
     (case deployHostFor envs sandboxRemote cfg remote opts w of
        (Inl err, w) \<Rightarrow> (Inl err, w)
      | (Inr h, w) \<Rightarrow>
     (case runDeployCheckPreflight (envs h) isObject (check_context (envs h) h opts w) w of
        (Some err, w) \<Rightarrow> (Inl (Execution err), w)
      | (None, w) \<Rightarrow>
     (case ResolvePublishStrategy (envs h) h opts w of
        (Inl err, w) \<Rightarrow> (Inl (Execution err), w)
      | (Inr strategy, w) \<Rightarrow>
          (Inr \<lparr>ck_Remote = remote, ck_Host = h, ck_Strategy = strategy, ck_Layout = describeLayout strategy,
             ck_NoRepository = (trim_space (opt_Repository opts) = [])\<rparr>, w))))))"

section \<open>The document of a run\<close>

record deploy_json_task =
  dt_ID :: string
  dt_Stage :: string
  dt_Status :: string
  dt_DurationMS :: int
  dt_Error :: "string list"
  dt_SkipReason :: string

record deploy_json =
  dj_Remote :: string
  dj_Branch :: string
  dj_Revision :: string
  dj_Release :: string
  dj_Mode :: string
  dj_Strategy :: string
  dj_PreviousRelease :: string
  dj_Verify :: string
  dj_Result :: string
  dj_Error :: "go_error option"
  dj_AlreadyDeployed :: bool
  dj_DurationMS :: int
  dj_Tasks :: "deploy_json_task list"

definition json_task :: "step_result \<Rightarrow> deploy_json_task" where
  "json_task r =
     \<lparr>dt_ID = res_ID r, dt_Stage = res_Stage r, dt_Status = res_Status r, dt_DurationMS = res_Duration r div 10 ^ 6,
      dt_Error = (case res_Err r of None \<Rightarrow> [] | Some e \<Rightarrow> error_text e), dt_SkipReason = res_SkipReason r\<rparr>"

definition writeDeployJSON ::
  "string \<Rightarrow> options \<Rightarrow> release \<Rightarrow> run_outcome \<Rightarrow> go_error option \<Rightarrow> deploy_json" where
  "writeDeployJSON remote opts rel out runErr =
     \<lparr>dj_Remote = remote, dj_Branch = opt_Branch opts, dj_Revision = rel_Revision rel, dj_Release = rel_Release rel,
      dj_Mode = opt_Build opts, dj_Strategy = opt_Publish opts,
      dj_PreviousRelease = pub_PreviousRelease (rel_Publish rel), dj_Verify = ver_Status (rel_Verify rel),
      dj_Result = (if runErr = None then ''ok'' else ''failed''), dj_Error = runErr,
      dj_AlreadyDeployed = out_AlreadyDeployed out, dj_DurationMS = out_Total out div 10 ^ 6,
      dj_Tasks = map json_task (out_Steps out)\<rparr>"

section \<open>Lemmas\<close>

lemma deployStatusForRemote_row:
  "deployStatusForRemote envs parseDuration sandboxRemote cfg name w = (Inr row, w') \<Longrightarrow> st_Remote row = name"
  by (auto simp: deployStatusForRemote_def unknown_row_def status_row_def
      split: sum.splits prod.splits option.splits if_splits)

lemma deployStatusForRemote_fails:
  "deployStatusForRemote envs parseDuration sandboxRemote cfg name w = (Inl err, w') \<Longrightarrow> errors_is err ErrUnknownRemote"
  by (auto simp: deployStatusForRemote_def split: sum.splits prod.splits option.splits if_splits)

lemma status_rows_complete:
  "status_rows envs parseDuration sandboxRemote cfg names w = (Inr rows, w') \<Longrightarrow> map st_Remote rows = names"
proof (induction names arbitrary: w rows)
  case (Cons name names)
  then obtain row w1 rest where "deployStatusForRemote envs parseDuration sandboxRemote cfg name w = (Inr row, w1)"
    "status_rows envs parseDuration sandboxRemote cfg names w1 = (Inr rest, w')" "rows = row # rest"
    by (auto split: prod.splits sum.splits)
  with Cons.IH deployStatusForRemote_row show ?case by auto
qed simp

lemma status_rows_fails:
  "status_rows envs parseDuration sandboxRemote cfg names w = (Inl err, w') \<Longrightarrow>
   \<exists>name \<in> set names. \<exists>e w1 w2. deployStatusForRemote envs parseDuration sandboxRemote cfg name w1 = (Inl e, w2) \<and>
     errors_is e ErrUnknownRemote \<and> err = ConfigError e"
proof (induction names arbitrary: w)
  case (Cons name names)
  obtain r w1 where one: "deployStatusForRemote envs parseDuration sandboxRemote cfg name w = (r, w1)"
    by (metis prod.collapse)
  show ?case
  proof (cases r)
    case (Inl e)
    with one have unknown: "errors_is e ErrUnknownRemote" by (auto dest: deployStatusForRemote_fails)
    then have "configOrUsageError (Execution e) = ConfigError e"
      by (simp add: configOrUsageError_def configuration_faults_def)
    with one Inl Cons.prems have "err = ConfigError e" by simp
    with one Inl unknown show ?thesis by (intro bexI [of _ name] exI [of _ e] exI [of _ w] exI [of _ w1]) auto
  next
    case (Inr row)
    with one Cons.prems have "status_rows envs parseDuration sandboxRemote cfg names w1 = (Inl err, w')"
      by (auto split: prod.splits sum.splits)
    from Cons.IH [OF this] show ?thesis by auto
  qed
qed simp

section \<open>Properties\<close>

text \<open>
  C25. A status report is complete: it has one row per remote it was asked for, in order, and a remote
  that cannot be read is a row.  The command fails only where the configuration cannot be loaded
  or names no remote, a remote it was given is not configured, or every row carries an error; only the last of these is
  no fault of the operator's, and it comes with the rows.
\<close>

theorem status_reports_every_remote:
  assumes "runDeployStatus envs parseDuration sandboxRemote (Inr cfg) flags args w = ((err, rows), w')"
    and "statusRemoteNames flags args cfg = Inr names"
  shows "case err of
      None \<Rightarrow> map st_Remote rows = names \<and> (\<exists>row \<in> set rows. st_Error row = None)
    | Some e \<Rightarrow>
        (\<exists>cause. e = ConfigError cause \<and> errors_is cause ErrUnknownRemote) \<or>
        map st_Remote rows = names \<and> (\<forall>row \<in> set rows. st_Error row \<noteq> None) \<and> Code (Some e) = CodeError"
proof -
  obtain r w1 where run: "status_rows envs parseDuration sandboxRemote cfg names w = (r, w1)" by (metis prod.collapse)
  show ?thesis
  proof (cases r)
    case (Inl e)
    with run have "\<exists>cause. e = ConfigError cause \<and> errors_is cause ErrUnknownRemote"
      by (auto dest: status_rows_fails)
    with assms run Inl show ?thesis by (auto simp: runDeployStatus_def)
  next
    case (Inr all)
    with run have "map st_Remote all = names" by (auto dest: status_rows_complete)
    with assms run Inr show ?thesis
      by (auto simp: runDeployStatus_def list_ex_iff Code_def split: if_splits)
  qed
qed

text \<open>One remote that answers and one that does not, whose deploy path has to be discovered.\<close>

definition silent_env :: "bool env" where
  "silent_env = lock_env\<lparr>e_Run := \<lambda>opts cmd w. ((\<lparr>Stdout = [], Stderr = [], ExitCode = 255\<rparr>, Some (CommandError cmd 255 [])), w)\<rparr>"

definition half_silent :: "host \<Rightarrow> bool env" where
  "half_silent h = (if h_Name h = ''qa'' then silent_env else lock_env)"

definition two_remotes :: config where
  "two_remotes = demo_config\<lparr>cf_Deploy := demo_deploy\<lparr>dc_DeployPath := []\<rparr>,
     cf_Remotes := [(''prod'', plain_remote ''/var/www'' (Some demo_deploy)), (''qa'', plain_remote [] None)]\<rparr>"

theorem status_reports_every_remote_witness:
  "map st_Remote (snd (fst (runDeployStatus half_silent demo_duration no_sandbox (Inr two_remotes) [] [] False))) = [''prod'', ''qa'']"
proof -
  let ?run = "runDeployStatus half_silent demo_duration no_sandbox (Inr two_remotes) [] [] False"
  have names: "statusRemoteNames [] [] two_remotes = Inr [''prod'', ''qa'']" by code_simp
  have run: "?run = ((fst (fst ?run), snd (fst ?run)), snd ?run)" by simp
  have "fst (fst ?run) = None" by code_simp
  with status_reports_every_remote [OF run names] show ?thesis by simp
qed

lemma status_tells_the_silent_remote:
  "map (\<lambda>row. st_Error row = None) (snd (fst (runDeployStatus half_silent demo_duration no_sandbox (Inr two_remotes) [] [] False)))
     = [True, False]"
  by code_simp

text \<open>
  \<open>LiveRelease\<close> has no failing branch, so where the deploy path is configured nothing tells a
  remote that cannot be reached from one that serves no release.
\<close>

lemma LiveRelease_never_fails: "fst (LiveRelease env h w) \<noteq> Inl err"
  by (auto simp: LiveRelease_def split: prod.splits sum.splits)

lemma unreachable_reads_as_no_release:
  assumes "ResolveReadOptions parseDuration sandboxRemote cfg name status_overrides = Inr opts"
    and "HostForConfig sandboxRemote cfg name opts = Inr h" and "trim_space (h_DeployPath h) \<noteq> []"
    and "\<And>ro cmd w. \<exists>res err w'. e_Run (envs h) ro cmd w = ((res, Some err), w')"
  shows "fst (deployStatusForRemote envs parseDuration sandboxRemote cfg name w) = Inr ((status_row name)\<lparr>st_Status := ''no live release''\<rparr>)"
proof -
  let ?link = "''readlink -f '' @ Shell (h_CurrentPath h)"
  let ?head = "''git -C '' @ Shell (h_CurrentPath h) @ '' rev-parse HEAD''"
  obtain r1 e1 w1 where link: "e_Run (envs h) (short_opts False) ?link w = ((r1, Some e1), w1)" using assms(4) by blast
  obtain r2 e2 w' where head: "e_Run (envs h) (short_opts False) ?head w1 = ((r2, Some e2), w')" using assms(4) by blast
  from link head have "liveReleaseName (envs h) h w = ([], w')" unfolding liveReleaseName_def live_by_head_def by (simp only: prod.case option.case)
  then show ?thesis using assms(1-3)
    by (simp add: deployStatusForRemote_def deployHostFor_def LiveRelease_def)
qed

text \<open>A listing without releases is answered in words also where a document was asked for.\<close>

lemma empty_listing_is_no_document:
  assumes "deployRemoteName flags args = Inr remote"
    and "resolveDeployReadOptions parseDuration sandboxRemote loaded flags remote = Inr (cfg, opts)"
    and "deployHostFor envs sandboxRemote cfg remote opts w = (Inr h, w1)"
    and "ListReleases (envs h) h w1 = (Inr [], w2)"
  shows "fst (runDeployReleases envs parseDuration sandboxRemote loaded flags args w) = Inr NoReleases"
  using assms by (simp add: runDeployReleases_def)

text \<open>The document reports a failure exactly where the run had one, and every step of its timeline.\<close>

lemma writeDeployJSON_agrees:
  "dj_Result (writeDeployJSON remote opts rel out err) = ''ok'' \<longleftrightarrow> err = None"
  "map dt_ID (dj_Tasks (writeDeployJSON remote opts rel out err)) = map res_ID (out_Steps out)"
  by (simp_all add: writeDeployJSON_def json_task_def)

end
