(* ===== verification/Spec2Isabelle.thy ===== *)
theory Spec2Isabelle
  imports AuditScheduler Gateway RuntimeGate EditDistance Settings Args PlanHooks Release Resolve Target Lock ReleaseDirs Query Assets Execute RunProps LockSafety Capture LiveOutput BuildArtifact Rollback BuildCache StatusCommand
begin

text \<open>
  Verification library of govard.  Its core is the deployment pipeline: the package
  \<open>internal/deploy\<close>, the commands of \<open>internal/cmd\<close> that drive it, and the parts of
  \<open>internal/engine\<close>, \<open>internal/cli\<close> and \<open>internal/conventions\<close> they call.  Beside it stand
  the scheduler of audit jobs, the registry of the SSH gateway and the gate in front of every
  command.  Each definition translates one Go
  function, method, type or loop under \<open>src/\<close> and carries its name wherever Isabelle allows it;
  theorems are about those definitions.

  \<^bold>\<open>How the program is put together.\<close>  \<open>govard deploy <remote>\<close> resolves options from the
  project's configuration, the remote, the recipe of the framework and the flags; builds a plan,
  which is the recipe's tasks in a canonical order with the project's hooks around them; shapes
  that plan by the build mode and the publish strategy; and runs it step by step on a target over
  ssh, in a container or on this machine.  The target holds a mirror of the repository, numbered
  release directories, a shared directory, the link to the live release, the records of past
  deploys and a lock.  A record is written after every step, so that a later run can resume, and
  a rollback runs the tail of the same plan on an older release.

  \<^bold>\<open>Theories, bottom up.\<close>
  \<^item> \<open>Prelude\<close>: Go's errors and the functions of \<open>strings\<close>, \<open>strconv\<close>, \<open>path\<close> and
    \<open>filepath\<close> the program calls, with the lemmas the components share.
  \<^item> \<open>Shell\<close>, \<open>Args\<close>, \<open>SettingValues\<close>, \<open>Settings\<close>, \<open>EditDistance\<close>: quoting for a
    POSIX shell (with a reader of such words as its specification), arguments from settings
    (\<open>args.go\<close>), declarations and validation of \<open>deploy.settings\<close> (\<open>settings.go\<close>), and
    the suggestion for a misspelled name against the textbook recurrence.
  \<^item> \<open>Pipeline\<close>, \<open>Recipe\<close>, \<open>Hooks\<close>, \<open>Plan\<close>, \<open>PlanBuild\<close>, \<open>PlanHooks\<close>,
    \<open>PlanShape\<close>: stages, tasks and recipes (\<open>recipe.go\<close>, \<open>tasks.go\<close>), hooks (\<open>hook.go\<close>),
    plans and their transformations (\<open>plan.go\<close>), and what \<open>BuildPlan\<close> and the branches of a
    plan promise.
  \<^item> \<open>Vars\<close>, \<open>Release\<close>, \<open>Resolve\<close>, \<open>Target\<close>: template variables (\<open>vars.go\<close>), the record
    of a deploy (\<open>release.go\<close>), option resolution (\<open>resolve.go\<close>, \<open>deploy_config.go\<close>,
    \<open>engine/remote_policy.go\<close>) and the target with its paths, its runner and its world
    (\<open>host.go\<close>, \<open>runner.go\<close>).
  \<^item> \<open>Lock\<close>, \<open>ReleaseDirs\<close>, \<open>Query\<close>, \<open>Assets\<close>, \<open>WorkingCopy\<close>, \<open>SharedPaths\<close>,
    \<open>Publish\<close>, \<open>Verify\<close>, \<open>Preflight\<close>, \<open>Artifact\<close>: the steps govard implements itself
    (\<open>tasks_prepare.go\<close>, \<open>tasks_publish.go\<close>, \<open>tasks_verify.go\<close>, \<open>query.go\<close>,
    \<open>dbbackup.go\<close>, \<open>assets_reuse.go\<close>, \<open>artifact.go\<close>); \<open>Machine\<close> is the machine govard
    runs on as those steps see it, \<open>Version\<close> the numeric versions the preflight compares
    (\<open>engine/version_compare.go\<close>).
  \<^item> \<open>RemoteSSH\<close>, \<open>Runners\<close>, \<open>Capture\<close>, \<open>LiveOutput\<close>: the ssh arguments
    (\<open>engine/remote\<close>), the three runners over an operating system (\<open>runner*.go\<close>), the bounded
    capture (\<open>capture.go\<close>) and the nested output (\<open>stream.go\<close>).
  \<^item> \<open>Execute\<close>, \<open>ExecuteRun\<close>, \<open>CoreContract\<close>, \<open>RunProps\<close>, \<open>LockSafety\<close>: the
    executor (\<open>execute.go\<close>, \<open>tasks_migrate.go\<close>), what each of its operations reports, the
    contract a Go step keeps, and the properties of whole runs.
  \<^item> \<open>BuildArtifact\<close>: building an artifact from a revision (\<open>artifact.go\<close>).
  \<^item> \<open>CommandLine\<close>, \<open>DeployCommand\<close>, \<open>Rollback\<close>, \<open>BuildCache\<close>, \<open>StatusCommand\<close>: the
    commands, from flags to exit codes: flags, planning and \<open>deploy plan --json\<close>
    (\<open>deploy_support.go\<close>, \<open>deploy_plan.go\<close>, \<open>cli/exit.go\<close>), \<open>deploy\<close> with resume and
    \<open>deploy unlock\<close> (\<open>deploy.go\<close>, \<open>deploy_unlock.go\<close>), \<open>deploy rollback\<close>
    (\<open>deploy_rollback.go\<close>), \<open>deploy build\<close> with its cache (\<open>deploy_build.go\<close>,
    \<open>deploy_build_cache.go\<close>), and \<open>deploy releases\<close>, \<open>status\<close> and \<open>check\<close>
    (\<open>deploy_status.go\<close>, \<open>deploy_plan.go\<close>).
  \<^item> \<open>AuditScheduler\<close>, \<open>Gateway\<close>, \<open>RuntimeGate\<close>, which import only the prelude: the check of a
    job graph and the loop that runs it under a budget (\<open>internal/audit/scheduler.go\<close>); the
    registry of the SSH gateway with the files it writes for the container's scripts and those
    scripts' reading of them (\<open>internal/gateway\<close>, \<open>docker/sshd\<close>); what a command needs of the
    host and the gate that enforces it (\<open>internal/runtime\<close>, \<open>gate.go\<close>, \<open>capabilities.go\<close>).

  \<^bold>\<open>State.\<close>  A Go method that runs a command on the target takes and returns a world of the type
  \<open>'w\<close>, about which nothing is assumed; how a command answers in a world, and the world after
  it, is a field of the record \<open>env\<close>.  \<open>logging\<close> runs an \<open>env\<close> over a world that also keeps the
  commands issued, which is how a property speaks of them.  The executor threads the release, the
  outcome and the world (\<open>step_state\<close>, \<open>run_state\<close>); the runners start processes through the
  record \<open>os\<close>; the build cache works on a record \<open>disk\<close> of operations on files.  A Go error is a value of \<open>go_error\<close>, with wrapping (\<open>errors.Is\<close>, \<open>errors.As\<close>)
  as the code has it; a panic of the source (a slice or index out of range) is a branch of its
  own; integers are kept at 64 bits where the code's arithmetic may leave the range, and are
  unbounded where it counts elements of a list in memory.

  \<^bold>\<open>Groups of lemmas.\<close>  \<open>ExecuteRun\<close> and the end of each component's theory state what an
  operation reads and which parts of the state it leaves alone.  Interfaces between components
  are locales, each interpreted on the code's own definitions: \<open>keyed_upsert\<close> (a list updated by
  key), \<open>quoting\<close> and \<open>literal_quoting\<close> (a word the shell reads back), \<open>plan_transform\<close> (a
  change of a plan that only removes or marks steps), \<open>check_part\<close> (a group of checks that
  reports all it did), \<open>preflight_kept\<close> and \<open>lock_kept\<close> (an invariant the commands keep), and
  \<open>step_core\<close> (a Go step that leaves the timeline alone); the executor's
  properties rest on the contract of \<open>CoreContract\<close>, proved for every step modelled.  On top
  stand the properties: what a plan contains and in what order; that maintenance closes before
  the swap and the lock is never taken from another holder; that a run's timeline, its lock
  policy, its resume and its failures are what the record says; that verification, shipping,
  pruning and rollback do not touch what they must not; and that the commands ask for consent,
  respect a live lock and report each remote.  Of the scheduler: its cycle check is exact, it
  ends, keeps its budget and its order, and its result depends on no interleaving; of the gateway:
  the scripts see what the registry holds; of the gate: it denies by default.  The lemmas that end a finding give the input on
  which the code and its documentation part.

  \<^bold>\<open>Parameters and hypotheses.\<close>  The target's answers (\<open>env\<close>), the operating system of the
  runners, the machine's files and HTTP client, the console, the clock, the JSON and YAML
  codecs, hash functions, \<open>time.ParseDuration\<close>, the recipes of the frameworks and the sandbox
  remote are arguments of the definitions that use them.  Where a property needs a law of one of
  them (a decoder that inverts the encoder, a target whose files answer with what was written, a
  hash with no collision on the inputs at hand) the law is a named hypothesis, and the witness
  instantiates it with a concrete function.

  \<^bold>\<open>Bounds and termination.\<close>  There is no fuel: every loop is structural recursion or has a
  measure (the length of what is left to parse, the depth of a path, the number of tasks still to
  place).  The loop of the scheduler is a \<open>partial_function (option)\<close>, and that it returns is a
  property of its own.  The capture keeps 256 KiB, \<open>captureLimit\<close>, as in the code; versions and release
  numbers are 64 bits with \<open>strconv\<close>'s range error.  In \<open>Rollback\<close> the spare capacity of a
  slice is an argument, because whether an append copies decides what the caller sees.

  \<^bold>\<open>Not modelled.\<close>  The desktop application, the local environment engine (compose files,
  snapshots, databases), the framework recipes (declarative data and file generators), the audit's
  linters, integrity checks and store, project verification, proxy and certificates, the updater, blueprints and the
  other commands are mostly calls of Docker, Wails or
  the operating system.  Of the sandbox only the mirror refresh, the reuse of assets and the
  build cache are modelled: its lifecycle is Dockerfile text and docker calls.  Inside the
  pipeline, what is printed for the operator, the heartbeat, the deadline of a step that is a Go
  function, signals to process groups and the environment variables of local hooks are left
  out, since no property reads them.
\<close>

end
